(* ===== verification/Prelude.thy ===== *)
theory Prelude
  imports Complex_Main "HOL-Library.AList" "HOL-Library.List_Lexorder" "HOL-Library.Char_ord"
    "HOL-Library.Product_Lexorder" "HOL-Library.Multiset" "HOL-Library.Sublist" "HOL-Library.Word"
begin

text \<open>
  The vocabulary every component shares: the conventions for Python values, the result and
  state-and-exception combinators in which the operations are written, Python's dictionary and
  sorting primitives, and the generic lemmas about them.

  \<^item> A Python \<open>str\<close> is a \<open>string\<close>, one \<open>char\<close> per code point. The four code points beyond
    Latin-1 that the sources put into messages have one-character stand-ins below.
  \<^item> \<open>bytes\<close> is a list of 8-bit words; a finite Python float is a rational number.
  \<^item> A \<open>dict\<close> is an association list in insertion order, written with \<^const>\<open>AList.update\<close>;
    a \<open>frozenset\<close> is the list of its elements in iteration order.
  \<^item> A function that may raise returns \<open>'e + 'a\<close>. One that also mutates takes the state and
    returns the result with the state reached: a raise does not undo earlier mutations.
\<close>

type_synonym bytes = "8 word list"

definition ch_ellipsis :: string where "ch_ellipsis = [CHR 0x85]"
definition ch_emdash :: string where "ch_emdash = [CHR 0x97]"
definition ch_section :: string where "ch_section = [CHR 0xA7]"
definition ch_arrow :: string where "ch_arrow = [CHR 0x81]"

lemma length_ch [simp]: "length ch_ellipsis = 1" "length ch_emdash = 1"
    "length ch_section = 1" "length ch_arrow = 1"
  by (simp_all add: ch_ellipsis_def ch_emdash_def ch_section_def ch_arrow_def)

section \<open>Results\<close>

named_theorems monad_simps

definition bindS :: "'e + 'a \<Rightarrow> ('a \<Rightarrow> 'e + 'b) \<Rightarrow> 'e + 'b" where
  "bindS r f = (case r of Inl e \<Rightarrow> Inl e | Inr x \<Rightarrow> f x)"

text \<open>A list comprehension whose body may raise: it stops at the first exception.\<close>

fun mapE :: "('a \<Rightarrow> 'e + 'b) \<Rightarrow> 'a list \<Rightarrow> 'e + 'b list" where
  "mapE f [] = Inr []"
| "mapE f (x # xs) = bindS (f x) (\<lambda>y. bindS (mapE f xs) (\<lambda>ys. Inr (y # ys)))"

lemma bindS_simps [simp]: "bindS (Inl e) f = Inl e" "bindS (Inr x) f = f x"
  by (simp_all add: bindS_def)

lemma bindS_eq_Inr: "bindS r f = Inr y \<longleftrightarrow> (\<exists>x. r = Inr x \<and> f x = Inr y)"
  by (cases r) auto

lemma bindS_eq_Inl: "bindS r f = Inl e \<longleftrightarrow> r = Inl e \<or> (\<exists>x. r = Inr x \<and> f x = Inl e)"
  by (cases r) auto

lemma bindS_split: "P (bindS r f) \<longleftrightarrow> (\<forall>e. r = Inl e \<longrightarrow> P (Inl e)) \<and> (\<forall>x. r = Inr x \<longrightarrow> P (f x))"
  by (cases r) auto

lemma bindS_cong [fundef_cong]:
  "r = r' \<Longrightarrow> (\<And>x. r' = Inr x \<Longrightarrow> f x = f' x) \<Longrightarrow> bindS r f = bindS r' f'"
  by (cases r') auto

lemma mapE_Inr: "(\<And>x. x \<in> set xs \<Longrightarrow> f x = Inr (g x)) \<Longrightarrow> mapE f xs = Inr (map g xs)"
  by (induction xs) auto

lemma mapE_eq_Inr_iff: "mapE f xs = Inr ys \<longleftrightarrow> list_all2 (\<lambda>x y. f x = Inr y) xs ys"
  by (induction xs arbitrary: ys) (auto simp: bindS_eq_Inr list_all2_Cons1)

lemma mapE_eq_Inl: "x \<in> set xs \<Longrightarrow> f x = Inl e \<Longrightarrow> \<exists>e'. mapE f xs = Inl e'"
  by (induction xs) (auto simp: bindS_def split: sum.splits)

lemma mapE_cong [fundef_cong]:
  "xs = ys \<Longrightarrow> (\<And>x. x \<in> set ys \<Longrightarrow> f x = g x) \<Longrightarrow> mapE f xs = mapE g ys"
  by (induction xs arbitrary: ys) (auto intro!: bindS_cong)

section \<open>State and exceptions\<close>

type_synonym ('s, 'e, 'a) st = "'s \<Rightarrow> ('e + 'a) \<times> 's"

definition ret :: "'a \<Rightarrow> ('s, 'e, 'a) st" where
  "ret x s = (Inr x, s)"

definition raise :: "'e \<Rightarrow> ('s, 'e, 'a) st" where
  "raise e s = (Inl e, s)"

definition bindE :: "('s, 'e, 'a) st \<Rightarrow> ('a \<Rightarrow> ('s, 'e, 'b) st) \<Rightarrow> ('s, 'e, 'b) st" where
  "bindE m f s = (case m s of (Inl e, s') \<Rightarrow> (Inl e, s') | (Inr x, s') \<Rightarrow> f x s')"

definition modify :: "('s \<Rightarrow> 's) \<Rightarrow> ('s, 'e, unit) st" where
  "modify f s = (Inr (), f s)"

text \<open>Reading the state with a read that may itself raise.\<close>

definition reads :: "('s \<Rightarrow> 'e + 'a) \<Rightarrow> ('s, 'e, 'a) st" where
  "reads f s = (f s, s)"

definition gets :: "('s \<Rightarrow> 'a) \<Rightarrow> ('s, 'e, 'a) st" where
  "gets f s = (Inr (f s), s)"

fun mapM :: "('a \<Rightarrow> ('s, 'e, 'b) st) \<Rightarrow> 'a list \<Rightarrow> ('s, 'e, 'b list) st" where
  "mapM f [] = ret []"
| "mapM f (x # xs) = bindE (f x) (\<lambda>y. bindE (mapM f xs) (\<lambda>ys. ret (y # ys)))"

lemma ret_eq [monad_simps]: "ret x s = (Inr x, s)" by (simp add: ret_def)
lemma raise_eq [monad_simps]: "raise e s = (Inl e, s)" by (simp add: raise_def)
lemma modify_eq [monad_simps]: "modify f s = (Inr (), f s)" by (simp add: modify_def)
lemma reads_eq [monad_simps]: "reads f s = (f s, s)" by (simp add: reads_def)
lemma gets_eq [monad_simps]: "gets f s = (Inr (f s), s)" by (simp add: gets_def)

lemma bindE_Inr [monad_simps]: "m s = (Inr x, s') \<Longrightarrow> bindE m f s = f x s'"
  by (simp add: bindE_def)

lemma bindE_Inl [monad_simps]: "m s = (Inl e, s') \<Longrightarrow> bindE m f s = (Inl e, s')"
  by (simp add: bindE_def)

lemma bindE_cong [fundef_cong]:
  "m = m' \<Longrightarrow> (\<And>x. f x = f' x) \<Longrightarrow> bindE m f = bindE m' f'"
  by (simp add: bindE_def fun_eq_iff split: prod.split sum.split)

text \<open>\<open>try: m except: h\<close>: the handler runs in the state the failed body left.\<close>

definition try_catch :: "('s, 'e, 'a) st \<Rightarrow> ('e \<Rightarrow> ('s, 'e, 'a) st) \<Rightarrow> ('s, 'e, 'a) st" where
  "try_catch m h s = (case m s of (Inl e, s') \<Rightarrow> h e s' | (Inr x, s') \<Rightarrow> (Inr x, s'))"

text \<open>The body with its exception as a value, for a handler chosen by what was raised.\<close>

definition attempt :: "('s, 'e, 'a) st \<Rightarrow> ('s, 'e, 'e + 'a) st" where
  "attempt m s = (case m s of (r, s') \<Rightarrow> (Inr r, s'))"

lemma attempt_eq: "m s = (r, s') \<Longrightarrow> attempt m s = (Inr r, s')"
  by (simp add: attempt_def)

lemma attempt_ok: "attempt m s = (r, s') \<longleftrightarrow> (\<exists>x. m s = (x, s') \<and> r = Inr x)"
  by (auto simp: attempt_def split: prod.splits)

lemma attempt_Inr: "fst (attempt m s) = Inr (fst (m s))"
  by (simp add: attempt_def split: prod.split)

lemma bindE_ok:
  "bindE m f s = (Inr y, s'') \<longleftrightarrow> (\<exists>x s'. m s = (Inr x, s') \<and> f x s' = (Inr y, s''))"
  by (auto simp: bindE_def split: prod.splits sum.splits)

lemma bindE_err:
  "bindE m f s = (Inl e, s'') \<longleftrightarrow>
     m s = (Inl e, s'') \<or> (\<exists>x s'. m s = (Inr x, s') \<and> f x s' = (Inl e, s''))"
  by (auto simp: bindE_def split: prod.splits sum.splits)

text \<open>
  \<open>keeps P m\<close>: every run of \<open>m\<close>, whether it returns or raises, takes states satisfying \<open>P\<close>
  to states satisfying \<open>P\<close>. Invariants of the operations are stated with it, and the rules
  below follow the combinators.
\<close>

definition keeps :: "('s \<Rightarrow> bool) \<Rightarrow> ('s, 'e, 'a) st \<Rightarrow> bool" where
  "keeps P m \<longleftrightarrow> (\<forall>s. P s \<longrightarrow> P (snd (m s)))"

named_theorems keeps_intros

lemma keepsI: "(\<And>s. P s \<Longrightarrow> P (snd (m s))) \<Longrightarrow> keeps P m"
  by (simp add: keeps_def)

lemma keepsD: "keeps P m \<Longrightarrow> P s \<Longrightarrow> m s = (r, s') \<Longrightarrow> P s'"
  by (metis keeps_def snd_conv)

lemma keeps_ret [keeps_intros]: "keeps P (ret x)" by (simp add: keeps_def ret_def)
lemma keeps_raise [keeps_intros]: "keeps P (raise e)" by (simp add: keeps_def raise_def)
lemma keeps_reads [keeps_intros]: "keeps P (reads f)" by (simp add: keeps_def reads_def)
lemma keeps_gets [keeps_intros]: "keeps P (gets f)" by (simp add: keeps_def gets_def)
lemma keeps_modify: "(\<And>s. P s \<Longrightarrow> P (f s)) \<Longrightarrow> keeps P (modify f)"
  by (simp add: keeps_def modify_def)

lemma keeps_bindE [keeps_intros]:
  "keeps P m \<Longrightarrow> (\<And>x. keeps P (f x)) \<Longrightarrow> keeps P (bindE m f)"
  by (fastforce simp: keeps_def bindE_def split: prod.splits sum.splits)

lemma keeps_bindE_res:
  assumes "keeps P m" "\<And>s x s'. m s = (Inr x, s') \<Longrightarrow> R x" "\<And>x. R x \<Longrightarrow> keeps P (f x)"
  shows "keeps P (bindE m f)"
proof (rule keepsI)
  fix s assume P: "P s"
  obtain r s' where m: "m s = (r, s')" by (cases "m s")
  with P assms(1) have P': "P s'" by (blast dest: keepsD)
  show "P (snd (bindE m f s))"
    using m P' assms(2,3) by (cases r) (auto simp: bindE_def keeps_def)
qed

lemma keeps_mapM [keeps_intros]: "(\<And>x. keeps P (f x)) \<Longrightarrow> keeps P (mapM f xs)"
  by (induction xs) (auto intro!: keeps_intros)

lemma keeps_attempt [keeps_intros]: "keeps P m \<Longrightarrow> keeps P (attempt m)"
  by (auto simp: keeps_def attempt_def split: prod.splits)

lemma keeps_try_catch [keeps_intros]:
  "keeps P m \<Longrightarrow> (\<And>e. keeps P (h e)) \<Longrightarrow> keeps P (try_catch m h)"
  by (fastforce simp: keeps_def try_catch_def split: prod.splits sum.splits)

lemma keeps_sum [keeps_intros]:
  "(\<And>e. x = Inl e \<Longrightarrow> keeps P (f e)) \<Longrightarrow> (\<And>y. x = Inr y \<Longrightarrow> keeps P (g y)) \<Longrightarrow>
   keeps P (case x of Inl e \<Rightarrow> f e | Inr y \<Rightarrow> g y)"
  by (cases x) auto

lemma keeps_if [keeps_intros]:
  "(b \<Longrightarrow> keeps P m) \<Longrightarrow> (\<not> b \<Longrightarrow> keeps P m') \<Longrightarrow> keeps P (if b then m else m')"
  by simp

lemma keeps_option [keeps_intros]:
  "(x = None \<Longrightarrow> keeps P m) \<Longrightarrow> (\<And>y. x = Some y \<Longrightarrow> keeps P (f y)) \<Longrightarrow>
   keeps P (case x of None \<Rightarrow> m | Some y \<Rightarrow> f y)"
  by (cases x) auto

lemma mapM_cong [fundef_cong]:
  "xs = ys \<Longrightarrow> (\<And>x. x \<in> set ys \<Longrightarrow> f x = g x) \<Longrightarrow> mapM f xs = mapM g ys"
  by (induction xs arbitrary: ys) auto

lemma keeps_mapM_set: "(\<And>x. x \<in> set xs \<Longrightarrow> keeps P (f x)) \<Longrightarrow> keeps P (mapM f xs)"
  by (induction xs) (auto intro!: keeps_intros)

section \<open>Dictionaries and sorting\<close>

abbreviation dict_put :: "'k \<Rightarrow> 'v \<Rightarrow> ('k \<times> 'v) list \<Rightarrow> ('k \<times> 'v) list" where
  "dict_put \<equiv> AList.update"

lemma dict_put_fresh: "k \<notin> fst ` set d \<Longrightarrow> dict_put k v d = d @ [(k, v)]"
  by (induction d) auto

lemma map_of_dict_put [simp]: "map_of (dict_put k v d) = (map_of d)(k \<mapsto> v)"
  by (simp add: update_conv')

lemma distinct_dict_put [simp]: "distinct (map fst d) \<Longrightarrow> distinct (map fst (dict_put k v d))"
  by (simp add: distinct_update)

lemma dict_puts_map_of:
  "map_of (fold (\<lambda>(k, v). dict_put k v) ps d) = map_of d ++ map_of (rev ps)"
  by (induction ps arbitrary: d) (auto simp: map_add_upd)

lemma map_of_rev_distinct: "distinct (map fst ps) \<Longrightarrow> map_of (rev ps) = map_of ps"
proof (induction ps)
  case (Cons p ps)
  then have "fst p \<notin> dom (map_of ps)" by (simp add: dom_map_of_conv_image_fst)
  then show ?case using Cons by (cases p) (auto simp: map_add_def fun_eq_iff split: option.splits)
qed simp

text \<open>
  \<open>sort(key = f, reverse = True)\<close> is stable like the ascending sort: equal keys keep their
  order. \<^const>\<open>sort_key\<close> is the stable ascending sort.
\<close>

definition sort_desc_key :: "('a \<Rightarrow> 'k::linorder) \<Rightarrow> 'a list \<Rightarrow> 'a list" where
  "sort_desc_key f xs = rev (sort_key f (rev xs))"

lemma set_sort_desc_key [simp]: "set (sort_desc_key f xs) = set xs"
  by (simp add: sort_desc_key_def)

lemma length_sort_desc_key [simp]: "length (sort_desc_key f xs) = length xs"
  by (simp add: sort_desc_key_def)

lemma mset_sort_desc_key [simp]: "mset (sort_desc_key f xs) = mset xs"
  by (simp add: sort_desc_key_def)

lemma distinct_sort_desc_key [simp]: "distinct (sort_desc_key f xs) = distinct xs"
  by (simp add: sort_desc_key_def)

lemma sorted_sort_desc_key: "sorted_wrt (\<lambda>x y. f y \<le> f x) (sort_desc_key f xs)"
proof -
  have "sorted_wrt (\<lambda>x y. f x \<le> f y) (sort_key f (rev xs))"
    using sorted_sort_key [of f "rev xs"] by (simp add: sorted_map)
  then show ?thesis by (simp add: sort_desc_key_def sorted_wrt_rev)
qed

lemma find_Some_in: "List.find P xs = Some x \<Longrightarrow> x \<in> set xs \<and> P x"
  by (auto simp: find_Some_iff)

lemma sort_key_Nil_iff [simp]: "sort_key f xs = [] \<longleftrightarrow> xs = []"
  by (metis length_0_conv length_sort)

lemma find_key_unique:
  "distinct (map f xs) \<Longrightarrow> x \<in> set xs \<Longrightarrow> List.find (\<lambda>y. f y = f x) xs = Some x"
  by (induction xs) auto

lemma find_None_filter: "List.find P xs = None \<longleftrightarrow> filter P xs = []"
  by (induction xs) auto

lemma list_all2_setD1: "list_all2 R xs ys \<Longrightarrow> x \<in> set xs \<Longrightarrow> \<exists>y \<in> set ys. R x y"
  by (metis in_set_conv_nth list_all2_conv_all_nth)

lemma list_all2_setD2: "list_all2 R xs ys \<Longrightarrow> y \<in> set ys \<Longrightarrow> \<exists>x \<in> set xs. R x y"
  by (metis in_set_conv_nth list_all2_conv_all_nth)

text \<open>\<open>xs[:i]\<close>: a negative bound counts from the end.\<close>

definition py_prefix :: "int \<Rightarrow> 'a list \<Rightarrow> 'a list" where
  "py_prefix i xs = (if 0 \<le> i then take (nat i) xs else take (nat (int (length xs) + i)) xs)"

lemma py_prefix_nonneg: "0 \<le> i \<Longrightarrow> py_prefix i xs = take (nat i) xs"
  by (simp add: py_prefix_def)

lemma set_py_prefix: "set (py_prefix i xs) \<subseteq> set xs"
  by (auto simp: py_prefix_def dest: in_set_takeD)

lemma py_prefix_append: "\<exists>zs. xs = py_prefix i xs @ zs"
  by (metis append_take_drop_id py_prefix_def)

text \<open>Two stable sorts in sequence order by the second key, ties by the first.\<close>

lemma sorted_wrt_sort_key_stable:
  assumes "sorted_wrt R xs"
  shows "sorted_wrt (\<lambda>x y. f x < f y \<or> f x = f y \<and> R x y) (sort_key f xs)"
proof -
  have ins: "sorted_wrt (\<lambda>x y. f x < f y \<or> f x = f y \<and> R x y) ys \<Longrightarrow> (\<forall>y \<in> set ys. R x y) \<Longrightarrow>
    sorted_wrt (\<lambda>x y. f x < f y \<or> f x = f y \<and> R x y) (insort_key f x ys)" for x ys
    by (induction ys) (auto simp: set_insort_key)
  show ?thesis using assms by (induction xs) (auto intro!: ins)
qed

section \<open>Rendering\<close>

text \<open>\<open>sep.join(xs)\<close>, decimal numerals, and \<open>repr\<close> of a string.\<close>

fun join :: "string \<Rightarrow> string list \<Rightarrow> string" where
  "join sep [] = ''''"
| "join sep [x] = x"
| "join sep (x # y # zs) = x @ sep @ join sep (y # zs)"

definition nl :: string where
  "nl = [CHR 0x0A]"

text \<open>\<open>f"{s:<w}"\<close>.\<close>

definition ljust :: "nat \<Rightarrow> string \<Rightarrow> string" where
  "ljust w s = s @ replicate (w - length s) (CHR '' '')"

lemma length_ljust [simp]: "length (ljust w s) = max w (length s)"
  by (simp add: ljust_def)

lemma length_nl [simp]: "length nl = 1"
  by (simp add: nl_def)

lemma length_join: "length (join sep xs) \<le> (\<Sum>x\<leftarrow>xs. length x + length sep)"
  by (induction sep xs rule: join.induct) auto

lemma length_join_le:
  assumes "\<And>x. x \<in> set xs \<Longrightarrow> length x + length sep \<le> b" "length xs \<le> n"
  shows "length (join sep xs) \<le> n * b"
proof -
  have "(\<Sum>x\<leftarrow>xs. length x + length sep) \<le> (\<Sum>x\<leftarrow>xs. b)"
    by (rule sum_list_mono) (use assms(1) in auto)
  also have "\<dots> \<le> n * b" using assms(2) by (simp add: sum_list_triv)
  finally show ?thesis using length_join [of sep xs] by linarith
qed

fun nat_str :: "nat \<Rightarrow> string" where
  "nat_str n = (if n < 10 then [char_of (48 + n)] else nat_str (n div 10) @ [char_of (48 + n mod 10)])"

declare nat_str.simps [simp del]

definition int_str :: "int \<Rightarrow> string" where
  "int_str i = (if i < 0 then ''-'' @ nat_str (nat (- i)) else nat_str (nat i))"

definition hex_digit :: "nat \<Rightarrow> char" where
  "hex_digit n = (if n < 10 then char_of (48 + n) else char_of (87 + n))"

fun repr_char :: "char \<Rightarrow> char \<Rightarrow> string" where
  "repr_char q c =
     (if c = CHR 0x5C \<or> c = q then [CHR 0x5C, c]
      else if c = CHR 0x0A then [CHR 0x5C, CHR ''n'']
      else if c = CHR 0x0D then [CHR 0x5C, CHR ''r'']
      else if c = CHR 0x09 then [CHR 0x5C, CHR ''t'']
      else if of_char c < (32::nat) \<or> of_char c = (127::nat)
        then [CHR 0x5C, CHR ''x'', hex_digit (of_char c div 16), hex_digit (of_char c mod 16)]
      else [c])"

definition py_repr :: "string \<Rightarrow> string" where
  "py_repr s = (let q = (if CHR 0x27 \<in> set s \<and> CHR 0x22 \<notin> set s then CHR 0x22 else CHR 0x27)
                in [q] @ concat (map (repr_char q) s) @ [q])"

text \<open>Code points, UTF-8, and the string methods \<open>strip\<close> and \<open>lower\<close>.\<close>

definition code_point :: "char \<Rightarrow> nat" where
  "code_point c = (if c = CHR 0x85 then 0x2026 else if c = CHR 0x97 then 0x2014
     else if c = CHR 0x81 then 0x2192 else of_char c)"

definition utf8_char :: "char \<Rightarrow> bytes" where
  "utf8_char c = (let n = code_point c in
     if n < 128 then [word_of_nat n]
     else if n < 2048 then [word_of_nat (192 + n div 64), word_of_nat (128 + n mod 64)]
     else [word_of_nat (224 + n div 4096), word_of_nat (128 + n div 64 mod 64),
           word_of_nat (128 + n mod 64)])"

definition utf8 :: "string \<Rightarrow> bytes" where
  "utf8 s = concat (map utf8_char s)"

definition is_space :: "char \<Rightarrow> bool" where
  "is_space c = (let n = (of_char c :: nat) in
     9 \<le> n \<and> n \<le> 13 \<or> 28 \<le> n \<and> n \<le> 32 \<or> n = 160)"

definition strip :: "string \<Rightarrow> string" where
  "strip s = rev (dropWhile is_space (rev (dropWhile is_space s)))"

definition lower_char :: "char \<Rightarrow> char" where
  "lower_char c = (let n = (of_char c :: nat) in
     if 65 \<le> n \<and> n \<le> 90 \<or> 192 \<le> n \<and> n \<le> 222 \<and> n \<noteq> 215 then char_of (n + 32) else c)"

definition lower :: "string \<Rightarrow> string" where
  "lower s = map lower_char s"

lemma length_strip: "length (strip s) \<le> length s"
proof -
  have "length (strip s) \<le> length (rev (dropWhile is_space s))"
    unfolding strip_def length_rev by (metis length_dropWhile_le length_rev)
  also have "\<dots> \<le> length s" by (simp add: length_dropWhile_le)
  finally show ?thesis .
qed

text \<open>\<open>f"{n:02d}"\<close> for a natural number and \<open>f"{x:.4f}"\<close> (round half to even, sign kept).\<close>

definition pad2 :: "nat \<Rightarrow> string" where
  "pad2 n = (if n < 10 then ''0'' @ nat_str n else nat_str n)"

definition round_half_even :: "rat \<Rightarrow> int" where
  "round_half_even x = (let f = \<lfloor>x\<rfloor>; d = x - of_int f in
     if d < 1/2 then f else if 1/2 < d then f + 1 else if even f then f else f + 1)"

definition fmt4 :: "rat \<Rightarrow> string" where
  "fmt4 x = (let n = nat (round_half_even (\<bar>x\<bar> * 10000)); fr = nat_str (n mod 10000) in
     (if x < 0 then ''-'' else '''') @ nat_str (n div 10000) @ ''.'' @
     replicate (4 - length fr) (CHR ''0'') @ fr)"

text \<open>\<open>int(s)\<close> on a string: surrounding blanks, a sign, digits with single underscores between
  them.\<close>

definition is_digit :: "char \<Rightarrow> bool" where
  "is_digit c = (48 \<le> (of_char c :: nat) \<and> (of_char c :: nat) \<le> 57)"

fun parse_digits :: "nat \<Rightarrow> string \<Rightarrow> nat option" where
  "parse_digits acc [] = Some acc"
| "parse_digits acc (c # cs) =
     (if is_digit c then parse_digits (acc * 10 + (of_char c - 48)) cs
      else case cs of
        d # ds \<Rightarrow> if c = CHR ''_'' \<and> is_digit d then parse_digits (acc * 10 + (of_char d - 48)) ds
                  else None
      | [] \<Rightarrow> None)"

definition parse_nat :: "string \<Rightarrow> nat option" where
  "parse_nat s = (case s of [] \<Rightarrow> None | c # cs \<Rightarrow> if is_digit c then parse_digits 0 s else None)"

definition parse_int :: "string \<Rightarrow> int option" where
  "parse_int s = (case strip s of
      [] \<Rightarrow> None
    | c # cs \<Rightarrow> if c = CHR ''-'' then map_option (\<lambda>n. - int n) (parse_nat cs)
                else if c = CHR ''+'' then map_option int (parse_nat cs)
                else map_option int (parse_nat (c # cs)))"

text \<open>Decimal numerals are digits only, so a numeral and what follows a \<open>-\<close> can be told apart.\<close>

lemma nat_str_digits: "c \<in> set (nat_str n) \<Longrightarrow> is_digit c"
proof (induction n rule: nat_str.induct)
  case (1 n)
  show ?case
  proof (cases "n < 10")
    case True
    then show ?thesis using "1.prems" by (simp add: nat_str.simps [of n] is_digit_def of_char_of)
  next
    case False
    then show ?thesis
      using "1.prems" "1.IH" by (auto simp: nat_str.simps [of n] is_digit_def of_char_of)
  qed
qed

lemma nat_str_nonempty: "nat_str n \<noteq> []"
  by (subst nat_str.simps) simp

lemma parse_digits_snoc:
  "\<forall>c \<in> set s. is_digit c \<Longrightarrow> parse_digits acc (s @ [char_of (48 + d)]) =
     map_option (\<lambda>n. n * 10 + d) (parse_digits acc s)" if "d < 10" for d :: nat
  using that by (induction s arbitrary: acc) (auto simp: is_digit_def of_char_of)

lemma parse_nat_str: "parse_digits 0 (nat_str n) = Some n"
proof (induction n rule: nat_str.induct)
  case (1 n)
  show ?case
  proof (cases "n < 10")
    case True
    then show ?thesis by (simp add: nat_str.simps [of n] is_digit_def of_char_of)
  next
    case False
    then have "parse_digits 0 (nat_str n) = map_option (\<lambda>m. m * 10 + n mod 10) (parse_digits 0 (nat_str (n div 10)))"
      using parse_digits_snoc [of "n mod 10" "nat_str (n div 10)" 0] nat_str_digits
      by (simp add: nat_str.simps [of n])
    then show ?thesis using False "1.IH" by simp
  qed
qed

lemma nat_str_inj: "nat_str m = nat_str n \<Longrightarrow> m = n"
  by (metis option.inject parse_nat_str)

lemma parse_int_nat_str: "parse_int (int_str i) = Some i"
proof -
  have st: "strip s = s" if "s \<noteq> []" "\<not> is_space (hd s)" "\<not> is_space (last s)" for s
  proof -
    have "dropWhile is_space s = s" using that by (simp add: dropWhile_eq_self_iff)
    moreover have "dropWhile is_space (rev s) = rev s"
      using that by (simp add: dropWhile_eq_self_iff hd_rev)
    ultimately show ?thesis by (simp add: strip_def)
  qed
  have dg: "\<not> is_space c \<and> c \<noteq> CHR ''-'' \<and> c \<noteq> CHR ''+''" if "is_digit c" for c
    using that by (auto simp: is_digit_def is_space_def Let_def)
  have d: "\<forall>c \<in> set (nat_str n). is_digit c" for n using nat_str_digits by blast
  have p: "parse_nat (nat_str n) = Some n" for n
    using parse_nat_str [of n] d [of n] nat_str_nonempty [of n]
    by (cases "nat_str n") (simp_all add: parse_nat_def)
  show ?thesis
  proof (cases "i < 0")
    case True
    have "strip (''-'' @ nat_str (nat (- i))) = ''-'' @ nat_str (nat (- i))"
      using d [of "nat (- i)"] nat_str_nonempty [of "nat (- i)"] dg
      by (intro st) (auto simp: is_space_def Let_def)
    then show ?thesis using True p by (simp add: parse_int_def int_str_def)
  next
    case False
    have "strip (nat_str (nat i)) = nat_str (nat i)"
      using d [of "nat i"] nat_str_nonempty [of "nat i"] dg
      by (intro st) auto
    moreover obtain c cs where "nat_str (nat i) = c # cs" "is_digit c"
      using d [of "nat i"] nat_str_nonempty [of "nat i"] by (cases "nat_str (nat i)") auto
    ultimately show ?thesis using False p [of "nat i"] dg by (auto simp: parse_int_def int_str_def)
  qed
qed

end
