(* ===== verification/Model.thy ===== *)
theory Model
  imports Prelude
begin

text \<open>
  The value model that crosses service boundaries (\<open>contracts/model.py\<close>), the JSON values it
  carries, and the exceptions the modelled code raises. Dataclasses are records, enums are
  datatypes with their string values, and an exception is its class with the data its message is
  built from.
\<close>

section \<open>Enumerations\<close>

datatype artifact_status = PROPOSED | TENTATIVE | ACCEPTED | REJECTED | SUPERSEDED | REVISED

datatype operation_status = SUCCESS | FAILED | RETRIED

datatype verdict_kind = ACCEPT | REJECT | REFINE

fun status_value :: "artifact_status \<Rightarrow> string" where
  "status_value PROPOSED = ''proposed''"
| "status_value TENTATIVE = ''tentative''"
| "status_value ACCEPTED = ''accepted''"
| "status_value REJECTED = ''rejected''"
| "status_value SUPERSEDED = ''superseded''"
| "status_value REVISED = ''revised''"

fun op_status_value :: "operation_status \<Rightarrow> string" where
  "op_status_value SUCCESS = ''success''"
| "op_status_value FAILED = ''failed''"
| "op_status_value RETRIED = ''retried''"

fun verdict_value :: "verdict_kind \<Rightarrow> string" where
  "verdict_value ACCEPT = ''accept''"
| "verdict_value REJECT = ''reject''"
| "verdict_value REFINE = ''refine''"

definition all_statuses :: "artifact_status list" where
  "all_statuses = [PROPOSED, TENTATIVE, ACCEPTED, REJECTED, SUPERSEDED, REVISED]"

lemma all_statuses_complete: "s \<in> set all_statuses"
  by (cases s) (simp_all add: all_statuses_def)

section \<open>JSON values, object references and payloads\<close>

datatype json =
    JNull
  | JBool bool
  | JInt int
  | JFloat rat
  | JStr string
  | JList "json list"
  | JObj "(string \<times> json) list"

record object_ref =
  blob_ref :: string
  content_hash :: string

datatype payload = PJson json | PRef object_ref

section \<open>Artifacts, operations, verdicts\<close>

record 'p artifact_of =
  art_id :: string
  art_type :: string
  art_payload :: 'p
  art_status :: artifact_status
  created_by :: string
  created_at :: string
  superseded_by :: "string option"
  revised_by :: "string option"
  is_root :: bool
  objects :: "(string \<times> object_ref) list"

type_synonym artifact = "payload artifact_of"

record operation =
  op_id :: string
  op_name :: string
  parents :: "string list"
  output_id :: string
  op_status :: operation_status
  op_created_at :: string

record gate_verdict =
  gv_kind :: verdict_kind
  gv_rationale :: string
  gv_defects :: "string list option"
  gv_score :: "rat option"
  gv_supersedes :: "string option"

record gate_decision =
  gd_gate :: string
  gd_kind :: verdict_kind
  gd_rationale :: string
  gd_defects :: "string list option"
  gd_score :: "rat option"

record verdict_bundle =
  vb_status :: artifact_status
  vb_decisions :: "gate_decision list"
  vb_supersedes :: "string option"

section \<open>Exceptions\<close>

text \<open>
  One constructor per exception class. \<open>CommitError\<close> has the three subclasses
  \<open>NoImplicitAccept\<close>, \<open>ProposerIsGate\<close> and \<open>BundleInconsistent\<close>; no handler of the modelled code
  names any of the four. \<open>SandboxError\<close> carries its transcript and telemetry bytes.
\<close>

datatype exc =
    StoreError string
  | CommitError string
  | NoImplicitAccept string
  | ProposerIsGate string
  | BundleInconsistent string
  | IllegalTransition artifact_status artifact_status
  | IndependenceViolation string
  | RegistryError string
  | ProviderError string
  | WorkspaceError string
  | UnknownTask string
  | OrchestrationError string
  | GateUnavailable string
  | VerifierError string
  | SandboxError string "bytes option" "bytes option"
  | WireError string
  | IntegrityError string
  | KeyError string
  | ValueError string
  | TypeError string
  | AttributeError string
  | TransportError string
  | TransportUnavailable string
  | ProvisioningError string
  | OtherError string

text \<open>\<open>str(exc)\<close>.\<close>

fun exc_str :: "exc \<Rightarrow> string" where
  "exc_str (StoreError m) = m"
| "exc_str (CommitError m) = m"
| "exc_str (NoImplicitAccept t) =
     ''type '' @ py_repr t @ '' is not covered by a gate: committing it is an error, not a '' @
     ''default-accept (no implicit accept, '' @ ch_section @ ''5.7)''"
| "exc_str (ProposerIsGate i) =
     ''the verifier'' @ [CHR 0x27] @ ''s identity equals the proposer'' @ [CHR 0x27] @ ''s ('' @
     py_repr i @ ''): the proposer is never its own gate ('' @ ch_section @ ''6, '' @
     ch_section @ ''7.2)''"
| "exc_str (BundleInconsistent m) = m"
| "exc_str (IllegalTransition f t) =
     ''illegal lifecycle transition: '' @ status_value f @ '' '' @ ch_arrow @ '' '' @ status_value t"
| "exc_str (IndependenceViolation m) = m"
| "exc_str (RegistryError m) = m"
| "exc_str (ProviderError m) = m"
| "exc_str (WorkspaceError m) = m"
| "exc_str (UnknownTask m) = m"
| "exc_str (OrchestrationError m) = m"
| "exc_str (GateUnavailable m) = m"
| "exc_str (VerifierError m) = m"
| "exc_str (SandboxError m tr te) = m"
| "exc_str (WireError m) = m"
| "exc_str (IntegrityError m) = m"
| "exc_str (KeyError m) = py_repr m"
| "exc_str (ValueError m) = m"
| "exc_str (TypeError m) = m"
| "exc_str (AttributeError m) = m"
| "exc_str (TransportError m) = m"
| "exc_str (TransportUnavailable m) = m"
| "exc_str (ProvisioningError m) = m"
| "exc_str (OtherError m) = m"

text \<open>What the handlers ask of an exception: \<open>except StoreError\<close>, \<open>except GateUnavailable\<close>,
  \<open>except SandboxError\<close>, the last with the transcript and telemetry it carries.\<close>

definition is_store_error :: "exc \<Rightarrow> bool" where
  "is_store_error e = (case e of StoreError _ \<Rightarrow> True | _ \<Rightarrow> False)"

definition is_gate_unavailable :: "exc \<Rightarrow> bool" where
  "is_gate_unavailable e = (case e of GateUnavailable _ \<Rightarrow> True | _ \<Rightarrow> False)"

definition sandbox_salvage :: "exc \<Rightarrow> (bytes option \<times> bytes option) option" where
  "sandbox_salvage e = (case e of SandboxError _ transcript telemetry \<Rightarrow> Some (transcript, telemetry) | _ \<Rightarrow> None)"

text \<open>Enum lookup by value, \<open>ArtifactStatus(raw)\<close>: a \<open>ValueError\<close> on an unknown value.\<close>

definition status_of :: "string \<Rightarrow> exc + artifact_status" where
  "status_of v = (case List.find (\<lambda>s. status_value s = v) all_statuses of
      Some s \<Rightarrow> Inr s
    | None \<Rightarrow> Inl (ValueError (py_repr v @ '' is not a valid ArtifactStatus'')))"

definition op_status_of :: "string \<Rightarrow> exc + operation_status" where
  "op_status_of v = (case List.find (\<lambda>s. op_status_value s = v) [SUCCESS, FAILED, RETRIED] of
      Some s \<Rightarrow> Inr s
    | None \<Rightarrow> Inl (ValueError (py_repr v @ '' is not a valid OperationStatus'')))"

definition verdict_of :: "string \<Rightarrow> exc + verdict_kind" where
  "verdict_of v = (case List.find (\<lambda>s. verdict_value s = v) [ACCEPT, REJECT, REFINE] of
      Some s \<Rightarrow> Inr s
    | None \<Rightarrow> Inl (ValueError (py_repr v @ '' is not a valid VerdictKind'')))"

lemma status_of_value [simp]: "status_of (status_value s) = Inr s"
  by (cases s) (simp_all add: status_of_def all_statuses_def)

lemma op_status_of_value [simp]: "op_status_of (op_status_value s) = Inr s"
  by (cases s) (simp_all add: op_status_of_def)

lemma verdict_of_value [simp]: "verdict_of (verdict_value s) = Inr s"
  by (cases s) (simp_all add: verdict_of_def)

lemma status_value_inj [simp]: "status_value s = status_value t \<longleftrightarrow> s = t"
  by (cases s; cases t) simp_all

section \<open>Reading JSON\<close>

text \<open>
  \<open>d["k"]\<close> and \<open>d.get("k")\<close> on a decoded JSON value: a missing key of an object is a
  \<open>KeyError\<close>, subscripting anything else a \<open>TypeError\<close>, asking it for \<open>get\<close> an \<open>AttributeError\<close>. The dataclasses do not check their
  annotations; the model does where it leaves JSON, so a value of another type is a \<open>TypeError\<close>.
\<close>

definition json_get :: "json \<Rightarrow> string \<Rightarrow> exc + json" where
  "json_get j k = (case j of
      JObj kvs \<Rightarrow> (case map_of kvs k of Some v \<Rightarrow> Inr v | None \<Rightarrow> Inl (KeyError k))
    | _ \<Rightarrow> Inl (TypeError ''value is not subscriptable by a string''))"

definition json_get_or :: "json \<Rightarrow> json \<Rightarrow> string \<Rightarrow> exc + json" where
  "json_get_or dflt j k = (case j of
      JObj kvs \<Rightarrow> (case map_of kvs k of Some v \<Rightarrow> Inr v | None \<Rightarrow> Inr dflt)
    | _ \<Rightarrow> Inl (AttributeError ''value has no attribute get''))"

definition as_str :: "json \<Rightarrow> exc + string" where
  "as_str j = (case j of JStr s \<Rightarrow> Inr s | _ \<Rightarrow> Inl (TypeError ''expected a string''))"

definition as_bool :: "json \<Rightarrow> exc + bool" where
  "as_bool j = (case j of JBool b \<Rightarrow> Inr b | _ \<Rightarrow> Inl (TypeError ''expected a boolean''))"

definition as_list :: "json \<Rightarrow> exc + json list" where
  "as_list j = (case j of JList xs \<Rightarrow> Inr xs | _ \<Rightarrow> Inl (TypeError ''expected a list''))"

definition as_obj :: "json \<Rightarrow> exc + (string \<times> json) list" where
  "as_obj j = (case j of JObj kvs \<Rightarrow> Inr kvs | _ \<Rightarrow> Inl (TypeError ''expected an object''))"

definition as_opt :: "(json \<Rightarrow> exc + 'a) \<Rightarrow> json \<Rightarrow> exc + 'a option" where
  "as_opt f j = (case j of JNull \<Rightarrow> Inr None | _ \<Rightarrow> bindS (f j) (\<lambda>x. Inr (Some x)))"

definition as_num :: "json \<Rightarrow> exc + rat" where
  "as_num j = (case j of JFloat r \<Rightarrow> Inr r | JInt i \<Rightarrow> Inr (of_int i)
    | _ \<Rightarrow> Inl (TypeError ''expected a number''))"

lemmas json_defs = json_get_def json_get_or_def as_str_def as_bool_def as_list_def as_obj_def
  as_opt_def as_num_def

text \<open>The tag that marks an \<open>ObjectRef\<close> inside a JSON payload (\<open>wire.OBJECT_REF_MARKER\<close>).\<close>

definition OBJECT_REF_MARKER :: string where
  "OBJECT_REF_MARKER = ''__object_ref__''"

end
