(* ===== verification/Lifecycle.thy ===== *)
theory Lifecycle
  imports Model
begin

text \<open>
  The lifecycle state machine of \<open>control_plane/lifecycle.py\<close>: the table of legal transitions, its
  check, and the transition system it spans. Every status write of the commit path is guarded by
  \<open>assert_transition\<close>.
\<close>

definition LEGAL_TRANSITIONS :: "artifact_status \<Rightarrow> artifact_status list" where
  "LEGAL_TRANSITIONS s = (case s of
      PROPOSED \<Rightarrow> [TENTATIVE, ACCEPTED, REJECTED, REVISED]
    | TENTATIVE \<Rightarrow> [ACCEPTED, REJECTED, REVISED, SUPERSEDED]
    | ACCEPTED \<Rightarrow> [SUPERSEDED]
    | REJECTED \<Rightarrow> []
    | SUPERSEDED \<Rightarrow> []
    | REVISED \<Rightarrow> [])"

definition TERMINAL_STATUSES :: "artifact_status list" where
  "TERMINAL_STATUSES = [REJECTED, SUPERSEDED, REVISED]"

definition is_legal_transition :: "artifact_status \<Rightarrow> artifact_status \<Rightarrow> bool" where
  "is_legal_transition frm tgt = (tgt \<in> set (LEGAL_TRANSITIONS frm))"

definition assert_transition :: "artifact_status \<Rightarrow> artifact_status \<Rightarrow> exc + unit" where
  "assert_transition frm tgt =
     (if \<not> is_legal_transition frm tgt then Inl (IllegalTransition frm tgt) else Inr ())"

definition is_terminal :: "artifact_status \<Rightarrow> bool" where
  "is_terminal s = (s \<in> set TERMINAL_STATUSES)"

text \<open>The state machine: one legal edge, and the statuses reachable over legal edges.\<close>

inductive legal_step :: "artifact_status \<Rightarrow> artifact_status \<Rightarrow> bool" where
  legal: "is_legal_transition s t \<Longrightarrow> legal_step s t"

inductive legal_path :: "artifact_status \<Rightarrow> artifact_status \<Rightarrow> bool" where
  path_refl: "legal_path s s"
| path_step: "legal_path s t \<Longrightarrow> legal_step t u \<Longrightarrow> legal_path s u"

inductive_simps legal_step_iff: "legal_step s t"
inductive_cases legal_pathE: "legal_path s t"

lemmas legal_defs = is_legal_transition_def LEGAL_TRANSITIONS_def is_terminal_def
  TERMINAL_STATUSES_def

lemma assert_transition_Inr [simp]: "assert_transition s t = Inr u \<longleftrightarrow> is_legal_transition s t"
  by (simp add: assert_transition_def)

lemma assert_transition_Inl:
  "assert_transition s t = Inl e \<longleftrightarrow> \<not> is_legal_transition s t \<and> e = IllegalTransition s t"
  by (auto simp: assert_transition_def)

lemma terminal_no_exit: "is_terminal s \<longleftrightarrow> (\<forall>t. \<not> is_legal_transition s t)"
  by (cases s) (auto simp: legal_defs)

lemma from_proposed: "is_legal_transition PROPOSED t \<longleftrightarrow> t \<in> {TENTATIVE, ACCEPTED, REJECTED, REVISED}"
  by (auto simp: legal_defs)

lemma to_superseded: "is_legal_transition s SUPERSEDED \<longleftrightarrow> s = ACCEPTED \<or> s = TENTATIVE"
  by (cases s) (auto simp: legal_defs)

text \<open>A rank that every legal edge increases: the machine has no cycles.\<close>

fun status_depth :: "artifact_status \<Rightarrow> nat" where
  "status_depth PROPOSED = 0"
| "status_depth TENTATIVE = 1"
| "status_depth ACCEPTED = 2"
| "status_depth REJECTED = 3"
| "status_depth SUPERSEDED = 3"
| "status_depth REVISED = 3"

lemma legal_step_depth: "legal_step s t \<Longrightarrow> status_depth s < status_depth t"
  by (cases s; cases t) (auto simp: legal_step_iff legal_defs)

lemma legal_path_depth: "legal_path s t \<Longrightarrow> s = t \<or> status_depth s < status_depth t"
  by (induction rule: legal_path.induct) (auto dest: legal_step_depth)

lemma terminal_stays: "legal_path s t \<Longrightarrow> is_terminal s \<Longrightarrow> t = s"
  by (induction rule: legal_path.induct) (auto simp: legal_step_iff terminal_no_exit)

lemma accepted_path: "legal_path s t \<Longrightarrow> s = ACCEPTED \<Longrightarrow> t \<noteq> s \<Longrightarrow> t = SUPERSEDED"
proof (induction rule: legal_path.induct)
  case (path_step s t u)
  then show ?case by (cases "t = ACCEPTED") (auto simp: legal_step_iff legal_defs)
qed simp

text \<open>The lifecycle is a one-way street: along legal transitions no status is ever revisited,
  nothing returns to \<open>proposed\<close>, and an artifact that has left \<open>accepted\<close> is exactly a
  superseded one; the retained terminal statuses have no way out.\<close>

lemma lifecycle_one_way:
  assumes "legal_path s t" "s \<noteq> t"
  shows "\<not> legal_path t s \<and> t \<noteq> PROPOSED \<and> \<not> is_terminal s \<and> (s = ACCEPTED \<longrightarrow> t = SUPERSEDED)"
proof -
  have d: "status_depth s < status_depth t" using legal_path_depth assms by blast
  then have "\<not> legal_path t s" using legal_path_depth by fastforce
  moreover have "\<not> is_terminal s" using terminal_stays assms by blast
  moreover have "t = SUPERSEDED" if "s = ACCEPTED"
    using accepted_path assms that by blast
  ultimately show ?thesis using d by (cases t) auto
qed

lemma lifecycle_one_way_witness:
  "legal_path PROPOSED SUPERSEDED \<and> \<not> legal_path SUPERSEDED PROPOSED"
proof -
  have "legal_path PROPOSED ACCEPTED"
    by (rule path_step [OF path_refl]) (simp add: legal_step_iff legal_defs)
  then have p: "legal_path PROPOSED SUPERSEDED"
    by (rule path_step) (simp add: legal_step_iff legal_defs)
  then show ?thesis using lifecycle_one_way [OF p] by simp
qed

end
