(* ===== verification/Store.thy ===== *)
theory Store
  imports Lifecycle
begin

text \<open>
  \<open>control_plane/store.py\<close>: the SQLite store. A connection is two databases, the one the last
  commit left and the one the statements since then work on; \<open>_tx\<close> is re-entrant and only its
  outermost use commits or rolls back. A table is the list of its rows in insertion order.

  The operations are written as the code composes them; the lemmas show that every operation
  keeps the audit record append-only, keeps keys unique, and is all-or-nothing.
\<close>

section \<open>Values the store alone persists\<close>

record decision =
  d_artifact_id :: string
  d_gate :: string
  d_verdict :: verdict_kind
  d_rationale :: string
  d_defects :: "string list option"
  d_score :: "rat option"
  d_created_at :: string

record cycle_failure =
  cf_kind :: string
  cf_detail :: string
  cf_created_at :: string
  cf_transcript_ref :: "string option"

record schema_version =
  sv_version :: int
  sv_types :: "string list"
  sv_op_signatures :: "string list"
  sv_created_at :: string

record contract_version =
  cv_version :: int
  cv_orientation_digest :: string
  cv_created_at :: string

type_synonym artifact_row = "json artifact_of"

record db =
  t_artifacts :: "artifact_row list"
  t_operations :: "operation list"
  t_decisions :: "decision list"
  t_cycle_failures :: "cycle_failure list"
  t_schema_versions :: "schema_version list"
  t_contract_versions :: "contract_version list"

text \<open>
  \<open>object_dir\<close> says whether objects are files of a directory (\<open>dir_objects\<close>) or live in memory
  (\<open>mem_objects\<close>). The environment is four functions: the error the file system gives when it is
  asked to write some bytes, the exception SQLite raises when it is asked to insert a failure row (a
  full disk, a locked file, text it cannot encode), the hash, and the injected clock, read once per tick.
\<close>

record store =
  working :: db
  committed :: db
  tx_depth :: nat
  object_dir :: bool
  dir_objects :: "(string \<times> bytes) list"
  mem_objects :: "(string \<times> bytes) list"
  write_error :: "bytes \<Rightarrow> string option"
  insert_error :: "cycle_failure \<Rightarrow> exc option"
  sha256 :: "bytes \<Rightarrow> string"
  clock :: "nat \<Rightarrow> string"
  ticks :: nat

type_synonym 'a store_op = "(store, exc, 'a) st"

definition empty_db :: db where
  "empty_db = \<lparr>t_artifacts = [], t_operations = [], t_decisions = [], t_cycle_failures = [],
     t_schema_versions = [], t_contract_versions = []\<rparr>"

text \<open>
  Opening the store on a path: the tables are created if they do not exist, so a file left by an
  earlier process keeps its committed rows and its object files; uncommitted work and the
  in-memory objects are gone.
\<close>

definition open_store :: "db \<Rightarrow> (string \<times> bytes) list \<Rightarrow> bool \<Rightarrow> (bytes \<Rightarrow> string option) \<Rightarrow>
    (cycle_failure \<Rightarrow> exc option) \<Rightarrow> (bytes \<Rightarrow> string) \<Rightarrow> (nat \<Rightarrow> string) \<Rightarrow> store" where
  "open_store file files on_disk werr ierr sha clk =
     \<lparr>working = file, committed = file, tx_depth = 0, object_dir = on_disk, dir_objects = files,
      mem_objects = [], write_error = werr, insert_error = ierr, sha256 = sha, clock = clk, ticks = 0\<rparr>"

definition reopen :: "store \<Rightarrow> store" where
  "reopen s = (open_store (committed s) (dir_objects s) (object_dir s) (write_error s) (insert_error s)
     (sha256 s) (clock s))\<lparr>ticks := ticks s\<rparr>"

definition tick :: "string store_op" where
  "tick s = (Inr (clock s (ticks s)), s\<lparr>ticks := Suc (ticks s)\<rparr>)"

text \<open>\<open>x or self.clock()\<close>: the clock is read only when \<open>x\<close> is empty.\<close>

definition or_clock :: "string \<Rightarrow> string store_op" where
  "or_clock x = (if x = '''' then tick else ret x)"

section \<open>Transactions\<close>

definition rollback :: "store \<Rightarrow> store" where
  "rollback s = s\<lparr>working := committed s\<rparr>"

definition commit :: "store \<Rightarrow> store" where
  "commit s = s\<lparr>committed := working s\<rparr>"

definition tx :: "'a store_op \<Rightarrow> 'a store_op" where
  "tx body s =
     (let s1 = s\<lparr>tx_depth := Suc (tx_depth s)\<rparr>; outermost = (tx_depth s1 = 1)
      in case body s1 of
           (Inl e, s2) \<Rightarrow>
             (let s3 = (if outermost then rollback s2 else s2)
              in (Inl e, s3\<lparr>tx_depth := tx_depth s3 - 1\<rparr>))
         | (Inr x, s2) \<Rightarrow>
             (let s3 = (if outermost then commit s2 else s2)
              in (Inr x, s3\<lparr>tx_depth := tx_depth s3 - 1\<rparr>)))"

definition transaction :: "'a store_op \<Rightarrow> 'a store_op" where
  "transaction body = tx body"

definition upd :: "(db \<Rightarrow> db) \<Rightarrow> unit store_op" where
  "upd f = modify (\<lambda>s. s\<lparr>working := f (working s)\<rparr>)"

section \<open>(De)serialization\<close>

definition dump_payload :: "payload \<Rightarrow> json" where
  "dump_payload p = (case p of
      PRef r \<Rightarrow> JObj [(OBJECT_REF_MARKER,
        JObj [(''blob_ref'', JStr (blob_ref r)), (''content_hash'', JStr (content_hash r))])]
    | PJson j \<Rightarrow> j)"

definition load_payload :: "json \<Rightarrow> exc + payload" where
  "load_payload value = (case value of
      JObj kvs \<Rightarrow> (case map_of kvs OBJECT_REF_MARKER of
          Some r \<Rightarrow>
            bindS (json_get r ''blob_ref'') (\<lambda>b.
            bindS (json_get r ''content_hash'') (\<lambda>h.
            bindS (as_str b) (\<lambda>b'. bindS (as_str h) (\<lambda>h'.
            Inr (PRef \<lparr>blob_ref = b', content_hash = h'\<rparr>)))))
        | None \<Rightarrow> Inr (PJson value))
    | _ \<Rightarrow> Inr (PJson value))"

definition artifact_to_row :: "artifact \<Rightarrow> artifact_row" where
  "artifact_to_row a =
     \<lparr>art_id = art_id a, art_type = art_type a, art_payload = dump_payload (art_payload a),
      art_status = art_status a, created_by = created_by a, created_at = created_at a,
      superseded_by = superseded_by a, revised_by = revised_by a, is_root = is_root a,
      objects = objects a\<rparr>"

definition row_with :: "artifact_row \<Rightarrow> payload \<Rightarrow> artifact" where
  "row_with r p =
     \<lparr>art_id = art_id r, art_type = art_type r, art_payload = p, art_status = art_status r,
      created_by = created_by r, created_at = created_at r, superseded_by = superseded_by r,
      revised_by = revised_by r, is_root = is_root r, objects = objects r\<rparr>"

definition row_to_artifact :: "artifact_row \<Rightarrow> exc + artifact" where
  "row_to_artifact r = bindS (load_payload (art_payload r)) (\<lambda>p. Inr (row_with r p))"

section \<open>Reads\<close>

definition get_artifact :: "string \<Rightarrow> store \<Rightarrow> exc + artifact option" where
  "get_artifact i s = (case List.find (\<lambda>r. art_id r = i) (t_artifacts (working s)) of
      Some row \<Rightarrow> bindS (row_to_artifact row) (\<lambda>a. Inr (Some a))
    | None \<Rightarrow> Inr None)"

definition query_artifacts ::
    "string option \<Rightarrow> artifact_status option \<Rightarrow> store \<Rightarrow> exc + artifact list" where
  "query_artifacts ty st s =
     mapE row_to_artifact
       (sort_key (\<lambda>r. (created_at r, art_id r))
         (filter (\<lambda>r. (case ty of Some t \<Rightarrow> art_type r = t | None \<Rightarrow> True) \<and>
                      (case st of Some t \<Rightarrow> art_status r = t | None \<Rightarrow> True))
           (t_artifacts (working s))))"

definition op_order :: "operation list \<Rightarrow> operation list" where
  "op_order = sort_key (\<lambda>p. (op_created_at p, op_id p))"

definition operations_into :: "string \<Rightarrow> store \<Rightarrow> operation list" where
  "operations_into i s = op_order (filter (\<lambda>p. output_id p = i) (t_operations (working s)))"

definition operations_out_of :: "string \<Rightarrow> store \<Rightarrow> operation list" where
  "operations_out_of i s = filter (\<lambda>p. i \<in> set (parents p)) (op_order (t_operations (working s)))"

definition decisions_for :: "string \<Rightarrow> store \<Rightarrow> decision list" where
  "decisions_for i s =
     sort_key d_created_at (filter (\<lambda>d. d_artifact_id d = i) (t_decisions (working s)))"

definition schema_versions :: "store \<Rightarrow> schema_version list" where
  "schema_versions s = sort_key sv_version (t_schema_versions (working s))"

definition current_schema_version :: "store \<Rightarrow> schema_version option" where
  "current_schema_version s =
     (let versions = schema_versions s in if versions = [] then None else Some (last versions))"

definition current_contract_version :: "store \<Rightarrow> contract_version option" where
  "current_contract_version s =
     (let vs = sort_desc_key cv_version (t_contract_versions (working s))
      in case vs of [] \<Rightarrow> None | v # _ \<Rightarrow> Some v)"

definition contract_version_at :: "int \<Rightarrow> store \<Rightarrow> contract_version option" where
  "contract_version_at v s = List.find (\<lambda>c. cv_version c = v) (t_contract_versions (working s))"

definition rejected_log :: "string option \<Rightarrow> store \<Rightarrow> exc + artifact list" where
  "rejected_log ty = query_artifacts ty (Some REJECTED)"

definition superseded_log :: "string option \<Rightarrow> store \<Rightarrow> exc + artifact list" where
  "superseded_log ty = query_artifacts ty (Some SUPERSEDED)"

definition cycle_failures :: "store \<Rightarrow> cycle_failure list" where
  "cycle_failures s = sort_key cf_created_at (t_cycle_failures (working s))"

section \<open>Low-level helpers\<close>

definition has_artifact :: "string \<Rightarrow> db \<Rightarrow> bool" where
  "has_artifact i d = (\<exists>r \<in> set (t_artifacts d). art_id r = i)"

definition assert_fresh_id :: "string \<Rightarrow> unit store_op" where
  "assert_fresh_id i s =
     (if has_artifact i (working s)
      then raise (StoreError (''id already in use (ids are never reused, '' @ ch_section @
             ''5.1): '' @ i)) s
      else ret () s)"

definition assert_fresh_op_id :: "string \<Rightarrow> unit store_op" where
  "assert_fresh_op_id i s =
     (if \<exists>p \<in> set (t_operations (working s)). op_id p = i
      then raise (StoreError (''op_id already in use (ids are never reused, '' @ ch_section @
             ''5.1): '' @ i)) s
      else ret () s)"

definition require_artifact :: "string \<Rightarrow> unit store_op" where
  "require_artifact i s =
     (if \<not> has_artifact i (working s) then raise (StoreError (''unknown artifact: '' @ i)) s
      else ret () s)"

definition insert_artifact :: "artifact \<Rightarrow> unit store_op" where
  "insert_artifact a s =
     (if has_artifact (art_id a) (working s)
      then raise (IntegrityError ''UNIQUE constraint failed: artifacts.id'') s
      else upd (\<lambda>d. d\<lparr>t_artifacts := t_artifacts d @ [artifact_to_row a]\<rparr>) s)"

definition insert_operation :: "operation \<Rightarrow> unit store_op" where
  "insert_operation p =
     bindE (or_clock (op_created_at p)) (\<lambda>ts s.
       if \<exists>q \<in> set (t_operations (working s)). op_id q = op_id p
       then raise (IntegrityError ''UNIQUE constraint failed: operations.op_id'') s
       else upd (\<lambda>d. d\<lparr>t_operations := t_operations d @ [p\<lparr>op_created_at := ts\<rparr>]\<rparr>) s)"

definition insert_decision :: "decision \<Rightarrow> unit store_op" where
  "insert_decision dc = upd (\<lambda>d. d\<lparr>t_decisions := t_decisions d @ [dc]\<rparr>)"

definition map_row :: "string \<Rightarrow> (artifact_row \<Rightarrow> artifact_row) \<Rightarrow> db \<Rightarrow> db" where
  "map_row i f d =
     d\<lparr>t_artifacts := map (\<lambda>r. if art_id r = i then f r else r) (t_artifacts d)\<rparr>"

section \<open>Propose, and the privileged writes\<close>

definition propose :: "artifact \<Rightarrow> operation \<Rightarrow> artifact store_op" where
  "propose a p =
     (if art_status a \<noteq> PROPOSED
      then raise (StoreError (''propose() requires status '' @ py_repr ''proposed'' @ '', got '' @
             py_repr (status_value (art_status a))))
      else bindE (if created_at a \<noteq> '''' then ret a
                  else bindE tick (\<lambda>now. ret (a\<lparr>created_at := now\<rparr>)))
        (\<lambda>stamped.
          bindE (tx (bindE (assert_fresh_id (art_id stamped)) (\<lambda>_.
                     bindE (assert_fresh_op_id (op_id p)) (\<lambda>_.
                     bindE (insert_artifact stamped) (\<lambda>_.
                     insert_operation p)))))
            (\<lambda>_. ret stamped)))"

definition record_decision :: "decision \<Rightarrow> unit store_op" where
  "record_decision dc =
     bindE (if d_created_at dc \<noteq> '''' then ret dc
            else bindE tick (\<lambda>now. ret (dc\<lparr>d_created_at := now\<rparr>)))
       (\<lambda>stamped. tx (insert_decision stamped))"

definition set_status :: "string \<Rightarrow> artifact_status \<Rightarrow> unit store_op" where
  "set_status i st =
     tx (bindE (require_artifact i) (\<lambda>_. upd (map_row i (\<lambda>r. r\<lparr>art_status := st\<rparr>))))"

definition accept_superseding :: "string \<Rightarrow> string \<Rightarrow> unit store_op" where
  "accept_superseding new_id old_id =
     tx (bindE (require_artifact new_id) (\<lambda>_.
         bindE (require_artifact old_id) (\<lambda>_.
         bindE (upd (map_row new_id (\<lambda>r. r\<lparr>art_status := ACCEPTED\<rparr>))) (\<lambda>_.
         upd (map_row old_id (\<lambda>r. r\<lparr>art_status := SUPERSEDED, superseded_by := Some new_id\<rparr>))))))"

definition link_revision :: "string \<Rightarrow> string \<Rightarrow> unit store_op" where
  "link_revision old_id new_id =
     tx (bindE (require_artifact old_id) (\<lambda>_.
         bindE (require_artifact new_id) (\<lambda>_.
         upd (map_row old_id (\<lambda>r. r\<lparr>art_status := REVISED, revised_by := Some new_id\<rparr>)))))"

definition register_schema_version :: "schema_version \<Rightarrow> unit store_op" where
  "register_schema_version sv =
     tx (bindE (or_clock (sv_created_at sv)) (\<lambda>ts s.
       if \<exists>v \<in> set (t_schema_versions (working s)). sv_version v = sv_version sv
       then raise (IntegrityError ''UNIQUE constraint failed: schema_versions.version'') s
       else upd (\<lambda>d. d\<lparr>t_schema_versions := t_schema_versions d @ [sv\<lparr>sv_created_at := ts\<rparr>]\<rparr>) s))"

definition register_contract_version :: "contract_version \<Rightarrow> unit store_op" where
  "register_contract_version c s =
     (case contract_version_at (cv_version c) s of
        Some existing \<Rightarrow>
          if cv_orientation_digest existing \<noteq> cv_orientation_digest c
          then raise (StoreError (''contract version '' @ int_str (cv_version c) @
                 '' is already recorded with a different orientation digest (bump '' @
                 ''WORKSPACE_CONTRACT_VERSION when the orientation changes); recorded='' @
                 take 12 (cv_orientation_digest existing) @ '', now='' @
                 take 12 (cv_orientation_digest c))) s
          else ret () s
      | None \<Rightarrow>
          tx (bindE (or_clock (cv_created_at c)) (\<lambda>ts s.
            if \<exists>v \<in> set (t_contract_versions (working s)). cv_version v = cv_version c
            then raise (IntegrityError ''UNIQUE constraint failed: contract_versions.version'') s
            else upd (\<lambda>d. d\<lparr>t_contract_versions :=
                   t_contract_versions d @ [c\<lparr>cv_created_at := ts\<rparr>]\<rparr>) s)) s)"

definition insert_cycle_failure :: "cycle_failure \<Rightarrow> unit store_op" where
  "insert_cycle_failure f s =
     (case insert_error s f of
        Some e \<Rightarrow> raise e s
      | None \<Rightarrow> upd (\<lambda>d. d\<lparr>t_cycle_failures := t_cycle_failures d @ [f]\<rparr>) s)"

definition record_cycle_failure ::
    "string \<Rightarrow> string \<Rightarrow> string option \<Rightarrow> cycle_failure store_op" where
  "record_cycle_failure kind detail tref =
     bindE tick (\<lambda>now.
       let failure = \<lparr>cf_kind = kind, cf_detail = detail, cf_created_at = now,
                      cf_transcript_ref = tref\<rparr>
       in bindE (tx (insert_cycle_failure failure)) (\<lambda>_. ret failure))"

section \<open>Objects\<close>

definition put_object :: "bytes \<Rightarrow> object_ref store_op" where
  "put_object data s =
     (let h = sha256 s data; r = \<lparr>blob_ref = ''sha256:'' @ h, content_hash = h\<rparr>
      in if object_dir s
         then (case write_error s data of
                 Some e \<Rightarrow> raise (StoreError (''could not write object '' @ h @ '': '' @ e)) s
               | None \<Rightarrow> ret r (s\<lparr>dir_objects := dict_put h data (dir_objects s)\<rparr>))
         else ret r (s\<lparr>mem_objects := dict_put h data (mem_objects s)\<rparr>))"

definition get_object :: "string \<Rightarrow> store \<Rightarrow> exc + bytes" where
  "get_object h s =
     (case map_of (if object_dir s then dir_objects s else mem_objects s) h of
        Some data \<Rightarrow> Inr data
      | None \<Rightarrow> Inl (StoreError (''object not found: '' @ h)))"

end
