(* ===== verification/Store_Laws.thy ===== *)
theory Store_Laws
  imports Store
begin

text \<open>
  The laws of the store: which database invariants every operation keeps (the locale
  \<open>db_invariant\<close> and its interpretations), how transactions nest and roll back, and the
  functional behaviour of the reads after the writes.
\<close>

section \<open>Transactions\<close>

lemma tx_nested:
  "0 < tx_depth s \<Longrightarrow> body (s\<lparr>tx_depth := Suc (tx_depth s)\<rparr>) = (r, s2) \<Longrightarrow>
   tx body s = (r, s2\<lparr>tx_depth := tx_depth s2 - 1\<rparr>)"
  by (cases r) (simp_all add: tx_def Let_def)

lemma tx_outer_Inr:
  "tx_depth s = 0 \<Longrightarrow> body (s\<lparr>tx_depth := 1\<rparr>) = (Inr x, s2) \<Longrightarrow>
   tx body s = (Inr x, (commit s2)\<lparr>tx_depth := tx_depth s2 - 1\<rparr>)"
  by (simp add: tx_def Let_def commit_def)

lemma tx_outer_Inl:
  "tx_depth s = 0 \<Longrightarrow> body (s\<lparr>tx_depth := 1\<rparr>) = (Inl e, s2) \<Longrightarrow>
   tx body s = (Inl e, (rollback s2)\<lparr>tx_depth := tx_depth s2 - 1\<rparr>)"
  by (simp add: tx_def Let_def rollback_def)

text \<open>Inside a transaction the committed database does not move and the depth is restored.\<close>

definition inside :: "nat \<Rightarrow> db \<Rightarrow> store \<Rightarrow> bool" where
  "inside n c s \<longleftrightarrow> tx_depth s = n \<and> committed s = c"

definition quiescent :: "store \<Rightarrow> bool" where
  "quiescent s \<longleftrightarrow> tx_depth s = 0 \<and> working s = committed s"

lemma keeps_inside_tx:
  assumes "keeps (inside (Suc n) c) body" "0 < n"
  shows "keeps (inside n c) (tx body)"
proof (rule keepsI)
  fix s assume s: "inside n c s"
  obtain r s2 where b: "body (s\<lparr>tx_depth := Suc (tx_depth s)\<rparr>) = (r, s2)"
    by (cases "body (s\<lparr>tx_depth := Suc (tx_depth s)\<rparr>)")
  have "inside (Suc n) c (s\<lparr>tx_depth := Suc (tx_depth s)\<rparr>)" using s by (simp add: inside_def)
  then have "inside (Suc n) c s2" using keepsD [OF assms(1) _ b] by blast
  moreover have "0 < tx_depth s" using s assms(2) by (simp add: inside_def)
  ultimately show "inside n c (snd (tx body s))"
    using tx_nested [of s body r s2] b by (simp add: inside_def)
qed

lemma keeps_quiescent_tx:
  assumes "\<And>c. keeps (inside 1 c) body"
  shows "keeps quiescent (tx body)"
proof (rule keepsI)
  fix s assume s: "quiescent s"
  obtain r s2 where b: "body (s\<lparr>tx_depth := 1\<rparr>) = (r, s2)"
    by (cases "body (s\<lparr>tx_depth := 1\<rparr>)")
  have "inside 1 (committed s) (s\<lparr>tx_depth := 1\<rparr>)" by (simp add: inside_def)
  then have i: "inside 1 (committed s) s2" using keepsD [OF assms _ b] by blast
  have d: "tx_depth s = 0" using s by (simp add: quiescent_def)
  show "quiescent (snd (tx body s))"
  proof (cases r)
    case (Inl e)
    then show ?thesis using tx_outer_Inl [of s body e s2] d b i
      by (simp add: quiescent_def rollback_def inside_def)
  next
    case (Inr x)
    then show ?thesis using tx_outer_Inr [of s body x s2] d b i
      by (simp add: quiescent_def commit_def inside_def)
  qed
qed

lemma tx_atomic:
  assumes "quiescent s" "keeps (inside 1 (committed s)) body" "tx body s = (r, s')"
  shows "case r of Inl e \<Rightarrow> working s' = working s \<and> committed s' = committed s \<and> tx_depth s' = 0
    | Inr x \<Rightarrow> tx_depth s' = 0 \<and> committed s' = working s' \<and>
        (\<exists>s2. body (s\<lparr>tx_depth := 1\<rparr>) = (Inr x, s2) \<and> working s' = working s2)"
proof -
  obtain r2 s2 where b: "body (s\<lparr>tx_depth := 1\<rparr>) = (r2, s2)"
    by (cases "body (s\<lparr>tx_depth := 1\<rparr>)")
  have "inside 1 (committed s) (s\<lparr>tx_depth := 1\<rparr>)" by (simp add: inside_def)
  then have i: "inside 1 (committed s) s2" using keepsD [OF assms(2) _ b] by blast
  have d: "tx_depth s = 0" "working s = committed s" using assms(1) by (auto simp: quiescent_def)
  show ?thesis
  proof (cases r2)
    case (Inl e)
    then show ?thesis using tx_outer_Inl [of s body e s2] b i d assms(3)
      by (auto simp: rollback_def inside_def)
  next
    case (Inr x)
    then show ?thesis using tx_outer_Inr [of s body x s2] b i d assms(3)
      by (auto simp: commit_def inside_def)
  qed
qed

section \<open>Every operation restores the transaction depth\<close>

lemma keeps_inside_upd [keeps_intros]: "keeps (inside n c) (upd f)"
  by (simp add: keeps_def inside_def upd_def modify_def)

lemma keeps_inside_tick [keeps_intros]: "keeps (inside n c) tick"
  by (simp add: keeps_def inside_def tick_def)

lemma keeps_quiescent_tick [keeps_intros]: "keeps quiescent tick"
  by (simp add: keeps_def quiescent_def tick_def)

lemma keeps_or_clock [keeps_intros]: "keeps P tick \<Longrightarrow> keeps P (or_clock x)"
  by (simp add: or_clock_def keeps_intros)

lemma keeps_assert_fresh_id [keeps_intros]: "keeps P (assert_fresh_id i)"
  by (simp add: keeps_def assert_fresh_id_def raise_def ret_def)

lemma keeps_assert_fresh_op_id [keeps_intros]: "keeps P (assert_fresh_op_id i)"
  by (simp add: keeps_def assert_fresh_op_id_def raise_def ret_def)

lemma keeps_require_artifact [keeps_intros]: "keeps P (require_artifact i)"
  by (simp add: keeps_def require_artifact_def raise_def ret_def)

lemma keeps_state_if: "(\<And>s. \<not> b s \<Longrightarrow> P s \<Longrightarrow> P (snd (m s))) \<Longrightarrow>
  keeps P (\<lambda>s. if b s then raise e s else m s)"
  by (simp add: keeps_def raise_def)

lemma keeps_inside_insert_artifact [keeps_intros]: "keeps (inside n c) (insert_artifact a)"
  by (simp add: keeps_def insert_artifact_def raise_def upd_def modify_def inside_def)

lemma keeps_inside_insert_operation [keeps_intros]: "keeps (inside n c) (insert_operation p)"
  unfolding insert_operation_def
  by (rule keeps_bindE keeps_or_clock keeps_inside_tick keeps_state_if)+
    (simp add: upd_def modify_def inside_def)

lemma keeps_inside_insert_decision [keeps_intros]: "keeps (inside n c) (insert_decision d)"
  by (simp add: insert_decision_def keeps_intros)

text \<open>The bodies of the writes, as they stand under \<open>tx\<close>.\<close>

lemmas write_defs = set_status_def accept_superseding_def link_revision_def
  register_schema_version_def

lemma keeps_inside_register_schema_body [keeps_intros]:
  "keeps (inside n c) (bindE (or_clock x) (\<lambda>ts s.
     if b s then raise e s else upd (f ts) s))"
  by (rule keeps_bindE keeps_or_clock keeps_inside_tick keeps_state_if)+
    (simp add: upd_def modify_def inside_def)

lemma keeps_inside_put_object [keeps_intros]: "keeps (inside n c) (put_object data)"
  by (simp add: keeps_def put_object_def inside_def Let_def raise_def ret_def split: option.split)

lemma keeps_quiescent_put_object [keeps_intros]: "keeps quiescent (put_object data)"
  by (simp add: keeps_def put_object_def quiescent_def Let_def raise_def ret_def split: option.split)

lemma keeps_quiescent_writes [keeps_intros]:
  "keeps quiescent (set_status i st)" "keeps quiescent (accept_superseding i j)"
  "keeps quiescent (link_revision i j)" "keeps quiescent (register_schema_version sv)"
  by (auto simp: write_defs intro!: keeps_quiescent_tx keeps_intros)

lemma keeps_inside_writes [keeps_intros]:
  "0 < n \<Longrightarrow> keeps (inside n c) (set_status i st)"
  "0 < n \<Longrightarrow> keeps (inside n c) (accept_superseding i j)"
  "0 < n \<Longrightarrow> keeps (inside n c) (link_revision i j)"
  "0 < n \<Longrightarrow> keeps (inside n c) (register_schema_version sv)"
  by (auto simp: write_defs intro!: keeps_inside_tx keeps_intros)

lemma keeps_quiescent_propose [keeps_intros]: "keeps quiescent (propose a p)"
  unfolding propose_def
  by (intro keeps_if keeps_bindE keeps_raise keeps_ret keeps_quiescent_tick keeps_quiescent_tx
      keeps_assert_fresh_id keeps_assert_fresh_op_id keeps_inside_insert_artifact
      keeps_inside_insert_operation)

lemma keeps_inside_propose [keeps_intros]: "0 < n \<Longrightarrow> keeps (inside n c) (propose a p)"
  unfolding propose_def
  by (intro keeps_if keeps_bindE keeps_raise keeps_ret keeps_inside_tick keeps_inside_tx
      keeps_assert_fresh_id keeps_assert_fresh_op_id keeps_inside_insert_artifact
      keeps_inside_insert_operation)

lemma keeps_quiescent_record_decision [keeps_intros]: "keeps quiescent (record_decision d)"
  unfolding record_decision_def
  by (intro keeps_if keeps_bindE keeps_ret keeps_quiescent_tick keeps_quiescent_tx
      keeps_inside_insert_decision)

lemma keeps_inside_record_decision [keeps_intros]:
  "0 < n \<Longrightarrow> keeps (inside n c) (record_decision d)"
  unfolding record_decision_def
  by (intro keeps_if keeps_bindE keeps_ret keeps_inside_tick keeps_inside_tx
      keeps_inside_insert_decision)

lemma keeps_register_contract:
  assumes "keeps P (tx (bindE (or_clock (cv_created_at c)) (\<lambda>ts s.
     if \<exists>v \<in> set (t_contract_versions (working s)). cv_version v = cv_version c
     then raise (IntegrityError ''UNIQUE constraint failed: contract_versions.version'') s
     else upd (\<lambda>d. d\<lparr>t_contract_versions :=
            t_contract_versions d @ [c\<lparr>cv_created_at := ts\<rparr>]\<rparr>) s)))"
  shows "keeps P (register_contract_version c)"
  using assms
  by (auto simp: keeps_def register_contract_version_def raise_def ret_def split: option.split)

lemma keeps_quiescent_register_contract [keeps_intros]:
  "keeps quiescent (register_contract_version c)"
  by (intro keeps_register_contract keeps_quiescent_tx keeps_inside_register_schema_body)

lemma keeps_inside_register_contract [keeps_intros]:
  "0 < n \<Longrightarrow> keeps (inside n c') (register_contract_version c)"
  by (intro keeps_register_contract keeps_inside_tx keeps_inside_register_schema_body)

lemma keeps_insert_failure:
  assumes "keeps P (upd (\<lambda>d. d\<lparr>t_cycle_failures := t_cycle_failures d @ [f]\<rparr>))"
  shows "keeps P (insert_cycle_failure f)"
  unfolding insert_cycle_failure_def using assms
  by (auto simp: keeps_def raise_def split: option.split)

lemma keeps_quiescent_record_failure [keeps_intros]:
  "keeps quiescent (record_cycle_failure k d t)"
  unfolding record_cycle_failure_def Let_def
  by (intro keeps_bindE keeps_quiescent_tick keeps_quiescent_tx keeps_insert_failure keeps_inside_upd keeps_ret)

lemma keeps_inside_record_failure [keeps_intros]:
  "0 < n \<Longrightarrow> keeps (inside n c) (record_cycle_failure k d t)"
  unfolding record_cycle_failure_def Let_def
  by (intro keeps_bindE keeps_inside_tick keeps_inside_tx keeps_insert_failure keeps_inside_upd keeps_ret)

section \<open>Database invariants: the interface every operation respects\<close>

text \<open>
  A relation \<open>Q c w\<close> between the committed and the working database that survives commit and
  rollback and every single table write is kept by every operation of the store. \<open>ok a\<close> is what
  is asked of a proposed artifact.
\<close>

definition store_inv :: "(db \<Rightarrow> db \<Rightarrow> bool) \<Rightarrow> store \<Rightarrow> bool" where
  "store_inv Q s \<longleftrightarrow> Q (committed s) (working s)"

locale db_invariant =
  fixes Q :: "db \<Rightarrow> db \<Rightarrow> bool" and ok :: "artifact \<Rightarrow> bool"
  assumes ok_stamp: "ok a \<Longrightarrow> ok (a\<lparr>created_at := ts\<rparr>)"
    and after_rollback: "Q c w \<Longrightarrow> Q c c"
    and after_commit: "Q c w \<Longrightarrow> Q w w"
    and add_artifact: "Q c w \<Longrightarrow> ok a \<Longrightarrow> \<not> has_artifact (art_id a) w \<Longrightarrow>
      Q c (w\<lparr>t_artifacts := t_artifacts w @ [artifact_to_row a]\<rparr>)"
    and add_operation: "Q c w \<Longrightarrow> op_id p \<notin> op_id ` set (t_operations w) \<Longrightarrow>
      Q c (w\<lparr>t_operations := t_operations w @ [p]\<rparr>)"
    and add_decision: "Q c w \<Longrightarrow> Q c (w\<lparr>t_decisions := t_decisions w @ [dc]\<rparr>)"
    and add_failure: "Q c w \<Longrightarrow> Q c (w\<lparr>t_cycle_failures := t_cycle_failures w @ [f]\<rparr>)"
    and add_schema: "Q c w \<Longrightarrow> sv_version sv \<notin> sv_version ` set (t_schema_versions w) \<Longrightarrow>
      Q c (w\<lparr>t_schema_versions := t_schema_versions w @ [sv]\<rparr>)"
    and add_contract: "Q c w \<Longrightarrow> cv_version cv \<notin> cv_version ` set (t_contract_versions w) \<Longrightarrow>
      Q c (w\<lparr>t_contract_versions := t_contract_versions w @ [cv]\<rparr>)"
    and put_status: "Q c w \<Longrightarrow> Q c (map_row i (\<lambda>r. r\<lparr>art_status := st\<rparr>) w)"
    and put_superseded:
      "Q c w \<Longrightarrow> Q c (map_row i (\<lambda>r. r\<lparr>art_status := st, superseded_by := Some j\<rparr>) w)"
    and put_revised:
      "Q c w \<Longrightarrow> Q c (map_row i (\<lambda>r. r\<lparr>art_status := st, revised_by := Some j\<rparr>) w)"
begin

lemma inv_upd: "(\<And>c w. Q c w \<Longrightarrow> Q c (f w)) \<Longrightarrow> keeps (store_inv Q) (upd f)"
  by (simp add: keeps_def store_inv_def upd_def modify_def)

lemma inv_tick: "keeps (store_inv Q) tick"
  by (simp add: keeps_def store_inv_def tick_def)

lemma inv_tx:
  assumes "keeps (store_inv Q) body"
  shows "keeps (store_inv Q) (tx body)"
proof (rule keepsI)
  fix s assume s: "store_inv Q s"
  let ?s1 = "s\<lparr>tx_depth := Suc (tx_depth s)\<rparr>"
  obtain r s2 where b: "body ?s1 = (r, s2)" by (cases "body ?s1")
  have "store_inv Q ?s1" using s by (simp add: store_inv_def)
  then have "store_inv Q s2" using keepsD [OF assms _ b] by blast
  then show "store_inv Q (snd (tx body s))"
    using b after_rollback after_commit
    by (cases r) (auto simp: tx_def Let_def store_inv_def rollback_def commit_def)
qed

lemma inv_insert_artifact: "ok a \<Longrightarrow> keeps (store_inv Q) (insert_artifact a)"
  unfolding insert_artifact_def
  by (rule keeps_state_if) (simp add: upd_def modify_def store_inv_def add_artifact)

lemma inv_insert_operation: "keeps (store_inv Q) (insert_operation p)"
  unfolding insert_operation_def
  by (rule keeps_bindE keeps_or_clock inv_tick keeps_state_if)+
    (force simp: upd_def modify_def store_inv_def intro!: add_operation)

lemma inv_propose:
  assumes "ok a"
  shows "keeps (store_inv Q) (propose a p)"
  unfolding propose_def
proof (intro keeps_if keeps_raise)
  let ?body = "\<lambda>stamped. bindE (assert_fresh_id (art_id stamped)) (\<lambda>_.
    bindE (assert_fresh_op_id (op_id p)) (\<lambda>_. bindE (insert_artifact stamped) (\<lambda>_.
    insert_operation p)))"
  have body: "keeps (store_inv Q) (bindE (tx (?body st)) (\<lambda>_. ret st))" if "ok st" for st
    using that
    by (intro keeps_bindE inv_tx keeps_assert_fresh_id keeps_assert_fresh_op_id
        inv_insert_artifact inv_insert_operation keeps_ret)
  show "keeps (store_inv Q)
     (bindE (if created_at a \<noteq> '''' then ret a
             else bindE tick (\<lambda>now. ret (a\<lparr>created_at := now\<rparr>)))
       (\<lambda>st. bindE (tx (?body st)) (\<lambda>_. ret st)))"
    by (rule keeps_bindE_res [where R = ok])
      (auto intro: body keeps_intros inv_tick simp: assms bindE_ok ret_def ok_stamp split: if_splits)
qed

lemma inv_record_decision: "keeps (store_inv Q) (record_decision d)"
  unfolding record_decision_def insert_decision_def
  by (intro keeps_if keeps_bindE keeps_ret inv_tick inv_tx inv_upd add_decision)

lemma inv_set_status: "keeps (store_inv Q) (set_status i st)"
  unfolding set_status_def
  by (intro inv_tx keeps_bindE keeps_require_artifact inv_upd put_status)

lemma inv_accept_superseding: "keeps (store_inv Q) (accept_superseding i j)"
  unfolding accept_superseding_def
  by (intro inv_tx keeps_bindE keeps_require_artifact inv_upd put_status put_superseded)

lemma inv_link_revision: "keeps (store_inv Q) (link_revision i j)"
  unfolding link_revision_def
  by (intro inv_tx keeps_bindE keeps_require_artifact inv_upd put_revised)

lemma inv_register_schema: "keeps (store_inv Q) (register_schema_version sv)"
  unfolding register_schema_version_def
  by (rule inv_tx keeps_bindE keeps_or_clock inv_tick keeps_state_if)+
    (force simp: upd_def modify_def store_inv_def intro!: add_schema)

lemma inv_register_contract: "keeps (store_inv Q) (register_contract_version c)"
  by (rule keeps_register_contract inv_tx keeps_bindE keeps_or_clock inv_tick keeps_state_if)+
    (force simp: upd_def modify_def store_inv_def intro!: add_contract)

lemma inv_record_failure: "keeps (store_inv Q) (record_cycle_failure k d t)"
  unfolding record_cycle_failure_def Let_def
  by (intro keeps_bindE inv_tick inv_tx keeps_insert_failure inv_upd add_failure keeps_ret)

lemma inv_put_object: "keeps (store_inv Q) (put_object data)"
  by (simp add: keeps_def put_object_def store_inv_def Let_def raise_def ret_def
      split: option.split)

lemmas inv_writes = inv_propose inv_record_decision inv_set_status inv_accept_superseding
  inv_link_revision inv_register_schema inv_register_contract inv_record_failure inv_put_object

end

end
