(* ===== verification/Store_Audit.thy ===== *)
theory Store_Audit
  imports Store_Laws
begin

text \<open>
  The audit contract of the store: what no sequence of store operations, returning or raising,
  nested in transactions or not, can do to the durable record. The three database invariants
  (append-only history, unique keys, decodable payloads) interpret \<open>db_invariant\<close>.
\<close>

section \<open>Append-only history\<close>

definition row_frozen :: "artifact_row \<Rightarrow> artifact_row \<Rightarrow> bool" where
  "row_frozen r r' \<longleftrightarrow> art_id r' = art_id r \<and> art_type r' = art_type r \<and>
     art_payload r' = art_payload r \<and> created_by r' = created_by r \<and>
     created_at r' = created_at r \<and> is_root r' = is_root r \<and> objects r' = objects r"

definition rows_extend :: "artifact_row list \<Rightarrow> artifact_row list \<Rightarrow> bool" where
  "rows_extend rs rs' \<longleftrightarrow> (\<exists>old new. rs' = old @ new \<and> list_all2 row_frozen rs old)"

text \<open>
  Every row of the first database is still in the second, with the fields no transition may
  touch unchanged; the other tables have only grown at their end.
\<close>

definition append_only :: "db \<Rightarrow> db \<Rightarrow> bool" where
  "append_only d d' \<longleftrightarrow> rows_extend (t_artifacts d) (t_artifacts d') \<and>
     prefix (t_operations d) (t_operations d') \<and> prefix (t_decisions d) (t_decisions d') \<and>
     prefix (t_cycle_failures d) (t_cycle_failures d') \<and>
     prefix (t_schema_versions d) (t_schema_versions d') \<and>
     prefix (t_contract_versions d) (t_contract_versions d')"

lemma row_frozen_refl [simp]: "row_frozen r r" by (simp add: row_frozen_def)

lemma row_frozen_trans: "row_frozen a b \<Longrightarrow> row_frozen b c \<Longrightarrow> row_frozen a c"
  by (simp add: row_frozen_def)

lemma rows_extend_refl [simp]: "rows_extend rs rs"
  unfolding rows_extend_def by (rule exI [of _ rs]) (simp add: list_all2_refl)

lemma rows_extend_trans:
  assumes "rows_extend a b" "rows_extend b c"
  shows "rows_extend a c"
proof -
  obtain b1 b2 where b: "b = b1 @ b2" "list_all2 row_frozen a b1"
    using assms(1) by (auto simp: rows_extend_def)
  obtain c1 c2 where c: "c = c1 @ c2" "list_all2 row_frozen b c1"
    using assms(2) by (auto simp: rows_extend_def)
  obtain u v where uv: "c1 = u @ v" "list_all2 row_frozen b1 u"
    using c(2) b(1) by (auto simp: list_all2_append1)
  have "list_all2 row_frozen a u"
    using list_all2_trans [of row_frozen row_frozen row_frozen] row_frozen_trans b(2) uv(2) by blast
  then show ?thesis using c(1) uv(1) by (auto simp: rows_extend_def)
qed

lemma rows_extend_snoc: "rows_extend rs (rs @ new)"
  unfolding rows_extend_def by (rule exI [of _ rs]) (simp add: list_all2_refl)

lemma rows_extend_map:
  "(\<And>r. row_frozen r (f r)) \<Longrightarrow> rows_extend rs (map (\<lambda>r. if art_id r = i then f r else r) rs)"
  unfolding rows_extend_def
  by (rule exI [of _ "map (\<lambda>r. if art_id r = i then f r else r) rs"])
    (simp add: list_all2_conv_all_nth)

lemma append_only_refl [simp]: "append_only d d"
  by (simp add: append_only_def)

lemma append_only_trans: "append_only a b \<Longrightarrow> append_only b c \<Longrightarrow> append_only a c"
  by (auto simp: append_only_def intro: rows_extend_trans prefix_order.trans)

lemma append_only_row:
  assumes "append_only d d'" "row \<in> set (t_artifacts d)"
  shows "\<exists>row' \<in> set (t_artifacts d'). row_frozen row row'"
proof -
  obtain old new where "t_artifacts d' = old @ new" "list_all2 row_frozen (t_artifacts d) old"
    using assms(1) by (auto simp: append_only_def rows_extend_def)
  then show ?thesis using list_all2_setD1 [OF _ assms(2)] by fastforce
qed

definition history :: "db \<Rightarrow> db \<Rightarrow> db \<Rightarrow> bool" where
  "history d0 c w \<longleftrightarrow> append_only d0 c \<and> append_only c w"

lemma history_step: "history d0 c w \<Longrightarrow> append_only w w' \<Longrightarrow> history d0 c w'"
  by (auto simp: history_def intro: append_only_trans)

interpretation hist: db_invariant "history d0" "\<lambda>_. True" for d0
proof (unfold_locales, goal_cases)
  case (2 c w) then show ?case by (simp add: history_def)
next
  case (3 c w) then show ?case by (auto simp: history_def intro: append_only_trans)
next
  case 10 then show ?case
    by (elim history_step) (simp add: append_only_def map_row_def rows_extend_map row_frozen_def)
next
  case 11 then show ?case
    by (elim history_step) (simp add: append_only_def map_row_def rows_extend_map row_frozen_def)
next
  case 12 then show ?case
    by (elim history_step) (simp add: append_only_def map_row_def rows_extend_map row_frozen_def)
qed (simp, (elim history_step, simp add: append_only_def rows_extend_snoc)+)

section \<open>Unique keys\<close>

definition unique_keys :: "db \<Rightarrow> bool" where
  "unique_keys d \<longleftrightarrow> distinct (map art_id (t_artifacts d)) \<and> distinct (map op_id (t_operations d)) \<and>
     distinct (map sv_version (t_schema_versions d)) \<and>
     distinct (map cv_version (t_contract_versions d))"

lemma map_row_ids [simp]:
  "(\<And>r. art_id (f r) = art_id r) \<Longrightarrow>
   map art_id (t_artifacts (map_row i f d)) = map art_id (t_artifacts d)"
  by (simp add: map_row_def)

lemma map_row_other [simp]:
  "t_operations (map_row i f d) = t_operations d" "t_decisions (map_row i f d) = t_decisions d"
  "t_cycle_failures (map_row i f d) = t_cycle_failures d"
  "t_schema_versions (map_row i f d) = t_schema_versions d"
  "t_contract_versions (map_row i f d) = t_contract_versions d"
  by (simp_all add: map_row_def)

lemma artifact_to_row_sel [simp]:
  "art_id (artifact_to_row a) = art_id a" "art_type (artifact_to_row a) = art_type a"
  "art_payload (artifact_to_row a) = dump_payload (art_payload a)"
  "art_status (artifact_to_row a) = art_status a" "created_by (artifact_to_row a) = created_by a"
  "created_at (artifact_to_row a) = created_at a" "is_root (artifact_to_row a) = is_root a"
  "superseded_by (artifact_to_row a) = superseded_by a"
  "revised_by (artifact_to_row a) = revised_by a" "objects (artifact_to_row a) = objects a"
  by (simp_all add: artifact_to_row_def)

lemma has_artifact_iff: "has_artifact i d \<longleftrightarrow> i \<in> art_id ` set (t_artifacts d)"
  by (auto simp: has_artifact_def)

lemma has_artifact_map_row [simp]:
  "(\<And>r. art_id (f r) = art_id r) \<Longrightarrow> has_artifact j (map_row i f d) = has_artifact j d"
  by (simp add: has_artifact_iff flip: set_map)

interpretation keys: db_invariant "\<lambda>c w. unique_keys c \<and> unique_keys w" "\<lambda>_. True"
  by unfold_locales (auto simp: unique_keys_def has_artifact_iff)

section \<open>Decodable payloads\<close>

definition row_ok :: "artifact_row \<Rightarrow> bool" where
  "row_ok r \<longleftrightarrow> (\<exists>p. load_payload (art_payload r) = Inr p)"

definition rows_ok :: "db \<Rightarrow> bool" where
  "rows_ok d \<longleftrightarrow> (\<forall>r \<in> set (t_artifacts d). row_ok r)"

definition storable :: "payload \<Rightarrow> bool" where
  "storable p \<longleftrightarrow> (\<exists>q. load_payload (dump_payload p) = Inr q)"

lemma rows_ok_map:
  "(\<And>r. art_payload (f r) = art_payload r) \<Longrightarrow> rows_ok d \<Longrightarrow> rows_ok (map_row i f d)"
  by (auto simp: rows_ok_def row_ok_def map_row_def)

interpretation rows: db_invariant "\<lambda>c w. rows_ok c \<and> rows_ok w" "\<lambda>a. storable (art_payload a)"
proof (unfold_locales, goal_cases)
  case (4 c w a) then show ?case by (auto simp: rows_ok_def row_ok_def storable_def)
qed (auto simp: rows_ok_def row_ok_def map_row_def)

section \<open>Sequences of store operations\<close>

text \<open>
  Everything the two store surfaces offer, as data: \<open>propose\<close> and \<open>put_object\<close> of \<open>Store\<close>, the
  privileged writes of \<open>CommitSink\<close>, the failure record, and a transaction around a sequence of
  writes. A transaction stops at its first exception.
\<close>

datatype store_call =
    Propose artifact operation
  | PutObject bytes
  | RecordDecision decision
  | SetStatus string artifact_status
  | AcceptSuperseding string string
  | LinkRevision string string
  | RegisterSchema schema_version
  | RegisterContract contract_version
  | RecordFailure string string "string option"
  | Transaction "store_call list"

definition void :: "'a store_op \<Rightarrow> unit store_op" where
  "void m = bindE m (\<lambda>_. ret ())"

fun run_call :: "store_call \<Rightarrow> unit store_op" where
  "run_call (Propose a p) = void (propose a p)"
| "run_call (PutObject b) = void (put_object b)"
| "run_call (RecordDecision d) = record_decision d"
| "run_call (SetStatus i st) = set_status i st"
| "run_call (AcceptSuperseding i j) = accept_superseding i j"
| "run_call (LinkRevision i j) = link_revision i j"
| "run_call (RegisterSchema v) = register_schema_version v"
| "run_call (RegisterContract v) = register_contract_version v"
| "run_call (RecordFailure k d t) = void (record_cycle_failure k d t)"
| "run_call (Transaction cs) = transaction (void (mapM run_call cs))"

text \<open>One operation from a quiescent store, and the states any sequence of them reaches.\<close>

inductive store_steps :: "store \<Rightarrow> store \<Rightarrow> bool" where
  steps_refl: "store_steps s s"
| steps_call: "store_steps s t \<Longrightarrow> store_steps s (snd (run_call c t))"

inductive_cases store_stepsE: "store_steps s t"

fun call_ok :: "(artifact \<Rightarrow> bool) \<Rightarrow> store_call \<Rightarrow> bool" where
  "call_ok ok (Propose a p) = ok a"
| "call_ok ok (Transaction cs) = list_all (call_ok ok) cs"
| "call_ok ok _ = True"

lemma call_ok_True [simp]: "call_ok (\<lambda>_. True) c"
  by (induction c) (auto simp: list_all_iff)

context db_invariant
begin

lemma inv_void: "keeps (store_inv Q) m \<Longrightarrow> keeps (store_inv Q) (void m)"
  by (simp add: void_def keeps_intros)

lemma inv_run_call: "call_ok ok c \<Longrightarrow> keeps (store_inv Q) (run_call c)"
proof (induction c)
  case (Transaction cs)
  then show ?case
    by (auto simp: transaction_def list_all_iff intro!: inv_tx inv_void keeps_mapM_set)
qed (auto intro!: inv_writes inv_void)

end

lemma hist_run_call: "keeps (store_inv (history d0)) (run_call c)"
  by (rule hist.inv_run_call) simp

lemma keys_run_call: "keeps (store_inv (\<lambda>c w. unique_keys c \<and> unique_keys w)) (run_call c)"
  by (rule keys.inv_run_call) simp
lemma keeps_void [keeps_intros]: "keeps P m \<Longrightarrow> keeps P (void m)"
  by (simp add: void_def keeps_intros)

lemma keeps_inside_run_call: "0 < n \<Longrightarrow> keeps (inside n c) (run_call k)"
proof (induction k arbitrary: n)
  case (Transaction cs)
  then show ?case
    by (auto simp: transaction_def intro!: keeps_inside_tx keeps_void keeps_mapM_set)
qed (auto intro!: keeps_intros)

lemma keeps_quiescent_run_call: "keeps quiescent (run_call k)"
proof (cases k)
  case (Transaction cs)
  then show ?thesis
    by (auto simp: transaction_def intro!: keeps_quiescent_tx keeps_void keeps_mapM_set
        keeps_inside_run_call)
qed (auto intro!: keeps_intros)

lemma steps_keep: "store_steps s t \<Longrightarrow> (\<And>c. keeps P (run_call c)) \<Longrightarrow> P s \<Longrightarrow> P t"
  by (induction rule: store_steps.induct) (auto simp: keeps_def)

lemma reopen_quiescent [simp]: "quiescent s \<Longrightarrow> working (reopen s) = working s"
  by (simp add: reopen_def open_store_def quiescent_def)

section \<open>What a returning write did\<close>

text \<open>The written value is the given one, up to a timestamp taken from the clock if it had none.\<close>

definition art_stamp :: "artifact \<Rightarrow> artifact \<Rightarrow> bool" where
  "art_stamp a x \<longleftrightarrow> x = a \<or> created_at a = '''' \<and> (\<exists>ts. x = a\<lparr>created_at := ts\<rparr>)"

definition op_stamp :: "operation \<Rightarrow> operation \<Rightarrow> bool" where
  "op_stamp p q \<longleftrightarrow> q = p \<or> op_created_at p = '''' \<and> (\<exists>ts. q = p\<lparr>op_created_at := ts\<rparr>)"

definition dec_stamp :: "decision \<Rightarrow> decision \<Rightarrow> bool" where
  "dec_stamp d e \<longleftrightarrow> e = d \<or> d_created_at d = '''' \<and> (\<exists>ts. e = d\<lparr>d_created_at := ts\<rparr>)"

lemma art_stamp_sel: "art_stamp a x \<Longrightarrow> art_id x = art_id a \<and> art_type x = art_type a \<and>
   art_payload x = art_payload a \<and> art_status x = art_status a \<and> created_by x = created_by a \<and>
   superseded_by x = superseded_by a \<and> revised_by x = revised_by a \<and> is_root x = is_root a \<and>
   objects x = objects a"
  by (auto simp: art_stamp_def)

lemma op_stamp_sel: "op_stamp p q \<Longrightarrow> op_id q = op_id p \<and> op_name q = op_name p \<and>
   parents q = parents p \<and> output_id q = output_id p \<and> op_status q = op_status p"
  by (auto simp: op_stamp_def)

lemma dec_stamp_sel: "dec_stamp d e \<Longrightarrow> d_artifact_id e = d_artifact_id d \<and> d_gate e = d_gate d \<and>
   d_verdict e = d_verdict d \<and> d_rationale e = d_rationale d \<and> d_defects e = d_defects d \<and>
   d_score e = d_score d"
  by (auto simp: dec_stamp_def)

lemma tx_InrE:
  assumes "tx body s = (Inr x, s')"
  obtains s2 where "body (s\<lparr>tx_depth := Suc (tx_depth s)\<rparr>) = (Inr x, s2)" "working s' = working s2"
    "ticks s' = ticks s2" "clock s' = clock s2" "sha256 s' = sha256 s2"
    "object_dir s' = object_dir s2" "dir_objects s' = dir_objects s2"
    "mem_objects s' = mem_objects s2" "write_error s' = write_error s2"
  using assms
  by (auto simp: tx_def Let_def commit_def split: prod.splits sum.splits if_splits)

lemma assert_fresh_id_Inr [simp]:
  "assert_fresh_id i s = (Inr u, s') \<longleftrightarrow> \<not> has_artifact i (working s) \<and> s' = s"
  by (auto simp: assert_fresh_id_def raise_def ret_def)

lemma assert_fresh_op_id_Inr [simp]:
  "assert_fresh_op_id i s = (Inr u, s') \<longleftrightarrow> i \<notin> op_id ` set (t_operations (working s)) \<and> s' = s"
  by (auto simp: assert_fresh_op_id_def raise_def ret_def)

lemma require_artifact_Inr [simp]:
  "require_artifact i s = (Inr u, s') \<longleftrightarrow> has_artifact i (working s) \<and> s' = s"
  by (auto simp: require_artifact_def raise_def ret_def)

lemma upd_Inr [simp]: "upd f s = (Inr u, s') \<longleftrightarrow> s' = s\<lparr>working := f (working s)\<rparr>"
  by (auto simp: upd_def modify_def)

lemma insert_artifact_Inr [simp]:
  "insert_artifact a s = (Inr u, s') \<longleftrightarrow> \<not> has_artifact (art_id a) (working s) \<and>
     s' = s\<lparr>working := (working s)\<lparr>t_artifacts := t_artifacts (working s) @ [artifact_to_row a]\<rparr>\<rparr>"
  by (auto simp: insert_artifact_def raise_def)

lemma or_clock_Inr:
  "or_clock x s = (Inr ts, s') \<Longrightarrow> working s' = working s \<and> tx_depth s' = tx_depth s \<and>
     committed s' = committed s \<and> (x \<noteq> '''' \<longrightarrow> ts = x)"
  by (auto simp: or_clock_def tick_def ret_def split: if_splits)

lemma insert_operation_Inr:
  assumes "insert_operation p s = (Inr u, s')"
  shows "op_id p \<notin> op_id ` set (t_operations (working s)) \<and> (\<exists>q. op_stamp p q \<and>
     working s' = (working s)\<lparr>t_operations := t_operations (working s) @ [q]\<rparr>)"
proof -
  obtain ts s1 where c: "or_clock (op_created_at p) s = (Inr ts, s1)"
    and n: "\<forall>q \<in> set (t_operations (working s1)). op_id q \<noteq> op_id p"
    and w: "working s' = (working s1)\<lparr>t_operations := t_operations (working s1) @
      [p\<lparr>op_created_at := ts\<rparr>]\<rparr>"
    using assms by (auto simp: insert_operation_def bindE_ok raise_def split: if_splits)
  have "op_stamp p (p\<lparr>op_created_at := ts\<rparr>)"
    using or_clock_Inr [OF c] by (cases "op_created_at p = ''''") (auto simp: op_stamp_def)
  then show ?thesis using or_clock_Inr [OF c] n w by auto
qed

lemma propose_Inr:
  assumes "propose a p s = (Inr x, s')"
  shows "art_status a = PROPOSED \<and> \<not> has_artifact (art_id a) (working s) \<and>
     op_id p \<notin> op_id ` set (t_operations (working s)) \<and> art_stamp a x \<and>
     (\<exists>q. op_stamp p q \<and> working s' = (working s)\<lparr>
       t_artifacts := t_artifacts (working s) @ [artifact_to_row x],
       t_operations := t_operations (working s) @ [q]\<rparr>)"
proof -
  let ?stamp = "if created_at a \<noteq> [] then ret a
    else bindE tick (\<lambda>now. ret (a\<lparr>created_at := now\<rparr>))"
  let ?body = "bindE (assert_fresh_id (art_id x)) (\<lambda>_. bindE (assert_fresh_op_id (op_id p))
    (\<lambda>_. bindE (insert_artifact x) (\<lambda>_. insert_operation p)))"
  have p: "art_status a = PROPOSED"
    using assms by (auto simp: propose_def raise_def split: if_splits)
  with assms obtain s1 u where st: "?stamp s = (Inr x, s1)" and t: "tx ?body s1 = (Inr u, s')"
    by (auto simp: propose_def bindE_ok ret_def)
  have s1: "working s1 = working s" "art_stamp a x"
    using st by (auto simp: bindE_ok ret_def tick_def art_stamp_def split: if_splits)
  obtain s2 where b: "?body (s1\<lparr>tx_depth := Suc (tx_depth s1)\<rparr>) = (Inr u, s2)"
    and w: "working s' = working s2" using t by (rule tx_InrE) blast
  have "\<not> has_artifact (art_id x) (working s1)" "op_id p \<notin> op_id ` set (t_operations (working s1))"
    "\<exists>q. op_stamp p q \<and> working s2 = (working s1)\<lparr>
       t_artifacts := t_artifacts (working s1) @ [artifact_to_row x],
       t_operations := t_operations (working s1) @ [q]\<rparr>"
    using b by (auto simp: bindE_ok dest!: insert_operation_Inr)
  then show ?thesis using p s1 w art_stamp_sel [OF s1(2)] by simp
qed
lemma set_status_Inr:
  "set_status i st s = (Inr u, s') \<Longrightarrow> has_artifact i (working s) \<and>
     working s' = map_row i (\<lambda>r. r\<lparr>art_status := st\<rparr>) (working s)"
  by (auto simp: set_status_def bindE_ok elim!: tx_InrE)

lemma accept_superseding_Inr:
  "accept_superseding i j s = (Inr u, s') \<Longrightarrow>
     has_artifact i (working s) \<and> has_artifact j (working s) \<and>
     working s' = map_row j (\<lambda>r. r\<lparr>art_status := SUPERSEDED, superseded_by := Some i\<rparr>)
       (map_row i (\<lambda>r. r\<lparr>art_status := ACCEPTED\<rparr>) (working s))"
  by (auto simp: accept_superseding_def bindE_ok elim!: tx_InrE)

lemma link_revision_Inr:
  "link_revision i j s = (Inr u, s') \<Longrightarrow>
     has_artifact i (working s) \<and> has_artifact j (working s) \<and>
     working s' = map_row i (\<lambda>r. r\<lparr>art_status := REVISED, revised_by := Some j\<rparr>) (working s)"
  by (auto simp: link_revision_def bindE_ok elim!: tx_InrE)

lemma record_decision_Inr:
  assumes "record_decision d s = (Inr u, s')"
  shows "\<exists>e. dec_stamp d e \<and>
     working s' = (working s)\<lparr>t_decisions := t_decisions (working s) @ [e]\<rparr>"
proof -
  obtain e s1 where st: "(if d_created_at d \<noteq> [] then ret d
      else bindE tick (\<lambda>now. ret (d\<lparr>d_created_at := now\<rparr>))) s = (Inr e, s1)"
    and t: "tx (insert_decision e) s1 = (Inr u, s')"
    using assms by (auto simp: record_decision_def bindE_ok)
  have "working s1 = working s" "dec_stamp d e"
    using st by (auto simp: bindE_ok ret_def tick_def dec_stamp_def split: if_splits)
  then show ?thesis using t by (auto simp: insert_decision_def elim!: tx_InrE)
qed
lemma record_cycle_failure_Inr:
  "record_cycle_failure k d t s = (Inr f, s') \<Longrightarrow> cf_kind f = k \<and> cf_detail f = d \<and>
     cf_transcript_ref f = t \<and>
     working s' = (working s)\<lparr>t_cycle_failures := t_cycle_failures (working s) @ [f]\<rparr>"
  by (auto simp: record_cycle_failure_def insert_cycle_failure_def Let_def bindE_ok ret_def raise_def tick_def
      elim!: tx_InrE split: option.splits)

section \<open>Reading rows back\<close>

lemma rows_extend_find:
  assumes "rows_extend rs rs'" "List.find (\<lambda>r. art_id r = i) rs = Some r"
  shows "\<exists>r'. List.find (\<lambda>r. art_id r = i) rs' = Some r' \<and> row_frozen r r'"
proof -
  obtain old new where o: "rs' = old @ new" "list_all2 row_frozen rs old"
    using assms(1) by (auto simp: rows_extend_def)
  have "\<exists>r'. List.find (\<lambda>r. art_id r = i) (old @ new) = Some r' \<and> row_frozen r r'"
    using o(2) assms(2)
    by (induction rule: list_all2_induct) (auto simp: row_frozen_def split: if_splits)
  then show ?thesis using o(1) by simp
qed

lemma find_fresh: "\<not> has_artifact i d \<Longrightarrow>
  List.find (\<lambda>r. art_id r = i) (t_artifacts d @ rs) = List.find (\<lambda>r. art_id r = i) rs"
proof -
  have "i \<notin> art_id ` set xs \<Longrightarrow>
    List.find (\<lambda>r. art_id r = i) (xs @ rs) = List.find (\<lambda>r. art_id r = i) rs" for xs
    by (induction xs) auto
  then show "\<not> has_artifact i d \<Longrightarrow> ?thesis" by (simp add: has_artifact_iff)
qed

lemma steps_history:
  assumes "store_steps s t" "quiescent s"
  shows "append_only (working s) (working t) \<and> append_only (committed s) (committed t)"
proof -
  have "store_inv (history (committed s)) s"
    using assms(2) by (simp add: store_inv_def history_def quiescent_def)
  then have "store_inv (history (committed s)) t"
    using steps_keep [OF assms(1)] hist_run_call by blast
  moreover have "quiescent t"
    using steps_keep [OF assms(1) keeps_quiescent_run_call assms(2)] .
  ultimately show ?thesis using assms(2) by (auto simp: store_inv_def history_def quiescent_def)
qed

lemma query_all_bad:
  assumes "r \<in> set (t_artifacts (working s))" "\<not> row_ok r"
  shows "\<exists>e. query_artifacts None None s = Inl e"
proof -
  have "\<exists>e. row_to_artifact r = Inl e"
    using assms(2) by (cases "load_payload (art_payload r)") (auto simp: row_to_artifact_def row_ok_def)
  then show ?thesis
    unfolding query_artifacts_def
    using assms(1) by (auto intro!: mapE_eq_Inl [of r])
qed

lemma get_artifact_id: "get_artifact i s = Inr (Some a) \<Longrightarrow> art_id a = i"
  by (auto simp: get_artifact_def bindS_eq_Inr row_to_artifact_def row_with_def
      dest: find_Some_in split: option.splits)

lemma get_artifact_total:
  assumes "rows_ok (working s)"
  shows "\<exists>found. get_artifact i s = Inr found"
proof (cases "List.find (\<lambda>r. art_id r = i) (t_artifacts (working s))")
  case (Some r)
  then have "row_ok r" using assms find_Some_in [OF Some] by (simp add: rows_ok_def)
  then show ?thesis using Some by (auto simp: get_artifact_def row_ok_def row_to_artifact_def)
qed (simp add: get_artifact_def)

lemma get_artifact_known:
  assumes "rows_ok (working s)" "has_artifact i (working s)"
  shows "\<exists>a. get_artifact i s = Inr (Some a)"
proof -
  obtain r where r: "List.find (\<lambda>r. art_id r = i) (t_artifacts (working s)) = Some r"
    using assms(2) by (cases "List.find (\<lambda>r. art_id r = i) (t_artifacts (working s))")
      (auto simp: has_artifact_def find_None_iff)
  then have "row_ok r" using assms(1) find_Some_in [OF r] by (simp add: rows_ok_def)
  then show ?thesis using r by (auto simp: get_artifact_def row_ok_def row_to_artifact_def)
qed

section \<open>Evaluating store operations on concrete stores\<close>

lemmas store_eval = tx_def bindE_def ret_def raise_def upd_def modify_def tick_def or_clock_def
  commit_def rollback_def propose_def record_decision_def set_status_def accept_superseding_def
  link_revision_def insert_artifact_def insert_operation_def insert_decision_def
  assert_fresh_id_def assert_fresh_op_id_def require_artifact_def has_artifact_def map_row_def
  put_object_def Let_def void_def transaction_def artifact_to_row_def dump_payload_def
  open_store_def empty_db_def

section \<open>Claims\<close>

text \<open>A small store for the witnesses: in memory, a constant clock, a toy hash.\<close>

definition demo_hash :: "bytes \<Rightarrow> string" where
  "demo_hash b = concat (map (\<lambda>w. nat_str (unat w) @ ''.'') b)"

definition demo_store :: store where
  "demo_store = open_store empty_db [] False (\<lambda>_. None) (\<lambda>_. None) demo_hash (\<lambda>_. ''2026'')"

definition demo_artifact :: "string \<Rightarrow> payload \<Rightarrow> artifact" where
  "demo_artifact i p = \<lparr>art_id = i, art_type = ''Note'', art_payload = p, art_status = PROPOSED,
     created_by = ''agent'', created_at = '''', superseded_by = None, revised_by = None,
     is_root = False, objects = []\<rparr>"

definition demo_operation :: "string \<Rightarrow> string \<Rightarrow> operation" where
  "demo_operation i out = \<lparr>op_id = i, op_name = ''author'', parents = [], output_id = out,
     op_status = SUCCESS, op_created_at = ''2026''\<rparr>"

definition demo_with :: "artifact list \<Rightarrow> operation list \<Rightarrow> store" where
  "demo_with as ps = open_store (empty_db\<lparr>t_artifacts := map artifact_to_row as,
     t_operations := ps\<rparr>) [] False (\<lambda>_. None) (\<lambda>_. None) demo_hash (\<lambda>_. ''2026'')"

lemma demo_with_sel [simp]:
  "working (demo_with as ps) = empty_db\<lparr>t_artifacts := map artifact_to_row as, t_operations := ps\<rparr>"
  "committed (demo_with as ps) = working (demo_with as ps)" "tx_depth (demo_with as ps) = 0"
  "quiescent (demo_with as ps)"
  by (simp_all add: demo_with_def open_store_def quiescent_def)

lemma demo_quiescent [simp]: "quiescent demo_store"
  by (simp add: demo_store_def open_store_def quiescent_def)

lemma demo_committed [simp]: "committed demo_store = empty_db" "working demo_store = empty_db"
  by (simp_all add: demo_store_def open_store_def)

text \<open>No sequence of store operations rewrites history: whatever calls run (returning or
  raising, inside or outside transactions), every artifact row of the durable record is still
  there with the same id, type, payload, proposer, timestamp, root flag and object sidecar, every
  operation, decision, failure and version row is still there in order, and the store is left with
  no open transaction.\<close>

lemma store_history_append_only:
  assumes "quiescent s" "store_steps s t"
  shows "append_only (committed s) (committed t) \<and> quiescent t"
  using steps_history [OF assms(2,1)] steps_keep [OF assms(2) keeps_quiescent_run_call assms(1)]
  by blast

lemma store_history_append_only_witness:
  "append_only empty_db (committed (snd (run_call (SetStatus ''a'' ACCEPTED)
     (snd (run_call (Propose (demo_artifact ''a'' (PJson JNull)) (demo_operation ''o'' ''a'')) demo_store)))))"
proof -
  have "store_steps demo_store (snd (run_call (SetStatus ''a'' ACCEPTED)
     (snd (run_call (Propose (demo_artifact ''a'' (PJson JNull)) (demo_operation ''o'' ''a'')) demo_store))))"
    by (intro steps_call steps_refl)
  from store_history_append_only [OF demo_quiescent this] show ?thesis by simp
qed

text \<open>Ids are never reused: in every database a store started empty can reach, artifact ids,
  operation ids and schema and contract versions are pairwise distinct, so \<open>get_artifact\<close> finds
  the one row that has the id.\<close>

lemma store_ids_never_reused:
  assumes "working s = empty_db" "committed s = empty_db" "store_steps s t"
    "r \<in> set (t_artifacts (working t))"
  shows "unique_keys (committed t) \<and> unique_keys (working t) \<and>
    get_artifact (art_id r) t = bindS (row_to_artifact r) (\<lambda>a. Inr (Some a))"
proof -
  have "store_inv (\<lambda>c w. unique_keys c \<and> unique_keys w) s"
    using assms(1,2) by (simp add: store_inv_def unique_keys_def empty_db_def)
  then have u: "unique_keys (committed t) \<and> unique_keys (working t)"
    using steps_keep [OF assms(3) keys_run_call] by (simp add: store_inv_def)
  then have "List.find (\<lambda>q. art_id q = art_id r) (t_artifacts (working t)) = Some r"
    using assms(4) by (intro find_key_unique) (auto simp: unique_keys_def)
  then show ?thesis using u by (simp add: get_artifact_def)
qed

lemma store_ids_never_reused_witness:
  "\<exists>t r. store_steps demo_store t \<and> t_artifacts (working t) = [r] \<and> art_id r = ''a'' \<and>
     unique_keys (working t) \<and>
     get_artifact ''a'' t = bindS (row_to_artifact r) (\<lambda>a. Inr (Some a))"
proof -
  let ?t = "snd (run_call (Propose (demo_artifact ''a'' (PJson JNull)) (demo_operation ''o'' ''a'')) demo_store)"
  let ?r = "artifact_to_row ((demo_artifact ''a'' (PJson JNull))\<lparr>created_at := ''2026''\<rparr>)"
  have st: "store_steps demo_store ?t" by (intro steps_call steps_refl)
  have r: "t_artifacts (working ?t) = [?r]" "art_id ?r = ''a''"
    by (simp_all add: store_eval demo_store_def demo_artifact_def demo_operation_def)
  show ?thesis
    using store_ids_never_reused [OF demo_committed(2) demo_committed(1) st, of ?r] st r
    by (intro exI [of _ ?t] exI [of _ ?r]) simp
qed

text \<open>C11. A transaction is all or nothing and durable: if any write in it raises, both the durable
  and the visible database are exactly what they were, decisions and statuses included; if it
  returns, everything it wrote is visible, committed, and still there when the file is reopened.\<close>

theorem transaction_all_or_nothing:
  assumes "quiescent s" "run_call (Transaction cs) s = (r, s')"
  shows "case r of
      Inl e \<Rightarrow> working s' = working s \<and> committed s' = committed s \<and> tx_depth s' = 0
    | Inr u \<Rightarrow> tx_depth s' = 0 \<and> committed s' = working s' \<and> working (reopen s') = working s' \<and>
        (\<exists>s2. mapM run_call cs (s\<lparr>tx_depth := 1\<rparr>) = (Inr (map (\<lambda>_. ()) cs), s2) \<and>
              working s' = working s2)"
proof -
  have k: "keeps (inside 1 (committed s)) (void (mapM run_call cs))"
    by (intro keeps_void keeps_mapM keeps_inside_run_call) simp
  have t: "tx (void (mapM run_call cs)) s = (r, s')" using assms(2) by (simp add: transaction_def)
  have len: "mapM run_call cs x = (Inr us, y) \<Longrightarrow> us = map (\<lambda>_. ()) cs" for x us y
    by (induction cs arbitrary: x us y) (auto simp: bindE_ok ret_def)
  show ?thesis
  proof (cases r)
    case (Inl e)
    then show ?thesis using tx_atomic [OF assms(1) k t] by simp
  next
    case (Inr u)
    then have f: "tx_depth s' = 0 \<and> committed s' = working s' \<and>
        (\<exists>s2. void (mapM run_call cs) (s\<lparr>tx_depth := 1\<rparr>) = (Inr u, s2) \<and> working s' = working s2)"
      using tx_atomic [OF assms(1) k t] by simp
    then obtain us s2 where "mapM run_call cs (s\<lparr>tx_depth := 1\<rparr>) = (Inr us, s2)" "working s' = working s2"
      by (auto simp: void_def bindE_ok ret_def)
    then show ?thesis using f Inr len
      by (auto simp: reopen_def open_store_def)
  qed
qed

theorem transaction_all_or_nothing_witness:
  "\<exists>e s'. run_call (Transaction [Propose (demo_artifact ''a'' (PJson JNull)) (demo_operation ''o'' ''a''),
       SetStatus ''zz'' ACCEPTED]) demo_store = (Inl e, s') \<and> working s' = empty_db"
proof -
  let ?cs = "[Propose (demo_artifact ''a'' (PJson JNull)) (demo_operation ''o'' ''a''),
    SetStatus ''zz'' ACCEPTED]"
  obtain r s' where r: "run_call (Transaction ?cs) demo_store = (r, s')" by fastforce
  have "\<exists>e. r = Inl e"
    using r by (auto simp: store_eval demo_store_def demo_artifact_def demo_operation_def)
  then show ?thesis using transaction_all_or_nothing [OF demo_quiescent r] r by auto
qed

text \<open>The object store returns what was put in: after \<open>put_object\<close> returns a reference, the
  bytes are read back from it, and every object with another hash is still readable as before;
  if the file system refuses the write, the result is a \<open>StoreError\<close> and nothing changes.\<close>

lemma object_roundtrip:
  assumes "put_object data s = (r, s')"
  shows "case r of
      Inr ref \<Rightarrow> content_hash ref = sha256 s data \<and> get_object (content_hash ref) s' = Inr data \<and>
        (\<forall>h. h \<noteq> content_hash ref \<longrightarrow> get_object h s' = get_object h s) \<and> working s' = working s
    | Inl e \<Rightarrow> s' = s \<and> object_dir s \<and> (\<exists>m. e = StoreError m)"
  using assms
  by (auto simp: put_object_def get_object_def Let_def ret_def raise_def split: if_splits option.splits)

lemma object_roundtrip_witness:
  "\<exists>ref s'. put_object [1, 2] demo_store = (Inr ref, s') \<and> get_object (content_hash ref) s' = Inr [1, 2]"
proof -
  obtain r s' where r: "put_object [1, 2] demo_store = (r, s')" by fastforce
  then have "\<exists>ref. r = Inr ref" by (auto simp: store_eval demo_store_def)
  then show ?thesis using object_roundtrip [OF r] r by auto
qed

text \<open>The payload column loses nothing but the marker: a payload comes back from the database as
  it was proposed unless it is a JSON object with the key \<open>__object_ref__\<close>; such an object comes
  back as an object reference, or makes the row undecodable.\<close>

lemma payload_column_roundtrip:
  "load_payload (dump_payload p) = Inr p \<longleftrightarrow>
     (\<forall>kvs. p = PJson (JObj kvs) \<longrightarrow> map_of kvs OBJECT_REF_MARKER = None)"
proof (cases p)
  case (PRef r)
  then show ?thesis
    by (cases r) (simp add: load_payload_def dump_payload_def OBJECT_REF_MARKER_def json_defs)
next
  case (PJson j)
  then show ?thesis
    by (auto simp: load_payload_def dump_payload_def bindS_eq_Inr split: json.splits option.splits)
qed

lemma payload_column_roundtrip_witness:
  "load_payload (dump_payload (PJson (JObj [(''text'', JStr ''x'')]))) = Inr (PJson (JObj [(''text'', JStr ''x'')]))"
  unfolding payload_column_roundtrip by (simp add: OBJECT_REF_MARKER_def)

text \<open>One undecodable payload disables the store for good: if a payload whose marker is malformed
  was proposed successfully, then in every state any later operations lead to, listing the
  artifacts raises and reading that artifact raises.\<close>

lemma poisoned_payload_is_permanent:
  assumes "propose a p s = (Inr x, s')" "\<not> storable (art_payload a)" "quiescent s'"
    "store_steps s' t"
  shows "(\<exists>e. query_artifacts None None t = Inl e) \<and> (\<exists>e. get_artifact (art_id a) t = Inl e)"
proof -
  let ?r = "artifact_to_row x"
  obtain q where w: "working s' = (working s)\<lparr>t_artifacts := t_artifacts (working s) @ [?r],
      t_operations := t_operations (working s) @ [q]\<rparr>"
    and fresh: "\<not> has_artifact (art_id a) (working s)" and x: "art_stamp a x"
    using propose_Inr [OF assms(1)] by blast
  note sel = art_stamp_sel [OF x]
  have "List.find (\<lambda>r. art_id r = art_id a) (t_artifacts (working s')) = Some ?r"
    using w fresh sel by (simp add: find_fresh)
  moreover have "rows_extend (t_artifacts (working s')) (t_artifacts (working t))"
    using steps_history [OF assms(4,3)] by (simp add: append_only_def)
  ultimately obtain r' where f: "List.find (\<lambda>r. art_id r = art_id a) (t_artifacts (working t)) = Some r'"
    and fr: "row_frozen ?r r'" using rows_extend_find by blast
  have bad: "\<not> row_ok r'" using fr assms(2) sel by (simp add: row_ok_def row_frozen_def storable_def)
  then have "\<exists>e. row_to_artifact r' = Inl e"
    by (cases "load_payload (art_payload r')") (auto simp: row_to_artifact_def row_ok_def)
  then show ?thesis
    using query_all_bad [OF _ bad, of t] find_Some_in [OF f] f by (auto simp: get_artifact_def)
qed

lemma poisoned_payload_is_permanent_witness:
  "\<exists>x s' e. propose (demo_artifact ''a'' (PJson (JObj [(''__object_ref__'', JStr ''boom'')])))
       (demo_operation ''o'' ''a'') demo_store = (Inr x, s') \<and> query_artifacts None None s' = Inl e"
proof -
  let ?a = "demo_artifact ''a'' (PJson (JObj [(''__object_ref__'', JStr ''boom'')]))"
  obtain r s' where r: "propose ?a (demo_operation ''o'' ''a'') demo_store = (r, s')" by fastforce
  have "\<exists>x. r = Inr x"
    using r by (auto simp: store_eval demo_store_def demo_artifact_def demo_operation_def)
  moreover have "\<not> storable (art_payload ?a)"
    by (simp add: storable_def demo_artifact_def dump_payload_def load_payload_def
        OBJECT_REF_MARKER_def json_defs)
  moreover have "quiescent s'"
    using keepsD [OF keeps_quiescent_propose demo_quiescent r] .
  ultimately show ?thesis using poisoned_payload_is_permanent r steps_refl by blast
qed

end
