(* ===== verification/Independence.thy ===== *)
theory Independence
  imports Store_Audit
begin

text \<open>
  \<open>control_plane/independence.py\<close>: the slice of the store a gate may see. A declaration is the list
  of declared inputs in the iteration order of the \<open>frozenset\<close>; the slice is the union of what the
  providers cut for them.
\<close>

datatype store_input = INCUMBENTS | REJECTED_LOG

fun store_input_value :: "store_input \<Rightarrow> string" where
  "store_input_value INCUMBENTS = ''incumbents''"
| "store_input_value REJECTED_LOG = ''rejected_log''"

type_synonym provider = "store \<Rightarrow> artifact \<Rightarrow> exc + artifact list"

text \<open>The table of providers; a lookup may miss, as \<open>dict.get\<close> may.\<close>

definition STORE_INPUT_PROVIDERS :: "store_input \<Rightarrow> provider option" where
  "STORE_INPUT_PROVIDERS k = (case k of
      INCUMBENTS \<Rightarrow> Some (\<lambda>s a. query_artifacts (Some (art_type a)) (Some ACCEPTED) s)
    | REJECTED_LOG \<Rightarrow> Some (\<lambda>s a. rejected_log (Some (art_type a)) s))"

definition cut_input :: "store \<Rightarrow> artifact \<Rightarrow> store_input \<Rightarrow> exc + (store_input \<times> artifact) list" where
  "cut_input s a kind = (case STORE_INPUT_PROVIDERS kind of
      None \<Rightarrow> Inl (IndependenceViolation (''gate declares store-input '' @
        py_repr (store_input_value kind) @ '', which the control plane cannot provide''))
    | Some provider \<Rightarrow> bindS (provider s a) (\<lambda>arts. Inr (map (Pair kind) arts)))"

definition resolve_declared_slice ::
    "store \<Rightarrow> artifact \<Rightarrow> store_input list \<Rightarrow> exc + artifact list" where
  "resolve_declared_slice s a declared =
     bindS (mapE (cut_input s a) declared) (\<lambda>parts.
       let tagged = concat parts;
           leaked = filter (\<lambda>(kind, _). kind \<notin> set declared) tagged
       in if leaked \<noteq> []
          then Inl (IndependenceViolation (''resolved slice for '' @ py_repr (art_id a) @
                 '' carries undeclared inputs''))
          else Inr (map snd tagged))"

lemma row_to_artifact_sel:
  "row_to_artifact r = Inr a \<Longrightarrow> art_id a = art_id r \<and> art_type a = art_type r \<and>
     art_status a = art_status r \<and> created_by a = created_by r \<and> created_at a = created_at r \<and>
     superseded_by a = superseded_by r \<and> revised_by a = revised_by r \<and> is_root a = is_root r \<and>
     objects a = objects r \<and> load_payload (art_payload r) = Inr (art_payload a)"
  by (auto simp: row_to_artifact_def row_with_def bindS_eq_Inr)

lemma query_artifacts_in:
  assumes "query_artifacts ty st s = Inr arts" "a \<in> set arts"
  shows "\<exists>r \<in> set (t_artifacts (working s)). row_to_artifact r = Inr a \<and>
    (\<forall>t. ty = Some t \<longrightarrow> art_type a = t) \<and> (\<forall>t. st = Some t \<longrightarrow> art_status a = t)"
proof -
  obtain r where "r \<in> set (t_artifacts (working s))" "row_to_artifact r = Inr a"
    "case ty of Some t \<Rightarrow> art_type r = t | None \<Rightarrow> True"
    "case st of Some t \<Rightarrow> art_status r = t | None \<Rightarrow> True"
    using assms by (fastforce simp: query_artifacts_def mapE_eq_Inr_iff dest: list_all2_setD2)
  then show ?thesis
    by (intro bexI [of _ r]) (auto dest!: row_to_artifact_sel split: option.splits)
qed

lemma query_artifacts_complete:
  assumes "query_artifacts ty st s = Inr arts" "r \<in> set (t_artifacts (working s))"
    "\<forall>t. ty = Some t \<longrightarrow> art_type r = t" "\<forall>t. st = Some t \<longrightarrow> art_status r = t"
  shows "\<exists>a \<in> set arts. row_to_artifact r = Inr a"
proof -
  have "r \<in> set (sort_key (\<lambda>r. (created_at r, art_id r)) (filter (\<lambda>r.
      (case ty of Some t \<Rightarrow> art_type r = t | None \<Rightarrow> True) \<and>
      (case st of Some t \<Rightarrow> art_status r = t | None \<Rightarrow> True)) (t_artifacts (working s))))"
    using assms(2-4) by (auto split: option.split)
  then show ?thesis
    using assms(1) unfolding query_artifacts_def mapE_eq_Inr_iff by (rule list_all2_setD1 [rotated])
qed

lemma cut_input_Inr:
  "cut_input s a k = Inr p \<longleftrightarrow> (\<exists>arts. p = map (Pair k) arts \<and>
     query_artifacts (Some (art_type a)) (Some (case k of INCUMBENTS \<Rightarrow> ACCEPTED | REJECTED_LOG \<Rightarrow> REJECTED)) s
       = Inr arts)"
  by (cases k) (auto simp: cut_input_def STORE_INPUT_PROVIDERS_def rejected_log_def bindS_eq_Inr)

lemma slice_no_leak:
  assumes "mapE (cut_input s a) declared = Inr parts" "(k, x) \<in> set (concat parts)"
  shows "k \<in> set declared \<and> (\<exists>p \<in> set parts. cut_input s a k = Inr p \<and> (k, x) \<in> set p)"
proof -
  obtain p where p: "p \<in> set parts" "(k, x) \<in> set p" using assms(2) by auto
  then obtain k' where k': "k' \<in> set declared" "cut_input s a k' = Inr p"
    using assms(1) by (auto simp: mapE_eq_Inr_iff dest: list_all2_setD2)
  have "k' = k" using k'(2) p(2) by (auto simp: cut_input_Inr)
  then show ?thesis using k' p by blast
qed

text \<open>The result, without the tags and the audit that cannot fail.\<close>

lemma resolve_declared_slice_eq:
  "resolve_declared_slice s a declared =
     bindS (mapE (cut_input s a) declared) (\<lambda>parts. Inr (map snd (concat parts)))"
proof (cases "mapE (cut_input s a) declared")
  case (Inr parts)
  have "filter (\<lambda>(kind, _). kind \<notin> set declared) (concat parts) = []"
    unfolding filter_empty_conv using slice_no_leak [OF Inr] by (auto split: prod.split)
  then show ?thesis using Inr by (simp add: resolve_declared_slice_def Let_def)
qed (simp add: resolve_declared_slice_def)

text \<open>A gate sees exactly what it declared: the slice holds the accepted artifacts of the proposal's
  type if and only if incumbents were declared, its rejected artifacts if and only if the rejected
  log was declared, and nothing else; a gate that declares nothing gets the empty slice, and the
  independence violation is never raised.\<close>

lemma slice_is_declared_inputs:
  assumes "resolve_declared_slice s a declared = Inr visible"
  shows "x \<in> set visible \<longleftrightarrow> (\<exists>r \<in> set (t_artifacts (working s)). row_to_artifact r = Inr x \<and>
      art_type x = art_type a \<and>
      (art_status x = ACCEPTED \<and> INCUMBENTS \<in> set declared \<or>
       art_status x = REJECTED \<and> REJECTED_LOG \<in> set declared))"
    (is "?in \<longleftrightarrow> ?spec")
proof -
  let ?st = "\<lambda>k. case k of INCUMBENTS \<Rightarrow> ACCEPTED | REJECTED_LOG \<Rightarrow> REJECTED"
  obtain parts where parts: "mapE (cut_input s a) declared = Inr parts"
    and vis: "visible = map snd (concat parts)"
    using assms by (auto simp: resolve_declared_slice_eq bindS_eq_Inr)
  show ?thesis
  proof
    assume ?in
    then obtain k where "(k, x) \<in> set (concat parts)" unfolding vis by force
    from slice_no_leak [OF parts this] obtain arts where k: "k \<in> set declared"
      and q: "query_artifacts (Some (art_type a)) (Some (?st k)) s = Inr arts" "x \<in> set arts"
      by (auto simp: cut_input_Inr)
    from query_artifacts_in [OF q] k show ?spec by (cases k) auto
  next
    assume ?spec
    then obtain r k where r: "r \<in> set (t_artifacts (working s))" "row_to_artifact r = Inr x"
      and k: "k \<in> set declared" "art_status x = ?st k" "art_type x = art_type a" by force
    obtain p where p: "p \<in> set parts" "cut_input s a k = Inr p"
      using parts k(1) by (auto simp: mapE_eq_Inr_iff dest: list_all2_setD1)
    then obtain arts where arts: "p = map (Pair k) arts"
      "query_artifacts (Some (art_type a)) (Some (?st k)) s = Inr arts" by (auto simp: cut_input_Inr)
    have "x \<in> set arts"
      using query_artifacts_complete [OF arts(2) r(1)] row_to_artifact_sel [OF r(2)] r(2) k by auto
    then show ?in using vis p(1) arts(1) by force
  qed
qed

lemma slice_is_declared_inputs_witness:
  "\<exists>visible. resolve_declared_slice
       (demo_with [(demo_artifact ''a'' (PJson JNull))\<lparr>art_status := ACCEPTED\<rparr>] [])
       (demo_artifact ''b'' (PJson JNull)) [INCUMBENTS] = Inr visible \<and>
     (demo_artifact ''a'' (PJson JNull))\<lparr>art_status := ACCEPTED\<rparr> \<in> set visible"
proof -
  let ?x = "(demo_artifact ''a'' (PJson JNull))\<lparr>art_status := ACCEPTED\<rparr>"
  let ?s = "demo_with [?x] []"
  have r: "row_to_artifact (artifact_to_row ?x) = Inr ?x"
    by (simp add: row_to_artifact_def row_with_def artifact_to_row_def demo_artifact_def
        dump_payload_def load_payload_def)
  have "\<exists>v. resolve_declared_slice ?s (demo_artifact ''b'' (PJson JNull)) [INCUMBENTS] = Inr v"
    using r by (simp add: resolve_declared_slice_eq cut_input_def STORE_INPUT_PROVIDERS_def
        query_artifacts_def empty_db_def demo_artifact_def)
  then obtain v where v: "resolve_declared_slice ?s (demo_artifact ''b'' (PJson JNull)) [INCUMBENTS] = Inr v"
    by blast
  have "?x \<in> set v"
    unfolding slice_is_declared_inputs [OF v, of ?x] using r by (simp add: demo_artifact_def)
  then show ?thesis using v by blast
qed
end
