(* ===== verification/Registries.thy ===== *)
theory Registries
  imports Independence
begin

text \<open>
  \<open>control_plane/registries.py\<close>, first half: the schema registry, the gated-type registry and the
  default retrieval policy, with the interface a retrieval policy promises to context assembly.
\<close>

section \<open>Schema registry\<close>

record artifact_type_def =
  td_name :: string
  td_is_root :: bool

record operation_signature =
  sig_name :: string
  sig_inputs :: "string list"
  sig_output :: string
  required_payload_keys :: "string list"
  object_payload_keys :: "string list"

record schema_registry =
  sr_types :: "(string \<times> artifact_type_def) list"
  sr_operations :: "(string \<times> operation_signature) list"

definition empty_schema :: schema_registry where
  "empty_schema = \<lparr>sr_types = [], sr_operations = []\<rparr>"

definition register_type :: "artifact_type_def \<Rightarrow> schema_registry \<Rightarrow> exc + schema_registry" where
  "register_type td sr =
     (if td_name td \<in> fst ` set (sr_types sr)
      then Inl (RegistryError (''artifact type already registered: '' @ py_repr (td_name td)))
      else Inr (sr\<lparr>sr_types := dict_put (td_name td) td (sr_types sr)\<rparr>))"

definition register_operation ::
    "operation_signature \<Rightarrow> schema_registry \<Rightarrow> exc + schema_registry" where
  "register_operation sg sr =
     (if sig_name sg \<in> fst ` set (sr_operations sr)
      then Inl (RegistryError (''operation already registered: '' @ py_repr (sig_name sg)))
      else case List.find (\<lambda>t. t \<notin> fst ` set (sr_types sr)) (sig_inputs sg @ [sig_output sg]) of
        Some t \<Rightarrow> Inl (RegistryError (''operation '' @ py_repr (sig_name sg) @
                   '' references unknown type '' @ py_repr t))
      | None \<Rightarrow> Inr (sr\<lparr>sr_operations := dict_put (sig_name sg) sg (sr_operations sr)\<rparr>))"

definition sr_type :: "schema_registry \<Rightarrow> string \<Rightarrow> artifact_type_def option" where
  "sr_type sr n = map_of (sr_types sr) n"

definition sr_operation :: "schema_registry \<Rightarrow> string \<Rightarrow> operation_signature option" where
  "sr_operation sr n = map_of (sr_operations sr) n"

definition schema_snapshot :: "schema_registry \<Rightarrow> int \<Rightarrow> string \<Rightarrow> schema_version" where
  "schema_snapshot sr version now =
     \<lparr>sv_version = version, sv_types = sort (map fst (sr_types sr)),
      sv_op_signatures = sort (map fst (sr_operations sr)), sv_created_at = now\<rparr>"

section \<open>Gated types\<close>

type_synonym gated_types = "(string \<times> store_input list) list"

definition gate_type :: "string \<Rightarrow> store_input list \<Rightarrow> gated_types \<Rightarrow> exc + gated_types" where
  "gate_type ty inputs g =
     (if ty \<in> fst ` set g
      then Inl (RegistryError (''type already registered as gated: '' @ py_repr ty))
      else Inr (dict_put ty inputs g))"

definition resolve_gate :: "gated_types \<Rightarrow> string \<Rightarrow> store_input list option" where
  "resolve_gate g ty = map_of g ty"

definition is_gated :: "gated_types \<Rightarrow> string \<Rightarrow> bool" where
  "is_gated g ty = (ty \<in> fst ` set g)"

section \<open>Retrieval\<close>

fun STATUS_RANK :: "artifact_status \<Rightarrow> nat" where
  "STATUS_RANK ACCEPTED = 0"
| "STATUS_RANK TENTATIVE = 1"
| "STATUS_RANK PROPOSED = 2"
| "STATUS_RANK REVISED = 3"
| "STATUS_RANK SUPERSEDED = 4"
| "STATUS_RANK REJECTED = 5"

type_synonym retrieval_policy = "string \<Rightarrow> store \<Rightarrow> int \<Rightarrow> exc + artifact list"

text \<open>The two stable passes: recency descending, then status ascending.\<close>

definition rank_artifacts :: "artifact list \<Rightarrow> artifact list" where
  "rank_artifacts as = sort_key (\<lambda>a. STATUS_RANK (art_status a)) (sort_desc_key created_at as)"

definition default_select :: "bool \<Rightarrow> retrieval_policy" where
  "default_select include_terminal goal s limit =
     bindS (query_artifacts None None s) (\<lambda>cands.
       let kept = (if include_terminal then cands
                   else filter (\<lambda>a. art_status a \<notin> {REJECTED, SUPERSEDED, REVISED}) cands)
       in Inr (py_prefix limit (rank_artifacts kept)))"

section \<open>Registry lemmas\<close>

text \<open>A schema is closed when its keys are its names and its operations only name its types.\<close>

definition schema_closed :: "schema_registry \<Rightarrow> bool" where
  "schema_closed sr \<longleftrightarrow>
     distinct (map fst (sr_types sr)) \<and> distinct (map fst (sr_operations sr)) \<and>
     (\<forall>(n, td) \<in> set (sr_types sr). td_name td = n) \<and>
     (\<forall>(n, sg) \<in> set (sr_operations sr). sig_name sg = n \<and>
        set (sig_inputs sg) \<union> {sig_output sg} \<subseteq> fst ` set (sr_types sr))"

lemma register_type_Inr:
  "register_type td sr = Inr sr' \<longleftrightarrow> td_name td \<notin> fst ` set (sr_types sr) \<and>
     sr' = sr\<lparr>sr_types := sr_types sr @ [(td_name td, td)]\<rparr>"
  by (auto simp: register_type_def dict_put_fresh)

lemma register_operation_Inr:
  "register_operation sg sr = Inr sr' \<longleftrightarrow> sig_name sg \<notin> fst ` set (sr_operations sr) \<and>
     set (sig_inputs sg) \<union> {sig_output sg} \<subseteq> fst ` set (sr_types sr) \<and>
     sr' = sr\<lparr>sr_operations := sr_operations sr @ [(sig_name sg, sg)]\<rparr>"
proof (cases "List.find (\<lambda>t. t \<notin> fst ` set (sr_types sr)) (sig_inputs sg @ [sig_output sg])")
  case None
  then have "set (sig_inputs sg) \<union> {sig_output sg} \<subseteq> fst ` set (sr_types sr)"
    unfolding find_None_iff by auto
  then show ?thesis using None by (auto simp: register_operation_def dict_put_fresh)
next
  case (Some t)
  then have "\<not> set (sig_inputs sg) \<union> {sig_output sg} \<subseteq> fst ` set (sr_types sr)"
    using find_Some_in [OF Some] by auto
  then show ?thesis using Some by (auto simp: register_operation_def)
qed

lemma schema_closed_empty: "schema_closed empty_schema"
  by (simp add: schema_closed_def empty_schema_def)

lemma schema_closed_type: "schema_closed sr \<Longrightarrow> register_type td sr = Inr sr' \<Longrightarrow> schema_closed sr'"
  by (auto simp: schema_closed_def register_type_Inr)

lemma schema_closed_operation:
  "schema_closed sr \<Longrightarrow> register_operation sg sr = Inr sr' \<Longrightarrow> schema_closed sr'"
  by (auto simp: schema_closed_def register_operation_Inr)

datatype schema_call = RegisterType artifact_type_def | RegisterOperation operation_signature

fun run_schema :: "schema_call list \<Rightarrow> schema_registry \<Rightarrow> exc + schema_registry" where
  "run_schema [] sr = Inr sr"
| "run_schema (RegisterType td # cs) sr = bindS (register_type td sr) (run_schema cs)"
| "run_schema (RegisterOperation sg # cs) sr = bindS (register_operation sg sr) (run_schema cs)"

lemma run_schema_closed: "run_schema cs sr = Inr sr' \<Longrightarrow> schema_closed sr \<Longrightarrow> schema_closed sr'"
  by (induction cs sr rule: run_schema.induct)
    (auto simp: bindS_eq_Inr intro: schema_closed_type schema_closed_operation)

text \<open>Whatever a domain registers, the schema the control plane holds is closed: looking an
  operation up by name returns the signature of that name, and every input and output type it
  mentions is itself registered under its own name; a duplicate name or an unknown type is refused
  with a registry error and nothing else is.\<close>

lemma schema_registry_closed:
  assumes "run_schema cs empty_schema = Inr sr"
  shows "(\<forall>n sg. sr_operation sr n = Some sg \<longrightarrow> sig_name sg = n \<and>
      (\<forall>t \<in> set (sig_inputs sg) \<union> {sig_output sg}. \<exists>td. sr_type sr t = Some td \<and> td_name td = t)) \<and>
    ((\<exists>e. register_operation sg' sr = Inl e) \<longleftrightarrow>
      sr_operation sr (sig_name sg') \<noteq> None \<or>
      (\<exists>t \<in> set (sig_inputs sg') \<union> {sig_output sg'}. sr_type sr t = None))"
proof -
  have c: "schema_closed sr" using run_schema_closed [OF assms schema_closed_empty] .
  have ty: "\<exists>td. sr_type sr t = Some td \<and> td_name td = t" if t: "t \<in> fst ` set (sr_types sr)" for t
  proof -
    obtain td where td: "(t, td) \<in> set (sr_types sr)" using t by auto
    then have "map_of (sr_types sr) t = Some td" using c by (simp add: schema_closed_def)
    moreover have "td_name td = t" using c td by (auto simp: schema_closed_def)
    ultimately show ?thesis by (simp add: sr_type_def)
  qed
  have op: "sig_name sg = n \<and> set (sig_inputs sg) \<union> {sig_output sg} \<subseteq> fst ` set (sr_types sr)"
    if "sr_operation sr n = Some sg" for n sg
  proof -
    have "(n, sg) \<in> set (sr_operations sr)" using that by (simp add: sr_operation_def map_of_SomeD)
    then show ?thesis using c unfolding schema_closed_def by blast
  qed
  have ops: "\<forall>n sg. sr_operation sr n = Some sg \<longrightarrow> sig_name sg = n \<and>
      (\<forall>t \<in> set (sig_inputs sg) \<union> {sig_output sg}. \<exists>td. sr_type sr t = Some td \<and> td_name td = t)"
    using op ty by blast
  have "(\<nexists>e. register_operation sg' sr = Inl e) \<longleftrightarrow> (\<exists>sr'. register_operation sg' sr = Inr sr')"
    by (cases "register_operation sg' sr") auto
  then have "(\<exists>e. register_operation sg' sr = Inl e) \<longleftrightarrow>
      sr_operation sr (sig_name sg') \<noteq> None \<or>
      (\<exists>t \<in> set (sig_inputs sg') \<union> {sig_output sg'}. sr_type sr t = None)"
    by (auto simp: register_operation_Inr sr_operation_def sr_type_def map_of_eq_None_iff)
  then show ?thesis using ops by blast
qed

definition demo_signature :: operation_signature where
  "demo_signature = \<lparr>sig_name = ''author'', sig_inputs = [''Source''], sig_output = ''Note'',
     required_payload_keys = [], object_payload_keys = []\<rparr>"

lemma schema_registry_closed_witness:
  "\<exists>sr e. run_schema [RegisterType \<lparr>td_name = ''Source'', td_is_root = True\<rparr>] empty_schema = Inr sr \<and>
     register_operation demo_signature sr = Inl e"
proof -
  obtain sr where sr: "run_schema [RegisterType \<lparr>td_name = ''Source'', td_is_root = True\<rparr>] empty_schema = Inr sr"
    by (simp add: register_type_def empty_schema_def)
  have "sr_type sr ''Note'' = None"
    using sr by (auto simp: register_type_def empty_schema_def sr_type_def)
  then show ?thesis
    using schema_registry_closed [OF sr, of demo_signature] sr by (auto simp: demo_signature_def)
qed

section \<open>Retrieval lemmas\<close>

lemma set_rank_artifacts [simp]: "set (rank_artifacts as) = set as"
  by (simp add: rank_artifacts_def)

lemma length_rank_artifacts [simp]: "length (rank_artifacts as) = length as"
  by (simp add: rank_artifacts_def)

definition ranks_before :: "artifact \<Rightarrow> artifact \<Rightarrow> bool" where
  "ranks_before a b \<longleftrightarrow> STATUS_RANK (art_status a) < STATUS_RANK (art_status b) \<or>
     STATUS_RANK (art_status a) = STATUS_RANK (art_status b) \<and> created_at b \<le> created_at a"

lemma rank_artifacts_sorted: "sorted_wrt ranks_before (rank_artifacts as)"
proof -
  have "sorted_wrt (\<lambda>x y. STATUS_RANK (art_status x) < STATUS_RANK (art_status y) \<or>
      STATUS_RANK (art_status x) = STATUS_RANK (art_status y) \<and> created_at y \<le> created_at x)
    (rank_artifacts as)"
    unfolding rank_artifacts_def
    by (rule sorted_wrt_sort_key_stable [OF sorted_sort_desc_key [of created_at as]])
  then show ?thesis by (simp add: ranks_before_def [abs_def])
qed

text \<open>The interface: at most \<open>limit\<close> artifacts, all of them read from the store.\<close>

locale retrieval =
  fixes select :: retrieval_policy
  assumes select_bounded: "select goal s limit = Inr as \<Longrightarrow> 0 \<le> limit \<Longrightarrow> int (length as) \<le> limit"
    and select_stored: "select goal s limit = Inr as \<Longrightarrow> a \<in> set as \<Longrightarrow>
      \<exists>r \<in> set (t_artifacts (working s)). row_to_artifact r = Inr a"
begin

lemma selects_nothing: "select goal s 0 = Inr as \<Longrightarrow> as = []"
  using select_bounded [of goal s 0 as] by simp

lemma empty_store_selects_nothing:
  "t_artifacts (working s) = [] \<Longrightarrow> select goal s limit = Inr as \<Longrightarrow> as = []"
  using select_stored [of goal s limit as "hd as"] by (cases as) auto

end

lemma default_select_Inr:
  "default_select inc goal s limit = Inr as \<Longrightarrow> \<exists>cands. query_artifacts None None s = Inr cands \<and>
     as = py_prefix limit (rank_artifacts (filter (\<lambda>a. inc \<or> \<not> is_terminal (art_status a)) cands))"
  by (auto simp: default_select_def bindS_eq_Inr is_terminal_def TERMINAL_STATUSES_def Let_def)

interpretation default_retrieval: retrieval "default_select inc" for inc
proof unfold_locales
  fix goal s limit as
  assume d: "default_select inc goal s limit = Inr as"
  show "int (length as) \<le> limit" if "0 \<le> limit"
    using default_select_Inr [OF d] that by (auto simp: py_prefix_nonneg)
  show "\<exists>r \<in> set (t_artifacts (working s)). row_to_artifact r = Inr a" if "a \<in> set as" for a
  proof -
    obtain cands where c: "query_artifacts None None s = Inr cands"
      and as: "as = py_prefix limit (rank_artifacts
        (filter (\<lambda>a. inc \<or> \<not> is_terminal (art_status a)) cands))"
      using default_select_Inr [OF d] by blast
    have "a \<in> set cands" using that set_py_prefix unfolding as by fastforce
    then show ?thesis using query_artifacts_in [OF c] by blast
  qed
qed

text \<open>The default retrieval policy serves the most trusted and, among equals, the most recent:
  it returns the requested number of artifacts (fewer only if there are no more), no terminal
  artifact unless asked to, in rank order, and no artifact it leaves out ranks strictly before one
  it serves.\<close>

lemma default_retrieval_ranks:
  assumes "default_select inc goal s limit = Inr as" "0 \<le> limit"
    "query_artifacts None None s = Inr cands"
  shows "sorted_wrt ranks_before as \<and>
    (\<forall>a \<in> set as. a \<in> set cands \<and> (inc \<or> \<not> is_terminal (art_status a))) \<and>
    length as = min (nat limit) (length (filter (\<lambda>a. inc \<or> \<not> is_terminal (art_status a)) cands)) \<and>
    (\<forall>b \<in> set cands. (inc \<or> \<not> is_terminal (art_status b)) \<and> b \<notin> set as \<longrightarrow>
       (\<forall>a \<in> set as. ranks_before a b))"
proof -
  let ?kept = "filter (\<lambda>a. inc \<or> \<not> is_terminal (art_status a)) cands"
  let ?all = "rank_artifacts ?kept"
  have as: "as = take (nat limit) ?all"
    using default_select_Inr [OF assms(1)] assms(2,3) by (auto simp: py_prefix_nonneg)
  have so: "sorted_wrt ranks_before (as @ drop (nat limit) ?all)"
    using rank_artifacts_sorted [of ?kept] by (simp add: as)
  have set: "set ?all = set as \<union> set (drop (nat limit) ?all)"
    using as by (metis append_take_drop_id set_append)
  have "\<forall>b \<in> set cands. (inc \<or> \<not> is_terminal (art_status b)) \<and> b \<notin> set as \<longrightarrow>
       (\<forall>a \<in> set as. ranks_before a b)"
  proof (intro ballI impI)
    fix b a
    assume "b \<in> set cands" "(inc \<or> \<not> is_terminal (art_status b)) \<and> b \<notin> set as" "a \<in> set as"
    then have "b \<in> set (drop (nat limit) ?all)" using set by auto
    then show "ranks_before a b" using so \<open>a \<in> set as\<close> by (auto simp: sorted_wrt_append)
  qed
  moreover have "set as \<subseteq> set ?kept" using set by auto
  moreover have "sorted_wrt ranks_before as" using so by (simp add: sorted_wrt_append)
  moreover have "length as = min (nat limit) (length ?kept)" using as by simp
  ultimately show ?thesis by auto
qed

lemma default_retrieval_ranks_witness:
  "\<exists>as. default_select False ''g'' (demo_with [(demo_artifact ''a'' (PJson JNull))\<lparr>art_status := ACCEPTED\<rparr>,
     demo_artifact ''b'' (PJson JNull)] []) 1 = Inr as \<and> length as = 1"
proof -
  let ?a = "(demo_artifact ''a'' (PJson JNull))\<lparr>art_status := ACCEPTED\<rparr>"
  let ?b = "demo_artifact ''b'' (PJson JNull)"
  let ?s = "demo_with [?a, ?b] []"
  have q: "query_artifacts None None ?s = Inr [?a, ?b]"
    by (simp add: query_artifacts_def empty_db_def demo_artifact_def artifact_to_row_def
        dump_payload_def row_to_artifact_def load_payload_def row_with_def)
  then obtain as where d: "default_select False ''g'' ?s 1 = Inr as"
    by (simp add: default_select_def Let_def)
  show ?thesis using default_retrieval_ranks [OF d _ q] d
    by (auto simp: is_terminal_def TERMINAL_STATUSES_def demo_artifact_def)
qed

end
