(* ===== verification/Provisioning.thy ===== *)
theory Provisioning
  imports Registries
begin

text \<open>
  \<open>control_plane/registries.py\<close>, second half: the object-provisioning policy. A specification is
  resolved to a policy (a set of statuses, a selection, limits), the policy selects artifacts, and
  \<open>materialize\<close> resolves the selection to named bytes plus an index file. The rendering of
  non-string JSON values by \<open>str\<close> is a parameter \<open>show_json\<close>.
\<close>

datatype provision_select = SEL_ALL | SEL_LAST | SEL_BEST

fun provision_select_value :: "provision_select \<Rightarrow> string" where
  "provision_select_value SEL_ALL = ''all''"
| "provision_select_value SEL_LAST = ''last''"
| "provision_select_value SEL_BEST = ''best''"

definition provision_select_of :: "string \<Rightarrow> exc + provision_select" where
  "provision_select_of v = (case List.find (\<lambda>x. provision_select_value x = v) [SEL_ALL, SEL_LAST, SEL_BEST] of
      Some x \<Rightarrow> Inr x
    | None \<Rightarrow> Inl (ValueError (py_repr v @ '' is not a valid ProvisionSelect'')))"

text \<open>The presets; \<open>None\<close> statuses mean any status, the empty list means nothing.\<close>

definition PRESETS :: "(string \<times> artifact_status list option \<times> provision_select) list" where
  "PRESETS =
    [(''none'', Some [], SEL_ALL),
     (''all'', None, SEL_ALL),
     (''all_accepted'', Some [ACCEPTED], SEL_ALL),
     (''all_revised_or_accepted'', Some [ACCEPTED, REVISED], SEL_ALL),
     (''all_accepted_or_superseded'', Some [ACCEPTED, SUPERSEDED], SEL_ALL),
     (''last_accepted'', Some [ACCEPTED], SEL_LAST),
     (''last_revised_or_accepted'', Some [ACCEPTED, REVISED], SEL_LAST),
     (''best_accepted'', Some [ACCEPTED], SEL_BEST),
     (''best_revised_or_accepted'', Some [ACCEPTED, REVISED], SEL_BEST)]"

record provisioning_policy =
  pv_statuses :: "artifact_status list option"
  pv_select :: provision_select
  pv_type_filter :: "string option"
  pv_target_role :: string
  pv_name_prefix :: string
  pv_max_artifacts :: "int option"
  pv_max_bytes :: "int option"

definition default_provisioning :: provisioning_policy where
  "default_provisioning = \<lparr>pv_statuses = Some [], pv_select = SEL_ALL, pv_type_filter = None,
     pv_target_role = ''scratch'', pv_name_prefix = ''provided/'', pv_max_artifacts = None,
     pv_max_bytes = None\<rparr>"

definition json_str :: "(json \<Rightarrow> string) \<Rightarrow> json \<Rightarrow> string" where
  "json_str show_json j = (case j of JStr s \<Rightarrow> s | _ \<Rightarrow> show_json j)"

definition json_repr :: "(json \<Rightarrow> string) \<Rightarrow> json \<Rightarrow> string" where
  "json_repr show_json j = (case j of JStr s \<Rightarrow> py_repr s | _ \<Rightarrow> show_json j)"

definition parse_statuses :: "(json \<Rightarrow> string) \<Rightarrow> json \<Rightarrow> exc + artifact_status list option" where
  "parse_statuses show_json raw =
     bindS (case raw of
         JNull \<Rightarrow> Inr None
       | JStr s \<Rightarrow> Inr (Some [raw])
       | JList xs \<Rightarrow> Inr (Some xs)
       | JObj kvs \<Rightarrow> Inr (Some (map (\<lambda>(k, _). JStr k) kvs))
       | _ \<Rightarrow> Inl (RegistryError (''unparseable statuses spec: '' @ json_repr show_json raw)))
     (\<lambda>names. case names of
         None \<Rightarrow> Inr (Some [])
       | Some ns \<Rightarrow>
           let lowered = map (\<lambda>n. lower (strip (json_str show_json n))) ns
           in if ''any'' \<in> set lowered then Inr None
              else bindS (mapE status_of lowered) (\<lambda>sts. Inr (Some sts)))"

definition parse_limit :: "(json \<Rightarrow> string) \<Rightarrow> json \<Rightarrow> string \<Rightarrow> exc + int option" where
  "parse_limit show_json raw nm =
     (case raw of JNull \<Rightarrow> Inr None
      | _ \<Rightarrow>
        (let value = (case raw of
            JInt i \<Rightarrow> Some i
          | JBool b \<Rightarrow> Some (if b then 1 else 0)
          | JFloat r \<Rightarrow> Some (if r < 0 then - \<lfloor>- r\<rfloor> else \<lfloor>r\<rfloor>)
          | JStr s \<Rightarrow> parse_int s
          | _ \<Rightarrow> None)
         in case value of
              None \<Rightarrow> Inl (RegistryError (''provisioning '' @ nm @ '' must be an integer, got '' @
                json_repr show_json raw))
            | Some v \<Rightarrow>
                if v < 0
                then Inl (RegistryError (''provisioning '' @ nm @ '' must be >= 0, got '' @ int_str v))
                else Inr (Some v)))"

definition opt_int_json :: "int option \<Rightarrow> json" where
  "opt_int_json x = (case x of None \<Rightarrow> JNull | Some i \<Rightarrow> JInt i)"

text \<open>
  \<open>provisioning_policy(spec, ...)\<close>: \<open>spec\<close> is a preset name, an explicit mapping, or nothing. An
  unknown preset degrades to \<open>none\<close>.
\<close>

definition resolve_provisioning :: "(json \<Rightarrow> string) \<Rightarrow> json \<Rightarrow> string option \<Rightarrow> string \<Rightarrow> string \<Rightarrow>
    int option \<Rightarrow> int option \<Rightarrow> exc + provisioning_policy" where
  "resolve_provisioning show_json spec type_filter target_role name_prefix max_artifacts max_bytes =
     bindS
       (case spec of
          JNull \<Rightarrow> Inr (Some [], SEL_ALL, max_artifacts, max_bytes)
        | JObj kvs \<Rightarrow>
            let get = (\<lambda>dflt k. case map_of kvs k of Some v \<Rightarrow> v | None \<Rightarrow> dflt) in
            bindS (parse_statuses show_json (get JNull ''statuses'')) (\<lambda>sts.
            bindS (provision_select_of (lower (strip (json_str show_json (get (JStr ''all'') ''select''))))) (\<lambda>sel.
            bindS (parse_limit show_json (get (opt_int_json max_artifacts) ''max_artifacts'') ''max_artifacts'') (\<lambda>ma.
            bindS (parse_limit show_json (get (opt_int_json max_bytes) ''max_bytes'') ''max_bytes'') (\<lambda>mb.
            Inr (sts, sel, ma, mb)))))
        | JStr nm \<Rightarrow>
            (case map_of PRESETS (lower (strip nm)) of
               Some (sts, sel) \<Rightarrow> Inr (sts, sel, max_artifacts, max_bytes)
             | None \<Rightarrow> Inr (Some [], SEL_ALL, max_artifacts, max_bytes))
        | _ \<Rightarrow> Inl (RegistryError (''unparseable provisioning spec: '' @ json_repr show_json spec)))
       (\<lambda>(sts, sel, ma, mb).
          Inr \<lparr>pv_statuses = sts, pv_select = sel, pv_type_filter = type_filter,
               pv_target_role = target_role, pv_name_prefix = name_prefix,
               pv_max_artifacts = ma, pv_max_bytes = mb\<rparr>)"

section \<open>Selection\<close>

definition artifact_score :: "store \<Rightarrow> artifact \<Rightarrow> rat option" where
  "artifact_score s a =
     (let scores = List.map_filter d_score (decisions_for (art_id a) s)
      in if scores \<noteq> [] then Some (fold max (tl scores) (hd scores)) else None)"

text \<open>A missing score ranks as minus infinity: below every number, equal to itself.\<close>

definition score_rank :: "rat option \<Rightarrow> bool \<times> rat" where
  "score_rank x = (case x of None \<Rightarrow> (False, 0) | Some r \<Rightarrow> (True, r))"

definition provision_candidates :: "provisioning_policy \<Rightarrow> store \<Rightarrow> exc + artifact list" where
  "provision_candidates p s =
     (if pv_statuses p = Some [] then Inr []
      else bindS (query_artifacts (pv_type_filter p) None s) (\<lambda>as.
        let cands = filter (\<lambda>a. case pv_statuses p of None \<Rightarrow> True
                                  | Some sts \<Rightarrow> art_status a \<in> set sts) as
        in if pv_select p = SEL_BEST
           then Inr (take 1 (sort_desc_key (\<lambda>a. score_rank (artifact_score s a))
                  (sort_desc_key created_at cands)))
           else let ranked = sort_desc_key created_at cands
                in Inr (if pv_select p = SEL_LAST then take 1 ranked else ranked)))"

section \<open>Materialization\<close>

record manifest_row =
  mr_rank :: nat
  mr_artifact :: artifact
  mr_score :: "rat option"
  mr_files :: "string list"

definition render_row :: "manifest_row \<Rightarrow> string" where
  "render_row e =
     ''| '' @ pad2 (mr_rank e) @ '' | '' @ art_id (mr_artifact e) @ '' | '' @
     art_type (mr_artifact e) @ '' | '' @ status_value (art_status (mr_artifact e)) @ '' | '' @
     created_at (mr_artifact e) @ '' | '' @
     (case mr_score e of Some x \<Rightarrow> fmt4 x | None \<Rightarrow> ''-'') @ '' | '' @
     join '', '' (mr_files e) @ '' |''"

definition render_manifest :: "manifest_row list \<Rightarrow> nat \<Rightarrow> bytes" where
  "render_manifest entries omitted =
     utf8 (join [CHR 0x0A]
       ([''# Provisioned durable objects'', '''',
         ''| rank | artifact | type | status | created_at | score | files |'',
         ''| --- | --- | --- | --- | --- | --- | --- |''] @
        map render_row entries @
        (if omitted \<noteq> 0
         then ['''', ''('' @ nat_str omitted @ '' artifact(s) omitted by the provisioning limits)'']
         else [])) @ [CHR 0x0A])"

definition rank_subdir :: "nat \<Rightarrow> artifact \<Rightarrow> string" where
  "rank_subdir rank a = pad2 rank @ ''-'' @ art_id a @ ''/''"

definition object_path :: "string \<Rightarrow> bool \<Rightarrow> nat \<Rightarrow> artifact \<Rightarrow> string \<Rightarrow> string" where
  "object_path pfx single rank a nm =
     pfx @ (if single then '''' else rank_subdir rank a) @ nm"

text \<open>The whole object set of one artifact: named paths and their bytes.\<close>

definition artifact_blobs ::
    "store \<Rightarrow> string \<Rightarrow> bool \<Rightarrow> nat \<Rightarrow> artifact \<Rightarrow> exc + (string \<times> bytes) list" where
  "artifact_blobs s pfx single rank a =
     bindS (mapE (\<lambda>(nm, ref). bindS (get_object (content_hash ref) s) (\<lambda>data.
              Inr (object_path pfx single rank a nm, data))) (objects a))
       (\<lambda>pairs. Inr (fold (\<lambda>(k, v). dict_put k v) pairs []))"

definition total_bytes :: "(string \<times> bytes) list \<Rightarrow> int" where
  "total_bytes d = (\<Sum>(k, v)\<leftarrow>d. int (length v))"

record provision_acc =
  pa_role :: "(string \<times> bytes) list"
  pa_entries :: "manifest_row list"
  pa_admitted :: nat
  pa_bytes :: int
  pa_omitted :: nat

definition provision_step :: "provisioning_policy \<Rightarrow> store \<Rightarrow> bool \<Rightarrow> nat \<Rightarrow> artifact \<Rightarrow>
    provision_acc \<Rightarrow> exc + provision_acc" where
  "provision_step p s single rank a acc =
     (if (case pv_max_artifacts p of Some m \<Rightarrow> m \<le> int (pa_admitted acc) | None \<Rightarrow> False)
      then Inr (acc\<lparr>pa_omitted := Suc (pa_omitted acc)\<rparr>)
      else bindS (artifact_blobs s (pv_name_prefix p) single rank a) (\<lambda>blobs.
        if blobs = [] then Inr acc
        else if (case pv_max_bytes p of Some m \<Rightarrow> m < pa_bytes acc + total_bytes blobs | None \<Rightarrow> False)
        then Inr (acc\<lparr>pa_omitted := Suc (pa_omitted acc)\<rparr>)
        else Inr \<lparr>pa_role = fold (\<lambda>(k, v). dict_put k v) blobs (pa_role acc),
                  pa_entries = pa_entries acc @ [\<lparr>mr_rank = rank, mr_artifact = a,
                     mr_score = artifact_score s a, mr_files = sort (map fst blobs)\<rparr>],
                  pa_admitted = Suc (pa_admitted acc),
                  pa_bytes = pa_bytes acc + total_bytes blobs,
                  pa_omitted = pa_omitted acc\<rparr>))"

fun provision_loop :: "provisioning_policy \<Rightarrow> store \<Rightarrow> bool \<Rightarrow> nat \<Rightarrow> artifact list \<Rightarrow>
    provision_acc \<Rightarrow> exc + provision_acc" where
  "provision_loop p s single rank [] acc = Inr acc"
| "provision_loop p s single rank (a # as) acc =
     bindS (provision_step p s single rank a acc) (provision_loop p s single (Suc rank) as)"

definition provision_start :: provision_acc where
  "provision_start = \<lparr>pa_role = [], pa_entries = [], pa_admitted = 0, pa_bytes = 0, pa_omitted = 0\<rparr>"

definition materialize ::
    "provisioning_policy \<Rightarrow> store \<Rightarrow> exc + (string \<times> (string \<times> bytes) list) list" where
  "materialize p s =
     bindS (provision_candidates p s) (\<lambda>selected.
     bindS (provision_loop p s (length selected \<le> 1) 1 selected provision_start) (\<lambda>acc.
       if pa_role acc = [] then Inr []
       else Inr [(pv_target_role p,
              dict_put (pv_name_prefix p @ ''INDEX.md'')
                (render_manifest (pa_entries acc) (pa_omitted acc)) (pa_role acc))]))"

section \<open>Lemmas\<close>

lemma limit_iff: "(case x of Some m \<Rightarrow> P m | None \<Rightarrow> False) \<longleftrightarrow> (\<exists>m. x = Some m \<and> P m)"
  by (cases x) auto

lemmas provision_step_eq = provision_step_def [unfolded limit_iff]

lemma dict_puts_lookup:
  "distinct (map fst ps) \<Longrightarrow> map_of (fold (\<lambda>(k, v). dict_put k v) ps d) k =
     (case map_of ps k of Some v \<Rightarrow> Some v | None \<Rightarrow> map_of d k)"
  by (simp add: dict_puts_map_of map_add_def map_of_rev_distinct)

lemma total_bytes_put: "total_bytes (dict_put k v d) \<le> total_bytes d + int (length v)"
  by (induction d) (auto simp: total_bytes_def)

lemma total_bytes_puts:
  "total_bytes (fold (\<lambda>(k, v). dict_put k v) ps d) \<le> total_bytes d + total_bytes ps"
proof (induction ps arbitrary: d)
  case (Cons p ps)
  obtain k v where p: "p = (k, v)" by fastforce
  have "total_bytes (fold (\<lambda>(k, v). dict_put k v) ps (dict_put k v d)) \<le>
      total_bytes (dict_put k v d) + total_bytes ps" by (rule Cons.IH)
  then show ?case using total_bytes_put [of k v d] p by (simp add: total_bytes_def)
qed (simp add: total_bytes_def)

lemma total_bytes_filter: "total_bytes (filter P d) \<le> total_bytes d"
  by (induction d) (auto simp: total_bytes_def)

lemma total_bytes_put_same:
  "total_bytes (filter (\<lambda>(k, _). k \<noteq> i) (dict_put i v d)) \<le> total_bytes d"
proof -
  have "filter (\<lambda>(k, _). k \<noteq> i) (dict_put i v d) = filter (\<lambda>(k, _). k \<noteq> i) d"
    by (induction d) auto
  then show ?thesis by (simp add: total_bytes_filter)
qed

text \<open>Limits.\<close>

definition within_limits :: "provisioning_policy \<Rightarrow> provision_acc \<Rightarrow> bool" where
  "within_limits p acc \<longleftrightarrow> total_bytes (pa_role acc) \<le> pa_bytes acc \<and>
     pa_admitted acc = length (pa_entries acc) \<and>
     (\<forall>m. pv_max_bytes p = Some m \<longrightarrow> pa_role acc = [] \<or> pa_bytes acc \<le> m) \<and>
     (\<forall>m. pv_max_artifacts p = Some m \<longrightarrow> pa_role acc = [] \<or> int (pa_admitted acc) \<le> m)"

lemma within_limits_step:
  assumes "within_limits p acc" "provision_step p s single rank a acc = Inr acc'"
  shows "within_limits p acc'"
proof -
  have puts: "total_bytes (fold (\<lambda>(k, v). dict_put k v) x (pa_role acc)) \<le> pa_bytes acc + total_bytes x" for x
    using total_bytes_puts [of x "pa_role acc"] assms(1) by (simp add: within_limits_def)
  show ?thesis using assms
    by (auto simp: within_limits_def provision_step_eq bindS_eq_Inr not_less not_le puts
        split: if_splits)
qed

lemma within_limits_loop:
  "provision_loop p s single rank as acc = Inr acc' \<Longrightarrow> within_limits p acc \<Longrightarrow> within_limits p acc'"
  by (induction as arbitrary: rank acc) (auto simp: bindS_eq_Inr dest: within_limits_step)

lemma within_limits_start: "within_limits p provision_start"
  by (simp add: within_limits_def provision_start_def total_bytes_def)

text \<open>Paths of different ranks never meet.\<close>

lemma digits_dash_inj:
  assumes "\<forall>c \<in> set xs. is_digit c" "\<forall>c \<in> set ys. is_digit c" "xs @ CHR ''-'' # u = ys @ CHR ''-'' # v"
  shows "xs = ys"
  using assms
proof (induction xs arbitrary: ys)
  case Nil
  then show ?case by (cases ys) (auto simp: is_digit_def)
next
  case (Cons x xs)
  then show ?case by (cases ys) (auto simp: is_digit_def)
qed

lemma pad2_digits: "\<forall>c \<in> set (pad2 n). is_digit c"
  using nat_str_digits by (auto simp: pad2_def is_digit_def)

lemma pad2_inj: "pad2 m = pad2 n \<Longrightarrow> m = n"
proof -
  have "parse_digits 0 (pad2 k) = Some k" for k
    using parse_nat_str [of k] by (simp add: pad2_def is_digit_def)
  then show "pad2 m = pad2 n \<Longrightarrow> m = n" by (metis option.inject)
qed

lemma object_path_rank: "object_path pfx False r a nm = object_path pfx False r' a' nm' \<Longrightarrow> r = r'"
  using digits_dash_inj [OF pad2_digits pad2_digits, of r "art_id a @ ''/'' @ nm" r' "art_id a' @ ''/'' @ nm'"]
  by (auto simp: object_path_def rank_subdir_def dest: pad2_inj)

lemma object_path_index: "object_path pfx False r a nm \<noteq> pfx @ ''INDEX.md''"
proof -
  have "pad2 r \<noteq> []" using nat_str_nonempty [of r] by (simp add: pad2_def)
  then obtain c cs where "pad2 r = c # cs" by (cases "pad2 r") auto
  moreover have "is_digit c" using pad2_digits [of r] calculation by simp
  ultimately show ?thesis by (auto simp: object_path_def rank_subdir_def is_digit_def)
qed

definition ranked :: "string \<Rightarrow> nat \<Rightarrow> string \<Rightarrow> bool" where
  "ranked pfx r key \<longleftrightarrow> (\<exists>a nm. key = object_path pfx False r a nm)"

lemma ranked_unique: "ranked pfx r key \<Longrightarrow> ranked pfx r' key \<Longrightarrow> r = r'"
  by (auto simp: ranked_def dest: object_path_rank)

text \<open>All objects of the artifact are there with their bytes, or none of its paths is.\<close>

definition whole_or_none ::
    "store \<Rightarrow> string \<Rightarrow> (string \<times> bytes) list \<Rightarrow> nat \<Rightarrow> artifact \<Rightarrow> bool" where
  "whole_or_none s pfx files r a \<longleftrightarrow>
     (\<forall>(nm, ref) \<in> set (objects a). \<exists>data. get_object (content_hash ref) s = Inr data \<and>
        map_of files (object_path pfx False r a nm) = Some data) \<or>
     (\<forall>nm. map_of files (object_path pfx False r a nm) = None)"

lemma artifact_blobs_lookup:
  assumes "artifact_blobs s pfx single r a = Inr blobs" "distinct (map fst (objects a))"
  shows "(\<forall>(nm, ref) \<in> set (objects a). \<exists>data. get_object (content_hash ref) s = Inr data \<and>
      map_of blobs (object_path pfx single r a nm) = Some data) \<and>
    (\<forall>k \<in> fst ` set blobs. \<exists>nm. k = object_path pfx single r a nm)"
proof -
  obtain pairs where b: "blobs = fold (\<lambda>(k, v). dict_put k v) pairs []"
    and l: "list_all2 (\<lambda>(nm, ref) (k, v). get_object (content_hash ref) s = Inr v \<and>
      k = object_path pfx single r a nm) (objects a) pairs"
  proof -
    obtain x where "blobs = fold (\<lambda>(k, v). dict_put k v) x []" and
      "list_all2 (\<lambda>(nm, ref) y. bindS (get_object (content_hash ref) s) (\<lambda>data.
         Inr (object_path pfx single r a nm, data)) = Inr y) (objects a) x"
      using assms(1) by (auto simp: artifact_blobs_def bindS_eq_Inr mapE_eq_Inr_iff split_def)
    then show thesis
      by (intro that [of x]) (auto elim!: list_all2_mono simp: bindS_eq_Inr)
  qed
  have keys: "map fst pairs = map (\<lambda>(nm, _). object_path pfx single r a nm) (objects a)"
    using l by (induction rule: list_all2_induct) auto
  have inj: "inj (object_path pfx single r a)" by (auto simp: inj_def object_path_def)
  have "map fst pairs = map (object_path pfx single r a) (map fst (objects a))"
    using keys by (simp add: split_def)
  moreover have "distinct (map (object_path pfx single r a) (map fst (objects a)))"
    unfolding distinct_map [of "object_path pfx single r a"]
    using assms(2) inj_on_subset [OF inj] by blast
  ultimately have d: "distinct (map fst pairs)" by simp
  then have look: "map_of blobs = map_of pairs"
    by (simp add: b dict_puts_map_of map_of_rev_distinct)
  have "\<exists>data. get_object (content_hash ref) s = Inr data \<and>
      map_of blobs (object_path pfx single r a nm) = Some data" if "(nm, ref) \<in> set (objects a)" for nm ref
    using list_all2_setD1 [OF l that] d look by auto
  moreover have "\<exists>nm. k = object_path pfx single r a nm" if "k \<in> fst ` set blobs" for k
  proof -
    have "k \<in> dom (map_of pairs)" using that look by (metis dom_map_of_conv_image_fst)
    then obtain v where "(k, v) \<in> set pairs" by (auto dest: map_of_SomeD)
    from list_all2_setD2 [OF l this] show ?thesis by auto
  qed
  ultimately show ?thesis by blast
qed


lemma artifact_blobs_distinct: "artifact_blobs s pfx single r a = Inr blobs \<Longrightarrow> distinct (map fst blobs)"
proof -
  have "distinct (map fst d) \<Longrightarrow> distinct (map fst (fold (\<lambda>(k, v). dict_put k v) ps d))"
    for ps :: "(string \<times> bytes) list" and d
    by (induction ps arbitrary: d) (auto simp: distinct_update)
  then show "artifact_blobs s pfx single r a = Inr blobs \<Longrightarrow> distinct (map fst blobs)"
    by (auto simp: artifact_blobs_def bindS_eq_Inr)
qed

lemma provision_step_role:
  assumes "provision_step p s single r a acc = Inr acc'"
  shows "pa_role acc' = pa_role acc \<or> (\<exists>blobs. artifact_blobs s (pv_name_prefix p) single r a = Inr blobs \<and>
    map_of (pa_role acc') = map_of (pa_role acc) ++ map_of blobs)"
  using assms artifact_blobs_distinct [of s "pv_name_prefix p" single r a]
  by (auto simp: provision_step_eq bindS_eq_Inr dict_puts_map_of map_of_rev_distinct split: if_splits)

lemma provision_step_frame:
  assumes "provision_step p s False r a acc = Inr acc'" "distinct (map fst (objects a))"
    "\<not> ranked (pv_name_prefix p) r key"
  shows "map_of (pa_role acc') key = map_of (pa_role acc) key"
  using provision_step_role [OF assms(1)]
proof (elim disjE exE conjE)
  fix blobs
  assume b: "artifact_blobs s (pv_name_prefix p) False r a = Inr blobs"
    and m: "map_of (pa_role acc') = map_of (pa_role acc) ++ map_of blobs"
  have "key \<notin> fst ` set blobs"
    using artifact_blobs_lookup [OF b assms(2)] assms(3) by (auto simp: ranked_def)
  then have "map_of blobs key = None" by (simp add: map_of_eq_None_iff)
  then show ?thesis by (simp add: m map_add_def)
qed simp

lemma provision_step_whole:
  assumes "provision_step p s False r a acc = Inr acc'" "distinct (map fst (objects a))"
    "\<And>key. ranked (pv_name_prefix p) r key \<Longrightarrow> map_of (pa_role acc) key = None"
  shows "whole_or_none s (pv_name_prefix p) (pa_role acc') r a"
  using provision_step_role [OF assms(1)]
proof (elim disjE exE conjE)
  assume "pa_role acc' = pa_role acc"
  then show ?thesis using assms(3) by (auto simp: whole_or_none_def ranked_def)
next
  fix blobs
  assume b: "artifact_blobs s (pv_name_prefix p) False r a = Inr blobs"
    and m: "map_of (pa_role acc') = map_of (pa_role acc) ++ map_of blobs"
  show ?thesis using artifact_blobs_lookup [OF b assms(2)]
    by (auto simp: whole_or_none_def m map_add_def split: option.splits)
qed

lemma provision_loop_frame:
  assumes "provision_loop p s False r as acc = Inr acc'" "\<forall>a \<in> set as. distinct (map fst (objects a))"
    "\<forall>r' \<ge> r. \<not> ranked (pv_name_prefix p) r' key"
  shows "map_of (pa_role acc') key = map_of (pa_role acc) key"
  using assms
  by (induction as arbitrary: r acc) (auto simp: bindS_eq_Inr provision_step_frame)

lemma whole_or_none_cong:
  assumes "\<And>nm. map_of f (object_path pfx False r a nm) = map_of g (object_path pfx False r a nm)"
  shows "whole_or_none s pfx f r a \<longleftrightarrow> whole_or_none s pfx g r a"
  by (simp add: whole_or_none_def assms)

lemma provision_loop_whole:
  assumes "provision_loop p s False r as acc = Inr acc'" "\<forall>a \<in> set as. distinct (map fst (objects a))"
    "\<forall>r' \<ge> r. \<forall>key. ranked (pv_name_prefix p) r' key \<longrightarrow> map_of (pa_role acc) key = None"
    "i < length as"
  shows "whole_or_none s (pv_name_prefix p) (pa_role acc') (r + i) (as ! i)"
  using assms
proof (induction as arbitrary: r acc i)
  case (Cons a as)
  from Cons.prems(1) obtain mid where mid: "provision_step p s False r a acc = Inr mid"
    "provision_loop p s False (Suc r) as mid = Inr acc'" by (auto simp: bindS_eq_Inr)
  have da: "distinct (map fst (objects a))" and das: "\<forall>a \<in> set as. distinct (map fst (objects a))"
    using Cons.prems(2) by auto
  show ?case
  proof (cases i)
    case 0
    have "whole_or_none s (pv_name_prefix p) (pa_role mid) r a"
      using provision_step_whole [OF mid(1) da] Cons.prems(3) by blast
    moreover
    have "map_of (pa_role acc') (object_path (pv_name_prefix p) False r a nm) =
        map_of (pa_role mid) (object_path (pv_name_prefix p) False r a nm)" for nm
    proof (rule provision_loop_frame [OF mid(2) das], intro allI impI)
      fix r' assume "Suc r \<le> r'"
      then show "\<not> ranked (pv_name_prefix p) r' (object_path (pv_name_prefix p) False r a nm)"
        by (auto simp: ranked_def dest: object_path_rank)
    qed
    then have "whole_or_none s (pv_name_prefix p) (pa_role acc') r a \<longleftrightarrow>
        whole_or_none s (pv_name_prefix p) (pa_role mid) r a" by (rule whole_or_none_cong)
    ultimately show ?thesis by (simp add: 0)
  next
    case (Suc j)
    have "\<forall>r' \<ge> Suc r. \<forall>key. ranked (pv_name_prefix p) r' key \<longrightarrow> map_of (pa_role mid) key = None"
    proof (intro allI impI)
      fix r' key assume le: "Suc r \<le> r'" and rk: "ranked (pv_name_prefix p) r' key"
      have "\<not> ranked (pv_name_prefix p) r key"
        using ranked_unique [OF rk, of r] le by (cases "ranked (pv_name_prefix p) r key") simp_all
      from provision_step_frame [OF mid(1) da this] show "map_of (pa_role mid) key = None"
        using Cons.prems(3) Suc_leD [OF le] rk by simp
    qed
    from Cons.IH [OF mid(2) das this, of j] Cons.prems(4) show ?thesis by (simp add: Suc)
  qed
qed simp


text \<open>How many artifacts the keys of a result belong to.\<close>

definition ranks_of :: "string \<Rightarrow> (string \<times> bytes) list \<Rightarrow> nat set" where
  "ranks_of pfx d = {r. \<exists>key \<in> dom (map_of d). ranked pfx r key}"

lemma finite_ranks_of: "finite (ranks_of pfx d)"
proof -
  have "ranks_of pfx d \<subseteq> (\<lambda>key. THE r. ranked pfx r key) ` dom (map_of d)"
    by (auto simp: ranks_of_def image_iff) (metis ranked_unique the_equality domI)
  then show ?thesis by (rule finite_subset) (simp add: finite_dom_map_of)
qed

definition counted :: "string \<Rightarrow> provision_acc \<Rightarrow> bool" where
  "counted pfx acc \<longleftrightarrow> card (ranks_of pfx (pa_role acc)) \<le> pa_admitted acc"

lemma counted_step:
  assumes "provision_step p s False r a acc = Inr acc'" "distinct (map fst (objects a))"
    "counted (pv_name_prefix p) acc"
  shows "counted (pv_name_prefix p) acc'"
proof -
  have "ranks_of (pv_name_prefix p) (pa_role acc') \<subseteq> insert r (ranks_of (pv_name_prefix p) (pa_role acc))"
  proof
    fix r' assume "r' \<in> ranks_of (pv_name_prefix p) (pa_role acc')"
    then obtain key where k: "key \<in> dom (map_of (pa_role acc'))" "ranked (pv_name_prefix p) r' key"
      by (auto simp: ranks_of_def)
    show "r' \<in> insert r (ranks_of (pv_name_prefix p) (pa_role acc))"
    proof (cases "ranked (pv_name_prefix p) r key")
      case True
      then show ?thesis using ranked_unique k(2) by blast
    next
      case False
      then show ?thesis using provision_step_frame [OF assms(1,2) False] k
        by (auto simp: ranks_of_def domIff)
    qed
  qed
  then have "card (ranks_of (pv_name_prefix p) (pa_role acc')) \<le>
      card (insert r (ranks_of (pv_name_prefix p) (pa_role acc)))"
    by (intro card_mono finite.insertI finite_ranks_of)
  also have "\<dots> \<le> Suc (card (ranks_of (pv_name_prefix p) (pa_role acc)))"
    by (simp add: card_insert_if finite_ranks_of)
  finally have "card (ranks_of (pv_name_prefix p) (pa_role acc')) \<le>
      Suc (card (ranks_of (pv_name_prefix p) (pa_role acc)))" .
  moreover have "pa_role acc' = pa_role acc \<and> pa_admitted acc' = pa_admitted acc \<or>
      pa_admitted acc' = Suc (pa_admitted acc)"
    using assms(1) by (auto simp: provision_step_eq bindS_eq_Inr split: if_splits)
  ultimately show ?thesis using assms(3) by (auto simp: counted_def)
qed

lemma counted_loop:
  "provision_loop p s False r as acc = Inr acc' \<Longrightarrow> \<forall>a \<in> set as. distinct (map fst (objects a)) \<Longrightarrow>
     counted (pv_name_prefix p) acc \<Longrightarrow> counted (pv_name_prefix p) acc'"
  by (induction as arbitrary: r acc) (auto simp: bindS_eq_Inr dest: counted_step)


lemma materialize_cases:
  assumes "materialize p s = Inr out" "provision_candidates p s = Inr selected"
  obtains acc where
    "provision_loop p s (length selected \<le> 1) 1 selected provision_start = Inr acc"
    "out = (if pa_role acc = [] then [] else [(pv_target_role p,
       dict_put (pv_name_prefix p @ ''INDEX.md'')
         (render_manifest (pa_entries acc) (pa_omitted acc)) (pa_role acc))])"
  using assms by (auto simp: materialize_def bindS_eq_Inr split: if_splits)


definition demo_owner :: "string \<Rightarrow> string \<Rightarrow> artifact" where
  "demo_owner i h = (demo_artifact i (PJson JNull))\<lparr>art_status := ACCEPTED, created_at := ''2026'' @ i,
     objects := [(''m.py'', \<lparr>blob_ref = ''sha256:'' @ h, content_hash = h\<rparr>)]\<rparr>"

definition demo_objects :: store where
  "demo_objects = (demo_with [demo_owner ''a'' ''1.'', demo_owner ''b'' ''2.''] [])
     \<lparr>mem_objects := [(''1.'', [1]), (''2.'', [2, 2])]\<rparr>"

definition demo_policy :: provisioning_policy where
  "demo_policy = default_provisioning\<lparr>pv_statuses := Some [ACCEPTED], pv_max_bytes := Some 2,
     pv_max_artifacts := Some 1\<rparr>"

lemma demo_candidates:
  "provision_candidates demo_policy demo_objects = Inr [demo_owner ''b'' ''2.'', demo_owner ''a'' ''1.'']"
  by (simp add: provision_candidates_def demo_policy_def default_provisioning_def query_artifacts_def
      demo_objects_def demo_with_def open_store_def empty_db_def demo_owner_def demo_artifact_def
      artifact_to_row_def row_to_artifact_def row_with_def load_payload_def dump_payload_def
      sort_desc_key_def)

lemma nat_str_1 [simp]: "nat_str (Suc 0) = ''1''"
  by (subst nat_str.simps) (simp add: char_of_def bit_0)

lemma demo_materialize:
  "\<exists>idx. materialize demo_policy demo_objects =
     Inr [(''scratch'', [(''provided/01-b/m.py'', [2, 2]), (''provided/INDEX.md'', idx)])]"
  unfolding materialize_def demo_candidates
  by (simp add: provision_step_eq provision_start_def
      artifact_blobs_def get_object_def demo_owner_def demo_artifact_def object_path_def rank_subdir_def
      pad2_def demo_policy_def default_provisioning_def demo_objects_def demo_with_def open_store_def
      total_bytes_def)

text \<open>C25. Provisioned artifacts are whole: when several artifacts are selected, each of them
  contributes all its objects under its own ranked directory, with the stored bytes, or nothing at
  all; the index file overwrites none of them.\<close>

theorem provisioned_artifacts_are_whole:
  assumes "materialize p s = Inr out" "provision_candidates p s = Inr selected"
    "1 < length selected" "\<forall>a \<in> set selected. distinct (map fst (objects a))"
    "(role, files) \<in> set out" "i < length selected"
  shows "whole_or_none s (pv_name_prefix p) files (Suc i) (selected ! i)"
proof -
  obtain acc where l: "provision_loop p s False 1 selected provision_start = Inr acc"
    and f: "files = dict_put (pv_name_prefix p @ ''INDEX.md'')
      (render_manifest (pa_entries acc) (pa_omitted acc)) (pa_role acc)"
  proof (rule materialize_cases [OF assms(1,2)])
    fix acc
    assume "provision_loop p s (length selected \<le> 1) 1 selected provision_start = Inr acc"
      "out = (if pa_role acc = [] then [] else [(pv_target_role p,
       dict_put (pv_name_prefix p @ ''INDEX.md'')
         (render_manifest (pa_entries acc) (pa_omitted acc)) (pa_role acc))])"
    then show thesis using assms(3,5) by (intro that [of acc]) (simp_all split: if_splits)
  qed
  have "whole_or_none s (pv_name_prefix p) (pa_role acc) (Suc i) (selected ! i)"
    using provision_loop_whole [OF l assms(4) _ assms(6)] by (simp add: provision_start_def)
  then show ?thesis
    by (subst whole_or_none_cong [of _ _ _ _ "pa_role acc"]) (simp_all add: f object_path_index)
qed

theorem provisioned_artifacts_are_whole_witness:
  "\<exists>files. materialize demo_policy demo_objects = Inr [(''scratch'', files)] \<and>
     map_of files ''provided/01-b/m.py'' = Some [2, 2] \<and>
     whole_or_none demo_objects ''provided/'' files 2 (demo_owner ''a'' ''1.'')"
proof -
  obtain files where m: "materialize demo_policy demo_objects = Inr [(''scratch'', files)]"
    "map_of files ''provided/01-b/m.py'' = Some [2, 2]" using demo_materialize by auto
  have "whole_or_none demo_objects (pv_name_prefix demo_policy) files (Suc 1)
      ([demo_owner ''b'' ''2.'', demo_owner ''a'' ''1.''] ! 1)"
    by (rule provisioned_artifacts_are_whole [OF m(1) demo_candidates])
      (simp_all add: demo_owner_def)
  then show ?thesis using m by (simp add: demo_policy_def default_provisioning_def numeral_2_eq_2)
qed

text \<open>The provisioning limits hold: apart from the index file, the bytes provided to a role never
  exceed \<open>max_bytes\<close>, and, when several artifacts are selected, at most \<open>max_artifacts\<close> of them
  contribute files.\<close>

lemma provisioning_limits_hold:
  assumes "materialize p s = Inr out" "provision_candidates p s = Inr selected"
    "\<forall>a \<in> set selected. distinct (map fst (objects a))" "(role, files) \<in> set out"
  shows "(\<forall>m. pv_max_bytes p = Some m \<longrightarrow>
      total_bytes (filter (\<lambda>(k, _). k \<noteq> pv_name_prefix p @ ''INDEX.md'') files) \<le> m) \<and>
    (\<forall>m. pv_max_artifacts p = Some m \<and> 1 < length selected \<longrightarrow>
      int (card (ranks_of (pv_name_prefix p) files)) \<le> m)"
proof -
  obtain acc where l: "provision_loop p s (length selected \<le> 1) 1 selected provision_start = Inr acc"
    and ne: "pa_role acc \<noteq> []" and f: "files = dict_put (pv_name_prefix p @ ''INDEX.md'')
      (render_manifest (pa_entries acc) (pa_omitted acc)) (pa_role acc)"
  proof (rule materialize_cases [OF assms(1,2)])
    fix acc
    assume "provision_loop p s (length selected \<le> 1) 1 selected provision_start = Inr acc"
      "out = (if pa_role acc = [] then [] else [(pv_target_role p,
       dict_put (pv_name_prefix p @ ''INDEX.md'')
         (render_manifest (pa_entries acc) (pa_omitted acc)) (pa_role acc))])"
    then show thesis using assms(4) by (intro that [of acc]) (simp_all split: if_splits)
  qed
  have w: "within_limits p acc" using within_limits_loop [OF l within_limits_start] .
  have "ranks_of (pv_name_prefix p) files = ranks_of (pv_name_prefix p) (pa_role acc)"
    by (auto simp: ranks_of_def f ranked_def object_path_index object_path_index [symmetric])
  moreover have "1 < length selected \<Longrightarrow> counted (pv_name_prefix p) acc"
    using counted_loop [of p s 1 selected provision_start acc] l assms(3)
    by (simp add: counted_def provision_start_def ranks_of_def)
  ultimately show ?thesis using w ne total_bytes_put_same [of "pv_name_prefix p @ ''INDEX.md''"
      "render_manifest (pa_entries acc) (pa_omitted acc)" "pa_role acc"]
    by (fastforce simp: within_limits_def f counted_def)
qed

lemma provisioning_limits_hold_witness:
  "\<exists>files. materialize demo_policy demo_objects = Inr [(''scratch'', files)] \<and>
     total_bytes (filter (\<lambda>(k, _). k \<noteq> ''provided/INDEX.md'') files) \<le> 2"
proof -
  obtain files where m: "materialize demo_policy demo_objects = Inr [(''scratch'', files)]"
    using demo_materialize by auto
  have "pv_max_bytes demo_policy = Some 2 \<and> pv_name_prefix demo_policy = ''provided/''"
    by (simp add: demo_policy_def default_provisioning_def)
  then show ?thesis
    using provisioning_limits_hold [OF m demo_candidates, of "''scratch''" files] m
    by (simp add: demo_owner_def)
qed

end
