(* ===== verification/Provenance.thy ===== *)
theory Provenance
  imports Store_Audit
begin

text \<open>
  \<open>get_provenance\<close> of \<open>control_plane/store.py\<close>: the walk from an artifact back over the operations
  that produced it and their parents. The frontier is a Python list popped at its end; the walk
  ends because an artifact enters the frontier only when it is first seen.
\<close>

record provenance =
  pv_artifact :: artifact
  pv_operations :: "operation list"
  pv_ancestors :: "artifact list"
  pv_decisions :: "decision list"

type_synonym seen_artifacts = "(string \<times> artifact) list"
type_synonym seen_ops = "(string \<times> operation) list"

text \<open>The inner loop over the parents of one operation.\<close>

fun visit_parents :: "store \<Rightarrow> string list \<Rightarrow> seen_artifacts \<times> string list \<Rightarrow>
    exc + seen_artifacts \<times> string list" where
  "visit_parents s [] (seen, frontier) = Inr (seen, frontier)"
| "visit_parents s (p # ps) (seen, frontier) =
     (if p \<in> fst ` set seen then visit_parents s ps (seen, frontier)
      else bindS (get_artifact p s) (\<lambda>found. case found of
          Some a \<Rightarrow> visit_parents s ps (dict_put p a seen, frontier @ [p])
        | None \<Rightarrow> visit_parents s ps (seen, frontier)))"

text \<open>The loop over the operations into the current artifact.\<close>

fun visit_ops :: "store \<Rightarrow> operation list \<Rightarrow> seen_ops \<times> seen_artifacts \<times> string list \<Rightarrow>
    exc + seen_ops \<times> seen_artifacts \<times> string list" where
  "visit_ops s [] acc = Inr acc"
| "visit_ops s (p # ps) (sops, seen, frontier) =
     (if op_id p \<in> fst ` set sops then visit_ops s ps (sops, seen, frontier)
      else bindS (visit_parents s (parents p) (seen, frontier)) (\<lambda>(seen', frontier').
             visit_ops s ps (dict_put (op_id p) p sops, seen', frontier')))"

text \<open>The artifact ids the walk has not seen yet.\<close>

definition unseen :: "store \<Rightarrow> seen_artifacts \<Rightarrow> string set" where
  "unseen s seen = art_id ` set (t_artifacts (working s)) - fst ` set seen"

lemma finite_unseen [simp]: "finite (unseen s seen)" by (simp add: unseen_def)

lemma get_artifact_exists: "get_artifact p s = Inr (Some a) \<Longrightarrow> p \<in> art_id ` set (t_artifacts (working s))"
  by (auto simp: get_artifact_def dest: find_Some_in split: option.splits)

lemma visit_parents_Inr:
  "visit_parents s ps (seen, frontier) = Inr (seen', frontier') \<Longrightarrow>
   \<exists>new. seen' = seen @ new \<and> frontier' = frontier @ map fst new \<and>
     (\<forall>(k, a) \<in> set new. k \<in> set ps \<and> get_artifact k s = Inr (Some a)) \<and>
     (\<forall>p \<in> set ps. p \<in> fst ` set seen' \<or> get_artifact p s = Inr None) \<and>
     card (unseen s seen') + length new = card (unseen s seen)"
proof (induction ps arbitrary: seen frontier)
  case (Cons p ps)
  show ?case
  proof (cases "p \<in> fst ` set seen")
    case True
    then have v: "visit_parents s ps (seen, frontier) = Inr (seen', frontier')" using Cons.prems by simp
    obtain new where n: "seen' = seen @ new" "frontier' = frontier @ map fst new"
      "\<forall>(k, a) \<in> set new. k \<in> set ps \<and> get_artifact k s = Inr (Some a)"
      "\<forall>p \<in> set ps. p \<in> fst ` set seen' \<or> get_artifact p s = Inr None"
      "card (unseen s seen') + length new = card (unseen s seen)"
      using Cons.IH [OF v] by blast
    show ?thesis by (rule exI [of _ new]) (use n True in auto)
  next
    case new: False
    then obtain found where f: "get_artifact p s = Inr found" using Cons.prems by (auto simp: bindS_eq_Inr)
    show ?thesis
    proof (cases found)
      case None
      then have v: "visit_parents s ps (seen, frontier) = Inr (seen', frontier')"
        using Cons.prems new f by (simp add: bindS_eq_Inr)
      obtain new' where n: "seen' = seen @ new'" "frontier' = frontier @ map fst new'"
        "\<forall>(k, a) \<in> set new'. k \<in> set ps \<and> get_artifact k s = Inr (Some a)"
        "\<forall>p \<in> set ps. p \<in> fst ` set seen' \<or> get_artifact p s = Inr None"
        "card (unseen s seen') + length new' = card (unseen s seen)"
        using Cons.IH [OF v] by blast
      show ?thesis by (rule exI [of _ new']) (use n None f in auto)
    next
      case (Some a)
      then have v: "visit_parents s ps (seen @ [(p, a)], frontier @ [p]) = Inr (seen', frontier')"
        using Cons.prems new f by (simp add: dict_put_fresh bindS_eq_Inr)
      from Cons.IH [OF v] obtain new' where n: "seen' = (seen @ [(p, a)]) @ new'"
        "frontier' = (frontier @ [p]) @ map fst new'"
        "\<forall>(k, a) \<in> set new'. k \<in> set ps \<and> get_artifact k s = Inr (Some a)"
        "\<forall>p \<in> set ps. p \<in> fst ` set seen' \<or> get_artifact p s = Inr None"
        "card (unseen s seen') + length new' = card (unseen s (seen @ [(p, a)]))" by blast
      have "unseen s seen = insert p (unseen s (seen @ [(p, a)]))" "p \<notin> unseen s (seen @ [(p, a)])"
        using get_artifact_exists [OF f [unfolded Some]] new by (auto simp: unseen_def)
      then have "card (unseen s seen) = Suc (card (unseen s (seen @ [(p, a)])))" by simp
      then show ?thesis using n f Some by (intro exI [of _ "(p, a) # new'"]) auto
    qed
  qed
qed simp

lemma visit_ops_Inr:
  "visit_ops s ops (sops, seen, frontier) = Inr (sops', seen', frontier') \<Longrightarrow>
   \<exists>new nops. seen' = seen @ new \<and> frontier' = frontier @ map fst new \<and> sops' = sops @ nops \<and>
     (\<forall>(k, a) \<in> set new. get_artifact k s = Inr (Some a) \<and> (\<exists>p \<in> set ops. k \<in> set (parents p))) \<and>
     (\<forall>(k, p) \<in> set nops. p \<in> set ops \<and> k = op_id p \<and>
        (\<forall>q \<in> set (parents p). q \<in> fst ` set seen' \<or> get_artifact q s = Inr None)) \<and>
     (\<forall>p \<in> set ops. op_id p \<in> fst ` set sops') \<and>
     card (unseen s seen') + length new = card (unseen s seen)"
proof (induction ops arbitrary: sops seen frontier)
  case (Cons p ops)
  show ?case
  proof (cases "op_id p \<in> fst ` set sops")
    case True
    with Cons.prems have "visit_ops s ops (sops, seen, frontier) = Inr (sops', seen', frontier')" by simp
    from Cons.IH [OF this] obtain new nops where n: "seen' = seen @ new"
      "frontier' = frontier @ map fst new" "sops' = sops @ nops"
      "\<forall>(k, a) \<in> set new. get_artifact k s = Inr (Some a) \<and> (\<exists>p \<in> set ops. k \<in> set (parents p))"
      "\<forall>(k, p) \<in> set nops. p \<in> set ops \<and> k = op_id p \<and>
        (\<forall>q \<in> set (parents p). q \<in> fst ` set seen' \<or> get_artifact q s = Inr None)"
      "\<forall>p \<in> set ops. op_id p \<in> fst ` set sops'"
      "card (unseen s seen') + length new = card (unseen s seen)" by blast
    show ?thesis by (intro exI [of _ new] exI [of _ nops] conjI) (use n True in auto)
  next
    case fresh: False
    with Cons.prems obtain seen1 fr1 where v: "visit_parents s (parents p) (seen, frontier) = Inr (seen1, fr1)"
      and r: "visit_ops s ops (sops @ [(op_id p, p)], seen1, fr1) = Inr (sops', seen', frontier')"
      by (auto simp: bindS_eq_Inr dict_put_fresh)
    obtain n1 where n1: "seen1 = seen @ n1" "fr1 = frontier @ map fst n1"
      "\<forall>(k, a) \<in> set n1. k \<in> set (parents p) \<and> get_artifact k s = Inr (Some a)"
      "\<forall>q \<in> set (parents p). q \<in> fst ` set seen1 \<or> get_artifact q s = Inr None"
      "card (unseen s seen1) + length n1 = card (unseen s seen)"
      using visit_parents_Inr [OF v] by blast
    obtain n2 nops where n2: "seen' = seen1 @ n2" "frontier' = fr1 @ map fst n2"
      "sops' = (sops @ [(op_id p, p)]) @ nops"
      "\<forall>(k, a) \<in> set n2. get_artifact k s = Inr (Some a) \<and> (\<exists>p \<in> set ops. k \<in> set (parents p))"
      "\<forall>(k, p) \<in> set nops. p \<in> set ops \<and> k = op_id p \<and>
        (\<forall>q \<in> set (parents p). q \<in> fst ` set seen' \<or> get_artifact q s = Inr None)"
      "\<forall>p \<in> set ops. op_id p \<in> fst ` set sops'"
      "card (unseen s seen') + length n2 = card (unseen s seen1)"
      using Cons.IH [OF r] by blast
    have own: "\<forall>q \<in> set (parents p). q \<in> fst ` set seen' \<or> get_artifact q s = Inr None"
      using n1(4) n2(1) by auto
    have a: "\<forall>(k, a) \<in> set (n1 @ n2). get_artifact k s = Inr (Some a) \<and>
        (\<exists>p \<in> set (p # ops). k \<in> set (parents p))" using n1(3) n2(4) by auto
    have b: "\<forall>(k, q) \<in> set ((op_id p, p) # nops). q \<in> set (p # ops) \<and> k = op_id q \<and>
        (\<forall>x \<in> set (parents q). x \<in> fst ` set seen' \<or> get_artifact x s = Inr None)"
      using own n2(5) by auto
    have c: "\<forall>q \<in> set (p # ops). op_id q \<in> fst ` set sops'" using n2(3,6) by auto
    show ?thesis
      by (intro exI [of _ "n1 @ n2"] exI [of _ "(op_id p, p) # nops"] conjI a b c)
        (use n1 n2 in simp_all)
  qed
qed auto

lemma visit_ops_InrE:
  assumes "visit_ops s ops (sops, seen, frontier) = Inr (sops', seen', frontier')"
  obtains new nops where "seen' = seen @ new" "frontier' = frontier @ map fst new" "sops' = sops @ nops"
    "\<forall>(k, a) \<in> set new. get_artifact k s = Inr (Some a) \<and> (\<exists>p \<in> set ops. k \<in> set (parents p))"
    "\<forall>(k, p) \<in> set nops. p \<in> set ops \<and> k = op_id p \<and>
        (\<forall>q \<in> set (parents p). q \<in> fst ` set seen' \<or> get_artifact q s = Inr None)"
    "\<forall>p \<in> set ops. op_id p \<in> fst ` set sops'"
    "card (unseen s seen') + length new = card (unseen s seen)"
proof -
  from visit_ops_Inr [OF assms] show thesis by (elim exE conjE) (rule that)
qed

text \<open>The outer loop: while the frontier is not empty, pop its last element.\<close>

function walk :: "store \<Rightarrow> seen_ops \<times> seen_artifacts \<times> string list \<Rightarrow>
    exc + seen_ops \<times> seen_artifacts \<times> string list" where
  "walk s (sops, seen, frontier) =
     (if frontier = [] then Inr (sops, seen, frontier)
      else bindS (visit_ops s (operations_into (last frontier) s) (sops, seen, butlast frontier)) (walk s))"
  by pat_completeness auto
termination
proof (relation "measure (\<lambda>(s, _, seen, frontier). card (unseen s seen) + length frontier)", goal_cases)
  case 1 show ?case by simp
next
  case (2 s sops seen frontier y)
  then have ne: "frontier \<noteq> []"
    and v: "visit_ops s (operations_into (last frontier) s) (sops, seen, butlast frontier) = Inr y" by auto
  obtain sops' seen' frontier' where y: "y = (sops', seen', frontier')" by (cases y) auto
  obtain new :: seen_artifacts where n: "frontier' = butlast frontier @ map fst new"
    and c: "card (unseen s seen') + length new = card (unseen s seen)"
  proof (rule visit_ops_InrE [OF v [unfolded y]])
    fix new :: seen_artifacts assume "frontier' = butlast frontier @ map fst new"
      "card (unseen s seen') + length new = card (unseen s seen)"
    then show thesis by (rule that)
  qed
  from n have "length frontier' = length frontier - 1 + length new" by simp
  moreover have "0 < length frontier" using ne by simp
  ultimately have "card (unseen s seen') + length frontier' < card (unseen s seen) + length frontier"
    using c by linarith
  then show ?case by (simp add: y)
qed

declare walk.simps [simp del]

definition get_provenance :: "string \<Rightarrow> store \<Rightarrow> exc + provenance" where
  "get_provenance i s =
     bindS (get_artifact i s) (\<lambda>root. case root of
       None \<Rightarrow> Inl (StoreError (''unknown artifact: '' @ i))
     | Some a \<Rightarrow>
         bindS (walk s ([], [], [i])) (\<lambda>(sops, seen, _).
           Inr \<lparr>pv_artifact = a, pv_operations = map snd sops, pv_ancestors = map snd seen,
                pv_decisions = decisions_for i s @
                  concat (map (\<lambda>(anc, _). decisions_for anc s) seen)\<rparr>))"


section \<open>What the walk finds\<close>

text \<open>
  The lineage of \<open>i\<close>: the recorded parents of operations into \<open>i\<close> or into its lineage. A parent
  with no row (a root outside the store) has no entry and is not followed.
\<close>

inductive lineage :: "store \<Rightarrow> string \<Rightarrow> string \<Rightarrow> bool" for s i where
  direct: "p \<in> set (t_operations (working s)) \<Longrightarrow> output_id p = i \<Longrightarrow> q \<in> set (parents p) \<Longrightarrow>
     get_artifact q s = Inr (Some a) \<Longrightarrow> lineage s i q"
| further: "lineage s i n \<Longrightarrow> p \<in> set (t_operations (working s)) \<Longrightarrow> output_id p = n \<Longrightarrow>
     q \<in> set (parents p) \<Longrightarrow> get_artifact q s = Inr (Some a) \<Longrightarrow> lineage s i q"

lemma operations_into_set [simp]:
  "set (operations_into n s) = {p \<in> set (t_operations (working s)). output_id p = n}"
  by (auto simp: operations_into_def op_order_def)

text \<open>The invariant of the outer loop.\<close>

definition op_seen :: "store \<Rightarrow> string \<Rightarrow> seen_artifacts \<Rightarrow> operation \<Rightarrow> bool" where
  "op_seen s i seen p \<longleftrightarrow> p \<in> set (t_operations (working s)) \<and>
     output_id p \<in> insert i (fst ` set seen) \<and>
     (\<forall>q \<in> set (parents p). q \<in> fst ` set seen \<or> get_artifact q s = Inr None)"

lemma op_seen_mono: "op_seen s i seen p \<Longrightarrow> op_seen s i (seen @ new) p"
  by (auto simp: op_seen_def)

definition walk_inv :: "store \<Rightarrow> string \<Rightarrow> seen_ops \<Rightarrow> seen_artifacts \<Rightarrow> string list \<Rightarrow> bool" where
  "walk_inv s i sops seen frontier \<longleftrightarrow>
     (\<forall>(k, a) \<in> set seen. get_artifact k s = Inr (Some a) \<and> lineage s i k) \<and>
     set frontier \<subseteq> insert i (fst ` set seen) \<and>
     (\<forall>(k, p) \<in> set sops. k = op_id p \<and> op_seen s i seen p) \<and>
     (\<forall>n \<in> insert i (fst ` set seen) - set frontier.
        \<forall>p \<in> set (operations_into n s). op_id p \<in> fst ` set sops)"

lemma walk_inv_start: "walk_inv s i [] [] [i]"
  by (simp add: walk_inv_def)

lemma walk_inv_step:
  assumes inv: "walk_inv s i sops seen frontier" and ne: "frontier \<noteq> []"
    and v: "visit_ops s (operations_into (last frontier) s) (sops, seen, butlast frontier) =
      Inr (sops', seen', frontier')"
  shows "walk_inv s i sops' seen' frontier'"
proof -
  let ?n = "last frontier"
  obtain new nops where n: "seen' = seen @ new" "frontier' = butlast frontier @ map fst new"
    "sops' = sops @ nops"
    "\<forall>(k, a) \<in> set new. get_artifact k s = Inr (Some a) \<and>
       (\<exists>p \<in> set (operations_into ?n s). k \<in> set (parents p))"
    "\<forall>(k, p) \<in> set nops. p \<in> set (operations_into ?n s) \<and> k = op_id p \<and>
        (\<forall>q \<in> set (parents p). q \<in> fst ` set seen' \<or> get_artifact q s = Inr None)"
    "\<forall>p \<in> set (operations_into ?n s). op_id p \<in> fst ` set sops'"
    by (rule visit_ops_InrE [OF v])
  have fr: "set frontier = insert ?n (set (butlast frontier))"
    using ne by (cases frontier rule: rev_cases) auto
  have root: "?n = i \<or> lineage s i ?n" using inv fr by (fastforce simp: walk_inv_def)
  have lin: "lineage s i k" if k: "(k, a) \<in> set new" for k a
  proof -
    obtain p where p: "p \<in> set (t_operations (working s))" "output_id p = ?n" "k \<in> set (parents p)"
      "get_artifact k s = Inr (Some a)" using n(4) k by fastforce
    from root show ?thesis
    proof
      assume "?n = i"
      then show ?thesis using direct p by metis
    next
      assume "lineage s i ?n"
      then show ?thesis using further p by metis
    qed
  qed
  have "\<forall>(k, a) \<in> set seen'. get_artifact k s = Inr (Some a) \<and> lineage s i k"
    using inv n(1,4) lin by (fastforce simp: walk_inv_def)
  moreover have "set frontier' \<subseteq> insert i (fst ` set seen')"
    using inv fr n(1,2) by (auto simp: walk_inv_def)
  moreover have "\<forall>(k, p) \<in> set sops'. k = op_id p \<and> op_seen s i seen' p"
  proof -
    have nn: "?n \<in> insert i (fst ` set seen')" using inv fr n(1) by (auto simp: walk_inv_def)
    have "\<forall>(k, p) \<in> set sops. k = op_id p \<and> op_seen s i seen' p"
      using inv unfolding n(1) walk_inv_def by (auto intro: op_seen_mono)
    moreover have "\<forall>(k, p) \<in> set nops. k = op_id p \<and> op_seen s i seen' p"
    proof (intro ballI, clarify)
      fix k p assume "(k, p) \<in> set nops"
      with n(5) have "p \<in> set (operations_into ?n s)" "k = op_id p"
        "\<forall>q \<in> set (parents p). q \<in> fst ` set seen' \<or> get_artifact q s = Inr None" by auto
      with nn show "k = op_id p \<and> op_seen s i seen' p" by (simp add: op_seen_def)
    qed
    ultimately show ?thesis using n(3) by auto
  qed
  moreover have "\<forall>m \<in> insert i (fst ` set seen') - set frontier'.
        \<forall>p \<in> set (operations_into m s). op_id p \<in> fst ` set sops'"
  proof
    fix m assume m: "m \<in> insert i (fst ` set seen') - set frontier'"
    show "\<forall>p \<in> set (operations_into m s). op_id p \<in> fst ` set sops'"
    proof (cases "m = ?n")
      case True then show ?thesis using n(6) by simp
    next
      case False
      have "m \<in> insert i (fst ` set seen) - set frontier" using m n(1,2) fr False by auto
      then have "\<forall>p \<in> set (operations_into m s). op_id p \<in> fst ` set sops"
        using inv unfolding walk_inv_def by blast
      then show ?thesis using n(3) by auto
    qed
  qed
  ultimately show ?thesis by (simp add: walk_inv_def)
qed

lemma walk_inv_end:
  "walk s (sops, seen, frontier) = Inr (sops', seen', frontier') \<Longrightarrow> walk_inv s i sops seen frontier \<Longrightarrow>
   walk_inv s i sops' seen' [] \<and> frontier' = []"
proof (induction s "(sops, seen, frontier)" arbitrary: sops seen frontier rule: walk.induct)
  case (1 s sops seen frontier)
  show ?case
  proof (cases "frontier = []")
    case True
    then show ?thesis using 1 by (simp add: walk.simps)
  next
    case False
    then obtain so se fr where v: "visit_ops s (operations_into (last frontier) s)
        (sops, seen, butlast frontier) = Inr (so, se, fr)"
      and w: "walk s (so, se, fr) = Inr (sops', seen', frontier')"
      using 1(2) by (auto simp: walk.simps [of s sops seen frontier] bindS_eq_Inr)
    show ?thesis using 1(1) [OF False v w] walk_inv_step [OF 1(3) False v] by simp
  qed
qed


lemma visit_parents_total:
  "rows_ok (working s) \<Longrightarrow> \<exists>x. visit_parents s ps acc = Inr x"
proof (induction ps arbitrary: acc)
  case (Cons p ps)
  obtain seen frontier where acc: "acc = (seen, frontier)" by (cases acc)
  obtain found where "get_artifact p s = Inr found" using get_artifact_total [OF Cons.prems] by blast
  then show ?case using Cons.IH [OF Cons.prems] by (auto simp: acc split: option.split)
next
  case Nil
  then show ?case by (cases acc) simp
qed

lemma visit_ops_total: "rows_ok (working s) \<Longrightarrow> \<exists>x. visit_ops s ps acc = Inr x"
proof (induction ps arbitrary: acc)
  case (Cons p ps)
  obtain sops seen frontier where acc: "acc = (sops, seen, frontier)" by (cases acc)
  obtain y where "visit_parents s (parents p) (seen, frontier) = Inr y"
    using visit_parents_total [OF Cons.prems] by blast
  then show ?case using Cons.IH [OF Cons.prems] by (cases y) (auto simp: acc)
qed auto

lemma walk_total: "rows_ok (working s) \<Longrightarrow> \<exists>x. walk s acc = Inr x"
proof (induction s acc rule: walk.induct)
  case (1 s sops seen frontier)
  show ?case
  proof (cases "frontier = []")
    case False
    obtain y where "visit_ops s (operations_into (last frontier) s) (sops, seen, butlast frontier) = Inr y"
      using visit_ops_total [OF 1(2)] by blast
    then show ?thesis using 1(1) [OF False _ 1(2)] False by (auto simp: walk.simps)
  qed (simp add: walk.simps)
qed

lemma seen_ids: "walk_inv s i sops seen frontier \<Longrightarrow> map (art_id \<circ> snd) seen = map fst seen"
  by (auto simp: walk_inv_def dest!: get_artifact_id)

lemma walk_inv_lineage:
  assumes "walk_inv s i sops seen []" "distinct (map op_id (t_operations (working s)))"
  shows "fst ` set seen = {q. lineage s i q}" (is ?A)
    and "snd ` set sops = {p \<in> set (t_operations (working s)). output_id p = i \<or> lineage s i (output_id p)}" (is ?B)
proof -
  have op: "p \<in> snd ` set sops" if p: "p \<in> set (t_operations (working s))"
    "output_id p \<in> insert i (fst ` set seen)" for p
  proof -
    have "op_id p \<in> fst ` set sops" using assms(1) p by (auto simp: walk_inv_def)
    then obtain q where q: "(op_id p, q) \<in> set sops" by auto
    then have "op_id q = op_id p" "q \<in> set (t_operations (working s))"
      using assms(1) by (auto simp: walk_inv_def op_seen_def)
    then have "q = p" using assms(2) p(1) by (auto simp: distinct_map inj_on_def)
    then show ?thesis using q by force
  qed
  have par: "q \<in> fst ` set seen" if pq: "p \<in> set (t_operations (working s))"
    "output_id p \<in> insert i (fst ` set seen)" "q \<in> set (parents p)" "get_artifact q s = Inr (Some a)" for p q a
  proof -
    obtain k where "(k, p) \<in> set sops" using op [OF pq(1,2)] by auto
    then have "op_seen s i seen p" using assms(1) by (auto simp: walk_inv_def)
    then have "q \<in> fst ` set seen \<or> get_artifact q s = Inr None" using pq(3) unfolding op_seen_def by blast
    then show ?thesis using pq(4) by simp
  qed
  have "lineage s i q \<Longrightarrow> q \<in> fst ` set seen" for q
    by (induction rule: lineage.induct) (auto intro: par)
  moreover have "q \<in> fst ` set seen \<Longrightarrow> lineage s i q" for q
    using assms(1) by (auto simp: walk_inv_def)
  ultimately show A: ?A by blast
  have "snd ` set sops \<subseteq> {p \<in> set (t_operations (working s)). output_id p \<in> insert i (fst ` set seen)}"
    using assms(1) by (auto simp: walk_inv_def op_seen_def)
  then show ?B using op A by auto
qed

lemma get_provenance_total:
  assumes "rows_ok (working s)" "has_artifact i (working s)"
  shows "\<exists>pv. get_provenance i s = Inr pv"
proof -
  obtain a where "get_artifact i s = Inr (Some a)" using get_artifact_known [OF assms] by blast
  moreover obtain x where "walk s ([], [], [i]) = Inr x" using walk_total [OF assms(1)] by blast
  ultimately show ?thesis by (cases x) (simp add: get_provenance_def)
qed

text \<open>C12. "Why do we believe X" is answered completely: on a store with decodable payloads the
  provenance walk always ends with an answer for a known artifact, whatever cycles the operations
  form, and the answer holds exactly the artifact's lineage, exactly the operations that produced the
  artifact and its lineage, and exactly their decisions.\<close>

theorem provenance_is_the_lineage:
  assumes "unique_keys (working s)" "rows_ok (working s)" "has_artifact i (working s)"
  shows "\<exists>pv. get_provenance i s = Inr pv \<and>
    get_artifact i s = Inr (Some (pv_artifact pv)) \<and>
    art_id ` set (pv_ancestors pv) = {q. lineage s i q} \<and>
    (\<forall>a \<in> set (pv_ancestors pv). get_artifact (art_id a) s = Inr (Some a)) \<and>
    set (pv_operations pv) =
      {p \<in> set (t_operations (working s)). output_id p = i \<or> lineage s i (output_id p)} \<and>
    set (pv_decisions pv) =
      {d \<in> set (t_decisions (working s)). d_artifact_id d = i \<or> lineage s i (d_artifact_id d)}"
proof -
  obtain pv where pv: "get_provenance i s = Inr pv" using get_provenance_total [OF assms(2,3)] by blast
  then obtain a sops seen fr where a: "get_artifact i s = Inr (Some a)"
    and w: "walk s ([], [], [i]) = Inr (sops, seen, fr)"
    and p: "pv = \<lparr>pv_artifact = a, pv_operations = map snd sops, pv_ancestors = map snd seen,
                pv_decisions = decisions_for i s @
                  concat (map (\<lambda>(anc, _). decisions_for anc s) seen)\<rparr>"
    by (auto simp: get_provenance_def bindS_eq_Inr split: option.split_asm)
  have inv: "walk_inv s i sops seen []" using walk_inv_end [OF w walk_inv_start] by simp
  have d: "distinct (map op_id (t_operations (working s)))" using assms(1) by (simp add: unique_keys_def)
  note lin = walk_inv_lineage [OF inv d]
  have "art_id ` set (map snd seen) = fst ` set seen"
    using arg_cong [OF seen_ids [OF inv], of set] by (simp add: image_comp)
  moreover have "\<forall>x \<in> set (map snd seen). get_artifact (art_id x) s = Inr (Some x)"
  proof
    fix x assume "x \<in> set (map snd seen)"
    then obtain k where "(k, x) \<in> set seen" by auto
    then have g: "get_artifact k s = Inr (Some x)" using inv by (auto simp: walk_inv_def)
    then show "get_artifact (art_id x) s = Inr (Some x)" using get_artifact_id [OF g] by simp
  qed
  moreover have "set (pv_decisions pv) = {d \<in> set (t_decisions (working s)).
      d_artifact_id d \<in> insert i (fst ` set seen)}"
    by (auto simp: p decisions_for_def) force
  ultimately show ?thesis using pv a lin by (intro exI [of _ pv]) (simp add: p)
qed

definition demo_chain :: store where
  "demo_chain = demo_with [demo_artifact ''a'' (PJson JNull), demo_artifact ''b'' (PJson JNull)]
     [(demo_operation ''o'' ''a'')\<lparr>parents := [''b'']\<rparr>, (demo_operation ''p'' ''b'')\<lparr>parents := [''a'', ''x'']\<rparr>]"

theorem provenance_is_the_lineage_witness:
  "\<exists>pv. get_provenance ''a'' demo_chain = Inr pv \<and> ''a'' \<in> art_id ` set (pv_ancestors pv) \<and>
     length (filter (\<lambda>p. op_id p = ''p'') (pv_operations pv)) \<noteq> 0"
proof -
  have g: "\<exists>a. get_artifact ''b'' demo_chain = Inr (Some a)" "\<exists>a. get_artifact ''a'' demo_chain = Inr (Some a)"
    by (simp_all add: demo_chain_def get_artifact_def demo_artifact_def artifact_to_row_def
        row_to_artifact_def load_payload_def dump_payload_def)
  have ops: "(demo_operation ''o'' ''a'')\<lparr>parents := [''b'']\<rparr> \<in> set (t_operations (working demo_chain))"
    "(demo_operation ''p'' ''b'')\<lparr>parents := [''a'', ''x'']\<rparr> \<in> set (t_operations (working demo_chain))"
    by (simp_all add: demo_chain_def)
  have b: "lineage demo_chain ''a'' ''b''"
    using lineage.direct [OF ops(1)] g(1) by (auto simp: demo_operation_def)
  have a: "lineage demo_chain ''a'' ''a''"
    using lineage.further [OF b ops(2)] g(2) by (auto simp: demo_operation_def)
  have "unique_keys (working demo_chain)" "rows_ok (working demo_chain)" "has_artifact ''a'' (working demo_chain)"
    by (simp_all add: demo_chain_def unique_keys_def rows_ok_def row_ok_def has_artifact_def demo_artifact_def
        demo_operation_def empty_db_def load_payload_def dump_payload_def)
  from provenance_is_the_lineage [OF this] obtain pv where pv: "get_provenance ''a'' demo_chain = Inr pv"
    "art_id ` set (pv_ancestors pv) = {q. lineage demo_chain ''a'' q}"
    "set (pv_operations pv) = {p \<in> set (t_operations (working demo_chain)).
        output_id p = ''a'' \<or> lineage demo_chain ''a'' (output_id p)}" by blast
  have "(demo_operation ''p'' ''b'')\<lparr>parents := [''a'', ''x'']\<rparr> \<in> set (pv_operations pv)"
    using pv(3) ops(2) b by (simp add: demo_operation_def)
  then have "filter (\<lambda>p. op_id p = ''p'') (pv_operations pv) \<noteq> []"
    by (fastforce simp: filter_empty_conv demo_operation_def)
  then show ?thesis using pv(1,2) a by auto
qed

end
