(* ===== verification/Invariants.thy ===== *)
theory Invariants
  imports Store_Audit
begin

text \<open>
  \<open>control_plane/invariants.py\<close>: the state-checkable audit invariants as functions that return the
  violations they find, and what an empty audit means for the database.
\<close>

record violation =
  vi_invariant :: string
  vi_detail :: string

definition mk_violation :: "string \<Rightarrow> string \<Rightarrow> violation" where
  "mk_violation i d = \<lparr>vi_invariant = i, vi_detail = d\<rparr>"

definition sec :: "string \<Rightarrow> string" where
  "sec n = ch_section @ n"

definition setdefault :: "'k \<Rightarrow> 'v \<Rightarrow> ('k \<times> 'v) list \<Rightarrow> ('k \<times> 'v) list" where
  "setdefault k v d = (if k \<in> fst ` set d then d else d @ [(k, v)])"

definition all_operations :: "store \<Rightarrow> artifact list \<Rightarrow> operation list" where
  "all_operations s as =
     map snd (fold (\<lambda>a seen. fold (\<lambda>p. setdefault (op_id p) p) (operations_into (art_id a) s) seen) as [])"

text \<open>\<open>_duplicates\<close>: the values seen more than once, sorted.\<close>

fun dup_scan :: "string list \<Rightarrow> string list \<Rightarrow> string list \<Rightarrow> string list" where
  "dup_scan seen dups [] = sort dups"
| "dup_scan seen dups (v # vs) =
     dup_scan (List.insert v seen) (if v \<in> set seen then List.insert v dups else dups) vs"

definition duplicates :: "string list \<Rightarrow> string list" where
  "duplicates = dup_scan [] []"

definition check_unique_ids :: "store \<Rightarrow> exc + violation list" where
  "check_unique_ids s =
     bindS (query_artifacts None None s) (\<lambda>as.
       Inr (map (\<lambda>d. mk_violation (sec ''5.1'') (''duplicate artifact id: '' @ d)) (duplicates (map art_id as)) @
            map (\<lambda>d. mk_violation (sec ''5.1'') (''duplicate operation id: '' @ d))
              (duplicates (map op_id (all_operations s as)))))"

definition check_provenance :: "store \<Rightarrow> exc + violation list" where
  "check_provenance s =
     bindS (query_artifacts None None s) (\<lambda>as.
       Inr (concat (map (\<lambda>a.
         if is_root a then []
         else if art_status a \<notin> {ACCEPTED, TENTATIVE} then []
         else if operations_into (art_id a) s = []
         then [mk_violation (sec ''5.4'') (''non-root '' @ status_value (art_status a) @ '' artifact '' @
                 art_id a @ '' has no provenance'')]
         else []) as)))"

definition check_failures_retained :: "store \<Rightarrow> exc + violation list" where
  "check_failures_retained s =
     bindS (query_artifacts None None s) (\<lambda>as.
     bindS (mapE (\<lambda>p. if output_id p = '''' then Inr []
         else bindS (get_artifact (output_id p) s) (\<lambda>found. Inr (case found of
             None \<Rightarrow> [mk_violation (sec ''5.5'') (''operation '' @ op_id p @
                       '' references missing output '' @ output_id p)]
           | Some _ \<Rightarrow> []))) (all_operations s as))
       (\<lambda>vss. Inr (concat vss)))"

definition check_pointers_of :: "store \<Rightarrow> artifact \<Rightarrow> exc + violation list" where
  "check_pointers_of s a =
     bindS (if art_status a = SUPERSEDED
        then (case superseded_by a of
            None \<Rightarrow> Inr [mk_violation (sec ''6'') (''superseded artifact '' @ art_id a @ '' has no superseded_by'')]
          | Some j \<Rightarrow> bindS (get_artifact j s) (\<lambda>found. Inr (if found = None
              then [mk_violation (sec ''6'') (art_id a @ ''.superseded_by points to missing artifact'')]
              else [])))
        else Inr [])
     (\<lambda>vs1. bindS (if art_status a = REVISED
        then (case revised_by a of
            None \<Rightarrow> Inr []
          | Some j \<Rightarrow> bindS (get_artifact j s) (\<lambda>found. Inr (if found = None
              then [mk_violation (sec ''6'') (art_id a @ ''.revised_by points to missing artifact'')]
              else [])))
        else Inr [])
     (\<lambda>vs2. Inr (vs1 @ vs2)))"

definition check_terminal_pointers :: "store \<Rightarrow> exc + violation list" where
  "check_terminal_pointers s =
     bindS (query_artifacts None None s) (\<lambda>as.
     bindS (mapE (check_pointers_of s) as) (\<lambda>vss. Inr (concat vss)))"

definition audit :: "store \<Rightarrow> exc + violation list" where
  "audit s =
     bindS (check_unique_ids s) (\<lambda>v1.
     bindS (check_provenance s) (\<lambda>v2.
     bindS (check_failures_retained s) (\<lambda>v3.
     bindS (check_terminal_pointers s) (\<lambda>v4. Inr (v1 @ v2 @ v3 @ v4)))))"

section \<open>Lemmas\<close>

lemma dup_scan_Nil: "dup_scan seen dups vs = [] \<longleftrightarrow> dups = [] \<and> distinct vs \<and> set vs \<inter> set seen = {}"
proof (induction vs arbitrary: seen dups)
  case Nil
  then show ?case by (metis disjoint_iff distinct.simps(1) dup_scan.simps(1) empty_iff empty_set
        length_0_conv length_sort)
next
  case (Cons v vs)
  show ?case by (cases "v \<in> set seen") (auto simp: Cons List.insert_def)
qed

lemma duplicates_Nil [simp]: "duplicates vs = [] \<longleftrightarrow> distinct vs"
  by (simp add: duplicates_def dup_scan_Nil)

lemma fold_setdefault_keys:
  "distinct (map fst d) \<and> (\<forall>(k, p) \<in> set d. k = op_id p \<and> P p) \<Longrightarrow> \<forall>p \<in> set ps. P p \<Longrightarrow>
   let d' = fold (\<lambda>p. setdefault (op_id p) p) ps d in
     distinct (map fst d') \<and> (\<forall>(k, p) \<in> set d'. k = op_id p \<and> P p)"
proof (induction ps arbitrary: d)
  case (Cons p ps)
  have "distinct (map fst (setdefault (op_id p) p d)) \<and>
      (\<forall>(k, p) \<in> set (setdefault (op_id p) p d). k = op_id p \<and> P p)"
    using Cons.prems by (auto simp: setdefault_def)
  with Cons.IH [OF this] Cons.prems(2) show ?case by simp
qed (simp add: Let_def)

text \<open>Deduplication and the per-artifact queries decide two of the checks in advance.\<close>

lemma all_operations_spec:
  "distinct (map op_id (all_operations s as)) \<and> (\<forall>p \<in> set (all_operations s as). output_id p \<in> art_id ` set as)"
proof -
  let ?P = "\<lambda>p. output_id p \<in> art_id ` set as"
  have run: "set bs \<subseteq> set as \<Longrightarrow> distinct (map fst d) \<and> (\<forall>(k, p) \<in> set d. k = op_id p \<and> ?P p) \<Longrightarrow>
     let d' = fold (\<lambda>a seen. fold (\<lambda>p. setdefault (op_id p) p) (operations_into (art_id a) s) seen) bs d in
       distinct (map fst d') \<and> (\<forall>(k, p) \<in> set d'. k = op_id p \<and> ?P p)" for bs d
  proof (induction bs arbitrary: d)
    case (Cons b bs)
    have "\<forall>p \<in> set (operations_into (art_id b) s). ?P p"
      using Cons.prems(1) by (auto simp: operations_into_def op_order_def)
    from fold_setdefault_keys [OF Cons.prems(2) this] show ?case
      using Cons.IH Cons.prems(1) by (simp add: Let_def)
  qed (simp add: Let_def)
  define d where "d = fold (\<lambda>a seen. fold (\<lambda>p. setdefault (op_id p) p) (operations_into (art_id a) s) seen) as []"
  have "distinct (map fst d) \<and> (\<forall>(k, p) \<in> set d. k = op_id p \<and> ?P p)"
    using run [of as "[]"] by (simp add: d_def Let_def)
  then have d: "distinct (map fst d)" "\<forall>(k, p) \<in> set d. k = op_id p \<and> ?P p"
    "all_operations s as = map snd d" by (simp_all add: all_operations_def d_def)
  have "map op_id (all_operations s as) = map fst d" using d(2,3) by auto
  then have "distinct (map op_id (all_operations s as))" using d(1) by metis
  then show ?thesis using d(2,3) by auto
qed

lemma query_all_rows:
  assumes "rows_ok (working s)"
  shows "\<exists>as. query_artifacts None None s = Inr as \<and>
    list_all2 (\<lambda>r a. row_to_artifact r = Inr a) (sort_key (\<lambda>r. (created_at r, art_id r)) (t_artifacts (working s))) as"
proof -
  let ?rs = "sort_key (\<lambda>r. (created_at r, art_id r)) (t_artifacts (working s))"
  define g where "g r = (SOME a. row_to_artifact r = Inr a)" for r
  have "row_to_artifact r = Inr (g r)" if "r \<in> set ?rs" for r
  proof -
    have "row_ok r" using assms that by (simp add: rows_ok_def)
    then have "\<exists>a. row_to_artifact r = Inr a" by (auto simp: row_ok_def row_to_artifact_def)
    then show ?thesis unfolding g_def by (rule someI_ex)
  qed
  then have "mapE row_to_artifact ?rs = Inr (map g ?rs)" by (rule mapE_Inr)
  then show ?thesis by (auto simp: query_artifacts_def mapE_eq_Inr_iff)
qed

lemma row_to_artifact_fields: "row_to_artifact r = Inr a \<Longrightarrow> art_id a = art_id r \<and> art_status a = art_status r \<and>
   is_root a = is_root r \<and> superseded_by a = superseded_by r \<and> revised_by a = revised_by r"
  by (auto simp: row_to_artifact_def row_with_def bindS_eq_Inr)

section \<open>What a clean audit says\<close>

definition row_provenanced :: "db \<Rightarrow> artifact_row \<Rightarrow> bool" where
  "row_provenanced d r \<longleftrightarrow> is_root r \<or> art_status r \<notin> {ACCEPTED, TENTATIVE} \<or>
     (\<exists>p \<in> set (t_operations d). output_id p = art_id r)"

definition row_pointers :: "db \<Rightarrow> artifact_row \<Rightarrow> bool" where
  "row_pointers d r \<longleftrightarrow>
     (art_status r = SUPERSEDED \<longrightarrow> (\<exists>j. superseded_by r = Some j \<and> has_artifact j d)) \<and>
     (art_status r = REVISED \<longrightarrow> (\<forall>j. revised_by r = Some j \<longrightarrow> has_artifact j d))"

definition audit_sound :: "db \<Rightarrow> bool" where
  "audit_sound d \<longleftrightarrow> distinct (map art_id (t_artifacts d)) \<and>
     (\<forall>r \<in> set (t_artifacts d). row_provenanced d r \<and> row_pointers d r)"

lemma get_artifact_None_iff:
  "rows_ok (working s) \<Longrightarrow> get_artifact j s = Inr None \<longleftrightarrow> \<not> has_artifact j (working s)"
proof
  show "get_artifact j s = Inr None" if "\<not> has_artifact j (working s)"
    using that by (auto simp: get_artifact_def has_artifact_def find_None_iff split: option.split
        dest: find_Some_in)
  show "\<not> has_artifact j (working s)" if "rows_ok (working s)" "get_artifact j s = Inr None"
    using get_artifact_known [OF that(1)] that(2) by fastforce
qed

lemma check_pointers_of_spec:
  assumes "rows_ok (working s)" "row_to_artifact r = Inr a"
  shows "\<exists>vs. check_pointers_of s a = Inr vs \<and> (vs = [] \<longleftrightarrow> row_pointers (working s) r)"
proof -
  have found: "\<exists>f. get_artifact j s = Inr f \<and> (f = None \<longleftrightarrow> \<not> has_artifact j (working s))" for j
    using get_artifact_total [OF assms(1), of j] get_artifact_None_iff [OF assms(1), of j] by auto
  note f = row_to_artifact_fields [OF assms(2)]
  show ?thesis
    using found [of "the (superseded_by a)"] found [of "the (revised_by a)"] f
    by (cases "art_status r") (auto simp: check_pointers_of_def row_pointers_def split: option.split)
qed


lemma check_failures_vacuous:
  assumes "rows_ok (working s)"
  shows "check_failures_retained s = Inr []"
proof -
  obtain as where q: "query_artifacts None None s = Inr as"
    and l: "list_all2 (\<lambda>r a. row_to_artifact r = Inr a)
      (sort_key (\<lambda>r. (created_at r, art_id r)) (t_artifacts (working s))) as"
    using query_all_rows [OF assms] by blast
  have known: "has_artifact (art_id a) (working s)" if "a \<in> set as" for a
    using list_all2_setD2 [OF l that] row_to_artifact_fields by (auto simp: has_artifact_def)
  have "mapE (\<lambda>p. if output_id p = '''' then Inr []
         else bindS (get_artifact (output_id p) s) (\<lambda>found. Inr (case found of
             None \<Rightarrow> [mk_violation (sec ''5.5'') (''operation '' @ op_id p @
                       '' references missing output '' @ output_id p)]
           | Some _ \<Rightarrow> []))) (all_operations s as) = Inr (map (\<lambda>_. []) (all_operations s as))"
  proof (rule mapE_Inr)
    fix p assume "p \<in> set (all_operations s as)"
    then have "output_id p \<in> art_id ` set as" using all_operations_spec by simp
    then obtain x where "x \<in> set as" and x: "output_id p = art_id x" by auto
    then obtain a where "get_artifact (output_id p) s = Inr (Some a)"
      using get_artifact_known [OF assms known] by auto
    then show "(if output_id p = '''' then Inr []
         else bindS (get_artifact (output_id p) s) (\<lambda>found. Inr (case found of
             None \<Rightarrow> [mk_violation (sec ''5.5'') (''operation '' @ op_id p @
                       '' references missing output '' @ output_id p)]
           | Some _ \<Rightarrow> []))) = Inr []" by simp
  qed
  then show ?thesis by (simp add: check_failures_retained_def q)
qed

lemma check_unique_ids_spec:
  assumes "rows_ok (working s)"
  shows "\<exists>vs. check_unique_ids s = Inr vs \<and> (vs = [] \<longleftrightarrow> distinct (map art_id (t_artifacts (working s))))"
proof -
  obtain as where q: "query_artifacts None None s = Inr as"
    and l: "list_all2 (\<lambda>r a. row_to_artifact r = Inr a)
      (sort_key (\<lambda>r. (created_at r, art_id r)) (t_artifacts (working s))) as"
    using query_all_rows [OF assms] by blast
  have "map art_id as = map art_id (sort_key (\<lambda>r. (created_at r, art_id r)) (t_artifacts (working s)))"
    using l by (induction rule: list_all2_induct) (auto dest: row_to_artifact_fields)
  then have "distinct (map art_id as) \<longleftrightarrow> distinct (map art_id (t_artifacts (working s)))"
    by (simp add: distinct_map)
  then show ?thesis using all_operations_spec by (simp add: check_unique_ids_def q)
qed

lemma check_provenance_spec:
  assumes "rows_ok (working s)"
  shows "\<exists>vs. check_provenance s = Inr vs \<and>
    (vs = [] \<longleftrightarrow> (\<forall>r \<in> set (t_artifacts (working s)). row_provenanced (working s) r))"
proof -
  obtain as where q: "query_artifacts None None s = Inr as"
    and l: "list_all2 (\<lambda>r a. row_to_artifact r = Inr a)
      (sort_key (\<lambda>r. (created_at r, art_id r)) (t_artifacts (working s))) as"
    using query_all_rows [OF assms] by blast
  let ?f = "\<lambda>a. if is_root a then []
         else if art_status a \<notin> {ACCEPTED, TENTATIVE} then []
         else if operations_into (art_id a) s = []
         then [mk_violation (sec ''5.4'') (''non-root '' @ status_value (art_status a) @ '' artifact '' @
                 art_id a @ '' has no provenance'')]
         else []"
  have one: "?f a = [] \<longleftrightarrow> row_provenanced (working s) r" if "row_to_artifact r = Inr a" for r a
    using row_to_artifact_fields [OF that]
    by (auto simp: row_provenanced_def operations_into_def op_order_def filter_empty_conv)
  from l have "concat (map ?f as) = [] \<longleftrightarrow> (\<forall>r \<in> set (sort_key (\<lambda>r. (created_at r, art_id r))
      (t_artifacts (working s))). row_provenanced (working s) r)"
  proof (induction rule: list_all2_induct)
    case (Cons r rs a as)
    then show ?case using one [OF Cons(1)] by (simp only: list.map concat.simps append_is_Nil_conv list.set ball_simps)
  qed simp
  then show ?thesis by (simp only: check_provenance_def q bindS_simps sum.inject set_sort) blast
qed

lemma check_terminal_spec:
  assumes "rows_ok (working s)"
  shows "\<exists>vs. check_terminal_pointers s = Inr vs \<and>
    (vs = [] \<longleftrightarrow> (\<forall>r \<in> set (t_artifacts (working s)). row_pointers (working s) r))"
proof -
  let ?rs = "sort_key (\<lambda>r. (created_at r, art_id r)) (t_artifacts (working s))"
  obtain as where q: "query_artifacts None None s = Inr as"
    and l: "list_all2 (\<lambda>r a. row_to_artifact r = Inr a) ?rs as"
    using query_all_rows [OF assms] by blast
  from l have "\<exists>vss. mapE (check_pointers_of s) as = Inr vss \<and>
      (concat vss = [] \<longleftrightarrow> (\<forall>r \<in> set ?rs. row_pointers (working s) r))"
  proof (induction rule: list_all2_induct)
    case (Cons r rs a as)
    then show ?case using check_pointers_of_spec [OF assms Cons(1)] by auto
  qed simp
  then show ?thesis by (auto simp: check_terminal_pointers_def q)
qed

text \<open>C13. What the audit certifies, exactly: on a store with decodable payloads the audit always
  returns, and it returns no violation if and only if artifact ids are unique, every non-root
  accepted or tentative artifact has an operation that produced it, every superseded artifact points
  to an existing artifact and every revision pointer of a revised one resolves. The checks for
  duplicate operation ids and for missing outputs contribute nothing to it.\<close>

theorem audit_certifies:
  assumes "rows_ok (working s)"
  shows "\<exists>vs. audit s = Inr vs \<and> (vs = [] \<longleftrightarrow> audit_sound (working s))"
proof -
  obtain v1 v2 v4 where v: "check_unique_ids s = Inr v1" "check_provenance s = Inr v2"
    "check_terminal_pointers s = Inr v4"
    "v1 = [] \<longleftrightarrow> distinct (map art_id (t_artifacts (working s)))"
    "v2 = [] \<longleftrightarrow> (\<forall>r \<in> set (t_artifacts (working s)). row_provenanced (working s) r)"
    "v4 = [] \<longleftrightarrow> (\<forall>r \<in> set (t_artifacts (working s)). row_pointers (working s) r)"
    using check_unique_ids_spec [OF assms] check_provenance_spec [OF assms] check_terminal_spec [OF assms]
    by blast
  have "audit s = Inr (v1 @ v2 @ v4)"
    by (simp add: audit_def v(1-3) check_failures_vacuous [OF assms])
  moreover have "v1 @ v2 @ v4 = [] \<longleftrightarrow> audit_sound (working s)"
    using v(4-6) by (auto simp: audit_sound_def)
  ultimately show ?thesis by blast
qed

theorem audit_certifies_witness:
  "\<exists>vs. audit (demo_with [(demo_artifact ''a'' (PJson JNull))\<lparr>art_status := ACCEPTED\<rparr>] []) = Inr vs \<and> vs \<noteq> []"
proof -
  let ?s = "demo_with [(demo_artifact ''a'' (PJson JNull))\<lparr>art_status := ACCEPTED\<rparr>] []"
  have "rows_ok (working ?s)"
    by (simp add: rows_ok_def row_ok_def demo_artifact_def load_payload_def dump_payload_def)
  moreover have "\<not> audit_sound (working ?s)"
    by (simp add: audit_sound_def row_provenanced_def demo_artifact_def empty_db_def)
  ultimately show ?thesis using audit_certifies [of ?s] by blast
qed

end
