(* ===== verification/Commit.thy ===== *)
theory Commit
  imports Registries
begin

text \<open>
  \<open>control_plane/commit.py\<close>: the privileged route from a proposal to durable state. The verifier
  handoff is a parameter \<open>dispatch\<close> that may read the store, step the verifier's own state and
  raise; everything after it is one transaction on the store.
\<close>

section \<open>Results\<close>

datatype commit_outcome = OUT_REJECTED | OUT_TENTATIVE | OUT_ACCEPTED | OUT_REVISED

fun commit_outcome_value :: "commit_outcome \<Rightarrow> string" where
  "commit_outcome_value OUT_REJECTED = ''rejected''"
| "commit_outcome_value OUT_TENTATIVE = ''tentative''"
| "commit_outcome_value OUT_ACCEPTED = ''accepted''"
| "commit_outcome_value OUT_REVISED = ''revised''"

record commit_result =
  cr_outcome :: commit_outcome
  cr_artifact_id :: string
  cr_status :: artifact_status
  cr_defects :: "string list option"
  cr_decisions :: "decision list"

section \<open>The commit path\<close>

definition assert_consistent :: "verdict_bundle \<Rightarrow> exc + unit" where
  "assert_consistent b =
     (let kinds = gd_kind ` set (vb_decisions b) in
      if REJECT \<in> kinds \<and> vb_status b \<noteq> REJECTED
      then Inl (BundleInconsistent (''bundle carries a reject decision but recommends '' @
             py_repr (status_value (vb_status b))))
      else if REFINE \<in> kinds \<and> vb_status b \<noteq> REVISED
      then Inl (BundleInconsistent (''bundle carries a refine decision but recommends '' @
             py_repr (status_value (vb_status b))))
      else Inr ())"

definition defects_from :: "verdict_bundle \<Rightarrow> string list option" where
  "defects_from b =
     (case List.find (\<lambda>r. gd_kind r = REFINE \<and> gd_defects r \<notin> {None, Some []}) (vb_decisions b) of
        Some r \<Rightarrow> gd_defects r
      | None \<Rightarrow> None)"

definition ensure_provenance :: "artifact \<Rightarrow> unit store_op" where
  "ensure_provenance a s =
     (if is_root a then ret () s
      else if operations_into (art_id a) s = []
      then raise (CommitError (''artifact '' @ art_id a @ '' is non-root but has no provenance edge ('' @
             ch_section @ ''5.4); cannot accept a provenance-less artifact'')) s
      else ret () s)"

definition accept_artifact :: "artifact \<Rightarrow> string option \<Rightarrow> unit store_op" where
  "accept_artifact a supersedes =
     (case supersedes of
        None \<Rightarrow> set_status (art_id a) ACCEPTED
      | Some j \<Rightarrow>
          bindE (reads (get_artifact j)) (\<lambda>found. case found of
            None \<Rightarrow> raise (CommitError (''bundle names an unknown incumbent to supersede: '' @ py_repr j))
          | Some incumbent \<Rightarrow>
              bindE (reads (\<lambda>_. assert_transition (art_status incumbent) SUPERSEDED)) (\<lambda>_.
                accept_superseding (art_id a) j)))"

definition commit_decision :: "string \<Rightarrow> string \<Rightarrow> gate_decision \<Rightarrow> decision" where
  "commit_decision i now r =
     \<lparr>d_artifact_id = i, d_gate = gd_gate r, d_verdict = gd_kind r, d_rationale = gd_rationale r,
      d_defects = gd_defects r, d_score = gd_score r, d_created_at = now\<rparr>"

definition record_ruling :: "string \<Rightarrow> gate_decision \<Rightarrow> decision store_op" where
  "record_ruling i r =
     bindE tick (\<lambda>now. bindE (record_decision (commit_decision i now r)) (\<lambda>_.
       ret (commit_decision i now r)))"

text \<open>Step 4: the decisions and the terminal status, as one transaction.\<close>

definition commit_with :: "artifact \<Rightarrow> commit_outcome \<Rightarrow> artifact_status \<Rightarrow> string list option \<Rightarrow>
    decision list \<Rightarrow> commit_result" where
  "commit_with a out st defects decisions = \<lparr>cr_outcome = out, cr_artifact_id = art_id a,
     cr_status = st, cr_defects = defects, cr_decisions = decisions\<rparr>"

definition write_terminal :: "artifact \<Rightarrow> verdict_bundle \<Rightarrow> bool \<Rightarrow> decision list \<Rightarrow> commit_result store_op" where
  "write_terminal a b refine_exhausted decisions =
     bindE (reads (\<lambda>_. assert_transition PROPOSED (vb_status b))) (\<lambda>_.
       case vb_status b of
         REJECTED \<Rightarrow>
           bindE (set_status (art_id a) REJECTED) (\<lambda>_.
           ret (commit_with a OUT_REJECTED REJECTED None decisions))
       | REVISED \<Rightarrow>
           if refine_exhausted
           then bindE (set_status (art_id a) REJECTED) (\<lambda>_.
                ret (commit_with a OUT_REJECTED REJECTED (defects_from b) decisions))
           else bindE (set_status (art_id a) REVISED) (\<lambda>_.
                ret (commit_with a OUT_REVISED REVISED (defects_from b) decisions))
       | TENTATIVE \<Rightarrow>
           bindE (ensure_provenance a) (\<lambda>_.
           bindE (set_status (art_id a) TENTATIVE) (\<lambda>_.
           ret (commit_with a OUT_TENTATIVE TENTATIVE None decisions)))
       | ACCEPTED \<Rightarrow>
           bindE (ensure_provenance a) (\<lambda>_.
           bindE (accept_artifact a (vb_supersedes b)) (\<lambda>_.
           ret (commit_with a OUT_ACCEPTED ACCEPTED None decisions)))
       | _ \<Rightarrow> raise (BundleInconsistent (''verifier reported an unsupported terminal status: '' @
                py_repr (status_value (vb_status b)))))"

definition settle :: "artifact \<Rightarrow> verdict_bundle \<Rightarrow> bool \<Rightarrow> commit_result store_op" where
  "settle a b refine_exhausted =
     transaction (bindE (mapM (record_ruling (art_id a)) (vb_decisions b))
       (write_terminal a b refine_exhausted))"

text \<open>Running a store operation in a state that also holds the verifier.\<close>

definition in_store :: "'a store_op \<Rightarrow> (store \<times> 'v, exc, 'a) st" where
  "in_store m sv = (case m (fst sv) of (r, s') \<Rightarrow> (r, (s', snd sv)))"

type_synonym 'v dispatcher = "artifact \<Rightarrow> store \<Rightarrow> 'v \<Rightarrow> (exc + verdict_bundle) \<times> 'v"

definition run_commit :: "string \<Rightarrow> (string \<Rightarrow> store_input list option) \<Rightarrow> 'v dispatcher \<Rightarrow>
    string \<Rightarrow> bool \<Rightarrow> (store \<times> 'v, exc, commit_result) st" where
  "run_commit i resolve_coverage dispatch verifier_identity refine_exhausted =
     bindE (in_store (reads (get_artifact i))) (\<lambda>found. case found of
       None \<Rightarrow> raise (CommitError (''unknown artifact: '' @ i))
     | Some a \<Rightarrow>
         if art_status a \<noteq> PROPOSED
         then raise (CommitError (''commit operates on a '' @ py_repr ''proposed'' @
                '' artifact, got '' @ py_repr (status_value (art_status a))))
         else if resolve_coverage (art_type a) = None
         then raise (NoImplicitAccept (art_type a))
         else if verifier_identity = created_by a
         then raise (ProposerIsGate verifier_identity)
         else bindE (\<lambda>(s, v). case dispatch a s v of (r, v') \<Rightarrow> (r, (s, v'))) (\<lambda>b.
              bindE (reads (\<lambda>_. assert_consistent b)) (\<lambda>_.
                in_store (settle a b refine_exhausted))))"

section \<open>What a commit does\<close>

lemma assert_consistent_Inr [simp]:
  "assert_consistent b = Inr u \<longleftrightarrow>
     (\<forall>r \<in> set (vb_decisions b). (gd_kind r = REJECT \<longrightarrow> vb_status b = REJECTED) \<and>
        (gd_kind r = REFINE \<longrightarrow> vb_status b = REVISED))"
  by (simp add: assert_consistent_def Let_def image_iff) metis

lemma tick_eq: "tick s = (Inr x, s') \<longleftrightarrow> x = clock s (ticks s) \<and> s' = s\<lparr>ticks := Suc (ticks s)\<rparr>"
  by (auto simp: tick_def)

text \<open>The row a ruling becomes; the timestamp is the clock's.\<close>

definition ruling_row :: "string \<Rightarrow> gate_decision \<Rightarrow> decision \<Rightarrow> bool" where
  "ruling_row i r e \<longleftrightarrow> (\<exists>now. e = commit_decision i now r)"

lemma record_ruling_Inr:
  assumes "record_ruling i r s = (Inr e, s')"
  shows "ruling_row i r e \<and> (\<exists>e'. ruling_row i r e' \<and>
    working s' = (working s)\<lparr>t_decisions := t_decisions (working s) @ [e']\<rparr>)"
proof -
  obtain s1 now where t: "tick s = (Inr now, s1)"
    and r: "record_decision (commit_decision i now r) s1 = (Inr (), s')"
    and e: "e = commit_decision i now r"
    using assms by (auto simp: record_ruling_def bindE_ok ret_def)
  obtain e' where e': "dec_stamp (commit_decision i now r) e'"
    "working s' = (working s1)\<lparr>t_decisions := t_decisions (working s1) @ [e']\<rparr>"
    using record_decision_Inr [OF r] by blast
  have "ruling_row i r e'" using e'(1) by (auto simp: dec_stamp_def ruling_row_def commit_decision_def)
  then show ?thesis using e e' t by (auto simp: ruling_row_def tick_eq)
qed

lemma record_rulings_Inr:
  "mapM (record_ruling i) rs s = (Inr ds, s') \<Longrightarrow> list_all2 (ruling_row i) rs ds \<and>
     (\<exists>new. list_all2 (ruling_row i) rs new \<and>
       working s' = (working s)\<lparr>t_decisions := t_decisions (working s) @ new\<rparr>)"
proof (induction rs arbitrary: s ds)
  case (Cons r rs)
  then obtain e s1 es where r: "record_ruling i r s = (Inr e, s1)"
    and m: "mapM (record_ruling i) rs s1 = (Inr es, s')" and ds: "ds = e # es"
    by (auto simp: bindE_ok ret_def)
  obtain e' where "ruling_row i r e" "ruling_row i r e'"
    "working s1 = (working s)\<lparr>t_decisions := t_decisions (working s) @ [e']\<rparr>"
    using record_ruling_Inr [OF r] by blast
  moreover obtain new where "list_all2 (ruling_row i) rs es" "list_all2 (ruling_row i) rs new"
    "working s' = (working s1)\<lparr>t_decisions := t_decisions (working s1) @ new\<rparr>"
    using Cons.IH [OF m] by blast
  ultimately show ?case unfolding ds by (intro conjI exI [of _ "e' # new"]) auto
qed (auto simp: ret_def)

text \<open>The artifact table after the terminal status write.\<close>

definition settled_rows :: "string \<Rightarrow> verdict_bundle \<Rightarrow> bool \<Rightarrow> db \<Rightarrow> db" where
  "settled_rows i b refine_exhausted d =
     (case (vb_status b, vb_supersedes b) of
        (ACCEPTED, Some j) \<Rightarrow>
          map_row j (\<lambda>r. r\<lparr>art_status := SUPERSEDED, superseded_by := Some i\<rparr>)
            (map_row i (\<lambda>r. r\<lparr>art_status := ACCEPTED\<rparr>) d)
      | (st, _) \<Rightarrow> map_row i (\<lambda>r. r\<lparr>art_status :=
            (if st = REVISED \<and> refine_exhausted then REJECTED else st)\<rparr>) d)"

definition provenanced :: "artifact \<Rightarrow> db \<Rightarrow> bool" where
  "provenanced a d \<longleftrightarrow> is_root a \<or> (\<exists>p \<in> set (t_operations d). output_id p = art_id a)"

lemma ensure_provenance_Inr [simp]:
  "ensure_provenance a s = (Inr u, s') \<longleftrightarrow> provenanced a (working s) \<and> s' = s"
  by (auto simp: ensure_provenance_def provenanced_def operations_into_def op_order_def
      filter_empty_conv ret_def raise_def)

lemma get_artifact_cong:
  "t_artifacts (working s) = t_artifacts (working t) \<Longrightarrow> get_artifact i s = get_artifact i t"
  by (simp add: get_artifact_def)

definition supersedable :: "verdict_bundle \<Rightarrow> store \<Rightarrow> bool" where
  "supersedable b s \<longleftrightarrow> vb_status b = ACCEPTED \<longrightarrow> (\<forall>j. vb_supersedes b = Some j \<longrightarrow>
     (\<exists>inc. get_artifact j s = Inr (Some inc) \<and> art_status inc \<in> {ACCEPTED, TENTATIVE}))"


lemma get_artifact_decisions [simp]:
  "get_artifact i (s\<lparr>working := d\<lparr>t_decisions := x\<rparr>\<rparr>) = get_artifact i (s\<lparr>working := d\<rparr>)"
  by (simp add: get_artifact_def)

lemma accept_artifact_Inr:
  assumes "accept_artifact a sby s = (Inr u, s')"
  shows "(case sby of None \<Rightarrow> working s' = map_row (art_id a) (\<lambda>r. r\<lparr>art_status := ACCEPTED\<rparr>) (working s)
    | Some j \<Rightarrow> (\<exists>inc. get_artifact j s = Inr (Some inc) \<and> art_status inc \<in> {ACCEPTED, TENTATIVE}) \<and>
        working s' = map_row j (\<lambda>r. r\<lparr>art_status := SUPERSEDED, superseded_by := Some (art_id a)\<rparr>)
          (map_row (art_id a) (\<lambda>r. r\<lparr>art_status := ACCEPTED\<rparr>) (working s)))"
  using assms
  by (cases sby) (auto simp: accept_artifact_def bindE_ok reads_eq raise_eq to_superseded
      split: option.splits dest!: set_status_Inr accept_superseding_Inr)

definition final_status :: "verdict_bundle \<Rightarrow> bool \<Rightarrow> artifact_status" where
  "final_status b refine_exhausted =
     (if vb_status b = REVISED \<and> refine_exhausted then REJECTED else vb_status b)"

definition terminal_effect ::
    "artifact \<Rightarrow> verdict_bundle \<Rightarrow> bool \<Rightarrow> decision list \<Rightarrow> store \<Rightarrow> commit_result \<Rightarrow> db \<Rightarrow> bool" where
  "terminal_effect a b ex ds s r d \<longleftrightarrow>
     cr_artifact_id r = art_id a \<and> cr_status r = final_status b ex \<and> cr_decisions r = ds \<and>
     is_legal_transition PROPOSED (vb_status b) \<and> supersedable b s \<and>
     (final_status b ex \<in> {ACCEPTED, TENTATIVE} \<longrightarrow> provenanced a (working s)) \<and>
     d = settled_rows (art_id a) b ex (working s)"

lemma write_terminal_Inr:
  assumes "write_terminal a b ex ds s = (Inr r, s')"
  shows "terminal_effect a b ex ds s r (working s')"
proof -
  note defs = write_terminal_def terminal_effect_def final_status_def supersedable_def
    settled_rows_def commit_with_def
  have legal: "is_legal_transition PROPOSED (vb_status b)"
    using assms by (auto simp: write_terminal_def bindE_ok reads_eq)
  consider "vb_status b = REJECTED" | "vb_status b = REVISED" | "vb_status b = TENTATIVE"
    | "vb_status b = ACCEPTED"
    using legal by (auto simp: from_proposed)
  then show ?thesis
  proof cases
    case 1
    then show ?thesis using assms legal
      by (auto simp: defs bindE_ok reads_eq ret_eq dest!: set_status_Inr)
  next
    case 2
    then show ?thesis using assms legal
      by (cases ex) (auto simp: defs bindE_ok reads_eq ret_eq dest!: set_status_Inr)
  next
    case 3
    then show ?thesis using assms legal
      by (auto simp: defs bindE_ok reads_eq ret_eq dest!: set_status_Inr)
  next
    case 4
    then show ?thesis using assms legal
      by (cases "vb_supersedes b") (auto simp: defs bindE_ok reads_eq ret_eq dest!: accept_artifact_Inr)
  qed
qed

lemma settle_Inr:
  assumes "settle a b ex s = (Inr r, s')"
  shows "\<exists>new. list_all2 (ruling_row (art_id a)) (vb_decisions b) new \<and>
    list_all2 (ruling_row (art_id a)) (vb_decisions b) (cr_decisions r) \<and>
    terminal_effect a b ex (cr_decisions r) (s\<lparr>working :=
        (working s)\<lparr>t_decisions := t_decisions (working s) @ new\<rparr>\<rparr>) r (working s')"
proof -
  let ?s = "s\<lparr>tx_depth := Suc (tx_depth s)\<rparr>"
  obtain ds s1 s2 where m: "mapM (record_ruling (art_id a)) (vb_decisions b) ?s = (Inr ds, s1)"
    and t: "write_terminal a b ex ds s1 = (Inr r, s2)" and w: "working s' = working s2"
    using assms unfolding settle_def transaction_def
    by (elim tx_InrE) (auto simp: bindE_ok)
  obtain new where ds: "list_all2 (ruling_row (art_id a)) (vb_decisions b) ds"
    and new: "list_all2 (ruling_row (art_id a)) (vb_decisions b) new"
    and w1: "working s1 = (working s)\<lparr>t_decisions := t_decisions (working s) @ new\<rparr>"
    using record_rulings_Inr [OF m] by auto
  have "get_artifact j s1 = get_artifact j (s\<lparr>working := working s1\<rparr>)" for j
    by (rule get_artifact_cong) simp
  then have "terminal_effect a b ex ds (s\<lparr>working := working s1\<rparr>) r (working s2)"
    using write_terminal_Inr [OF t] by (simp add: terminal_effect_def supersedable_def)
  moreover have "cr_decisions r = ds" using write_terminal_Inr [OF t] by (simp add: terminal_effect_def)
  ultimately show ?thesis using ds new w w1 by auto
qed

section \<open>Invariants of the commit path\<close>

lemma keeps_liftS [keeps_intros]: "keeps P (ensure_provenance a)"
  by (simp add: keeps_def ensure_provenance_def ret_def raise_def)

lemma keeps_write_terminal:
  assumes "\<And>i st. keeps P (set_status i st)" "\<And>i j. keeps P (accept_superseding i j)"
  shows "keeps P (write_terminal a b ex ds)"
  unfolding write_terminal_def accept_artifact_def
  by (cases "vb_status b") (auto intro!: keeps_intros assms split: option.split)

lemma keeps_record_rulings:
  assumes "keeps P tick" "\<And>d. keeps P (record_decision d)"
  shows "keeps P (mapM (record_ruling i) rs)"
  unfolding record_ruling_def by (intro keeps_intros assms)

lemma keeps_inside_settle_body:
  "0 < n \<Longrightarrow> keeps (inside n c) (bindE (mapM (record_ruling i) rs) (write_terminal a b ex))"
  by (intro keeps_bindE keeps_record_rulings keeps_write_terminal keeps_intros)

lemma keeps_quiescent_settle [keeps_intros]: "keeps quiescent (settle a b ex)"
  unfolding settle_def transaction_def
  by (intro keeps_quiescent_tx keeps_inside_settle_body) simp

lemma settle_Inl:
  assumes "quiescent s" "settle a b ex s = (Inl e, s')"
  shows "working s' = working s \<and> committed s' = committed s \<and> quiescent s'"
proof -
  have "keeps (inside 1 (committed s)) (bindE (mapM (record_ruling (art_id a)) (vb_decisions b))
      (write_terminal a b ex))" by (rule keeps_inside_settle_body) simp
  from tx_atomic [OF assms(1) this, of "Inl e"] show ?thesis
    using assms keepsD [OF keeps_quiescent_settle assms(1,2)] by (simp add: settle_def transaction_def)
qed

context db_invariant
begin

lemma inv_settle: "keeps (store_inv Q) (settle a b ex)"
  unfolding settle_def transaction_def
  by (intro inv_tx keeps_bindE keeps_record_rulings keeps_write_terminal inv_writes inv_tick)

end

lemma keeps_in_store:
  "keeps P m \<Longrightarrow> keeps (\<lambda>sv. P (fst sv)) (in_store m)"
  by (auto simp: keeps_def in_store_def split: prod.split)

lemma in_store_eq: "in_store m (s, v) = (r, sv') \<longleftrightarrow> m s = (r, fst sv') \<and> snd sv' = v"
  by (cases sv') (auto simp: in_store_def split: prod.splits)

lemma keeps_run_commit:
  assumes "\<And>a b. keeps P (settle a b ex)"
  shows "keeps (\<lambda>sv. P (fst sv)) (run_commit i cov disp me ex)"
  unfolding run_commit_def
  by (intro keeps_bindE keeps_option keeps_if keeps_raise keeps_in_store keeps_reads assms)
    (auto simp: keeps_def split: prod.splits)

text \<open>The run of a commit, taken apart.\<close>

lemma run_commit_Inr:
  assumes "run_commit i cov disp me ex (s, v) = (Inr r, (s', v'))"
  obtains a b where "get_artifact i s = Inr (Some a)" "art_id a = i" "art_status a = PROPOSED"
    "cov (art_type a) \<noteq> None" "me \<noteq> created_by a" "disp a s v = (Inr b, v')"
    "assert_consistent b = Inr ()" "settle a b ex s = (Inr r, s')"
proof -
  let ?rest = "\<lambda>a. bindE (\<lambda>(s, v). case disp a s v of (r, v') \<Rightarrow> (r, (s, v'))) (\<lambda>b.
    bindE (reads (\<lambda>_. assert_consistent b)) (\<lambda>_. in_store (settle a b ex)))"
  obtain found where g: "get_artifact i s = Inr found"
    and c: "(case found of None \<Rightarrow> raise (CommitError (''unknown artifact: '' @ i))
     | Some a \<Rightarrow>
         if art_status a \<noteq> PROPOSED
         then raise (CommitError (''commit operates on a '' @ py_repr ''proposed'' @
                '' artifact, got '' @ py_repr (status_value (art_status a))))
         else if cov (art_type a) = None then raise (NoImplicitAccept (art_type a))
         else if me = created_by a then raise (ProposerIsGate me)
         else ?rest a) (s, v) = (Inr r, (s', v'))"
    using assms unfolding run_commit_def bindE_ok [of "in_store _"] in_store_eq reads_eq by auto
  obtain a where f: "found = Some a" using c by (cases found) (auto simp: raise_eq)
  have a: "get_artifact i s = Inr (Some a)" "art_status a = PROPOSED" "cov (art_type a) \<noteq> None"
    "me \<noteq> created_by a" "?rest a (s, v) = (Inr r, (s', v'))"
    using c g by (simp_all add: f raise_eq split: if_split_asm)  then obtain b where "disp a s v = (Inr b, v')" "assert_consistent b = Inr ()"
    "settle a b ex s = (Inr r, s')"
    by (auto simp: bindE_ok in_store_eq reads_eq simp del: assert_consistent_Inr split: prod.splits)
  then show thesis using get_artifact_id [OF a(1)] a(1-4) by (intro that [of a b])
qed


text \<open>Whatever a commit does to the store is the settling of the stored proposal.\<close>

lemma run_commit_settles:
  assumes "run_commit i cov disp me ex (s, v) = (r, (s', v'))"
  shows "s' = s \<or> (\<exists>a b. get_artifact i s = Inr (Some a) \<and> art_status a = PROPOSED \<and>
    settle a b ex s = (r, s'))"
proof (cases "get_artifact i s")
  case (Inl e')
  then show ?thesis using assms
    by (simp add: run_commit_def bindE_def in_store_def reads_def)
next
  case (Inr found)
  show ?thesis
  proof (cases found)
    case None
    then show ?thesis using assms Inr
      by (simp add: run_commit_def bindE_def in_store_def reads_def raise_def)
  next
    case (Some a)
    obtain rb v2 where d: "disp a s v = (rb, v2)" by fastforce
    show ?thesis
      using assms Inr Some d
      by (cases rb) (auto simp: run_commit_def bindE_def in_store_def reads_def raise_def
          split: if_split_asm sum.split_asm prod.split_asm)
  qed
qed

lemma run_commit_Inl:
  assumes "quiescent s" "run_commit i cov disp me ex (s, v) = (Inl e, (s', v'))"
  shows "working s' = working s \<and> committed s' = committed s \<and> quiescent s'"
  using run_commit_settles [OF assms(2)] settle_Inl [OF assms(1)] assms(1) by (auto simp: quiescent_def)

definition row_moved :: "artifact_row \<Rightarrow> artifact_row \<Rightarrow> bool" where
  "row_moved r r' \<longleftrightarrow> row_frozen r r' \<and> (r' = r \<or> legal_step (art_status r) (art_status r'))"

lemma find_key_row:
  assumes "get_artifact j s = Inr (Some a)" "unique_keys (working s)"
    "r \<in> set (t_artifacts (working s))" "art_id r = j"
  shows "art_status r = art_status a \<and> row_to_artifact r = Inr a"
proof -
  have "List.find (\<lambda>r. art_id r = j) (t_artifacts (working s)) = Some r"
    using assms(2-4) by (auto simp: unique_keys_def intro: find_key_unique)
  then show ?thesis using assms(1)
    by (auto simp: get_artifact_def bindS_eq_Inr row_to_artifact_def row_with_def)
qed

lemma settled_rows_moved:
  assumes "unique_keys (working s)" "get_artifact (art_id a) s = Inr (Some a)" "art_status a = PROPOSED"
    "is_legal_transition PROPOSED (vb_status b)" "supersedable b s"
    "t_artifacts d = t_artifacts (working s)"
  shows "list_all2 row_moved (t_artifacts (working s)) (t_artifacts (settled_rows (art_id a) b ex d))"
proof -
  have own: "art_status r = PROPOSED" if "r \<in> set (t_artifacts (working s))" "art_id r = art_id a" for r
    using find_key_row [OF assms(2,1) that] assms(3) by simp
  have legal: "legal_step PROPOSED (if vb_status b = REVISED \<and> ex then REJECTED else vb_status b)"
    using assms(4) by (auto simp: legal_step_iff from_proposed)
  show ?thesis
  proof (cases "vb_status b = ACCEPTED \<and> vb_supersedes b \<noteq> None")
    case True
    then obtain j inc where j: "vb_supersedes b = Some j" "get_artifact j s = Inr (Some inc)"
      "art_status inc \<in> {ACCEPTED, TENTATIVE}" using assms(5) by (auto simp: supersedable_def)
    have inc: "legal_step (art_status r) SUPERSEDED"
      if "r \<in> set (t_artifacts (working s))" "art_id r = j" for r
      using find_key_row [OF j(2) assms(1) that] j(3) by (auto simp: legal_step_iff legal_defs)
    have acc: "legal_step PROPOSED ACCEPTED" by (simp add: legal_step_iff legal_defs)
    have "j \<noteq> art_id a" using j(2,3) assms(2,3) by auto
    then show ?thesis using True j(1) own inc acc
      by (auto simp: settled_rows_def map_row_def assms(6) list_all2_conv_all_nth row_moved_def
          row_frozen_def)
  next
    case False
    then have "settled_rows (art_id a) b ex d = map_row (art_id a) (\<lambda>r. r\<lparr>art_status :=
        (if vb_status b = REVISED \<and> ex then REJECTED else vb_status b)\<rparr>) d"
      by (auto simp: settled_rows_def split: artifact_status.split option.split)
    then show ?thesis using own legal
      by (auto simp: map_row_def assms(6) list_all2_conv_all_nth row_moved_def row_frozen_def)
  qed
qed

section \<open>Claims\<close>

definition demo_bundle :: verdict_bundle where
  "demo_bundle = \<lparr>vb_status = ACCEPTED, vb_decisions = [\<lparr>gd_gate = ''g'', gd_kind = ACCEPT,
     gd_rationale = ''ok'', gd_defects = None, gd_score = Some 1\<rparr>], vb_supersedes = None\<rparr>"

definition demo_dispatch :: "verdict_bundle \<Rightarrow> nat dispatcher" where
  "demo_dispatch b a s v = (Inr b, Suc v)"

definition demo_proposed :: store where
  "demo_proposed = demo_with [demo_artifact ''a'' (PJson JNull)] [demo_operation ''o'' ''a'']"

lemma demo_proposed_get: "get_artifact ''a'' demo_proposed = Inr (Some (demo_artifact ''a'' (PJson JNull)))"
  by (simp add: demo_proposed_def get_artifact_def demo_artifact_def artifact_to_row_def
      row_to_artifact_def row_with_def load_payload_def dump_payload_def)

lemma demo_proposed_quiescent: "quiescent demo_proposed" by (simp add: demo_proposed_def)

lemmas commit_eval = run_commit_def settle_def write_terminal_def record_ruling_def in_store_def
  reads_def demo_dispatch_def assert_transition_def legal_defs ensure_provenance_def
  accept_artifact_def operations_into_def op_order_def commit_decision_def

lemma demo_settles: "\<exists>r s'. settle (demo_artifact ''a'' (PJson JNull)) demo_bundle False demo_proposed =
    (Inr r, s') \<and> cr_status r = ACCEPTED"
  by (simp add: commit_eval commit_with_def store_eval
      demo_artifact_def demo_bundle_def demo_proposed_def demo_with_def demo_operation_def)

lemma demo_commit_runs: "\<exists>r s'. run_commit ''a'' (\<lambda>_. Some []) (demo_dispatch demo_bundle) ''gate'' False
   (demo_proposed, 0) = (Inr r, (s', 1)) \<and> cr_status r = ACCEPTED"
proof -
  obtain r s' where "settle (demo_artifact ''a'' (PJson JNull)) demo_bundle False demo_proposed = (Inr r, s')"
    "cr_status r = ACCEPTED" using demo_settles by blast
  moreover have "assert_consistent demo_bundle = Inr ()" by (simp add: demo_bundle_def)
  moreover have "art_status (demo_artifact ''a'' (PJson JNull)) = PROPOSED"
    "created_by (demo_artifact ''a'' (PJson JNull)) = ''agent''" by (simp_all add: demo_artifact_def)
  ultimately show ?thesis
    by (simp add: run_commit_def bindE_def in_store_def reads_def demo_proposed_get demo_dispatch_def
        del: assert_consistent_Inr)
qed
text \<open>C1. Nothing is accepted implicitly, and the record says exactly what the verifier said: if a
  commit returns, the artifact was \<open>proposed\<close>, its type is gated, the verifier's identity is not the
  proposer's, the verifier was asked exactly once on the current store, and the database is the one
  before with one decision row per ruling of the bundle, in order, and the terminal status writes
  the bundle asks for (a refine beyond the cap becomes a rejection); an accepted or tentative
  artifact is a root or has a provenance edge.\<close>

theorem commit_records_the_verdict:
  assumes "run_commit i cov disp me ex (s, v) = (Inr r, (s', v'))"
  shows "\<exists>a b new. get_artifact i s = Inr (Some a) \<and> art_status a = PROPOSED \<and>
    cov (art_type a) \<noteq> None \<and> me \<noteq> created_by a \<and> disp a s v = (Inr b, v') \<and>
    cr_artifact_id r = i \<and> cr_status r = final_status b ex \<and>
    list_all2 (ruling_row i) (vb_decisions b) new \<and>
    working s' = settled_rows i b ex ((working s)\<lparr>t_decisions := t_decisions (working s) @ new\<rparr>) \<and>
    (cr_status r \<in> {ACCEPTED, TENTATIVE} \<longrightarrow> provenanced a (working s))"
proof (rule run_commit_Inr [OF assms])
  fix a b
  assume a: "get_artifact i s = Inr (Some a)" "art_id a = i" "art_status a = PROPOSED"
    "cov (art_type a) \<noteq> None" "me \<noteq> created_by a" "disp a s v = (Inr b, v')"
    and st: "settle a b ex s = (Inr r, s')"
  obtain new where "list_all2 (ruling_row i) (vb_decisions b) new"
    "terminal_effect a b ex (cr_decisions r) (s\<lparr>working :=
        (working s)\<lparr>t_decisions := t_decisions (working s) @ new\<rparr>\<rparr>) r (working s')"
    using settle_Inr [OF st] a(2) by blast
  then show ?thesis using a
    by (intro exI [of _ a] exI [of _ b] exI [of _ new]) (simp add: terminal_effect_def provenanced_def)
qed

theorem commit_records_the_verdict_witness:
  "\<exists>r s'. run_commit ''a'' (\<lambda>_. Some []) (demo_dispatch demo_bundle) ''gate'' False (demo_proposed, 0) =
     (Inr r, (s', 1)) \<and> (\<exists>a. get_artifact ''a'' demo_proposed = Inr (Some a) \<and> provenanced a (working demo_proposed))"
proof -
  obtain r s' where r: "run_commit ''a'' (\<lambda>_. Some []) (demo_dispatch demo_bundle) ''gate'' False
      (demo_proposed, 0) = (Inr r, (s', 1))" "cr_status r = ACCEPTED" using demo_commit_runs by blast
  from commit_records_the_verdict [OF r(1)] r show ?thesis by auto
qed

text \<open>C7. A failed commit leaves no trace: whatever it raises, at whatever point (an unknown
  incumbent or an illegal transition after the decisions were written included), the visible and the
  durable database are exactly what they were and no transaction is left open.\<close>

theorem failed_commit_leaves_no_trace:
  assumes "quiescent s" "run_commit i cov disp me ex (s, v) = (Inl e, (s', v'))"
  shows "working s' = working s \<and> committed s' = committed s \<and> quiescent s'"
  using assms by (rule run_commit_Inl)

definition demo_dangling :: verdict_bundle where
  "demo_dangling = demo_bundle\<lparr>vb_supersedes := Some ''zz''\<rparr>"

theorem failed_commit_leaves_no_trace_witness:
  "\<exists>e s' v'. run_commit ''a'' (\<lambda>_. Some []) (demo_dispatch demo_dangling) ''gate'' False
     (demo_proposed, 0) = (Inl e, (s', v')) \<and> t_decisions (working s') = []"
proof -
  obtain r s' v' where r: "run_commit ''a'' (\<lambda>_. Some []) (demo_dispatch demo_dangling) ''gate'' False
     (demo_proposed, 0) = (r, (s', v'))" by (metis prod.exhaust)
  have "\<exists>e. r = Inl e"
  proof (cases r)
    case (Inr x)
    have "get_artifact ''zz'' demo_proposed = Inr None"
      by (simp add: demo_proposed_def get_artifact_def demo_artifact_def artifact_to_row_def)
    then show ?thesis using r unfolding Inr
      by (elim run_commit_Inr)
        (auto simp: demo_dispatch_def terminal_effect_def supersedable_def demo_dangling_def demo_bundle_def
          dest!: settle_Inr)
  qed simp
  then obtain e where "r = Inl e" ..
  moreover from failed_commit_leaves_no_trace [OF demo_proposed_quiescent r [unfolded \<open>r = Inl e\<close>]]
  have "t_decisions (working s') = []" by (simp add: demo_proposed_def empty_db_def)
  ultimately show ?thesis using r by blast
qed

text \<open>C8. The verifier cannot move any artifact illegally: whatever bundle it returns, each row of
  the artifact table keeps its content and either stays as it is or moves along one legal edge of the
  lifecycle; in particular an artifact can never supersede itself.\<close>

theorem commit_moves_rows_legally:
  assumes "run_commit i cov disp me ex (s, v) = (Inr r, (s', v'))" "unique_keys (working s)"
  shows "list_all2 row_moved (t_artifacts (working s)) (t_artifacts (working s'))"
proof (rule run_commit_Inr [OF assms(1)])
  fix a b
  assume a: "get_artifact i s = Inr (Some a)" "art_id a = i" "art_status a = PROPOSED"
    and st: "settle a b ex s = (Inr r, s')"
  obtain new where t: "terminal_effect a b ex (cr_decisions r) (s\<lparr>working :=
        (working s)\<lparr>t_decisions := t_decisions (working s) @ new\<rparr>\<rparr>) r (working s')"
    using settle_Inr [OF st] by blast
  have "supersedable b s" using t by (auto simp: terminal_effect_def supersedable_def)
  with t show ?thesis
    using settled_rows_moved [OF assms(2), of a b] a by (simp add: terminal_effect_def)
qed

theorem commit_moves_rows_legally_witness:
  "\<exists>r s'. run_commit ''a'' (\<lambda>_. Some []) (demo_dispatch demo_bundle) ''gate'' False (demo_proposed, 0) =
     (Inr r, (s', 1)) \<and> list_all2 row_moved (t_artifacts (working demo_proposed)) (t_artifacts (working s'))"
proof -
  obtain r s' where r: "run_commit ''a'' (\<lambda>_. Some []) (demo_dispatch demo_bundle) ''gate'' False
      (demo_proposed, 0) = (Inr r, (s', 1))" using demo_commit_runs by blast
  have "unique_keys (working demo_proposed)"
    by (simp add: demo_proposed_def unique_keys_def empty_db_def)
  from commit_moves_rows_legally [OF r this] r show ?thesis by auto
qed

end
