(* ===== verification/Verifier.thy ===== *)
theory Verifier
  imports Commit
begin

text \<open>
  The verifier side: the request the control plane builds (\<open>contracts/ports.py\<close>), the gate primitives
  (\<open>verifier/primitives.py\<close>, the reply parser of \<open>verifier/model_client.py\<close>) and the pipeline
  service (\<open>verifier/service.py\<close>). A gate plugin may step a world of its own (a model, a code
  runner) and raise. The locale \<open>verifier_port\<close> states what the commit path relies on.
\<close>

section \<open>Requests and gates\<close>

record verifier_request =
  vr_proposal :: artifact
  vr_slice :: "artifact list"
  vr_objects :: "(string \<times> bytes) list"
  vr_scores :: "(string \<times> (string \<times> rat) list) list"

type_synonym 'w gate_primitive = "verifier_request \<Rightarrow> ('w, exc, gate_verdict option) st"

definition verdict :: "verdict_kind \<Rightarrow> string \<Rightarrow> gate_verdict" where
  "verdict k r = \<lparr>gv_kind = k, gv_rationale = r, gv_defects = None, gv_score = None,
     gv_supersedes = None\<rparr>"

section \<open>Gate primitives\<close>

record check_outcome =
  co_ok :: bool
  co_rationale :: string
  co_defects :: "string list option"

definition deterministic_check :: "(verifier_request \<Rightarrow> exc + check_outcome) \<Rightarrow> 'w gate_primitive" where
  "deterministic_check predicate request =
     bindE (reads (\<lambda>_. predicate request)) (\<lambda>outcome.
       ret (Some (if co_ok outcome then verdict ACCEPT (co_rationale outcome)
         else if co_defects outcome \<notin> {None, Some []}
         then (verdict REFINE (co_rationale outcome))\<lparr>gv_defects := co_defects outcome\<rparr>
         else verdict REJECT (co_rationale outcome))))"

definition numeric_scorer :: "(verifier_request \<Rightarrow> exc + rat) \<Rightarrow> (artifact \<Rightarrow> exc + rat) option \<Rightarrow>
    (artifact list \<Rightarrow> exc + rat option) option \<Rightarrow> rat \<Rightarrow> 'w gate_primitive" where
  "numeric_scorer score cost incumbent margin request =
     bindE (reads (\<lambda>_. score request)) (\<lambda>raw.
     bindE (reads (\<lambda>_. case cost of Some c \<Rightarrow> c (vr_proposal request) | None \<Rightarrow> Inr 0)) (\<lambda>penalty.
     bindE (reads (\<lambda>_. case incumbent of Some f \<Rightarrow> f (vr_slice request) | None \<Rightarrow> Inr None)) (\<lambda>prior.
       let net = raw - penalty;
           baseline = (case prior of Some p \<Rightarrow> p | None \<Rightarrow> 0)
       in ret (Some (if baseline + margin < net
            then (verdict ACCEPT (''net '' @ fmt4 net @ '' beats baseline '' @ fmt4 baseline @
                   '' (margin '' @ fmt4 margin @ '')''))\<lparr>gv_score := Some net\<rparr>
            else (verdict REJECT (''net '' @ fmt4 net @ '' does not beat baseline '' @ fmt4 baseline @
                   '' (margin '' @ fmt4 margin @ '')''))\<lparr>gv_score := Some net\<rparr>)))))"

record judge_reply =
  jr_verdict :: verdict_kind
  jr_rationale :: string
  jr_defects :: "string list option"
  jr_score :: "rat option"

text \<open>The model client: criteria, artifact, context.\<close>

type_synonym 'w model_client = "string \<Rightarrow> artifact \<Rightarrow> artifact list \<Rightarrow> ('w, exc, judge_reply) st"

definition WEAK_JUDGE_LABEL :: string where
  "WEAK_JUDGE_LABEL = ''[weak: llm-judge '' @ ch_emdash @ '' a model verdict, not a measurement]''"

definition llm_judge :: "'w model_client \<Rightarrow> string \<Rightarrow> 'w gate_primitive" where
  "llm_judge client criteria request =
     bindE (client criteria (vr_proposal request) (vr_slice request)) (\<lambda>reply.
       ret (Some \<lparr>gv_kind = jr_verdict reply,
         gv_rationale = WEAK_JUDGE_LABEL @ '' '' @ jr_rationale reply,
         gv_defects = jr_defects reply, gv_score = jr_score reply, gv_supersedes = None\<rparr>))"

text \<open>
  The parser of a model's reply. \<open>loads\<close> is \<open>json.loads\<close>, \<open>show_json\<close> is \<open>str\<close> of a decoded value.
  Only \<open>JSONDecodeError\<close>, \<open>KeyError\<close> and \<open>ValueError\<close> become a \<open>VerifierError\<close>.
\<close>

definition iter_json :: "json \<Rightarrow> exc + json list" where
  "iter_json j = (case j of JList xs \<Rightarrow> Inr xs
    | JObj kvs \<Rightarrow> Inr (map (JStr \<circ> fst) kvs)
    | JStr s \<Rightarrow> Inr (map (\<lambda>c. JStr [c]) s)
    | _ \<Rightarrow> Inl (TypeError ''object is not iterable''))"

definition json_truthy :: "json \<Rightarrow> bool" where
  "json_truthy j = (case j of JNull \<Rightarrow> False | JBool b \<Rightarrow> b | JInt i \<Rightarrow> i \<noteq> 0 | JFloat r \<Rightarrow> r \<noteq> 0
    | JStr s \<Rightarrow> s \<noteq> [] | JList xs \<Rightarrow> xs \<noteq> [] | JObj kvs \<Rightarrow> kvs \<noteq> [])"

definition json_to_str :: "(json \<Rightarrow> string) \<Rightarrow> json \<Rightarrow> string" where
  "json_to_str show_json j = (case j of JStr s \<Rightarrow> s | _ \<Rightarrow> show_json j)"

definition parse_reply :: "(string \<Rightarrow> json option) \<Rightarrow> (json \<Rightarrow> string) \<Rightarrow> string \<Rightarrow> exc + judge_reply" where
  "parse_reply loads show_json text =
     (let unparseable = VerifierError (''unparseable judge reply: '' @ py_repr text);
          fields = (case loads text of
              None \<Rightarrow> Inl (ValueError ''JSONDecodeError'')
            | Some data \<Rightarrow>
                bindS (json_get data ''verdict'') (\<lambda>v.
                bindS (case v of JStr s \<Rightarrow> verdict_of s | _ \<Rightarrow> Inl (ValueError ''not a valid VerdictKind'')) (\<lambda>k.
                bindS (json_get data ''rationale'') (\<lambda>r.
                Inr (data, k, json_to_str show_json r)))))
      in case fields of
           Inl (KeyError m) \<Rightarrow> Inl unparseable
         | Inl (ValueError m) \<Rightarrow> Inl unparseable
         | Inl e \<Rightarrow> Inl e
         | Inr (data, k, r) \<Rightarrow>
             bindS (json_get_or JNull data ''defects'') (\<lambda>raw.
             bindS (if json_truthy raw
                    then bindS (iter_json raw) (\<lambda>ds. Inr (Some (map (json_to_str show_json) ds)))
                    else Inr None) (\<lambda>defects.
             Inr \<lparr>jr_verdict = k, jr_rationale = r, jr_defects = defects, jr_score = None\<rparr>)))"

record run_request =
  rq_code :: bytes
  rq_entrypoint :: string
  rq_inputs :: "(string \<times> bytes) list"
  rq_output_name :: string
  rq_timeout :: rat
  rq_requirements :: "bytes option"
  rq_network :: bool
  rq_env :: "(string \<times> string) list"

record run_result =
  rr_exit_code :: int
  rr_stdout :: string
  rr_stderr :: string
  rr_output :: "bytes option"
  rr_timed_out :: bool

text \<open>The last line of a stripped, non-empty text, \<open>s.splitlines()[-1]\<close>.\<close>

definition line_breaks :: "char list" where
  "line_breaks = [CHR 0x0A, CHR 0x0D, CHR 0x0B, CHR 0x0C, CHR 0x1C, CHR 0x1D, CHR 0x1E]"

definition last_line :: "string \<Rightarrow> string" where
  "last_line s = rev (takeWhile (\<lambda>c. c \<notin> set line_breaks) (rev s))"

definition ran_clean_verdict :: "run_result \<Rightarrow> gate_verdict" where
  "ran_clean_verdict result =
     (if rr_timed_out result then verdict REJECT ''submission timed out before completing''
      else if rr_exit_code result \<noteq> 0
      then let stderr = strip (rr_stderr result);
               tail = (if stderr \<noteq> [] then last_line stderr else ''no stderr'')
           in verdict REJECT (''submission exited '' @ int_str (rr_exit_code result) @ '': '' @ tail)
      else verdict ACCEPT ''submission ran clean'')"

type_synonym 'w code_runner = "run_request \<Rightarrow> ('w, exc, run_result) st"

definition auto_code_runner :: "'w code_runner \<Rightarrow> string \<Rightarrow>
    (verifier_request \<Rightarrow> exc + (string \<times> bytes) list) option \<Rightarrow> (run_result \<Rightarrow> exc + gate_verdict) option \<Rightarrow>
    string \<Rightarrow> rat \<Rightarrow> 'w gate_primitive" where
  "auto_code_runner runner entrypoint inputs interpret output_name timeout_s request =
     (case map_of (vr_objects request) entrypoint of
        None \<Rightarrow> ret (Some (verdict REJECT (''no '' @ py_repr entrypoint @ '' object attachment to execute'')))
      | Some code \<Rightarrow>
          bindE (reads (\<lambda>_. case inputs of Some f \<Rightarrow> f request | None \<Rightarrow> Inr [])) (\<lambda>run_inputs.
          bindE (runner \<lparr>rq_code = code, rq_entrypoint = entrypoint, rq_inputs = run_inputs,
                   rq_output_name = output_name, rq_timeout = timeout_s, rq_requirements = None,
                   rq_network = False, rq_env = []\<rparr>) (\<lambda>result.
          bindE (reads (\<lambda>_. case interpret of Some f \<Rightarrow> f result | None \<Rightarrow> Inr (ran_clean_verdict result)))
            (\<lambda>v. ret (Some v)))))"

definition human_in_the_loop :: "'w gate_primitive" where
  "human_in_the_loop request = ret None"

definition model_tester :: "'w gate_primitive" where
  "model_tester request = raise (OtherError (''the model-tester primitive lands with the '' @
     ''feature-engineering domain ('' @ ch_section @ ''12, Phase 4)''))"

section \<open>The pipeline service\<close>

record 'w gate_step =
  gs_gate :: string
  gs_plugin :: "'w gate_primitive"
  gs_is_hard :: bool
  gs_requires_human :: bool

type_synonym 'w pipelines = "(string \<times> 'w gate_step list) list"

definition py_list_repr :: "string list \<Rightarrow> string" where
  "py_list_repr xs = ''['' @ join '', '' (map py_repr xs) @ '']''"

text \<open>The construction-time check: every pipeline has a hard gate.\<close>

definition check_pipelines :: "'w pipelines \<Rightarrow> exc + unit" where
  "check_pipelines ps =
     (case List.find (\<lambda>(ty, steps). \<not> (\<exists>st \<in> set steps. gs_is_hard st)) ps of
        Some (ty, _) \<Rightarrow> Inl (VerifierError (''pipeline for type '' @ py_repr ty @
          '' declares no hard gate: a gated type with no hard check would accept unconditionally '' @
          ''(no implicit accept, '' @ ch_section @ ''5.7)''))
      | None \<Rightarrow> Inr ())"

definition step_decision :: "'w gate_step \<Rightarrow> gate_verdict \<Rightarrow> gate_decision" where
  "step_decision st v = \<lparr>gd_gate = gs_gate st, gd_kind = gv_kind v, gd_rationale = gv_rationale v,
     gd_defects = gv_defects v, gd_score = gv_score v\<rparr>"

definition mk_bundle :: "artifact_status \<Rightarrow> gate_decision list \<Rightarrow> string option \<Rightarrow> verdict_bundle" where
  "mk_bundle st ds sby = \<lparr>vb_status = st, vb_decisions = ds, vb_supersedes = sby\<rparr>"

type_synonym stage_acc = "gate_decision list \<times> string list \<times> nat"

text \<open>One stage. \<open>Inl\<close> is an early return with a bundle, \<open>Inr\<close> the decisions so far, the distinct
  incumbents named and how many steps ruled.\<close>

fun run_stage :: "'w gate_step list \<Rightarrow> verifier_request \<Rightarrow> stage_acc \<Rightarrow>
    ('w, exc, verdict_bundle + stage_acc) st" where
  "run_stage [] request acc = ret (Inr acc)"
| "run_stage (st # rest) request (ds, superseded, ruled) =
     bindE (gs_plugin st request) (\<lambda>v. case v of
       None \<Rightarrow> run_stage rest request (ds, superseded, ruled)
     | Some v \<Rightarrow>
         let ds' = ds @ [step_decision st v] in
         if gv_kind v = REJECT then ret (Inl (mk_bundle REJECTED ds' None))
         else if gv_kind v = REFINE then ret (Inl (mk_bundle REVISED ds' None))
         else run_stage rest request (ds',
           (case gv_supersedes v of
              Some j \<Rightarrow> if gs_is_hard st then List.insert j superseded else superseded
            | None \<Rightarrow> superseded), Suc ruled))"

definition hard_steps :: "'w gate_step list \<Rightarrow> 'w gate_step list" where
  "hard_steps steps = filter gs_is_hard steps"

definition cheap_steps :: "'w gate_step list \<Rightarrow> 'w gate_step list" where
  "cheap_steps steps = filter (\<lambda>st. \<not> gs_is_hard st) steps"

text \<open>An early return of a stage ends the pipeline.\<close>

definition or_return :: "(stage_acc \<Rightarrow> ('w, exc, verdict_bundle) st) \<Rightarrow> verdict_bundle + stage_acc \<Rightarrow>
    ('w, exc, verdict_bundle) st" where
  "or_return k r = (case r of Inl b \<Rightarrow> ret b | Inr acc \<Rightarrow> k acc)"

definition conclude :: "'w gate_step list \<Rightarrow> verifier_request \<Rightarrow> stage_acc \<Rightarrow> ('w, exc, verdict_bundle) st" where
  "conclude steps request = (\<lambda>(ds, superseded, ruled).
     if ruled < length (hard_steps steps) then ret (mk_bundle TENTATIVE ds None)
     else if 1 < length superseded
     then raise (VerifierError (''pipeline accepted '' @ py_repr (art_id (vr_proposal request)) @
            '' but its hard gates named more than one incumbent to supersede ('' @
            py_list_repr (sort superseded) @ ''): supersession must be unambiguous''))
     else ret (mk_bundle ACCEPTED ds (case superseded of [] \<Rightarrow> None | j # _ \<Rightarrow> Some j)))"

definition run_pipeline :: "'w gate_step list \<Rightarrow> verifier_request \<Rightarrow> ('w, exc, verdict_bundle) st" where
  "run_pipeline steps request =
     bindE (run_stage (cheap_steps steps) request ([], [], 0)) (or_return (\<lambda>(ds, superseded, _).
       bindE (run_stage (hard_steps steps) request (ds, superseded, 0))
         (or_return (conclude steps request))))"

record 'w sdk_verifier =
  sdk_requests :: "verifier_request list"
  sdk_provisioned :: bool
  sdk_world :: 'w

definition in_world :: "('w, exc, 'a) st \<Rightarrow> ('w sdk_verifier, exc, 'a) st" where
  "in_world m v = (case m (sdk_world v) of (r, w) \<Rightarrow> (r, v\<lparr>sdk_world := w\<rparr>))"

definition sdk_dispatch :: "'w pipelines \<Rightarrow> verifier_request \<Rightarrow> ('w sdk_verifier, exc, verdict_bundle) st" where
  "sdk_dispatch ps request =
     bindE (modify (\<lambda>v. v\<lparr>sdk_requests := sdk_requests v @ [request]\<rparr>)) (\<lambda>_.
       case map_of ps (art_type (vr_proposal request)) of
         None \<Rightarrow> raise (VerifierError (''this verifier has no pipeline for type '' @
             py_repr (art_type (vr_proposal request)) @ '' (covers: '' @ py_list_repr (sort (map fst ps)) @
             ''): a covered type with no pipeline is a config error, never a silent pass ('' @
             ch_section @ ''3.6, '' @ ch_section @ ''5.7)''))
       | Some steps \<Rightarrow> in_world (run_pipeline steps request))"

definition sdk_provision :: "('w sdk_verifier, exc, unit) st" where
  "sdk_provision = modify (\<lambda>v. v\<lparr>sdk_provisioned := True\<rparr>)"

definition sdk_teardown :: "('w sdk_verifier, exc, unit) st" where
  "sdk_teardown = modify (\<lambda>v. v\<lparr>sdk_provisioned := False\<rparr>)"

section \<open>What the control plane hands over\<close>

text \<open>
  A verifier service as the control plane sees it. \<open>vp_late t request v\<close> says that the service, asked
  in state \<open>v\<close>, does not answer within the timeout \<open>t\<close>; the value is its state after the
  cancellation.
\<close>

record 'v verifier_service =
  vp_identity :: string
  vp_dispatch :: "verifier_request \<Rightarrow> ('v, exc, verdict_bundle) st"
  vp_late :: "string \<Rightarrow> verifier_request \<Rightarrow> 'v \<Rightarrow> 'v option"
  vp_provision :: "('v, exc, unit) st"
  vp_teardown :: "('v, exc, unit) st"

definition gate_scores :: "string \<Rightarrow> store \<Rightarrow> (string \<times> rat) list" where
  "gate_scores i s = fold (\<lambda>d scores. case d_score d of Some x \<Rightarrow> dict_put (d_gate d) x scores | None \<Rightarrow> scores)
     (decisions_for i s) []"

definition recorded_scores :: "store \<Rightarrow> artifact list \<Rightarrow> (string \<times> (string \<times> rat) list) list" where
  "recorded_scores s store_slice = fold (\<lambda>a recorded.
     let scores = gate_scores (art_id a) s
     in if scores \<noteq> [] then dict_put (art_id a) scores recorded else recorded) store_slice []"

definition verifier_request_for :: "store \<Rightarrow> artifact \<Rightarrow> artifact list \<Rightarrow> (string \<times> bytes) list \<Rightarrow> verifier_request" where
  "verifier_request_for s a store_slice objs = \<lparr>vr_proposal = a, vr_slice = store_slice, vr_objects = objs,
     vr_scores = recorded_scores s store_slice\<rparr>"

definition port_dispatch :: "'v verifier_service \<Rightarrow> string option \<Rightarrow> gated_types \<Rightarrow> (string \<times> bytes) list \<Rightarrow> 'v dispatcher" where
  "port_dispatch vs timeout gated objs a s v =
     (let declared = (case resolve_gate gated (art_type a) of Some d \<Rightarrow> d | None \<Rightarrow> []) in
      case resolve_declared_slice s a declared of
        Inl e \<Rightarrow> (Inl e, v)
      | Inr store_slice \<Rightarrow>
          let request = verifier_request_for s a store_slice objs in
          (case timeout of
             None \<Rightarrow> vp_dispatch vs request v
           | Some t \<Rightarrow>
               (case vp_late vs t request v of
                  Some v' \<Rightarrow> (Inl (GateUnavailable (''verifier did not respond within '' @ t @ ''s'')), v')
                | None \<Rightarrow> vp_dispatch vs request v)))"

definition sdk_service :: "string \<Rightarrow> 'w pipelines \<Rightarrow>
    (string \<Rightarrow> verifier_request \<Rightarrow> 'w sdk_verifier \<Rightarrow> 'w sdk_verifier option) \<Rightarrow> 'w sdk_verifier verifier_service" where
  "sdk_service identity ps late = \<lparr>vp_identity = identity, vp_dispatch = sdk_dispatch ps, vp_late = late,
     vp_provision = sdk_provision, vp_teardown = sdk_teardown\<rparr>"

section \<open>What a stage returns\<close>

definition accepted_all :: "gate_decision list \<Rightarrow> bool" where
  "accepted_all ds \<longleftrightarrow> (\<forall>d \<in> set ds. gd_kind d = ACCEPT)"

definition stopped :: "gate_decision list \<Rightarrow> verdict_bundle \<Rightarrow> bool" where
  "stopped ds b \<longleftrightarrow> vb_supersedes b = None \<and> (\<exists>passed d. vb_decisions b = ds @ passed @ [d] \<and>
     accepted_all passed \<and> (gd_kind d = REJECT \<and> vb_status b = REJECTED \<or>
                            gd_kind d = REFINE \<and> vb_status b = REVISED))"

definition passed :: "'w gate_step list \<Rightarrow> gate_decision list \<Rightarrow> bool" where
  "passed steps new \<longleftrightarrow> accepted_all new \<and> subseq (map gd_gate new) (map gs_gate steps)"

lemma accepted_all_simps [simp]:
  "accepted_all []" "accepted_all (d # ds) \<longleftrightarrow> gd_kind d = ACCEPT \<and> accepted_all ds"
  "accepted_all (ds @ es) \<longleftrightarrow> accepted_all ds \<and> accepted_all es"
  by (auto simp: accepted_all_def)

lemma run_stage_Inr:
  "run_stage steps request (ds, sby, n) w = (Inr res, w') \<Longrightarrow>
   case res of Inl b \<Rightarrow> stopped ds b
   | Inr (ds', sby', n') \<Rightarrow> \<exists>new. ds' = ds @ new \<and> passed steps new \<and> n' = n + length new"
proof (induction steps arbitrary: ds sby n w)
  case Nil
  then show ?case by (auto simp: ret_def passed_def)
next
  case (Cons st steps)
  obtain r w1 where p: "gs_plugin st request w = (r, w1)" by fastforce
  show ?case
  proof (cases r)
    case (Inl e)
    then show ?thesis using Cons.prems p by (simp add: bindE_def)
  next
    case (Inr v)
    show ?thesis
    proof (cases v)
      case None
      then have "run_stage steps request (ds, sby, n) w1 = (Inr res, w')"
        using Cons.prems p Inr by (simp add: bindE_def)
      from Cons.IH [OF this] show ?thesis
        by (auto simp: passed_def split: sum.splits prod.splits intro: list_emb_Cons)
    next
      case (Some g)
      let ?d = "step_decision st g"
      consider "gv_kind g = REJECT" | "gv_kind g = REFINE" | "gv_kind g = ACCEPT" by (cases "gv_kind g")
      then show ?thesis
      proof cases
        case 1
        then have "res = Inl (mk_bundle REJECTED (ds @ [?d]) None)"
          using Cons.prems p Inr Some by (simp add: bindE_def ret_def Let_def)
        then show ?thesis using 1
          by (simp add: stopped_def mk_bundle_def step_decision_def)
      next
        case 2
        then have "res = Inl (mk_bundle REVISED (ds @ [?d]) None)"
          using Cons.prems p Inr Some by (simp add: bindE_def ret_def Let_def)
        then show ?thesis using 2
          by (simp add: stopped_def mk_bundle_def step_decision_def)
      next
        case 3
        then have "run_stage steps request (ds @ [?d], (case gv_supersedes g of
              Some j \<Rightarrow> if gs_is_hard st then List.insert j sby else sby | None \<Rightarrow> sby), Suc n) w1 = (Inr res, w')"
          using Cons.prems p Inr Some by (simp add: bindE_def Let_def)
        from Cons.IH [OF this] show ?thesis
        proof (cases res)
          case (Inl b)
          have d: "gd_kind ?d = ACCEPT" using 3 by (simp add: step_decision_def)
          have "stopped (ds @ [?d]) b"
            using Cons.IH [OF \<open>run_stage steps request _ w1 = _\<close>] Inl by simp
          then have "stopped ds b" using d by (fastforce simp: stopped_def intro: exI [of _ "?d # _"])
          then show ?thesis using Inl by simp
        next
          case (Inr t)
          obtain ds' sby' n' where t: "t = (ds', sby', n')" by (cases t)
          obtain new where "ds' = (ds @ [?d]) @ new" "passed steps new" "n' = Suc n + length new"
            using Cons.IH [OF \<open>run_stage steps request _ w1 = _\<close>] Inr t by auto
          then show ?thesis using Inr t 3
            by (auto simp: passed_def step_decision_def intro!: exI [of _ "?d # new"])
        qed
      qed
    qed
  qed
qed


text \<open>The four ways a pipeline ends.\<close>

definition earned :: "'w gate_step list \<Rightarrow> verdict_bundle \<Rightarrow> bool" where
  "earned steps b \<longleftrightarrow> stopped [] b \<or>
     (\<exists>cheap hard. vb_decisions b = cheap @ hard \<and> passed (cheap_steps steps) cheap \<and>
        passed (hard_steps steps) hard \<and>
        (vb_status b = TENTATIVE \<and> vb_supersedes b = None \<and> length hard < length (hard_steps steps) \<or>
         vb_status b = ACCEPTED \<and> map gd_gate hard = map gs_gate (hard_steps steps)))"

lemma stopped_append: "stopped ds b \<Longrightarrow> accepted_all ds \<Longrightarrow> stopped [] b"
  by (fastforce simp: stopped_def intro: exI [of _ "ds @ _"])

lemma conclude_Inr:
  assumes "conclude steps request (cheap @ hard, sby, length hard) w = (Inr b, w')"
    "passed (cheap_steps steps) cheap" "passed (hard_steps steps) hard"
  shows "earned steps b"
proof -
  have full: "map gd_gate hard = map gs_gate (hard_steps steps)" if "\<not> length hard < length (hard_steps steps)"
  proof -
    have s: "subseq (map gd_gate hard) (map gs_gate (hard_steps steps))" using assms(3) by (simp add: passed_def)
    then have "length (map gd_gate hard) \<le> length (map gs_gate (hard_steps steps))" by (rule list_emb_length)
    then have "length (map gd_gate hard) = length (map gs_gate (hard_steps steps))" using that by simp
    then show ?thesis using s by (simp add: subseq_same_length)
  qed
  then show ?thesis using assms unfolding earned_def
    by (intro disjI2 exI [of _ cheap] exI [of _ hard])
      (auto simp: conclude_def ret_def raise_def mk_bundle_def split: if_splits)
qed

lemma run_pipeline_Inr:
  assumes "run_pipeline steps request w = (Inr b, w')"
  shows "earned steps b"
proof -
  obtain r1 w1 where c: "run_stage (cheap_steps steps) request ([], [], 0) w = (Inr r1, w1)"
    and rest: "or_return (\<lambda>(ds, superseded, _). bindE (run_stage (hard_steps steps) request (ds, superseded, 0))
         (or_return (conclude steps request))) r1 w1 = (Inr b, w')"
    using assms unfolding run_pipeline_def bindE_ok by blast
  note cs = run_stage_Inr [OF c]
  show ?thesis
  proof (cases r1)
    case (Inl b1)
    then show ?thesis using cs rest by (simp add: or_return_def ret_def earned_def)
  next
    case (Inr t)
    then obtain cheap sby n where t: "r1 = Inr (cheap, sby, n)" "passed (cheap_steps steps) cheap"
      using cs by (cases t) auto
    obtain r2 w2 where h: "run_stage (hard_steps steps) request (cheap, sby, 0) w1 = (Inr r2, w2)"
      and fin: "or_return (conclude steps request) r2 w2 = (Inr b, w')"
      using rest unfolding t(1) or_return_def by (simp only: sum.case prod.case bindE_ok) blast
    note hs = run_stage_Inr [OF h]
    show ?thesis
    proof (cases r2)
      case (Inl b1)
      then have "stopped [] b" using hs fin stopped_append [of cheap b] t(2)
        by (simp add: or_return_def ret_def passed_def)
      then show ?thesis by (simp add: earned_def)
    next
      case (Inr t2)
      then obtain hard sby' where t2: "r2 = Inr (cheap @ hard, sby', length hard)" "passed (hard_steps steps) hard"
        using hs by (cases t2) auto
      show ?thesis using conclude_Inr [OF _ t(2) t2(2), of request sby' w2 b w'] fin by (simp add: t2(1) or_return_def)
    qed
  qed
qed

lemma earned_consistent:
  assumes "earned steps b"
  shows "assert_consistent b = Inr () \<and> is_legal_transition PROPOSED (vb_status b) \<and>
    (vb_supersedes b \<noteq> None \<longrightarrow> vb_status b = ACCEPTED)"
  using assms by (auto simp: earned_def stopped_def passed_def accepted_all_def from_proposed)

lemma in_world_Inr: "in_world m v = (Inr x, v') \<Longrightarrow> \<exists>w'. m (sdk_world v) = (Inr x, w')"
  by (auto simp: in_world_def split: prod.splits)

lemma sdk_dispatch_Inr:
  assumes "sdk_dispatch ps request v = (Inr b, v')"
  shows "\<exists>steps. map_of ps (art_type (vr_proposal request)) = Some steps \<and> earned steps b"
  using assms
  by (auto simp: sdk_dispatch_def bindE_ok modify_def raise_def dest!: in_world_Inr run_pipeline_Inr
      split: option.splits)


section \<open>The commit path goes through\<close>

lemma tx_total:
  "body (s\<lparr>tx_depth := Suc (tx_depth s)\<rparr>) = (Inr x, s2) \<Longrightarrow>
   \<exists>s'. tx body s = (Inr x, s') \<and> working s' = working s2"
  by (simp add: tx_def Let_def commit_def)

lemma record_decision_total:
  "\<exists>s'. record_decision d s = (Inr (), s') \<and> t_artifacts (working s') = t_artifacts (working s) \<and>
     t_operations (working s') = t_operations (working s)"
proof -
  obtain e s1 where st: "(if d_created_at d \<noteq> '''' then ret d
      else bindE tick (\<lambda>now. ret (d\<lparr>d_created_at := now\<rparr>))) s = (Inr e, s1)" "working s1 = working s"
  proof (cases "d_created_at d = ''''")
    case True
    then show thesis
      by (intro that [of "d\<lparr>d_created_at := clock s (ticks s)\<rparr>" "s\<lparr>ticks := Suc (ticks s)\<rparr>"])
        (simp_all add: bindE_def tick_def ret_def)
  next
    case False
    then show thesis by (intro that [of d s]) (simp_all add: ret_def)
  qed
  have "insert_decision e (s1\<lparr>tx_depth := Suc (tx_depth s1)\<rparr>) = (Inr (),
      s1\<lparr>tx_depth := Suc (tx_depth s1), working := (working s1)\<lparr>t_decisions := t_decisions (working s1) @ [e]\<rparr>\<rparr>)"
    by (simp add: insert_decision_def upd_def modify_def)
  from tx_total [of "insert_decision e" s1, OF this] st show ?thesis by (auto simp: record_decision_def bindE_def)
qed

lemma record_rulings_total:
  "\<exists>ds s'. mapM (record_ruling i) rs s = (Inr ds, s') \<and> t_artifacts (working s') = t_artifacts (working s) \<and>
     t_operations (working s') = t_operations (working s)"
proof (induction rs arbitrary: s)
  case (Cons r rs)
  obtain s1 where s1: "record_decision (commit_decision i (clock s (ticks s)) r) (s\<lparr>ticks := Suc (ticks s)\<rparr>) =
      (Inr (), s1)" "t_artifacts (working s1) = t_artifacts (working s)"
    "t_operations (working s1) = t_operations (working s)"
    using record_decision_total [of "commit_decision i (clock s (ticks s)) r" "s\<lparr>ticks := Suc (ticks s)\<rparr>"] by auto
  obtain ds s2 where "mapM (record_ruling i) rs s1 = (Inr ds, s2)"
    "t_artifacts (working s2) = t_artifacts (working s1)" "t_operations (working s2) = t_operations (working s1)"
    using Cons.IH [of s1] by blast
  moreover have "record_ruling i r s = (Inr (commit_decision i (clock s (ticks s)) r), s1)"
    using s1(1) by (simp add: record_ruling_def bindE_def tick_def ret_def)
  ultimately show ?case using s1 by (simp add: bindE_def ret_def)
qed (simp add: ret_def)

lemma set_status_total:
  assumes "has_artifact i (working s)"
  shows "\<exists>s'. set_status i st s = (Inr (), s')"
proof -
  let ?s1 = "s\<lparr>tx_depth := Suc (tx_depth s)\<rparr>"
  let ?body = "bindE (require_artifact i) (\<lambda>_. upd (map_row i (\<lambda>r. r\<lparr>art_status := st\<rparr>)))"
  have "?body ?s1 = (Inr (), ?s1\<lparr>working := map_row i (\<lambda>r. r\<lparr>art_status := st\<rparr>) (working s)\<rparr>)"
    using assms by (simp add: bindE_def require_artifact_def ret_def upd_def modify_def)
  from tx_total [of ?body s, OF this] show ?thesis by (auto simp: set_status_def)
qed

lemma accept_superseding_total:
  assumes "has_artifact i (working s)" "has_artifact j (working s)"
  shows "\<exists>s'. accept_superseding i j s = (Inr (), s')"
proof -
  let ?s1 = "s\<lparr>tx_depth := Suc (tx_depth s)\<rparr>"
  let ?body = "bindE (require_artifact i) (\<lambda>_. bindE (require_artifact j) (\<lambda>_.
         bindE (upd (map_row i (\<lambda>r. r\<lparr>art_status := ACCEPTED\<rparr>))) (\<lambda>_.
         upd (map_row j (\<lambda>r. r\<lparr>art_status := SUPERSEDED, superseded_by := Some i\<rparr>)))))"
  have "?body ?s1 = (Inr (), ?s1\<lparr>working := map_row j (\<lambda>r. r\<lparr>art_status := SUPERSEDED, superseded_by := Some i\<rparr>)
       (map_row i (\<lambda>r. r\<lparr>art_status := ACCEPTED\<rparr>) (working s))\<rparr>)"
    using assms by (simp add: bindE_def require_artifact_def ret_def upd_def modify_def)
  from tx_total [of ?body s, OF this] show ?thesis by (auto simp: accept_superseding_def)
qed

lemma settle_total:
  assumes "get_artifact (art_id a) s = Inr (Some a)" "is_legal_transition PROPOSED (vb_status b)"
    "supersedable b s" "vb_status b \<in> {ACCEPTED, TENTATIVE} \<longrightarrow> provenanced a (working s)"
  shows "\<exists>r s'. settle a b ex s = (Inr r, s')"
proof -
  let ?s1 = "s\<lparr>tx_depth := Suc (tx_depth s)\<rparr>"
  obtain ds s1 where m: "mapM (record_ruling (art_id a)) (vb_decisions b) ?s1 = (Inr ds, s1)"
    and rows: "t_artifacts (working s1) = t_artifacts (working s)"
    and ops: "t_operations (working s1) = t_operations (working s)"
    using record_rulings_total [of "art_id a" "vb_decisions b" ?s1] by auto
  have g: "get_artifact j s1 = get_artifact j s" for j by (rule get_artifact_cong) (rule rows)
  have has: "get_artifact j s = Inr (Some x) \<Longrightarrow> has_artifact j (working s1)" for j x
    using find_Some_in [of "\<lambda>r. art_id r = j" "t_artifacts (working s)"]
    by (auto simp: get_artifact_def has_artifact_def rows split: option.splits)
  have p: "provenanced a (working s1) = provenanced a (working s)" by (simp add: provenanced_def ops)
  obtain sts where st: "\<And>st. set_status (art_id a) st s1 = (Inr (), sts st)"
    using set_status_total [OF has [OF assms(1)]] by metis
  have "\<exists>r s2. write_terminal a b ex ds s1 = (Inr r, s2)"
  proof (cases "vb_status b")
    case ACCEPTED
    have e: "ensure_provenance a s1 = (Inr (), s1)" using assms(4) ACCEPTED p by simp
    show ?thesis
    proof (cases "vb_supersedes b")
      case None
      then show ?thesis using ACCEPTED e st assms(2)
        by (simp add: write_terminal_def bindE_def reads_def assert_transition_def ret_def accept_artifact_def
            del: ensure_provenance_Inr)
    next
      case (Some j)
      then obtain inc where inc: "get_artifact j s = Inr (Some inc)" "art_status inc \<in> {ACCEPTED, TENTATIVE}"
        using assms(3) ACCEPTED by (auto simp: supersedable_def)
      obtain s2 where "accept_superseding (art_id a) j s1 = (Inr (), s2)"
        using accept_superseding_total [OF has [OF assms(1)] has [OF inc(1)]] by blast
      moreover have "is_legal_transition (art_status inc) SUPERSEDED" using inc(2) by (auto simp: to_superseded)
      ultimately show ?thesis using ACCEPTED Some e g inc(1) assms(2)
        by (simp add: write_terminal_def bindE_def reads_def assert_transition_def ret_def accept_artifact_def
            del: ensure_provenance_Inr)
    qed
  next
    case TENTATIVE
    have e: "ensure_provenance a s1 = (Inr (), s1)" using assms(4) TENTATIVE p by simp
    then show ?thesis using TENTATIVE st assms(2)
      by (simp add: write_terminal_def bindE_def reads_def assert_transition_def ret_def
          del: ensure_provenance_Inr)
  qed (use st assms(2) in \<open>simp_all add: write_terminal_def bindE_def reads_def assert_transition_def ret_def
      from_proposed\<close>)
  then obtain r s2 where "bindE (mapM (record_ruling (art_id a)) (vb_decisions b)) (write_terminal a b ex) ?s1 = (Inr r, s2)"
    using m by (auto simp: bindE_def)
  from tx_total [of "bindE (mapM (record_ruling (art_id a)) (vb_decisions b)) (write_terminal a b ex)" s, OF this]
  show ?thesis by (auto simp: settle_def transaction_def)
qed

section \<open>The interface the commit path relies on\<close>

text \<open>
  What a verifier owes the commit path: a bundle that agrees with its own decisions, recommends a
  status a proposed artifact may take, and names an incumbent only on acceptance.
\<close>

locale verifier_port =
  fixes dispatch :: "'v dispatcher"
  assumes coherent: "dispatch a s v = (Inr b, v') \<Longrightarrow> assert_consistent b = Inr ()"
    and terminal: "dispatch a s v = (Inr b, v') \<Longrightarrow> is_legal_transition PROPOSED (vb_status b)"
    and supersedes_on_accept: "dispatch a s v = (Inr b, v') \<Longrightarrow> vb_supersedes b \<noteq> None \<Longrightarrow> vb_status b = ACCEPTED"
begin

lemma commit_goes_through:
  assumes "get_artifact i s = Inr (Some a)" "art_status a = PROPOSED" "cov (art_type a) \<noteq> None"
    "me \<noteq> created_by a" "dispatch a s v = (Inr b, v')" "supersedable b s"
    "vb_status b \<in> {ACCEPTED, TENTATIVE} \<longrightarrow> provenanced a (working s)"
  shows "\<exists>r s'. run_commit i cov dispatch me ex (s, v) = (Inr r, (s', v')) \<and> cr_status r = final_status b ex"
proof -
  have i: "art_id a = i" using get_artifact_id [OF assms(1)] .
  obtain ins where covered: "cov (art_type a) = Some ins" using assms(3) by blast
  obtain r s' where st: "settle a b ex s = (Inr r, s')"
    using settle_total [of a s b ex] assms(1,6,7) terminal [OF assms(5)] i by auto
  have "run_commit i cov dispatch me ex (s, v) = (Inr r, (s', v'))"
    using assms(1,2,4,5) covered coherent [OF assms(5)] st
    by (simp add: run_commit_def bindE_def in_store_def reads_def del: assert_consistent_Inr)
  moreover have "cr_status r = final_status b ex" using settle_Inr [OF st] by (auto simp: terminal_effect_def)
  ultimately show ?thesis by blast
qed

end

lemma port_dispatch_sdk:
  assumes "port_dispatch (sdk_service identity ps late) timeout gated objs a s v = (Inr b, v')"
  shows "assert_consistent b = Inr () \<and> is_legal_transition PROPOSED (vb_status b) \<and>
    (vb_supersedes b \<noteq> None \<longrightarrow> vb_status b = ACCEPTED)"
proof -
  obtain request where "sdk_dispatch ps request v = (Inr b, v')"
    using assms by (auto simp: port_dispatch_def sdk_service_def Let_def split: sum.splits option.splits)
  from sdk_dispatch_Inr [OF this] show ?thesis using earned_consistent by blast
qed

interpretation sdk: verifier_port "port_dispatch (sdk_service identity ps late) timeout gated objs"
  for identity ps late timeout gated objs
  by unfold_locales (auto simp del: assert_consistent_Inr dest!: port_dispatch_sdk)

section \<open>Claims\<close>

text \<open>C5. A verdict is earned: on a verifier whose construction passed, an acceptance means that every
  hard gate of the type's pipeline, and at least one, ruled and accepted, in pipeline order, after only
  accepting cheap gates; a tentative bundle means some hard gate deferred and nothing objected; a
  rejection or refinement carries exactly one objecting decision, the last; and only an acceptance
  names an incumbent.\<close>

theorem verdict_is_earned:
  assumes "check_pipelines ps = Inr ()" "sdk_dispatch ps request v = (Inr b, v')"
  shows "\<exists>steps. map_of ps (art_type (vr_proposal request)) = Some steps \<and> earned steps b \<and>
    (vb_status b = ACCEPTED \<longrightarrow> hard_steps steps \<noteq> [] \<and>
       (\<forall>d \<in> set (vb_decisions b). gd_kind d = ACCEPT) \<and>
       set (map gs_gate (hard_steps steps)) \<subseteq> gd_gate ` set (vb_decisions b)) \<and>
    (vb_supersedes b \<noteq> None \<longrightarrow> vb_status b = ACCEPTED)"
proof -
  obtain steps where m: "map_of ps (art_type (vr_proposal request)) = Some steps" and e: "earned steps b"
    using sdk_dispatch_Inr [OF assms(2)] by blast
  have "(art_type (vr_proposal request), steps) \<in> set ps" using m by (rule map_of_SomeD)
  then have h: "hard_steps steps \<noteq> []"
    using assms(1) by (auto simp: check_pipelines_def hard_steps_def filter_empty_conv find_None_iff
        split: option.splits)
  have a: "(\<forall>d \<in> set (vb_decisions b). gd_kind d = ACCEPT) \<and>
      set (map gs_gate (hard_steps steps)) \<subseteq> gd_gate ` set (vb_decisions b)" if acc: "vb_status b = ACCEPTED"
  proof -
    have "\<not> stopped [] b" using acc by (auto simp: stopped_def)
    then obtain cheap hard where d: "vb_decisions b = cheap @ hard" "accepted_all cheap" "accepted_all hard"
      "map gd_gate hard = map gs_gate (hard_steps steps)"
      using e acc by (auto simp: earned_def passed_def)
    have "gd_gate ` set hard = set (map gs_gate (hard_steps steps))" using arg_cong [OF d(4), of set] by simp
    then show ?thesis using d(1-3) by (auto simp: accepted_all_def)
  qed
  show ?thesis using m e h a earned_consistent [OF e] by blast
qed

definition demo_gate :: "verdict_kind \<Rightarrow> string option \<Rightarrow> 'w gate_primitive" where
  "demo_gate k sby request = ret (Some ((verdict k ''checked'')\<lparr>gv_supersedes := sby\<rparr>))"

definition demo_step :: "string \<Rightarrow> bool \<Rightarrow> unit gate_primitive \<Rightarrow> unit gate_step" where
  "demo_step g hard p = \<lparr>gs_gate = g, gs_plugin = p, gs_is_hard = hard, gs_requires_human = False\<rparr>"

definition demo_pipelines :: "unit pipelines" where
  "demo_pipelines = [(''Note'', [demo_step ''cheap'' False (demo_gate ACCEPT None),
     demo_step ''hard'' True (demo_gate ACCEPT None)])]"

definition demo_request :: verifier_request where
  "demo_request = \<lparr>vr_proposal = demo_artifact ''a'' (PJson JNull), vr_slice = [], vr_objects = [], vr_scores = []\<rparr>"

definition demo_sdk :: "unit sdk_verifier" where
  "demo_sdk = \<lparr>sdk_requests = [], sdk_provisioned = True, sdk_world = ()\<rparr>"

lemmas verifier_eval = sdk_dispatch_def run_pipeline_def in_world_def or_return_def conclude_def
  cheap_steps_def hard_steps_def demo_gate_def demo_step_def demo_pipelines_def demo_request_def
  demo_sdk_def verdict_def mk_bundle_def step_decision_def bindE_def ret_def raise_def modify_def

theorem verdict_is_earned_witness:
  "\<exists>b v'. sdk_dispatch demo_pipelines demo_request demo_sdk = (Inr b, v') \<and> vb_status b = ACCEPTED \<and>
     ''hard'' \<in> gd_gate ` set (vb_decisions b)"
proof -
  obtain b v' where d: "sdk_dispatch demo_pipelines demo_request demo_sdk = (Inr b, v')" "vb_status b = ACCEPTED"
    by (simp add: verifier_eval demo_artifact_def)
  have c: "check_pipelines demo_pipelines = Inr ()"
    by (simp add: check_pipelines_def demo_pipelines_def demo_step_def)
  obtain steps where st: "map_of demo_pipelines (art_type (vr_proposal demo_request)) = Some steps"
    "set (map gs_gate (hard_steps steps)) \<subseteq> gd_gate ` set (vb_decisions b)"
    using verdict_is_earned [OF c d(1)] d(2) by blast
  have "''hard'' \<in> set (map gs_gate (hard_steps steps))"
    using st(1) by (auto simp: demo_request_def demo_artifact_def demo_pipelines_def demo_step_def hard_steps_def
        image_iff)
  then have "''hard'' \<in> gd_gate ` set (vb_decisions b)" using st(2) by blast
  then show ?thesis using d by blast
qed

text \<open>C9. A verdict of the pipeline service always takes effect: whatever its gates do, when the
  service returns a bundle for a proposed, covered artifact that is not the verifier's own, the commit
  returns the bundle's status, provided an accepted or tentative artifact has its provenance edge and
  a named incumbent is accepted or tentative; the bundle is never refused as inconsistent.\<close>

theorem sdk_verdict_takes_effect:
  assumes "get_artifact i s = Inr (Some a)" "art_status a = PROPOSED" "cov (art_type a) \<noteq> None"
    "identity \<noteq> created_by a"
    "port_dispatch (sdk_service identity ps late) timeout gated objs a s v = (Inr b, v')"
    "supersedable b s" "vb_status b \<in> {ACCEPTED, TENTATIVE} \<longrightarrow> provenanced a (working s)"
  shows "\<exists>r s'. run_commit i cov (port_dispatch (sdk_service identity ps late) timeout gated objs) identity ex
    (s, v) = (Inr r, (s', v')) \<and> cr_status r = final_status b ex"
  using assms by (rule sdk.commit_goes_through)

theorem sdk_verdict_takes_effect_witness:
  "\<exists>r s' v'. run_commit ''a'' (\<lambda>_. Some []) (port_dispatch (sdk_service ''gate'' demo_pipelines (\<lambda>_ _ _. None))
     None [(''Note'', [])] []) ''gate'' False (demo_proposed, demo_sdk) = (Inr r, (s', v')) \<and> cr_status r = ACCEPTED"
proof -
  let ?a = "demo_artifact ''a'' (PJson JNull)"
  obtain b v' where d: "port_dispatch (sdk_service ''gate'' demo_pipelines (\<lambda>_ _ _. None)) None [(''Note'', [])] []
      ?a demo_proposed demo_sdk = (Inr b, v')" "vb_status b = ACCEPTED" "vb_supersedes b = None"
    by (simp add: port_dispatch_def resolve_gate_def resolve_declared_slice_def sdk_service_def
        verifier_request_for_def verifier_eval demo_artifact_def)
  have "provenanced ?a (working demo_proposed)"
    by (simp add: provenanced_def demo_proposed_def demo_operation_def demo_artifact_def)
  then show ?thesis
    using sdk_verdict_takes_effect [OF demo_proposed_get _ _ _ d(1), of "\<lambda>_. Some []" False] d(2,3)
    by (auto simp: supersedable_def final_status_def demo_artifact_def)
qed

lemma run_stage_skip:
  assumes "\<And>st. \<not> P st \<Longrightarrow> gs_plugin st = human_in_the_loop"
  shows "run_stage (filter P xs) request acc = run_stage xs request acc"
proof (induction xs arbitrary: acc)
  case (Cons st xs)
  obtain ds sby n where acc: "acc = (ds, sby, n)" by (cases acc)
  have ih: "run_stage (filter P xs) request = run_stage xs request" by (rule ext) (rule Cons.IH)
  show ?case
  proof (cases "P st")
    case True
    then show ?thesis by (simp only: acc filter.simps if_True run_stage.simps ih)
  next
    case False
    then show ?thesis
      by (simp add: acc ih assms [OF False] human_in_the_loop_def bindE_def ret_def fun_eq_iff)
  qed
qed simp

text \<open>Deferral counts only in the hard stage: cheap gates that always defer, a human gate among
  them, can be deleted from a pipeline without changing anything it returns, and the
  \<open>requires_human\<close> flags are never consulted.\<close>

lemma cheap_deferral_is_ignored:
  "run_pipeline (filter (\<lambda>st. gs_is_hard st \<or> gs_plugin st \<noteq> human_in_the_loop) steps) request w =
     run_pipeline steps request w \<and>
   run_pipeline (map (\<lambda>st. st\<lparr>gs_requires_human := flag st\<rparr>) steps) request w = run_pipeline steps request w"
proof -
  have flags: "run_stage (map (\<lambda>st. st\<lparr>gs_requires_human := flag st\<rparr>) xs) request acc =
      run_stage xs request acc" for xs acc
  proof (induction xs arbitrary: acc)
    case (Cons st xs)
    obtain ds sby n where acc: "acc = (ds, sby, n)" by (cases acc)
    have ih: "run_stage (map (\<lambda>st. st\<lparr>gs_requires_human := flag st\<rparr>) xs) request = run_stage xs request"
      by (rule ext) (rule Cons.IH)
    have d: "step_decision (st\<lparr>gs_requires_human := flag st\<rparr>) = step_decision st"
      by (rule ext) (simp add: step_decision_def)
    have g: "gs_plugin (st\<lparr>gs_requires_human := flag st\<rparr>) = gs_plugin st"
      "gs_is_hard (st\<lparr>gs_requires_human := flag st\<rparr>) = gs_is_hard st" by simp_all
    show ?case by (simp only: acc list.map run_stage.simps ih d g)
  qed simp
  have c: "cheap_steps (filter (\<lambda>st. gs_is_hard st \<or> gs_plugin st \<noteq> human_in_the_loop) steps) =
      filter (\<lambda>st. gs_plugin st \<noteq> human_in_the_loop) (cheap_steps steps)"
    "hard_steps (filter (\<lambda>st. gs_is_hard st \<or> gs_plugin st \<noteq> human_in_the_loop) steps) = hard_steps steps"
    by (auto simp: cheap_steps_def hard_steps_def intro: filter_cong)
  have f: "cheap_steps (map (\<lambda>st. st\<lparr>gs_requires_human := flag st\<rparr>) steps) =
      map (\<lambda>st. st\<lparr>gs_requires_human := flag st\<rparr>) (cheap_steps steps)"
    "hard_steps (map (\<lambda>st. st\<lparr>gs_requires_human := flag st\<rparr>) steps) =
      map (\<lambda>st. st\<lparr>gs_requires_human := flag st\<rparr>) (hard_steps steps)"
    by (simp_all add: cheap_steps_def hard_steps_def filter_map o_def)
  have cheap: "run_stage (filter (\<lambda>st. gs_plugin st \<noteq> human_in_the_loop) xs) request acc = run_stage xs request acc"
    for xs acc by (rule run_stage_skip) simp
  show ?thesis by (simp only: run_pipeline_def conclude_def c f flags cheap length_map simp_thms)
qed

lemma cheap_deferral_is_ignored_witness:
  "\<exists>b. run_pipeline [demo_step ''human'' False human_in_the_loop, demo_step ''hard'' True (demo_gate ACCEPT None)]
     demo_request () = (Inr b, ()) \<and> vb_status b = ACCEPTED"
proof -
  let ?h = "demo_step ''hard'' True (demo_gate ACCEPT None)"
  have "filter (\<lambda>st. gs_is_hard st \<or> gs_plugin st \<noteq> human_in_the_loop)
      [demo_step ''human'' False human_in_the_loop, ?h] = [?h]" by (simp add: demo_step_def)
  then have "run_pipeline [demo_step ''human'' False human_in_the_loop, ?h] demo_request () =
      run_pipeline [?h] demo_request ()"
    using cheap_deferral_is_ignored [of "[demo_step ''human'' False human_in_the_loop, ?h]" demo_request "()"
        "\<lambda>_. True"] by simp
  then show ?thesis by (simp add: verifier_eval)
qed

text \<open>A model's reply is never laundered into a verdict, but not every bad reply is a
  \<open>VerifierError\<close>: text that is not JSON, an object without a verdict or rationale, and an unknown
  verdict are; JSON that is not an object escapes as a \<open>TypeError\<close>.\<close>

lemma parse_reply_errors:
  "(case loads text of
      None \<Rightarrow> parse_reply loads show_json text = Inl (VerifierError (''unparseable judge reply: '' @ py_repr text))
    | Some (JObj kvs) \<Rightarrow>
        (map_of kvs ''verdict'' \<notin> Some ` JStr ` {''accept'', ''reject'', ''refine''} \<or> map_of kvs ''rationale'' = None \<longrightarrow>
          parse_reply loads show_json text = Inl (VerifierError (''unparseable judge reply: '' @ py_repr text)))
    | Some _ \<Rightarrow> \<exists>m. parse_reply loads show_json text = Inl (TypeError m))"
  by (auto simp: parse_reply_def json_get_def verdict_of_def Let_def split: option.split json.split)

lemma parse_reply_errors_witness:
  "\<exists>m. parse_reply (\<lambda>_. Some (JList [])) (\<lambda>_. []) ''[]'' = Inl (TypeError m)"
  using parse_reply_errors [of "\<lambda>_. Some (JList [])" "\<lambda>_. []" "''[]''"] by simp

end
