(* ===== verification/Workspace.thy ===== *)
theory Workspace
  imports Registries
begin

text \<open>
  \<open>control_plane/workspace.py\<close> and the prompt composition of \<open>control_plane/config.py\<close>: the versioned
  contract of workspace roles, the default layout that provisions and harvests them, and the system
  prompt rendered from the contract. A file system is the list of its directories with their
  files; a file name with a slash names a directory that was never made, and the write raises.
\<close>

section \<open>The contract\<close>

datatype access = READ_ONLY | WRITABLE_EPHEMERAL

fun access_value :: "access \<Rightarrow> string" where
  "access_value READ_ONLY = ''read-only''"
| "access_value WRITABLE_EPHEMERAL = ''writable-ephemeral''"

record workspace_role =
  wr_name :: string
  wr_access :: access
  wr_purpose :: string

record workspace_contract =
  wc_version :: int
  wc_roles :: "workspace_role list"

definition WORKSPACE_CONTRACT_VERSION :: int where
  "WORKSPACE_CONTRACT_VERSION = 2"

definition ROLES :: "workspace_role list" where
  "ROLES =
    [\<lparr>wr_name = ''data'', wr_access = READ_ONLY,
       wr_purpose = ''the task'' @ [CHR 0x27] @ ''s data sources (read-only, '' @ ch_section @ ''3.4)''\<rparr>,
     \<lparr>wr_name = ''context'', wr_access = READ_ONLY, wr_purpose = ''skills, SOPs, gold-standard examples''\<rparr>,
     \<lparr>wr_name = ''tools'', wr_access = READ_ONLY,
       wr_purpose = ''the task'' @ [CHR 0x27] @ ''s registered tools ('' @ ch_section @ ''8.2)''\<rparr>,
     \<lparr>wr_name = ''spec'', wr_access = READ_ONLY,
       wr_purpose = ''the proposal-shape spec / output schema ('' @ ch_section @ ''3.4)''\<rparr>,
     \<lparr>wr_name = ''scratch'', wr_access = WRITABLE_EPHEMERAL,
       wr_purpose = ''working space; provisioned prior artifacts arrive under scratch/provided/ '' @
         ''(see its INDEX.md for their statuses and recorded scores)''\<rparr>,
     \<lparr>wr_name = ''outbox'', wr_access = WRITABLE_EPHEMERAL,
       wr_purpose = ''place the proposal'' @ [CHR 0x27] @ ''s object attachments here for harvest; '' @
         ''starts empty each cycle''\<rparr>]"

definition OUTBOX_ROLE :: string where
  "OUTBOX_ROLE = ''outbox''"

definition WORKSPACE_CONTRACT :: workspace_contract where
  "WORKSPACE_CONTRACT = \<lparr>wc_version = WORKSPACE_CONTRACT_VERSION, wc_roles = ROLES\<rparr>"

definition contract_role :: "workspace_contract \<Rightarrow> string \<Rightarrow> exc + workspace_role" where
  "contract_role c n = (case List.find (\<lambda>r. wr_name r = n) (wc_roles c) of
      Some r \<Rightarrow> Inr r
    | None \<Rightarrow> Inl (WorkspaceError (''unknown workspace role: '' @ py_repr n)))"

definition role_names :: "workspace_contract \<Rightarrow> string list" where
  "role_names c = map wr_name (wc_roles c)"

definition readable_roles :: "workspace_contract \<Rightarrow> workspace_role list" where
  "readable_roles c = filter (\<lambda>r. wr_access r = READ_ONLY) (wc_roles c)"

definition writable_roles :: "workspace_contract \<Rightarrow> workspace_role list" where
  "writable_roles c = filter (\<lambda>r. wr_access r = WRITABLE_EPHEMERAL) (wc_roles c)"

section \<open>Paths and files\<close>

text \<open>
  A path is the list of its components from the file-system root. \<open>base / name\<close> splits the name at
  its slashes, dropping empty and \<open>.\<close> components, and starts again from the root for an absolute
  name; the operating system then follows the components, \<open>..\<close> included, through directories that
  must exist. Symbolic links and permissions are left out.
\<close>

type_synonym path = "string list"

record file_system =
  fs_dirs :: "path list"
  fs_files :: "(path \<times> bytes) list"

fun split_slash :: "string \<Rightarrow> string \<Rightarrow> string list" where
  "split_slash acc [] = [rev acc]"
| "split_slash acc (c # cs) =
     (if c = CHR ''/'' then rev acc # split_slash [] cs else split_slash (c # acc) cs)"

definition path_join :: "path \<Rightarrow> string \<Rightarrow> path" where
  "path_join base n = (let parts = filter (\<lambda>c. c \<noteq> '''' \<and> c \<noteq> ''.'') (split_slash [] n)
     in if n \<noteq> [] \<and> hd n = CHR ''/'' then parts else base @ parts)"

fun follow :: "path list \<Rightarrow> path \<Rightarrow> path \<Rightarrow> path option" where
  "follow dirs cur [] = Some cur"
| "follow dirs cur (c # cs) =
     (if c = ''..'' then follow dirs (butlast cur) cs
      else if cs = [] then Some (cur @ [c])
      else if cur @ [c] \<in> set dirs then follow dirs (cur @ [c]) cs
      else None)"

fun mkdirs :: "path \<Rightarrow> path \<Rightarrow> (file_system, exc, unit) st" where
  "mkdirs cur [] = ret ()"
| "mkdirs cur (c # cs) =
     (if c = ''..'' then mkdirs (butlast cur) cs
      else bindE (reads (\<lambda>fs. if cur @ [c] \<in> fst ` set (fs_files fs) then Inl (OtherError ''File exists'')
              else Inr ())) (\<lambda>_.
           bindE (modify (fs_dirs_update (\<lambda>ds. if cur @ [c] \<in> set ds then ds else ds @ [cur @ [c]]))) (\<lambda>_.
           mkdirs (cur @ [c]) cs)))"

definition write_bytes :: "path \<Rightarrow> bytes \<Rightarrow> (file_system, exc, unit) st" where
  "write_bytes p data =
     bindE (reads (\<lambda>fs. case follow (fs_dirs fs) [] p of
         None \<Rightarrow> Inl (OtherError ''No such file or directory'')
       | Some q \<Rightarrow> if q = [] \<or> q \<in> set (fs_dirs fs) then Inl (OtherError ''Is a directory'')
           else if butlast q = [] \<or> butlast q \<in> set (fs_dirs fs) then Inr q
           else Inl (OtherError ''No such file or directory''))) (\<lambda>q.
     modify (fs_files_update (dict_put q data)))"

section \<open>The default layout\<close>

record provisioned_workspace =
  pw_root :: path
  pw_paths :: "(string \<times> path) list"

type_synonym contents = "(string \<times> (string \<times> bytes) list) list"

definition path_for :: "workspace_contract \<Rightarrow> string \<Rightarrow> exc + string" where
  "path_for c role = bindS (contract_role c role) (\<lambda>r. Inr (wr_name r))"

definition check_contents :: "workspace_contract \<Rightarrow> contents \<Rightarrow> exc + unit" where
  "check_contents c contents =
     (case List.find (\<lambda>(n, _). n \<notin> set (role_names c) \<or> n \<in> wr_name ` set (writable_roles c)) contents of
        Some (n, _) \<Rightarrow>
          if n \<notin> set (role_names c)
          then Inl (WorkspaceError (''cannot place contents into unknown role '' @ py_repr n))
          else Inl (WorkspaceError (''refusing to pre-populate writable-ephemeral role '' @ py_repr n @
                 '': only read-only roles carry per-task contents ('' @ ch_section @ ''3.4)''))
      | None \<Rightarrow> Inr ())"

definition role_contents :: "contents \<Rightarrow> string \<Rightarrow> (string \<times> bytes) list" where
  "role_contents contents role = (case map_of contents role of Some fs \<Rightarrow> fs | None \<Rightarrow> [])"

definition provision_role :: "workspace_contract \<Rightarrow> path \<Rightarrow> contents \<Rightarrow> workspace_role \<Rightarrow>
    (file_system, exc, string \<times> path) st" where
  "provision_role c base contents role =
     bindE (reads (\<lambda>_. path_for c (wr_name role))) (\<lambda>p.
     let role_dir = path_join base p in
     bindE (mkdirs [] role_dir) (\<lambda>_.
     bindE (mapM (\<lambda>(n, data). write_bytes (path_join role_dir n) data) (role_contents contents (wr_name role))) (\<lambda>_.
     ret (wr_name role, role_dir))))"

definition provision_workspace :: "workspace_contract \<Rightarrow> path \<Rightarrow> contents \<Rightarrow>
    (file_system, exc, provisioned_workspace) st" where
  "provision_workspace c base contents =
     bindE (reads (\<lambda>_. check_contents c contents)) (\<lambda>_.
     bindE (mapM (provision_role c base contents) (wc_roles c)) (\<lambda>paths.
     ret \<lparr>pw_root = base, pw_paths = fold (\<lambda>(k, v). dict_put k v) paths []\<rparr>))"

definition workspace_path :: "provisioned_workspace \<Rightarrow> string \<Rightarrow> exc + path" where
  "workspace_path w role = (case map_of (pw_paths w) role of
      Some p \<Rightarrow> Inr p
    | None \<Rightarrow> Inl (WorkspaceError (''role '' @ py_repr role @ '' is not provisioned'')))"

definition outbox :: "provisioned_workspace \<Rightarrow> exc + path" where
  "outbox w = workspace_path w OUTBOX_ROLE"

text \<open>The files directly under a directory, by name; subdirectories are skipped.\<close>

definition dir_files :: "file_system \<Rightarrow> path \<Rightarrow> (string \<times> bytes) list" where
  "dir_files fs d = map (\<lambda>(p, data). (last p, data))
     (filter (\<lambda>(p, _). p \<noteq> [] \<and> butlast p = d) (fs_files fs))"

definition harvest :: "provisioned_workspace \<Rightarrow> file_system \<Rightarrow> exc + (string \<times> bytes) list" where
  "harvest w fs = bindS (outbox w) (\<lambda>d. case follow (fs_dirs fs) [] d of
      Some q \<Rightarrow> if q \<in> set (fs_dirs fs) then Inr (sort_key fst (dir_files fs q))
               else Inl (OtherError ''No such file or directory'')
    | None \<Rightarrow> Inl (OtherError ''No such file or directory''))"

section \<open>The system prompt\<close>

definition WORKSPACE_ROOT :: string where
  "WORKSPACE_ROOT = ''/work''"

definition render_workspace_layout :: "workspace_contract \<Rightarrow> string \<Rightarrow> exc + string" where
  "render_workspace_layout c base =
     (let paths = map (\<lambda>r. base @ ''/'' @ wr_name r @ ''/'') (wc_roles c)
      in if paths = [] then Inl (ValueError ''max() iterable argument is empty'')
         else let width = Max (set (map length paths))
              in Inr (join nl (map2 (\<lambda>p r. ''  '' @ ljust width p @ ''  ('' @ access_value (wr_access r) @
                     '')  '' @ wr_purpose r) paths (wc_roles c))))"

definition render_orientation :: "workspace_contract \<Rightarrow> string \<Rightarrow> exc + string" where
  "render_orientation c base =
     bindS (render_workspace_layout c base) (\<lambda>layout. Inr (
       ''Work independently and diligently to complete the task provided:'' @ nl @
       ''- Plan the steps that must be taken to achieve the goal'' @ nl @
       ''- Execute the steps to complete a best-work proposal'' @ nl @
       ''- **Do not** ask clarifying questions, request user input, or wait for permission. Execute'' @ nl @
       ''  independently.'' @ nl @ nl @
       ''The working directory is '' @ base @ ''. The workspace has a fixed layout (read-only inputs;'' @ nl @
       ''writable-ephemeral working areas) '' @ ch_emdash @ '' reference roles by these absolute paths:'' @ nl @
       layout @ nl @ nl @
       ''- The required output schema for the proposal lives under '' @ base @ ''/spec/.'' @ nl @
       ''- Prepare to submit a proposal by moving any object attachments (a script, a data file) to'' @ nl @
       ''  '' @ base @ ''/outbox/; do not rely on any other path.'' @ nl @
       ''- Self-verify the shape of the proposal and if possible, test the proposal prior to submission.'' @ nl @
       ''- Submit the proposal using the tool provided and within the time allotted.'' @ nl @
       ''- If given instructions to correct a previously submitted proposal, follow them precisely.'' @ nl))"

definition compose_system_prompt :: "workspace_contract \<Rightarrow> string \<Rightarrow> string \<Rightarrow> exc + string" where
  "compose_system_prompt c domain_instructions task_instructions =
     bindS (render_orientation c WORKSPACE_ROOT) (\<lambda>orientation. Inr (join (nl @ nl)
       [''# Kernel orientation (invariant)'' @ nl @ orientation,
        ''# Domain instructions'' @ nl @ strip domain_instructions,
        ''# Task instructions'' @ nl @ strip task_instructions]))"

definition orientation_digest :: "(bytes \<Rightarrow> string) \<Rightarrow> workspace_contract \<Rightarrow> exc + string" where
  "orientation_digest sha c = bindS (render_orientation c WORKSPACE_ROOT) (\<lambda>t. Inr (sha (utf8 t)))"

section \<open>Lemmas\<close>

text \<open>
  A well-formed contract: role names are distinct plain names, and the outbox is writable. A plain
  name is one path component.
\<close>

definition plain_name :: "string \<Rightarrow> bool" where
  "plain_name n \<longleftrightarrow> n \<notin> {'''', ''.'', ''..''} \<and> CHR ''/'' \<notin> set n"

definition contract_ok :: "workspace_contract \<Rightarrow> bool" where
  "contract_ok c \<longleftrightarrow> distinct (map wr_name (wc_roles c)) \<and> list_all plain_name (role_names c) \<and>
     list_ex (\<lambda>r. wr_name r = OUTBOX_ROLE \<and> wr_access r = WRITABLE_EPHEMERAL) (wc_roles c)"

lemma contract_ok_default: "contract_ok WORKSPACE_CONTRACT"
  by (simp add: contract_ok_def WORKSPACE_CONTRACT_def ROLES_def OUTBOX_ROLE_def plain_name_def
      role_names_def)

lemma split_slash_plain: "CHR ''/'' \<notin> set n \<Longrightarrow> split_slash acc n = [rev acc @ n]"
  by (induction n arbitrary: acc) auto

lemma path_join_plain: "plain_name n \<Longrightarrow> path_join base n = base @ [n]"
  by (cases n) (auto simp: path_join_def split_slash_plain plain_name_def)

lemma path_for_self: "r \<in> set (wc_roles c) \<Longrightarrow> path_for c (wr_name r) = Inr (wr_name r)"
  by (auto simp: path_for_def contract_role_def split: option.split
      dest: find_Some_in simp: find_None_iff)

lemma follow_plain: "''..'' \<notin> set p \<Longrightarrow> follow dirs cur p = Some q \<Longrightarrow> q = cur @ p"
  by (induction dirs cur p rule: follow.induct) (auto split: if_splits)

lemma mkdirs_files: "mkdirs cur p fs = (r, fs') \<Longrightarrow> fs_files fs' = fs_files fs"
proof (induction p arbitrary: cur fs)
  case (Cons c cs)
  then show ?case
    by (auto simp: bindE_def reads_def modify_def split: if_splits prod.splits sum.splits)
qed (simp add: ret_def)

lemma write_bytes_files:
  "''..'' \<notin> set p \<Longrightarrow> write_bytes p data fs = (Inr u, fs') \<Longrightarrow>
     fs_files fs' = dict_put p data (fs_files fs)"
  by (auto simp: write_bytes_def bindE_ok reads_def modify_def split: option.splits if_splits
      dest: follow_plain)

definition role_writes :: "path \<Rightarrow> contents \<Rightarrow> workspace_role \<Rightarrow> (path \<times> bytes) list" where
  "role_writes base contents r =
     map (\<lambda>(n, data). (base @ [wr_name r, n], data)) (role_contents contents (wr_name r))"

lemma write_all_files:
  assumes "''..'' \<notin> set d" "\<forall>(n, data) \<in> set fl. plain_name n"
    "mapM (\<lambda>(n, data). write_bytes (path_join d n) data) fl fs = (Inr us, fs')"
  shows "fs_files fs' = fold (\<lambda>(k, v). dict_put k v) (map (\<lambda>(n, data). (d @ [n], data)) fl) (fs_files fs)"
  using assms
proof (induction fl arbitrary: fs us)
  case (Cons f fl)
  obtain n data where f: "f = (n, data)" by (cases f)
  have pn: "plain_name n" "''..'' \<notin> set (d @ [n])" using Cons.prems(1,2)
    by (auto simp: f plain_name_def)
  from Cons.prems(3) obtain u s1 vs where
    w: "write_bytes (d @ [n]) data fs = (Inr u, s1)"
    and r: "mapM (\<lambda>(n, data). write_bytes (path_join d n) data) fl s1 = (Inr vs, fs')"
    by (auto simp: f bindE_ok ret_def path_join_plain [OF pn(1)])
  have "\<forall>(n, data) \<in> set fl. plain_name n" using Cons.prems(2) by simp
  from Cons.IH [OF Cons.prems(1) this r] show ?case
    by (simp add: f write_bytes_files [OF pn(2) w])
qed (simp add: ret_def)

lemma provision_role_files:
  assumes "r \<in> set (wc_roles c)" "plain_name (wr_name r)" "''..'' \<notin> set base"
    "\<forall>(n, data) \<in> set (role_contents contents (wr_name r)). plain_name n"
    "provision_role c base contents r fs = (Inr kp, fs')"
  shows "kp = (wr_name r, base @ [wr_name r]) \<and>
    fs_files fs' = fold (\<lambda>(k, v). dict_put k v) (role_writes base contents r) (fs_files fs)"
proof -
  have d: "''..'' \<notin> set (base @ [wr_name r])" using assms(2,3) by (auto simp: plain_name_def)
  from assms(5) obtain us s1 u where
    m: "mkdirs [] (base @ [wr_name r]) fs = (Inr u, s1)" and
    w: "mapM (\<lambda>(n, data). write_bytes (path_join (base @ [wr_name r]) n) data)
      (role_contents contents (wr_name r)) s1 = (Inr us, fs')" and
    kp: "kp = (wr_name r, base @ [wr_name r])"
    by (auto simp: provision_role_def path_for_self [OF assms(1)] path_join_plain [OF assms(2)]
        bindE_ok reads_def ret_def Let_def)
  show ?thesis using write_all_files [OF d assms(4) w] mkdirs_files [OF m] kp
    by (simp add: role_writes_def)
qed

lemma role_writes_lookup:
  assumes "distinct (map fst (role_contents contents (wr_name r)))"
  shows "map_of (fold (\<lambda>(k, v). dict_put k v) (role_writes base contents r) F) (base @ [m, n]) =
    (if m = wr_name r
     then (case map_of (role_contents contents m) n of Some d \<Rightarrow> Some d | None \<Rightarrow> map_of F (base @ [m, n]))
     else map_of F (base @ [m, n]))"
proof -
  have k: "map fst (role_writes base contents r) =
      map (\<lambda>n. base @ [wr_name r, n]) (map fst (role_contents contents (wr_name r)))"
    by (simp add: role_writes_def case_prod_unfold comp_def)
  have d: "distinct (map fst (role_writes base contents r))"
    unfolding k distinct_map [of _ "map fst _"] using assms by (simp add: inj_on_def)
  have l: "map_of (role_writes base contents r) (base @ [m, n]) =
      (if m = wr_name r then map_of (role_contents contents (wr_name r)) n else None)"
  proof -
    have "map_of (map (\<lambda>(n, data). (base @ [q, n], data)) fl) (base @ [m, n]) =
        (if m = q then map_of fl n else None)" for q and fl :: "(string \<times> bytes) list"
      by (induction fl) auto
    then show ?thesis by (simp add: role_writes_def)
  qed
  show ?thesis
    by (auto simp: dict_puts_map_of map_of_rev_distinct [OF d] map_add_def l split: option.split)
qed

definition contents_ok :: "workspace_contract \<Rightarrow> contents \<Rightarrow> bool" where
  "contents_ok c contents \<longleftrightarrow> list_all (\<lambda>r. distinct (map fst (role_contents contents (wr_name r))) \<and>
     list_all (\<lambda>(n, _). plain_name n) (role_contents contents (wr_name r))) (wc_roles c)"

lemma provision_roles_files:
  assumes "set rs \<subseteq> set (wc_roles c)" "contract_ok c" "contents_ok c contents" "''..'' \<notin> set base"
    "mapM (provision_role c base contents) rs fs = (Inr ps, fs')"
  shows "ps = map (\<lambda>r. (wr_name r, base @ [wr_name r])) rs \<and>
    fs_files fs' = fold (\<lambda>(k, v). dict_put k v) (concat (map (role_writes base contents) rs)) (fs_files fs)"
  using assms(1,5)
proof (induction rs arbitrary: fs ps)
  case (Cons r rs)
  have r: "r \<in> set (wc_roles c)" "plain_name (wr_name r)"
    "\<forall>(n, data) \<in> set (role_contents contents (wr_name r)). plain_name n"
    using Cons.prems(1) assms(2,3)
    by (auto simp: contract_ok_def contents_ok_def role_names_def list_all_iff)
  from Cons.prems(2) obtain kp s1 qs where
    p: "provision_role c base contents r fs = (Inr kp, s1)"
    "mapM (provision_role c base contents) rs s1 = (Inr qs, fs')" "ps = kp # qs"
    by (auto simp: bindE_ok ret_def)
  show ?case using provision_role_files [OF r(1,2) assms(4) r(3) p(1)] Cons.IH [OF _ p(2)]
      Cons.prems(1) p(3) by simp
qed (simp add: ret_def)

lemma roles_lookup:
  assumes "\<forall>r \<in> set rs. distinct (map fst (role_contents contents (wr_name r)))"
    "distinct (map wr_name rs)"
  shows "map_of (fold (\<lambda>(k, v). dict_put k v) (concat (map (role_writes base contents) rs)) F) (base @ [m, n]) =
    (if m \<in> wr_name ` set rs
     then (case map_of (role_contents contents m) n of Some d \<Rightarrow> Some d | None \<Rightarrow> map_of F (base @ [m, n]))
     else map_of F (base @ [m, n]))"
  using assms
proof (induction rs arbitrary: F)
  case (Cons r rs)
  have "distinct (map fst (role_contents contents (wr_name r)))" using Cons.prems(1) by simp
  from role_writes_lookup [OF this] show ?case using Cons
    by (auto simp: image_iff split: option.split)
qed simp

lemma mkdirs_dirs:
  "''..'' \<notin> set p \<Longrightarrow> mkdirs cur p fs = (Inr u, fs') \<Longrightarrow>
     set (fs_dirs fs) \<subseteq> set (fs_dirs fs') \<and> follow (fs_dirs fs') cur p = Some (cur @ p) \<and>
     (p \<noteq> [] \<longrightarrow> cur @ p \<in> set (fs_dirs fs'))"
proof (induction p arbitrary: cur fs)
  case (Cons c cs)
  from Cons.prems obtain s1 where
    s1: "s1 = fs_dirs_update (\<lambda>ds. if cur @ [c] \<in> set ds then ds else ds @ [cur @ [c]]) fs"
    and m: "mkdirs (cur @ [c]) cs s1 = (Inr u, fs')"
    by (auto simp: bindE_ok reads_def modify_def split: if_splits)
  have "cur @ [c] \<in> set (fs_dirs s1)" "set (fs_dirs fs) \<subseteq> set (fs_dirs s1)" by (auto simp: s1)
  moreover have "''..'' \<notin> set cs" using Cons.prems(1) by simp
  ultimately show ?case using Cons.IH [OF _ m] Cons.prems(1) by (cases cs) auto
qed (simp add: ret_def)

lemma follow_mono:
  "follow ds cur p = Some q \<Longrightarrow> set ds \<subseteq> set ds' \<Longrightarrow> follow ds' cur p = Some q"
  by (induction ds cur p rule: follow.induct) (auto split: if_splits)

lemma write_bytes_dirs: "write_bytes p data fs = (r, fs') \<Longrightarrow> fs_dirs fs' = fs_dirs fs"
  by (auto simp: write_bytes_def bindE_def reads_def modify_def split: option.splits if_splits)

lemma write_all_dirs:
  "mapM (\<lambda>(n, data). write_bytes (path_join d n) data) fl fs = (r, fs') \<Longrightarrow> fs_dirs fs' = fs_dirs fs"
proof (induction fl arbitrary: fs r)
  case (Cons f fl)
  then show ?case
    by (auto simp: bindE_def ret_def split: prod.splits sum.splits dest!: write_bytes_dirs)
qed (simp add: ret_def)

lemma provision_roles_dirs:
  "set rs \<subseteq> set (wc_roles c) \<Longrightarrow> contract_ok c \<Longrightarrow> ''..'' \<notin> set base \<Longrightarrow>
     mapM (provision_role c base contents) rs fs = (Inr ps, fs') \<Longrightarrow>
     set (fs_dirs fs) \<subseteq> set (fs_dirs fs') \<and>
     (\<forall>r \<in> set rs. follow (fs_dirs fs') [] (base @ [wr_name r]) = Some (base @ [wr_name r]) \<and>
        base @ [wr_name r] \<in> set (fs_dirs fs'))"
proof (induction rs arbitrary: fs ps)
  case (Cons r rs)
  have r: "r \<in> set (wc_roles c)" "plain_name (wr_name r)" "''..'' \<notin> set (base @ [wr_name r])"
    using Cons.prems(1-3) by (auto simp: contract_ok_def role_names_def list_all_iff plain_name_def)
  from Cons.prems(4) obtain kp s1 qs where
    p: "provision_role c base contents r fs = (Inr kp, s1)"
    "mapM (provision_role c base contents) rs s1 = (Inr qs, fs')"
    by (auto simp: bindE_ok ret_def)
  from p(1) obtain u us s0 where
    m: "mkdirs [] (base @ [wr_name r]) fs = (Inr u, s0)" and
    w: "mapM (\<lambda>(n, data). write_bytes (path_join (base @ [wr_name r]) n) data)
      (role_contents contents (wr_name r)) s0 = (Inr us, s1)"
    by (auto simp: provision_role_def path_for_self [OF r(1)] path_join_plain [OF r(2)]
        bindE_ok reads_def ret_def Let_def)
  have s1: "fs_dirs s1 = fs_dirs s0" by (rule write_all_dirs [OF w])
  have ih: "set (fs_dirs s1) \<subseteq> set (fs_dirs fs') \<and>
     (\<forall>r \<in> set rs. follow (fs_dirs fs') [] (base @ [wr_name r]) = Some (base @ [wr_name r]) \<and>
        base @ [wr_name r] \<in> set (fs_dirs fs'))"
    using Cons.IH [OF _ Cons.prems(2,3) p(2)] Cons.prems(1) by simp
  have d: "set (fs_dirs fs) \<subseteq> set (fs_dirs s1)"
      "follow (fs_dirs s1) [] (base @ [wr_name r]) = Some (base @ [wr_name r])"
      "base @ [wr_name r] \<in> set (fs_dirs s1)"
    using mkdirs_dirs [OF r(3) m] by (auto simp: s1)
  have "follow (fs_dirs fs') [] (base @ [wr_name r]) = Some (base @ [wr_name r])"
    using d(2) ih by (blast intro: follow_mono)
  then show ?case using ih d by auto
qed (simp add: ret_def)

lemma check_contents_writable:
  assumes "check_contents c contents = Inr u" "r \<in> set (wc_roles c)" "wr_access r = WRITABLE_EPHEMERAL"
  shows "role_contents contents (wr_name r) = []"
proof -
  have "List.find (\<lambda>(n, _). n \<notin> set (role_names c) \<or> n \<in> wr_name ` set (writable_roles c)) contents = None"
    using assms(1) by (auto simp: check_contents_def split: option.splits if_splits)
  then have "wr_name r \<notin> fst ` set contents" using assms(2,3)
    by (force simp: find_None_iff writable_roles_def)
  then have "map_of contents (wr_name r) = None" by (simp add: map_of_eq_None_iff)
  then show ?thesis by (simp add: role_contents_def)
qed

lemma fst_set_puts: "fst ` set (fold (\<lambda>(k, v). dict_put k v) ps d) = fst ` set ps \<union> fst ` set d"
proof -
  have "dom (map_of (fold (\<lambda>(k, v). dict_put k v) ps d)) = fst ` set ps \<union> fst ` set d"
    by (simp add: dict_puts_map_of dom_map_of_conv_image_fst Un_commute)
  then show ?thesis by (simp add: dom_map_of_conv_image_fst)
qed

lemma provision_workspace_Inr:
  assumes "provision_workspace c base contents fs = (Inr w, fs')"
  obtains paths where "check_contents c contents = Inr ()"
    "mapM (provision_role c base contents) (wc_roles c) fs = (Inr paths, fs')"
    "w = \<lparr>pw_root = base, pw_paths = fold (\<lambda>(k, v). dict_put k v) paths []\<rparr>"
  using assms by (auto simp: provision_workspace_def bindE_ok reads_def ret_def)

text \<open>Exactly the missing directories on the way are made, and files put elsewhere leave a directory's
  listing alone.\<close>

lemma mkdirs_exact:
  "''..'' \<notin> set p \<Longrightarrow> mkdirs cur p fs = (Inr u, fs') \<Longrightarrow>
     set (fs_dirs fs') = set (fs_dirs fs) \<union> {cur @ q | q. q \<noteq> [] \<and> prefix q p}"
proof (induction p arbitrary: cur fs)
  case (Cons c cs)
  from Cons.prems obtain s1 where
    s1: "s1 = fs_dirs_update (\<lambda>ds. if cur @ [c] \<in> set ds then ds else ds @ [cur @ [c]]) fs"
    and m: "mkdirs (cur @ [c]) cs s1 = (Inr u, fs')"
    by (auto simp: bindE_ok reads_def modify_def split: if_splits)
  have "set (fs_dirs s1) = insert (cur @ [c]) (set (fs_dirs fs))" by (auto simp: s1)
  moreover have "{cur @ q | q. q \<noteq> [] \<and> prefix q (c # cs)} = insert (cur @ [c]) {(cur @ [c]) @ q | q. q \<noteq> [] \<and> prefix q cs}"
    by (auto simp: prefix_Cons)
  ultimately show ?case using Cons.IH [OF _ m] Cons.prems(1) by simp
qed (simp add: ret_def)

lemma provision_roles_exact:
  "set rs \<subseteq> set (wc_roles c) \<Longrightarrow> contract_ok c \<Longrightarrow> ''..'' \<notin> set base \<Longrightarrow>
     mapM (provision_role c base contents) rs fs = (Inr ps, fs') \<Longrightarrow>
     set (fs_dirs fs') = set (fs_dirs fs) \<union> {d. d \<noteq> [] \<and> (\<exists>r \<in> set rs. prefix d (base @ [wr_name r]))}"
proof (induction rs arbitrary: fs ps)
  case (Cons r rs)
  have r: "r \<in> set (wc_roles c)" "plain_name (wr_name r)" "''..'' \<notin> set (base @ [wr_name r])"
    using Cons.prems(1-3) by (auto simp: contract_ok_def role_names_def list_all_iff plain_name_def)
  from Cons.prems(4) obtain kp s1 qs where
    p: "provision_role c base contents r fs = (Inr kp, s1)"
    "mapM (provision_role c base contents) rs s1 = (Inr qs, fs')"
    by (auto simp: bindE_ok ret_def)
  from p(1) obtain u us s0 where
    m: "mkdirs [] (base @ [wr_name r]) fs = (Inr u, s0)" and
    w: "mapM (\<lambda>(n, data). write_bytes (path_join (base @ [wr_name r]) n) data)
      (role_contents contents (wr_name r)) s0 = (Inr us, s1)"
    by (auto simp: provision_role_def path_for_self [OF r(1)] path_join_plain [OF r(2)]
        bindE_ok reads_def ret_def Let_def)
  have "set (fs_dirs s1) = set (fs_dirs fs) \<union> {d. d \<noteq> [] \<and> prefix d (base @ [wr_name r])}"
    using mkdirs_exact [OF r(3) m] write_all_dirs [OF w] by simp
  then show ?case using Cons.IH [OF _ Cons.prems(2,3) p(2)] Cons.prems(1) by auto
qed (simp add: ret_def)

lemma dir_files_puts:
  assumes "fs_files fs' = fold (\<lambda>(k, v). dict_put k v) W (fs_files fs)" "\<forall>p \<in> fst ` set W. p \<noteq> [] \<longrightarrow> butlast p \<noteq> d"
  shows "dir_files fs' d = dir_files fs d"
proof -
  let ?P = "\<lambda>(p, _). p \<noteq> [] \<and> butlast p = d"
  have put: "filter ?P (dict_put k v F) = filter ?P F" if "k \<noteq> [] \<longrightarrow> butlast k \<noteq> d" for k :: path and v :: bytes and F
    using that by (induction F) auto
  have "filter ?P (fold (\<lambda>(k, v). dict_put k v) W F) = filter ?P F"
    if "\<forall>p \<in> fst ` set W. p \<noteq> [] \<longrightarrow> butlast p \<noteq> d" for F :: "(path \<times> bytes) list"
    using that by (induction W arbitrary: F) (auto simp: put)
  then show ?thesis using assms by (simp add: dir_files_def)
qed

text \<open>C24. A provisioned workspace is what the contract declares: every role has a directory of its name,
  which can be reached and which the workspace gives as the role's path; no directory is made but these and
  the ones above them; a read-only role holds exactly the contents given for it on top of what was
  there; what a writable role holds is untouched, so it is empty when it is new; and a fresh outbox
  harvests nothing.\<close>

theorem provisioned_workspace_is_as_declared:
  assumes "contract_ok c" "contents_ok c contents" "''..'' \<notin> set base"
    "provision_workspace c base contents fs = (Inr w, fs')"
    "dir_files fs (base @ [OUTBOX_ROLE]) = []"
  shows "(\<forall>r \<in> set (wc_roles c). workspace_path w (wr_name r) = Inr (base @ [wr_name r]) \<and>
      follow (fs_dirs fs') [] (base @ [wr_name r]) = Some (base @ [wr_name r])) \<and>
    set (fs_dirs fs') = set (fs_dirs fs) \<union> {d. d \<noteq> [] \<and> (\<exists>r \<in> set (wc_roles c). prefix d (base @ [wr_name r]))} \<and>
    (\<forall>r \<in> set (readable_roles c). \<forall>n. map_of (fs_files fs') (base @ [wr_name r, n]) =
      (case map_of (role_contents contents (wr_name r)) n of
         Some data \<Rightarrow> Some data | None \<Rightarrow> map_of (fs_files fs) (base @ [wr_name r, n]))) \<and>
    (\<forall>r \<in> set (writable_roles c). base @ [wr_name r] \<in> set (fs_dirs fs') \<and>
      dir_files fs' (base @ [wr_name r]) = dir_files fs (base @ [wr_name r])) \<and>
    harvest w fs' = Inr []"proof -
  obtain paths where pw: "check_contents c contents = Inr ()"
    "mapM (provision_role c base contents) (wc_roles c) fs = (Inr paths, fs')"
    "w = \<lparr>pw_root = base, pw_paths = fold (\<lambda>(k, v). dict_put k v) paths []\<rparr>"
    using provision_workspace_Inr [OF assms(4)] .
  let ?W = "concat (map (role_writes base contents) (wc_roles c))"
  have F: "paths = map (\<lambda>r. (wr_name r, base @ [wr_name r])) (wc_roles c)"
    "fs_files fs' = fold (\<lambda>(k, v). dict_put k v) ?W (fs_files fs)"
    using provision_roles_files [OF _ assms(1-3) pw(2)] by auto
  have dn: "distinct (map wr_name (wc_roles c))" using assms(1) by (simp add: contract_ok_def)
  have path: "workspace_path w (wr_name r) = Inr (base @ [wr_name r])" if "r \<in> set (wc_roles c)" for r
  proof -
    have "map_of (map (\<lambda>r. (wr_name r, base @ [wr_name r])) (wc_roles c)) (wr_name r) = Some (base @ [wr_name r])"
      using that dn by (intro map_of_is_SomeI) (auto simp: comp_def)
    moreover have "distinct (map fst paths)" using dn by (simp add: F(1) comp_def)
    ultimately show ?thesis
      by (simp add: workspace_path_def pw(3) dict_puts_map_of map_of_rev_distinct F(1))
  qed
  have look: "map_of (fs_files fs') (base @ [wr_name r, n]) =
      (case map_of (role_contents contents (wr_name r)) n of
         Some data \<Rightarrow> Some data | None \<Rightarrow> map_of (fs_files fs) (base @ [wr_name r, n]))"
    if "r \<in> set (wc_roles c)" for r n
    using that assms(2) unfolding F(2)
    by (subst roles_lookup [OF _ dn]) (auto simp: contents_ok_def list_all_iff)
  have wr: "role_contents contents (wr_name r) = []" if "r \<in> set (writable_roles c)" for r
    using check_contents_writable [OF pw(1)] that by (simp add: writable_roles_def)
  obtain ob where ob: "ob \<in> set (writable_roles c)" "wr_name ob = OUTBOX_ROLE" "ob \<in> set (wc_roles c)"
    using assms(1) by (auto simp: contract_ok_def list_ex_iff writable_roles_def)
  have held: "dir_files fs' (base @ [wr_name r]) = dir_files fs (base @ [wr_name r])" if "r \<in> set (writable_roles c)" for r
  proof (rule dir_files_puts [OF F(2)])
    show "\<forall>p \<in> fst ` set ?W. p \<noteq> [] \<longrightarrow> butlast p \<noteq> base @ [wr_name r]"
      using wr [OF that] by (auto simp: role_writes_def butlast_append)
  qed
  have dirs: "follow (fs_dirs fs') [] (base @ [wr_name r]) = Some (base @ [wr_name r])"
    "base @ [wr_name r] \<in> set (fs_dirs fs')" if "r \<in> set (wc_roles c)" for r
    using provision_roles_dirs [OF _ assms(1,3) pw(2)] that by auto
  have "outbox w = Inr (base @ [OUTBOX_ROLE])" using path [OF ob(3)] by (simp add: outbox_def ob(2))
  then have "harvest w fs' = Inr []"
    using held [OF ob(1)] dirs [OF ob(3)] assms(5) by (simp add: harvest_def ob(2))
  moreover have "r \<in> set (wc_roles c)" if "r \<in> set (readable_roles c) \<or> r \<in> set (writable_roles c)" for r
    using that by (auto simp: readable_roles_def writable_roles_def)
  moreover have "set (fs_dirs fs') = set (fs_dirs fs) \<union> {d. d \<noteq> [] \<and> (\<exists>r \<in> set (wc_roles c). prefix d (base @ [wr_name r]))}"
    using provision_roles_exact [OF _ assms(1,3) pw(2)] by simp
  ultimately show ?thesis using path look held dirs by (intro conjI ballI allI) simp_all
qed
definition demo_contents :: contents where
  "demo_contents = [(''data'', [(''a.csv'', [1, 2])]), (''spec'', [(''schema.json'', [3])])]"

theorem provisioned_workspace_is_as_declared_witness:
  "\<exists>w fs'. provision_workspace WORKSPACE_CONTRACT [''w''] demo_contents \<lparr>fs_dirs = [], fs_files = []\<rparr> = (Inr w, fs') \<and>
     map_of (fs_files fs') [''w'', ''spec'', ''schema.json''] = Some [3] \<and> harvest w fs' = Inr []"
proof -
  let ?fs = "\<lparr>fs_dirs = [], fs_files = []\<rparr> :: file_system"
  obtain w fs' where p: "provision_workspace WORKSPACE_CONTRACT [''w''] demo_contents ?fs = (Inr w, fs')"
  proof -
    have "\<not> isl (fst (provision_workspace WORKSPACE_CONTRACT [''w''] demo_contents ?fs))"
      by code_simp
    then show ?thesis
      using that by (cases "provision_workspace WORKSPACE_CONTRACT [''w''] demo_contents ?fs")
        (auto simp: isl_def split: sum.splits, metis sum.exhaust)
  qed
  have ok: "contents_ok WORKSPACE_CONTRACT demo_contents" by code_simp
  have sp: "wc_roles WORKSPACE_CONTRACT ! 3 \<in> set (readable_roles WORKSPACE_CONTRACT)"
    "wr_name (wc_roles WORKSPACE_CONTRACT ! 3) = ''spec''" by code_simp+
  have rc: "map_of (role_contents demo_contents ''spec'') ''schema.json'' = Some [3]" by code_simp
  have "''..'' \<notin> set [''w'']" by simp
  note t = provisioned_workspace_is_as_declared [OF contract_ok_default ok this p]
  show ?thesis using t p sp rc by (force simp: dir_files_def)
qed

end
