(* ===== verification/Context.thy ===== *)
theory Context
  imports Registries
begin

text \<open>
  \<open>control_plane/context.py\<close>: the volatile context window, rebuilt from the store for every cycle.
  The text of a float is a parameter \<open>show_float\<close>. The lemmas bound the size of the result
  independently of how much the store holds.
\<close>

section \<open>Rendering\<close>

record manifest_entry =
  me_artifact_id :: string
  me_type :: string
  me_status :: artifact_status
  me_summary :: string

record manifest =
  mf_entries :: "manifest_entry list"
  mf_total :: nat

record assembled_context =
  stable_prefix :: string
  volatile_tail :: string

record context_assembler =
  ca_retrieval :: retrieval_policy
  manifest_limit :: int
  tail_limit :: int
  summary_chars :: int
  tail_payload_chars :: int
  digest_limit :: int
  digest_chars :: int

definition default_assembler :: context_assembler where
  "default_assembler = \<lparr>ca_retrieval = default_select False, manifest_limit = 50, tail_limit = 12,
     summary_chars = 120, tail_payload_chars = 800, digest_limit = 10, digest_chars = 200\<rparr>"

definition render_entry :: "manifest_entry \<Rightarrow> string" where
  "render_entry e = ''  ['' @ ljust 10 (status_value (me_status e)) @ ''] '' @ me_type e @ ''/'' @
     me_artifact_id e @ '' '' @ ch_emdash @ '' '' @ me_summary e"

definition render_context_manifest :: "manifest \<Rightarrow> string" where
  "render_context_manifest m =
     (let header = ''Store manifest (showing '' @ nat_str (length (mf_entries m)) @ '' of '' @
        nat_str (mf_total m) @ '' artifacts):''
      in if mf_entries m = [] then header @ nl @ ''  (empty)''
         else join nl (header # map render_entry (mf_entries m)))"

definition render_context :: "assembled_context \<Rightarrow> string" where
  "render_context c = stable_prefix c @ nl @ nl @ volatile_tail c"

definition context_size :: "assembled_context \<Rightarrow> nat" where
  "context_size c = length (render_context c)"

text \<open>\<open>text if len(text) <= limit else text[: limit - 1] + "..."\<close>.\<close>

definition cap_text :: "int \<Rightarrow> string \<Rightarrow> string" where
  "cap_text limit t = (if int (length t) \<le> limit then t else py_prefix (limit - 1) t @ ch_ellipsis)"

definition payload_str :: "(rat \<Rightarrow> string) \<Rightarrow> json \<Rightarrow> string" where
  "payload_str show_float j = (case j of
      JNull \<Rightarrow> ''None'' | JBool b \<Rightarrow> (if b then ''True'' else ''False'') | JInt i \<Rightarrow> int_str i
    | JFloat r \<Rightarrow> show_float r | JStr s \<Rightarrow> s
    | JList xs \<Rightarrow> ''[list of '' @ nat_str (length xs) @ '']''
    | JObj kvs \<Rightarrow> ''{'' @ join '', '' (sort (map fst kvs)) @ ''}'')"

definition summarize :: "(rat \<Rightarrow> string) \<Rightarrow> payload \<Rightarrow> int \<Rightarrow> string" where
  "summarize show_float p limit = (case p of
      PRef r \<Rightarrow> ''<object '' @ blob_ref r @ ''>''
    | PJson j \<Rightarrow> cap_text limit (payload_str show_float j))"

definition render_artifacts :: "(rat \<Rightarrow> string) \<Rightarrow> artifact list \<Rightarrow> int \<Rightarrow> string" where
  "render_artifacts show_float as payload_chars =
     (if as = [] then ''  (none retrieved)''
      else join nl (map (\<lambda>a. ''  - '' @ art_type a @ ''/'' @ art_id a @ '' ['' @
        status_value (art_status a) @ '']: '' @ summarize show_float (art_payload a) payload_chars) as))"

section \<open>Assembly\<close>

definition entry_for :: "(rat \<Rightarrow> string) \<Rightarrow> context_assembler \<Rightarrow> artifact \<Rightarrow> manifest_entry" where
  "entry_for show_float ca a = \<lparr>me_artifact_id = art_id a, me_type = art_type a, me_status = art_status a,
     me_summary = summarize show_float (art_payload a) (summary_chars ca)\<rparr>"

definition context_manifest :: "(rat \<Rightarrow> string) \<Rightarrow> context_assembler \<Rightarrow> store \<Rightarrow> exc + manifest" where
  "context_manifest show_float ca s =
     bindS (query_artifacts None None s) (\<lambda>as.
       let ranked = sort_key (\<lambda>a. STATUS_RANK (art_status a)) (sort_desc_key created_at as)
       in Inr \<lparr>mf_entries = map (entry_for show_float ca) (py_prefix (manifest_limit ca) ranked),
               mf_total = length as\<rparr>)"

definition rejecting_decision :: "store \<Rightarrow> string \<Rightarrow> string \<times> string \<times> rat option" where
  "rejecting_decision s i =
     (case List.find (\<lambda>d. d_verdict d = REJECT) (decisions_for i s) of
        Some d \<Rightarrow> (d_gate d, d_rationale d, d_score d)
      | None \<Rightarrow> (''gate'', ''rejected (no recorded rationale)'', None))"

definition rejection_line :: "context_assembler \<Rightarrow> store \<Rightarrow> artifact \<Rightarrow> string" where
  "rejection_line ca s a =
     (case rejecting_decision s (art_id a) of (gate, rationale, score) \<Rightarrow>
        ''  - '' @ art_type a @ ''/'' @ art_id a @ '' ['' @ gate @ '']'' @
        (case score of Some x \<Rightarrow> '' score='' @ fmt4 x | None \<Rightarrow> '''') @
        '' '' @ ch_emdash @ '' '' @ cap_text (digest_chars ca) rationale)"

definition failure_line :: "context_assembler \<Rightarrow> cycle_failure \<Rightarrow> string" where
  "failure_line ca f = ''  - (no proposal) ['' @ cf_kind f @ ''] '' @ ch_emdash @ '' '' @
     cap_text (digest_chars ca) (cf_detail f)"

definition digest_attempts :: "context_assembler \<Rightarrow> store \<Rightarrow> exc + (string \<times> string) list" where
  "digest_attempts ca s =
     bindS (query_artifacts None None s) (\<lambda>as. Inr (
       map (\<lambda>a. (created_at a, rejection_line ca s a)) (filter (\<lambda>a. art_status a = REJECTED) as) @
       map (\<lambda>f. (cf_created_at f, failure_line ca f))
         (filter (\<lambda>f. cf_kind f \<noteq> ''gate-error'') (cycle_failures s))))"

definition rejection_digest :: "context_assembler \<Rightarrow> store \<Rightarrow> exc + string" where
  "rejection_digest ca s =
     (if digest_limit ca \<le> 0 then Inr ''''
      else bindS (digest_attempts ca s) (\<lambda>attempts.
        Inr (join nl (map snd (py_prefix (digest_limit ca) (sort_desc_key fst attempts))))))"

definition assemble :: "(rat \<Rightarrow> string) \<Rightarrow> context_assembler \<Rightarrow> store \<Rightarrow> string \<Rightarrow> string \<Rightarrow> string \<Rightarrow>
    retrieval_policy option \<Rightarrow> exc + assembled_context" where
  "assemble show_float ca s system_prompt goal scratch task_retrieval =
     bindS (context_manifest show_float ca s) (\<lambda>m.
     bindS ((case task_retrieval of Some p \<Rightarrow> p | None \<Rightarrow> ca_retrieval ca) goal s (tail_limit ca)) (\<lambda>retrieved.
     bindS (rejection_digest ca s) (\<lambda>digest.
     Inr \<lparr>stable_prefix = system_prompt @ nl @ nl @ render_context_manifest m,
          volatile_tail = join (nl @ nl)
            ([''# Current goal'', if strip goal = '''' then ''(none)'' else strip goal,
              ''# Retrieved artifacts'', render_artifacts show_float retrieved (tail_payload_chars ca)] @
             (if digest \<noteq> '''' then [''# Prior attempts (rejected)'', digest] else []) @
             (if strip scratch \<noteq> '''' then [''# Scratch'', strip scratch] else []))\<rparr>)))"

section \<open>The size of the context\<close>

text \<open>
  What the renderings do not truncate is assumed to be short: identifiers, types, blob references,
  gate names, scores, failure kinds. Everything else is cut or limited.
\<close>

definition short_artifact :: "nat \<Rightarrow> artifact \<Rightarrow> bool" where
  "short_artifact L a \<longleftrightarrow> length (art_id a) \<le> L \<and> length (art_type a) \<le> L \<and>
     (case art_payload a of PRef r \<Rightarrow> length (blob_ref r) \<le> L | PJson j \<Rightarrow> True)"

definition short_decision :: "nat \<Rightarrow> decision \<Rightarrow> bool" where
  "short_decision L d \<longleftrightarrow> length (d_gate d) \<le> L \<and>
     (case d_score d of Some x \<Rightarrow> length (fmt4 x) \<le> L | None \<Rightarrow> True)"

definition short_labels :: "nat \<Rightarrow> store \<Rightarrow> bool" where
  "short_labels L s \<longleftrightarrow>
     (\<forall>r \<in> set (t_artifacts (working s)). \<forall>a. row_to_artifact r = Inr a \<longrightarrow> short_artifact L a) \<and>
     (\<forall>d \<in> set (t_decisions (working s)). short_decision L d) \<and>
     (\<forall>f \<in> set (t_cycle_failures (working s)). length (cf_kind f) \<le> L)"

definition caps_positive :: "context_assembler \<Rightarrow> bool" where
  "caps_positive ca \<longleftrightarrow> 0 \<le> manifest_limit ca \<and> 0 \<le> tail_limit ca \<and> 1 \<le> summary_chars ca \<and>
     1 \<le> tail_payload_chars ca \<and> 1 \<le> digest_chars ca"

text \<open>The bound mentions the caps, the label length and the inputs of the turn, not the store.\<close>

definition manifest_bound :: "context_assembler \<Rightarrow> nat \<Rightarrow> nat" where
  "manifest_bound ca L =
     60 + nat (manifest_limit ca) + nat (manifest_limit ca) * (30 + 3 * L + nat (summary_chars ca))"

definition tail_bound :: "context_assembler \<Rightarrow> nat \<Rightarrow> nat" where
  "tail_bound ca L = 20 + nat (tail_limit ca) * (40 + 3 * L + nat (tail_payload_chars ca))"

definition digest_bound :: "context_assembler \<Rightarrow> nat \<Rightarrow> nat" where
  "digest_bound ca L = nat (digest_limit ca) * (30 + 4 * L + nat (digest_chars ca))"

definition context_bound :: "context_assembler \<Rightarrow> nat \<Rightarrow> nat \<Rightarrow> nat \<Rightarrow> nat \<Rightarrow> nat" where
  "context_bound ca L prompt goal scratch = prompt + goal + scratch + 120 +
     manifest_bound ca L + tail_bound ca L + digest_bound ca L"

lemma length_status_value: "length (status_value st) \<le> 10"
  by (cases st) simp_all

lemma length_cap_text: "1 \<le> limit \<Longrightarrow> length (cap_text limit t) \<le> nat limit"
  by (auto simp: cap_text_def py_prefix_nonneg)

lemma length_summarize:
  "short_artifact L a \<Longrightarrow> 1 \<le> limit \<Longrightarrow>
     length (summarize show_float (art_payload a) limit) \<le> 9 + L + nat limit"
  using length_cap_text [of limit]
  by (auto simp: summarize_def short_artifact_def split: payload.splits intro: le_trans trans_le_add2)

lemma length_nat_str: "length (nat_str n) \<le> n + 1"
proof (induction n rule: nat_str.induct)
  case (1 n)
  show ?case
  proof (cases "n < 10")
    case True
    then show ?thesis by (simp add: nat_str.simps [of n])
  next
    case False
    then have "length (nat_str n) \<le> n div 10 + 1 + 1"
      using "1.IH" by (simp add: nat_str.simps [of n])
    also have "\<dots> \<le> n + 1" using False by linarith
    finally show ?thesis .
  qed
qed

lemma length_render_context_manifest:
  assumes "length (mf_entries m) \<le> n" "\<And>e. e \<in> set (mf_entries m) \<Longrightarrow> length (render_entry e) < b"
  shows "length (render_context_manifest m) \<le> 60 + n + n * b + length (nat_str (mf_total m))"
proof (cases "mf_entries m")
  case Nil
  then show ?thesis using length_nat_str [of 0] by (simp add: render_context_manifest_def)
next
  case (Cons e es)
  have "length (join nl (map render_entry (e # es))) \<le> n * b"
    by (rule length_join_le) (use assms Cons in \<open>fastforce+\<close>)
  moreover have "length (nat_str (length (mf_entries m))) \<le> n + 1"
    using length_nat_str [of "length (mf_entries m)"] assms(1) by linarith
  ultimately show ?thesis using Cons by (simp add: render_context_manifest_def Let_def)
qed

lemma query_short:
  "short_labels L s \<Longrightarrow> query_artifacts ty st s = Inr as \<Longrightarrow> a \<in> set as \<Longrightarrow> short_artifact L a"
  by (auto simp: short_labels_def dest: query_artifacts_in)

lemma context_manifest_size:
  assumes "context_manifest show_float ca s = Inr m" "short_labels L s" "caps_positive ca"
  shows "length (render_context_manifest m) \<le> manifest_bound ca L + length (nat_str (length (t_artifacts (working s))))"
proof -
  obtain as where q: "query_artifacts None None s = Inr as"
    and m: "m = \<lparr>mf_entries = map (entry_for show_float ca) (take (nat (manifest_limit ca))
      (sort_key (\<lambda>a. STATUS_RANK (art_status a)) (sort_desc_key created_at as))), mf_total = length as\<rparr>"
    using assms(1,3)
    by (auto simp: context_manifest_def bindS_eq_Inr Let_def py_prefix_nonneg caps_positive_def)
  have "length (render_entry e) < 30 + 3 * L + nat (summary_chars ca)" if "e \<in> set (mf_entries m)" for e
  proof -
    obtain a where a: "a \<in> set as" "e = entry_for show_float ca a"
      using \<open>e \<in> set (mf_entries m)\<close> by (auto simp: m dest!: in_set_takeD)
    have sa: "short_artifact L a" using query_short [OF assms(2) q a(1)] .
    have "length (summarize show_float (art_payload a) (summary_chars ca)) \<le> 9 + L + nat (summary_chars ca)"
      using assms(3) by (intro length_summarize [OF sa]) (simp add: caps_positive_def)
    moreover have "length (art_id a) \<le> L" "length (art_type a) \<le> L"
      using sa by (simp_all add: short_artifact_def)
    ultimately show ?thesis using length_status_value [of "art_status a"]
      by (simp add: render_entry_def a(2) entry_for_def)
  qed
  moreover have "length as = length (t_artifacts (working s))"
    using q by (auto simp: query_artifacts_def mapE_eq_Inr_iff dest: list_all2_lengthD)
  ultimately show ?thesis
    using length_render_context_manifest [of m "nat (manifest_limit ca)" "30 + 3 * L + nat (summary_chars ca)"]
    by (simp add: manifest_bound_def m)
qed

lemma render_artifacts_size:
  assumes "length as \<le> n" "\<And>a. a \<in> set as \<Longrightarrow> short_artifact L a" "1 \<le> limit"
  shows "length (render_artifacts show_float as limit) \<le> 20 + n * (40 + 3 * L + nat limit)"
proof (cases "as = []")
  case False
  have "length (''  - '' @ art_type a @ ''/'' @ art_id a @ '' ['' @ status_value (art_status a) @ '']: '' @
      summarize show_float (art_payload a) limit) + length nl \<le> 40 + 3 * L + nat limit"
    if "a \<in> set as" for a
    using length_summarize [OF assms(2) [OF that] assms(3), of show_float] assms(2) [OF that]
      length_status_value [of "art_status a"] by (simp add: short_artifact_def)
  then have "length (render_artifacts show_float as limit) \<le> n * (40 + 3 * L + nat limit)"
    unfolding render_artifacts_def if_not_P [OF False] using assms(1)
    by (intro length_join_le) auto
  then show ?thesis by simp
qed (simp add: render_artifacts_def)

lemma rejecting_decision_short:
  assumes "short_labels L s" "rejecting_decision s i = (g, r, sc)"
  shows "length g \<le> L + 4 \<and> (case sc of Some x \<Rightarrow> length (fmt4 x) \<le> L | None \<Rightarrow> True)"
proof (cases "List.find (\<lambda>d. d_verdict d = REJECT) (decisions_for i s)")
  case (Some d)
  have "d \<in> set (t_decisions (working s))" using find_Some_in [OF Some] by (auto simp: decisions_for_def)
  then have "short_decision L d" using assms(1) by (simp add: short_labels_def)
  then show ?thesis using assms(2) Some by (auto simp: rejecting_decision_def short_decision_def)
qed (use assms in \<open>auto simp: rejecting_decision_def\<close>)

lemma digest_line_size:
  assumes "digest_attempts ca s = Inr attempts" "x \<in> set attempts" "short_labels L s" "caps_positive ca"
  shows "length (snd x) + length nl \<le> 30 + 4 * L + nat (digest_chars ca)"
proof -
  have cap: "length (cap_text (digest_chars ca) t) \<le> nat (digest_chars ca)" for t
    using assms(4) by (intro length_cap_text) (simp add: caps_positive_def)
  obtain as where q: "query_artifacts None None s = Inr as"
    and attempts: "attempts = map (\<lambda>a. (created_at a, rejection_line ca s a)) (filter (\<lambda>a. art_status a = REJECTED) as) @
       map (\<lambda>f. (cf_created_at f, failure_line ca f))
         (filter (\<lambda>f. cf_kind f \<noteq> ''gate-error'') (cycle_failures s))"
    using assms(1) by (auto simp: digest_attempts_def bindS_eq_Inr)
  have x: "(\<exists>a \<in> set as. snd x = rejection_line ca s a) \<or>
      (\<exists>f \<in> set (t_cycle_failures (working s)). snd x = failure_line ca f)"
    using assms(2) by (auto simp: attempts cycle_failures_def)
  show ?thesis using x
  proof (elim disjE bexE)
    fix a assume a: "a \<in> set as" "snd x = rejection_line ca s a"
    obtain g r sc where d: "rejecting_decision s (art_id a) = (g, r, sc)" by (cases "rejecting_decision s (art_id a)")
    show ?thesis using query_short [OF assms(3) q a(1)] rejecting_decision_short [OF assms(3) d] cap [of r]
      by (auto simp: a(2) rejection_line_def d short_artifact_def split: option.splits)
  next
    fix f assume f: "f \<in> set (t_cycle_failures (working s))" "snd x = failure_line ca f"
    have "length (cf_kind f) \<le> L" using assms(3) f(1) by (simp add: short_labels_def)
    then show ?thesis using cap [of "cf_detail f"] by (simp add: f(2) failure_line_def)
  qed
qed

lemma rejection_digest_size:
  assumes "rejection_digest ca s = Inr d" "short_labels L s" "caps_positive ca"
  shows "length d \<le> digest_bound ca L"
proof (cases "digest_limit ca \<le> 0")
  case False
  then obtain attempts where a: "digest_attempts ca s = Inr attempts"
    and d: "d = join nl (map snd (take (nat (digest_limit ca)) (sort_desc_key fst attempts)))"
    using assms(1) by (auto simp: rejection_digest_def bindS_eq_Inr py_prefix_nonneg)
  have "length y + length nl \<le> 30 + 4 * L + nat (digest_chars ca)"
    if "y \<in> set (map snd (take (nat (digest_limit ca)) (sort_desc_key fst attempts)))" for y
    using that digest_line_size [OF a _ assms(2,3)] by (auto dest!: in_set_takeD)
  then show ?thesis unfolding d digest_bound_def by (intro length_join_le) auto
qed (use assms(1) in \<open>simp add: rejection_digest_def\<close>)

context retrieval
begin

lemma assembled_size:
  assumes "assemble show_float ca s prompt goal scratch (Some select) = Inr ctx"
    "short_labels L s" "caps_positive ca"
  shows "context_size ctx \<le> context_bound ca L (length prompt) (length goal) (length scratch) +
    length (nat_str (length (t_artifacts (working s))))"
proof -
  obtain m retrieved digest where m: "context_manifest show_float ca s = Inr m"
    and r: "select goal s (tail_limit ca) = Inr retrieved"
    and d: "rejection_digest ca s = Inr digest"
    and ctx: "ctx = \<lparr>stable_prefix = prompt @ nl @ nl @ render_context_manifest m,
          volatile_tail = join (nl @ nl)
            ([''# Current goal'', if strip goal = '''' then ''(none)'' else strip goal,
              ''# Retrieved artifacts'', render_artifacts show_float retrieved (tail_payload_chars ca)] @
             (if digest \<noteq> '''' then [''# Prior attempts (rejected)'', digest] else []) @
             (if strip scratch \<noteq> '''' then [''# Scratch'', strip scratch] else []))\<rparr>"
    using assms(1) unfolding assemble_def by (auto simp: bindS_eq_Inr)
  have len: "length retrieved \<le> nat (tail_limit ca)"
    using select_bounded [OF r] assms(3) by (simp add: caps_positive_def)
  have short: "short_artifact L a" if "a \<in> set retrieved" for a
    using select_stored [OF r that] assms(2) by (auto simp: short_labels_def)
  have "length (render_artifacts show_float retrieved (tail_payload_chars ca)) \<le> tail_bound ca L"
    unfolding tail_bound_def using assms(3)
    by (intro render_artifacts_size len short) (simp_all add: caps_positive_def)
  moreover have "length (join (nl @ nl)
            ([''# Current goal'', if strip goal = '''' then ''(none)'' else strip goal,
              ''# Retrieved artifacts'', render_artifacts show_float retrieved (tail_payload_chars ca)] @
             (if digest \<noteq> '''' then [''# Prior attempts (rejected)'', digest] else []) @
             (if strip scratch \<noteq> '''' then [''# Scratch'', strip scratch] else []))) \<le>
      length goal + length scratch + 110 +
      length (render_artifacts show_float retrieved (tail_payload_chars ca)) + length digest"
    using length_strip [of goal] length_strip [of scratch] by simp
  ultimately show ?thesis
    using context_manifest_size [OF m assms(2,3)] rejection_digest_size [OF d assms(2,3)]
    by (simp add: context_size_def render_context_def ctx context_bound_def)
qed

end

text \<open>The labels are not cut: a single artifact with a long identifier makes the context as long as one
  likes. So the guarantee of the module's header, that the size does not depend on the store and that
  every rendering is truncated, needs a bound on the labels.\<close>

lemma labels_are_not_cut:
  assumes a_def: "a = demo_artifact (replicate n (CHR ''x'')) (PJson (JStr ''v''))"
  shows "\<exists>ctx. assemble (\<lambda>_. '''') default_assembler (demo_with [a] []) ''p'' ''g'' '''' (Some (default_select False)) =
      Inr ctx \<and> n \<le> context_size ctx"
proof -
  let ?s = "demo_with [a] []"
  have row: "row_to_artifact (artifact_to_row a) = Inr a"
    by (simp add: a_def demo_artifact_def artifact_to_row_def dump_payload_def row_to_artifact_def
        load_payload_def row_with_def)
  have q: "query_artifacts None None ?s = Inr [a]" by (simp add: query_artifacts_def row empty_db_def)
  have st: "art_status a = PROPOSED" "art_id a = replicate n (CHR ''x'')" by (simp_all add: a_def demo_artifact_def)
  have sel: "default_select False ''g'' ?s 12 = Inr [a]"
    by (simp add: default_select_def q rank_artifacts_def py_prefix_def sort_desc_key_def st)
  obtain digest where d: "rejection_digest default_assembler ?s = Inr digest"
    by (simp add: rejection_digest_def digest_attempts_def q default_assembler_def)
  have m: "context_manifest (\<lambda>_. '''') default_assembler ?s =
      Inr \<lparr>mf_entries = [entry_for (\<lambda>_. '''') default_assembler a], mf_total = 1\<rparr>"
    by (simp add: context_manifest_def q py_prefix_def sort_desc_key_def default_assembler_def)
  have lim: "tail_limit default_assembler = 12" by (simp add: default_assembler_def)
  obtain ctx where c: "assemble (\<lambda>_. '''') default_assembler ?s ''p'' ''g'' '''' (Some (default_select False)) = Inr ctx"
    "stable_prefix ctx = ''p'' @ nl @ nl @
       render_context_manifest \<lparr>mf_entries = [entry_for (\<lambda>_. '''') default_assembler a], mf_total = 1\<rparr>"
    unfolding assemble_def m d by (simp add: sel lim)
  have "n \<le> length (stable_prefix ctx)"
    unfolding c(2) by (simp add: render_context_manifest_def render_entry_def entry_for_def st)
  then show ?thesis using c(1) by (intro exI [of _ ctx]) (simp add: context_size_def render_context_def)
qed

text \<open>C23. The bounded-context guarantee: with positive caps, and when no identifier, type, blob reference,
  gate name, score or failure kind of the store is longer than \<open>L\<close> (these labels are rendered whole), the
  context assembled with the default retrieval policy is no longer than a bound computed from the caps,
  the inputs of the turn and \<open>L\<close>, plus the digits of the artifact count: a thousand artifacts cost no
  more than three characters over one.\<close>

theorem context_is_bounded:
  assumes "assemble show_float ca s prompt goal scratch (Some (default_select inc)) = Inr ctx"
    "short_labels L s" "caps_positive ca"
  shows "context_size ctx \<le> context_bound ca L (length prompt) (length goal) (length scratch) +
    length (nat_str (length (t_artifacts (working s))))"
  using assms by (rule default_retrieval.assembled_size)

theorem context_is_bounded_witness:
  "\<exists>ctx. assemble (\<lambda>_. '''') default_assembler
      (demo_with [demo_artifact ''a'' (PJson (JStr ''v''))] []) ''p'' ''g'' '''' (Some (default_select False)) = Inr ctx \<and>
    context_size ctx \<le> context_bound default_assembler 4 1 1 0 + length (nat_str 1)"
proof -
  let ?a = "demo_artifact ''a'' (PJson (JStr ''v''))"
  let ?s = "demo_with [?a] []"
  have row: "row_to_artifact (artifact_to_row ?a) = Inr ?a"
    by (simp add: demo_artifact_def artifact_to_row_def dump_payload_def row_to_artifact_def
        load_payload_def row_with_def)
  have q: "query_artifacts None None ?s = Inr [?a]"
    by (simp add: query_artifacts_def row empty_db_def)
  have st: "art_status ?a = PROPOSED" by (simp add: demo_artifact_def)
  have sel: "default_select False ''g'' ?s 12 = Inr [?a]"
    by (simp add: default_select_def q rank_artifacts_def py_prefix_def sort_desc_key_def st)
  obtain ctx where c: "assemble (\<lambda>_. '''') default_assembler ?s ''p'' ''g'' '''' (Some (default_select False)) = Inr ctx"
    by (simp add: assemble_def context_manifest_def q sel default_assembler_def rejection_digest_def
        digest_attempts_def Let_def)
  have "short_artifact 4 ?a" by (simp add: short_artifact_def demo_artifact_def)
  then have "short_labels 4 ?s" using row by (simp add: short_labels_def empty_db_def)
  moreover have "caps_positive default_assembler" by (simp add: caps_positive_def default_assembler_def)
  ultimately show ?thesis using context_is_bounded [OF c, of 4] c by (auto simp: empty_db_def)
qed

end
