(* ===== verification/Run_Report.thy ===== *)
theory Run_Report
  imports Verifier
begin

text \<open>
  \<open>control_plane/run_report.py\<close> and \<open>control_plane/run_record.py\<close>: the projection of the recorded
  cycles and the store into a report, its JSON form and its text summary, and the store of run
  records. Latencies are rationals; the text of a JSON value in a message is a parameter
  \<open>show_json\<close>. The lemmas show that the report counts and lists what happened, and what the store
  holds.
\<close>

section \<open>Per-cycle facts\<close>

definition REPORT_SCHEMA_VERSION :: int where
  "REPORT_SCHEMA_VERSION = 1"

type_synonym json_dict = "(string \<times> json) list"

definition round_ms :: "rat option \<Rightarrow> rat option" where
  "round_ms value = map_option (\<lambda>x. of_int (round_half_even (x * 1000)) / 1000) value"

record timings =
  cycle_ms :: "rat option"
  sandbox_ms :: "rat option"
  commit_ms :: "rat option"

definition opt_json :: "('a \<Rightarrow> json) \<Rightarrow> 'a option \<Rightarrow> json" where
  "opt_json f x = (case x of None \<Rightarrow> JNull | Some y \<Rightarrow> f y)"

definition timings_to_dict :: "timings \<Rightarrow> json" where
  "timings_to_dict t = JObj
     [(''cycle_ms'', opt_json JFloat (round_ms (cycle_ms t))),
      (''sandbox_ms'', opt_json JFloat (round_ms (sandbox_ms t))),
      (''commit_ms'', opt_json JFloat (round_ms (commit_ms t)))]"

record cycle_input =
  ci_goal :: string
  ci_entered :: bool
  ci_shape_error :: "string option"
  ci_sandbox_error :: "string option"
  ci_gate_error :: "string option"
  ci_commit :: "commit_result option"
  ci_timings :: timings
  ci_telemetry :: "json_dict option"
  ci_served_chars :: "int option"
  ci_provisioned_bytes :: "int option"
  ci_transcript_ref :: "string option"

section \<open>The report\<close>

record decision_report =
  dr_gate :: string
  dr_verdict :: string
  dr_rationale :: string
  dr_defects :: "string list"
  dr_score :: "rat option"

definition decision_report_to_dict :: "decision_report \<Rightarrow> json" where
  "decision_report_to_dict d = JObj
     [(''gate'', JStr (dr_gate d)), (''verdict'', JStr (dr_verdict d)),
      (''rationale'', JStr (dr_rationale d)), (''defects'', JList (map JStr (dr_defects d))),
      (''score'', opt_json JFloat (dr_score d))]"

record proposal_report =
  pr_artifact_id :: string
  pr_type :: string
  pr_operation :: "string option"
  pr_parents :: "string list"
  pr_objects :: "string list"

definition proposal_report_to_dict :: "proposal_report \<Rightarrow> json" where
  "proposal_report_to_dict p = JObj
     [(''artifact_id'', JStr (pr_artifact_id p)), (''type'', JStr (pr_type p)),
      (''operation'', opt_json JStr (pr_operation p)), (''parents'', JList (map JStr (pr_parents p))),
      (''objects'', JList (map JStr (pr_objects p)))]"

record commit_report =
  co_outcome :: string
  co_status :: string
  co_supersedes :: "string option"
  co_defects :: "string list"
  co_decisions :: "decision_report list"

definition commit_report_to_dict :: "commit_report \<Rightarrow> json" where
  "commit_report_to_dict c = JObj
     [(''outcome'', JStr (co_outcome c)), (''status'', JStr (co_status c)),
      (''supersedes'', opt_json JStr (co_supersedes c)), (''defects'', JList (map JStr (co_defects c))),
      (''decisions'', JList (map decision_report_to_dict (co_decisions c)))]"

record cycle_report =
  cy_index :: nat
  cy_goal :: string
  cy_entered :: bool
  cy_shape_error :: "string option"
  cy_sandbox_error :: "string option"
  cy_gate_error :: "string option"
  cy_proposal :: "proposal_report option"
  cy_commit :: "commit_report option"
  cy_rationale :: "string option"
  cy_timings :: timings
  cy_telemetry :: "json_dict option"
  cy_served_chars :: "int option"
  cy_provisioned_bytes :: "int option"
  cy_transcript_ref :: "string option"

definition cycle_report_to_dict :: "cycle_report \<Rightarrow> json" where
  "cycle_report_to_dict c = JObj
     [(''index'', JInt (int (cy_index c))), (''goal'', JStr (cy_goal c)),
      (''entered_protocol'', JBool (cy_entered c)),
      (''shape_error'', opt_json JStr (cy_shape_error c)),
      (''sandbox_error'', opt_json JStr (cy_sandbox_error c)),
      (''gate_error'', opt_json JStr (cy_gate_error c)),
      (''proposal'', opt_json proposal_report_to_dict (cy_proposal c)),
      (''commit'', opt_json commit_report_to_dict (cy_commit c)),
      (''rationale'', opt_json JStr (cy_rationale c)),
      (''timings'', timings_to_dict (cy_timings c)),
      (''agent_telemetry'', opt_json JObj (cy_telemetry c)),
      (''served_context_chars'', opt_json JInt (cy_served_chars c)),
      (''provisioned_object_bytes'', opt_json JInt (cy_provisioned_bytes c)),
      (''transcript_ref'', opt_json JStr (cy_transcript_ref c))]"

record run_summary =
  rs_cycles_run :: nat
  rs_outcomes :: "(string \<times> nat) list"
  rs_accepted :: "(string \<times> string) list"
  rs_superseded :: "(string \<times> string option) list"
  rs_trial_count :: nat
  rs_refine_count :: nat
  rs_object_count :: nat
  rs_wall_time_ms :: "rat option"

definition json_nat :: "nat \<Rightarrow> json" where
  "json_nat n = JInt (int n)"

definition run_summary_to_dict :: "run_summary \<Rightarrow> json" where
  "run_summary_to_dict s = JObj
     [(''cycles_run'', json_nat (rs_cycles_run s)),
      (''outcomes'', JObj (map (\<lambda>(k, n). (k, json_nat n)) (rs_outcomes s))),
      (''accepted'', JList (map (\<lambda>(i, ty). JObj [(''id'', JStr i), (''type'', JStr ty)]) (rs_accepted s))),
      (''superseded'', JList (map (\<lambda>(i, by). JObj [(''id'', JStr i), (''superseded_by'', opt_json JStr by)])
         (rs_superseded s))),
      (''trial_count'', json_nat (rs_trial_count s)), (''refine_count'', json_nat (rs_refine_count s)),
      (''object_count'', json_nat (rs_object_count s)),
      (''wall_time_ms'', opt_json JFloat (rs_wall_time_ms s))]"

record run_report =
  rp_version :: int
  rp_task_id :: string
  rp_generated_at :: string
  rp_policy :: json_dict
  rp_cycles :: "cycle_report list"
  rp_summary :: run_summary
  rp_telemetry :: "json_dict option"
  rp_tenant_id :: string

definition run_report_to_dict :: "run_report \<Rightarrow> json" where
  "run_report_to_dict r = JObj
     [(''report_schema_version'', JInt (rp_version r)), (''task_id'', JStr (rp_task_id r)),
      (''tenant_id'', JStr (rp_tenant_id r)), (''generated_at'', JStr (rp_generated_at r)),
      (''policy'', JObj (rp_policy r)), (''cycles'', JList (map cycle_report_to_dict (rp_cycles r))),
      (''summary'', run_summary_to_dict (rp_summary r)),
      (''agent_telemetry'', opt_json JObj (rp_telemetry r))]"

text \<open>\<open>x and a or b\<close> on an optional message: an empty message counts as none.\<close>

definition said :: "string option \<Rightarrow> bool" where
  "said m = (case m of Some t \<Rightarrow> t \<noteq> '''' | None \<Rightarrow> False)"

definition render_cycle :: "(json \<Rightarrow> string) \<Rightarrow> cycle_report \<Rightarrow> string" where
  "render_cycle show_json c =
     (let outcome = (if said (cy_sandbox_error c) then ''sandbox-failed''
            else if said (cy_gate_error c) then ''gate-failed''
            else if said (cy_shape_error c) then ''shape-error''
            else case cy_commit c of Some k \<Rightarrow> co_outcome k | None \<Rightarrow> ch_emdash);
          who = (case cy_proposal c of Some p \<Rightarrow> pr_artifact_id p | None \<Rightarrow> ''(no proposal)'');
          stop = (if said (cy_sandbox_error c)
            then map_of (case cy_telemetry c of Some t \<Rightarrow> t | None \<Rightarrow> []) ''stop_reason'' else None);
          suffix = (case stop of Some v \<Rightarrow> if json_truthy v then '' ['' @ json_to_str show_json v @ '']'' else ''''
            | None \<Rightarrow> '''')
      in ''  ['' @ nat_str (cy_index c) @ ''] '' @ outcome @ '': '' @ who @ suffix)"

definition render_report :: "(json \<Rightarrow> string) \<Rightarrow> run_report \<Rightarrow> string" where
  "render_report show_json r =
     (let s = rp_summary r in join nl
       ([''RunReport task='' @ rp_task_id r @ '' cycles='' @ nat_str (rs_cycles_run s),
         ''  outcomes: '' @ join '', '' (map (\<lambda>(k, v). k @ ''='' @ nat_str v) (sort (rs_outcomes s))),
         ''  accepted='' @ nat_str (length (rs_accepted s)) @ '' superseded='' @
         nat_str (length (rs_superseded s)) @ '' trials='' @ nat_str (rs_trial_count s) @ '' refines='' @
         nat_str (rs_refine_count s) @ '' objects='' @ nat_str (rs_object_count s)] @
        map (render_cycle show_json) (rp_cycles r)))"

section \<open>The builder\<close>

text \<open>\<open>int(value or 0)\<close>.\<close>

definition py_int :: "json \<Rightarrow> exc + int" where
  "py_int j = (if \<not> json_truthy j then Inr 0 else case j of
      JInt i \<Rightarrow> Inr i
    | JBool b \<Rightarrow> Inr (if b then 1 else 0)
    | JFloat r \<Rightarrow> Inr (if r < 0 then - \<lfloor>- r\<rfloor> else \<lfloor>r\<rfloor>)
    | JStr s \<Rightarrow> (case parse_int s of Some i \<Rightarrow> Inr i
        | None \<Rightarrow> Inl (ValueError (''invalid literal for int() with base 10: '' @ py_repr s)))
    | _ \<Rightarrow> Inl (TypeError ''int() argument must be a string or a real number''))"

definition telemetry_total :: "json_dict list \<Rightarrow> string \<Rightarrow> exc + string \<times> json" where
  "telemetry_total present key =
     bindS (mapE (\<lambda>t. py_int (case map_of t key of Some v \<Rightarrow> v | None \<Rightarrow> JInt 0)) present) (\<lambda>ns.
       Inr (key, JInt (sum_list ns)))"

definition run_telemetry :: "cycle_input list \<Rightarrow> exc + json_dict option" where
  "run_telemetry cycles =
     (let present = List.map_filter ci_telemetry cycles in
      if present = [] then Inr None
      else bindS (mapE (telemetry_total present)
             [''input_tokens'', ''output_tokens'', ''total_tokens'', ''model_steps'', ''tool_calls'']) (\<lambda>totals.
           let models = filter json_truthy (List.map_filter (\<lambda>t. map_of t ''model'') present)
           in Inr (Some (totals @ [(''model'', if models = [] then JNull else last models)]))))"

definition proposal_of :: "store \<Rightarrow> commit_result option \<Rightarrow> exc + proposal_report option" where
  "proposal_of s c = (case c of None \<Rightarrow> Inr None | Some r \<Rightarrow>
     bindS (get_artifact (cr_artifact_id r) s) (\<lambda>found. case found of
       None \<Rightarrow> Inr None
     | Some a \<Rightarrow>
         let ops = filter (\<lambda>p. output_id p = art_id a) (operations_into (art_id a) s);
             op1 = (if ops = [] then None else Some (hd ops))
         in Inr (Some \<lparr>pr_artifact_id = art_id a, pr_type = art_type a, pr_operation = map_option op_name op1,
              pr_parents = (case op1 of Some p \<Rightarrow> parents p | None \<Rightarrow> []),
              pr_objects = map fst (objects a)\<rparr>)))"

definition or_empty :: "'a list option \<Rightarrow> 'a list" where
  "or_empty x = (case x of Some l \<Rightarrow> l | None \<Rightarrow> [])"

definition decision_report_of :: "decision \<Rightarrow> decision_report" where
  "decision_report_of d = \<lparr>dr_gate = d_gate d, dr_verdict = verdict_value (d_verdict d),
     dr_rationale = d_rationale d, dr_defects = or_empty (d_defects d), dr_score = d_score d\<rparr>"

definition commit_of :: "store \<Rightarrow> commit_result option \<Rightarrow> exc + commit_report option" where
  "commit_of s c = (case c of None \<Rightarrow> Inr None | Some r \<Rightarrow>
     bindS (superseded_log None s) (\<lambda>sup.
       let superseded = map art_id (filter (\<lambda>a. superseded_by a = Some (cr_artifact_id r)) sup)
       in Inr (Some \<lparr>co_outcome = commit_outcome_value (cr_outcome r), co_status = status_value (cr_status r),
            co_supersedes = (if superseded = [] then None else Some (hd superseded)),
            co_defects = or_empty (cr_defects r), co_decisions = map decision_report_of (cr_decisions r)\<rparr>)))"

definition rationale_of :: "(string \<times> string) list \<Rightarrow> commit_result option \<Rightarrow> string option" where
  "rationale_of rationale c = (case c of None \<Rightarrow> None | Some r \<Rightarrow> map_of rationale (cr_artifact_id r))"

definition outcome_label :: "cycle_input \<Rightarrow> string" where
  "outcome_label ci =
     (if ci_sandbox_error ci \<noteq> None then ''sandbox_failed''
      else if ci_gate_error ci \<noteq> None then ''gate_failed''
      else if \<not> ci_entered ci then ''shape_error''
      else case ci_commit ci of Some r \<Rightarrow> commit_outcome_value (cr_outcome r) | None \<Rightarrow> ''unknown'')"

definition tally :: "string \<Rightarrow> (string \<times> nat) list \<Rightarrow> (string \<times> nat) list" where
  "tally label outcomes =
     dict_put label ((case map_of outcomes label of Some n \<Rightarrow> n | None \<Rightarrow> 0) + 1) outcomes"

definition summary_of :: "store \<Rightarrow> cycle_input list \<Rightarrow> exc + run_summary" where
  "summary_of s cycles =
     bindS (query_artifacts None None s) (\<lambda>all.
     bindS (query_artifacts None (Some ACCEPTED) s) (\<lambda>acc.
     bindS (superseded_log None s) (\<lambda>sup.
     bindS (rejected_log None s) (\<lambda>rej.
     bindS (query_artifacts None (Some REVISED) s) (\<lambda>rev.
       let cycle_times = List.map_filter (\<lambda>ci. cycle_ms (ci_timings ci)) cycles
       in Inr \<lparr>rs_cycles_run = length cycles, rs_outcomes = fold tally (map outcome_label cycles) [],
            rs_accepted = map (\<lambda>a. (art_id a, art_type a)) acc,
            rs_superseded = map (\<lambda>a. (art_id a, superseded_by a)) sup,
            rs_trial_count = length rej, rs_refine_count = length rev,
            rs_object_count = length (remdups (concat (map (\<lambda>a. map (content_hash \<circ> snd) (objects a)) all))),
            rs_wall_time_ms = (if cycle_times = [] then None else Some (sum_list cycle_times))\<rparr>)))))"

definition cycle_report_of :: "store \<Rightarrow> (string \<times> string) list \<Rightarrow> nat \<times> cycle_input \<Rightarrow> exc + cycle_report" where
  "cycle_report_of s rationale = (\<lambda>(i, ci).
     bindS (proposal_of s (ci_commit ci)) (\<lambda>p.
     bindS (commit_of s (ci_commit ci)) (\<lambda>c.
     Inr \<lparr>cy_index = i, cy_goal = ci_goal ci, cy_entered = ci_entered ci,
          cy_shape_error = ci_shape_error ci, cy_sandbox_error = ci_sandbox_error ci,
          cy_gate_error = ci_gate_error ci, cy_proposal = p, cy_commit = c,
          cy_rationale = rationale_of rationale (ci_commit ci), cy_timings = ci_timings ci,
          cy_telemetry = ci_telemetry ci, cy_served_chars = ci_served_chars ci,
          cy_provisioned_bytes = ci_provisioned_bytes ci, cy_transcript_ref = ci_transcript_ref ci\<rparr>)))"

definition build_run_report :: "cycle_input list \<Rightarrow> store \<Rightarrow> string \<Rightarrow> json_dict \<Rightarrow> string \<Rightarrow>
    (string \<times> string) list \<Rightarrow> string \<Rightarrow> exc + run_report" where
  "build_run_report cycles s task_id policy generated_at rationale tenant_id =
     bindS (mapE (cycle_report_of s rationale) (enumerate 0 cycles)) (\<lambda>cycle_reports.
     bindS (summary_of s cycles) (\<lambda>summary.
     bindS (run_telemetry cycles) (\<lambda>telemetry.
     Inr \<lparr>rp_version = REPORT_SCHEMA_VERSION, rp_task_id = task_id, rp_generated_at = generated_at,
          rp_policy = policy, rp_cycles = cycle_reports, rp_summary = summary,
          rp_telemetry = telemetry, rp_tenant_id = tenant_id\<rparr>)))"

section \<open>Run records\<close>

record run_record =
  rc_tenant_id :: string
  rc_task_id :: string
  rc_run_id :: string
  rc_status :: string
  rc_report :: run_report
  rc_accepted_ids :: "string list"

definition record_from_report :: "run_report \<Rightarrow> string \<Rightarrow> string \<Rightarrow> run_record" where
  "record_from_report report run_id status =
     \<lparr>rc_tenant_id = rp_tenant_id report, rc_task_id = rp_task_id report, rc_run_id = run_id,
      rc_status = status, rc_report = report, rc_accepted_ids = map fst (rs_accepted (rp_summary report))\<rparr>"

definition run_record_to_dict :: "run_record \<Rightarrow> json" where
  "run_record_to_dict r = JObj
     [(''tenant_id'', JStr (rc_tenant_id r)), (''task_id'', JStr (rc_task_id r)),
      (''run_id'', JStr (rc_run_id r)), (''status'', JStr (rc_status r)),
      (''accepted_artifact_ids'', JList (map JStr (rc_accepted_ids r))),
      (''report'', run_report_to_dict (rc_report r))]"

type_synonym run_records = "((string \<times> string) \<times> run_record) list"

definition records_put :: "run_record \<Rightarrow> run_records \<Rightarrow> run_records" where
  "records_put r = dict_put (rc_tenant_id r, rc_run_id r) r"

definition records_get :: "run_records \<Rightarrow> string \<Rightarrow> string \<Rightarrow> run_record option" where
  "records_get rs tenant run = map_of rs (tenant, run)"

definition records_list :: "run_records \<Rightarrow> string \<Rightarrow> string option \<Rightarrow> run_record list" where
  "records_list rs tenant task = filter (\<lambda>r. rc_tenant_id r = tenant \<and>
     (case task of None \<Rightarrow> True | Some t \<Rightarrow> rc_task_id r = t)) (map snd rs)"

section \<open>Run records as an interface\<close>

locale run_record_store =
  fixes empty_store :: 'st
    and put :: "run_record \<Rightarrow> 'st \<Rightarrow> 'st"
    and get :: "'st \<Rightarrow> string \<Rightarrow> string \<Rightarrow> run_record option"
    and listing :: "'st \<Rightarrow> string \<Rightarrow> string option \<Rightarrow> run_record list"
    and valid :: "'st \<Rightarrow> bool"
  assumes valid_empty: "valid empty_store"
    and valid_put: "valid st \<Longrightarrow> valid (put r st)"
    and get_empty: "get empty_store t i = None"
    and get_put: "get (put r st) t i = (if t = rc_tenant_id r \<and> i = rc_run_id r then Some r else get st t i)"
    and listing_get: "valid st \<Longrightarrow> set (listing st t k) =
      {r. get st t (rc_run_id r) = Some r \<and> (\<forall>task. k = Some task \<longrightarrow> rc_task_id r = task)}"
    and get_key: "valid st \<Longrightarrow> get st t i = Some r \<Longrightarrow> rc_tenant_id r = t \<and> rc_run_id r = i"
begin

lemma valid_puts: "valid st \<Longrightarrow> valid (fold put rs st)"
  by (induction rs arbitrary: st) (auto simp: valid_put)

lemma get_puts: "get (fold put rs st) t i =
    (case List.find (\<lambda>r. t = rc_tenant_id r \<and> i = rc_run_id r) (rev rs) of Some r \<Rightarrow> Some r | None \<Rightarrow> get st t i)"
proof (induction rs rule: rev_induct)
  case (snoc r rs)
  then show ?case by (auto simp: get_put)
qed simp

lemma listing_tenant: "valid st \<Longrightarrow> r \<in> set (listing st t k) \<Longrightarrow> rc_tenant_id r = t"
  using get_key listing_get by blast

lemma listing_put_other:
  assumes "valid st" "rc_tenant_id r \<noteq> t"
  shows "set (listing (put r st) t k) = set (listing st t k)"
  using assms by (auto simp: listing_get valid_put get_put)

lemma put_listed: "valid st \<Longrightarrow> r \<in> set (listing (put r st) (rc_tenant_id r) (Some (rc_task_id r)))"
  by (simp add: listing_get valid_put get_put)

end

definition records_valid :: "run_records \<Rightarrow> bool" where
  "records_valid rs \<longleftrightarrow> distinct (map fst rs) \<and>
     list_all (\<lambda>(k, r). k = (rc_tenant_id r, rc_run_id r)) rs"

lemma set_dict_put: "distinct (map fst d) \<Longrightarrow> set (dict_put k v d) = insert (k, v) {kv \<in> set d. fst kv \<noteq> k}"
  by (induction d) force+

interpretation records: run_record_store "[]" records_put records_get records_list records_valid
proof unfold_locales
  fix st r
  assume "records_valid st"
  then show "records_valid (records_put r st)"
    by (auto simp: records_valid_def records_put_def set_dict_put list_all_iff)
next
  fix st t k
  assume v: "records_valid st"
  have "r \<in> snd ` set st \<and> rc_tenant_id r = t \<longleftrightarrow> map_of st (t, rc_run_id r) = Some r" for r
  proof
    assume "r \<in> snd ` set st \<and> rc_tenant_id r = t"
    then show "map_of st (t, rc_run_id r) = Some r"
      using v by (force simp: records_valid_def list_all_iff intro: map_of_is_SomeI)
  next
    assume "map_of st (t, rc_run_id r) = Some r"
    then have "((t, rc_run_id r), r) \<in> set st" by (rule map_of_SomeD)
    then show "r \<in> snd ` set st \<and> rc_tenant_id r = t"
      using v by (force simp: records_valid_def list_all_iff)
  qed
  then show "set (records_list st t k) =
      {r. records_get st t (rc_run_id r) = Some r \<and> (\<forall>task. k = Some task \<longrightarrow> rc_task_id r = task)}"
    by (auto simp: records_list_def records_get_def split: option.splits)
next
  fix st t i r
  assume "records_valid st" "records_get st t i = Some r"
  then show "rc_tenant_id r = t \<and> rc_run_id r = i"
    by (auto simp: records_get_def records_valid_def list_all_iff dest: map_of_SomeD)
qed (auto simp: records_valid_def records_get_def records_put_def)

text \<open>Run records are scoped by tenant and keyed by run: after any sequence of puts, reading a key
  gives the last record put under it, listing a tenant gives exactly that tenant's latest records of
  the task asked for, and a further put under another tenant changes nothing the tenant can list.\<close>

lemma run_records_are_scoped:
  fixes rs :: "run_record list"
  defines "st \<equiv> fold records_put rs []"
  shows "records_get st t i = List.find (\<lambda>r. t = rc_tenant_id r \<and> i = rc_run_id r) (rev rs) \<and>
    set (records_list st t k) = {r. List.find (\<lambda>r'. t = rc_tenant_id r' \<and> rc_run_id r = rc_run_id r') (rev rs) = Some r \<and>
       k \<in> {None, Some (rc_task_id r)}} \<and>
    (rc_tenant_id r \<noteq> t \<longrightarrow> set (records_list (records_put r st) t k) = set (records_list st t k))"
proof -
  have v: "records_valid st" unfolding st_def by (rule records.valid_puts [OF records.valid_empty])
  have g: "records_get st t i = List.find (\<lambda>r. t = rc_tenant_id r \<and> i = rc_run_id r) (rev rs)" for i
    unfolding st_def records.get_puts by (simp add: records.get_empty split: option.split)
  have "(\<forall>task. k = Some task \<longrightarrow> ty = task) \<longleftrightarrow> k \<in> {None, Some ty}" for ty
    by (cases k) auto
  then show ?thesis using records.listing_put_other [OF v] records.listing_get [OF v, of t k]
    by (simp add: g)
qed

section \<open>What the report says\<close>

lemma map_of_tallies:
  "map_of (fold tally ls d) l = (if l \<in> set ls
     then Some (count_list ls l + (case map_of d l of Some n \<Rightarrow> n | None \<Rightarrow> 0)) else map_of d l)"
proof (induction ls arbitrary: d)
  case (Cons x ls)
  show ?case by (subst fold_Cons, subst comp_apply, subst Cons.IH)
    (auto simp: tally_def count_list_0_iff split: option.split)
qed simp

lemma sum_dict_put: "distinct (map fst d) \<Longrightarrow>
    sum_list (map snd (dict_put k (n :: nat) d)) + (case map_of d k of Some m \<Rightarrow> m | None \<Rightarrow> 0) =
    sum_list (map snd d) + n"
  by (induction d) (auto simp: map_of_eq_None_iff split: option.split)

lemma sum_tallies: "distinct (map fst d) \<Longrightarrow>
    sum_list (map snd (fold tally ls d)) = sum_list (map snd d) + length ls"
proof (induction ls arbitrary: d)
  case (Cons l ls)
  have "sum_list (map snd (tally l d)) = sum_list (map snd d) + 1"
    using sum_dict_put [OF Cons.prems, of l "(case map_of d l of Some n \<Rightarrow> n | None \<Rightarrow> 0) + 1"]
    by (simp add: tally_def)
  then show ?case using Cons by (simp add: tally_def)
qed simp

lemma query_ids:
  assumes "query_artifacts ty st s = Inr as"
  shows "mset (map art_id as) = mset (map art_id (filter (\<lambda>r. (case ty of Some t \<Rightarrow> art_type r = t | None \<Rightarrow> True) \<and>
    (case st of Some t \<Rightarrow> art_status r = t | None \<Rightarrow> True)) (t_artifacts (working s))))"
proof -
  have "map art_id as = map art_id (sort_key (\<lambda>r. (created_at r, art_id r))
    (filter (\<lambda>r. (case ty of Some t \<Rightarrow> art_type r = t | None \<Rightarrow> True) \<and>
      (case st of Some t \<Rightarrow> art_status r = t | None \<Rightarrow> True)) (t_artifacts (working s))))"
  proof -
    have m: "map art_id ys = map art_id xs" if "list_all2 (\<lambda>x y. row_to_artifact x = Inr y) xs ys" for xs ys
      using that by (induction rule: list_all2_induct) (auto dest: row_to_artifact_sel)
    show ?thesis using assms unfolding query_artifacts_def mapE_eq_Inr_iff by (rule m)
  qed
  then show ?thesis by (simp add: mset_map)
qed

lemma cycle_report_of_Inr:
  "cycle_report_of s rationale (i, ci) = Inr y \<Longrightarrow> cy_index y = i \<and>
     cy_sandbox_error y = ci_sandbox_error ci \<and> cy_gate_error y = ci_gate_error ci \<and>
     cy_shape_error y = ci_shape_error ci"
  by (auto simp: cycle_report_of_def bindS_eq_Inr)

text \<open>The report is faithful: it has one entry per recorded cycle, in order, with that cycle's
  errors; each outcome is counted as often as it occurred and the counts add up to the cycles run;
  and it lists exactly the accepted artifacts of the store and counts its rejected and revised ones.\<close>

lemma report_is_faithful:
  assumes "build_run_report cycles s task pol now rationale tenant = Inr rep"
  shows "length (rp_cycles rep) = length cycles \<and>
    (\<forall>i < length cycles. cy_index (rp_cycles rep ! i) = i \<and>
       cy_sandbox_error (rp_cycles rep ! i) = ci_sandbox_error (cycles ! i) \<and>
       cy_gate_error (rp_cycles rep ! i) = ci_gate_error (cycles ! i) \<and>
       cy_shape_error (rp_cycles rep ! i) = ci_shape_error (cycles ! i)) \<and>
    (\<forall>l. case map_of (rs_outcomes (rp_summary rep)) l of
        Some n \<Rightarrow> n = count_list (map outcome_label cycles) l | None \<Rightarrow> l \<notin> outcome_label ` set cycles) \<and>
    sum_list (map snd (rs_outcomes (rp_summary rep))) = rs_cycles_run (rp_summary rep) \<and>
    mset (map fst (rs_accepted (rp_summary rep))) =
      mset (map art_id (filter (\<lambda>r. art_status r = ACCEPTED) (t_artifacts (working s)))) \<and>
    rs_trial_count (rp_summary rep) = length (filter (\<lambda>r. art_status r = REJECTED) (t_artifacts (working s))) \<and>
    rs_refine_count (rp_summary rep) = length (filter (\<lambda>r. art_status r = REVISED) (t_artifacts (working s)))"
proof -
  obtain cs sm where c: "mapE (cycle_report_of s rationale) (enumerate 0 cycles) = Inr cs"
    and sm: "summary_of s cycles = Inr sm" and rep: "rp_cycles rep = cs" "rp_summary rep = sm"
    using assms by (auto simp: build_run_report_def bindS_eq_Inr)
  have l2: "list_all2 (\<lambda>x y. cycle_report_of s rationale x = Inr y) (enumerate 0 cycles) cs"
    using c by (simp add: mapE_eq_Inr_iff)
  have len: "length cs = length cycles" using list_all2_lengthD [OF l2] by simp
  have nth: "cycle_report_of s rationale (i, cycles ! i) = Inr (cs ! i)" if "i < length cycles" for i
    using list_all2_nthD [OF l2] that by (simp add: nth_enumerate_eq)
  have each: "cy_index (cs ! i) = i \<and> cy_sandbox_error (cs ! i) = ci_sandbox_error (cycles ! i) \<and>
       cy_gate_error (cs ! i) = ci_gate_error (cycles ! i) \<and>
       cy_shape_error (cs ! i) = ci_shape_error (cycles ! i)" if "i < length cycles" for i
    using cycle_report_of_Inr [OF nth [OF that]] .
  obtain acc rej rvs where
    q: "query_artifacts None (Some ACCEPTED) s = Inr acc" "query_artifacts None (Some REJECTED) s = Inr rej"
      "query_artifacts None (Some REVISED) s = Inr rvs"
    and f: "rs_outcomes sm = fold tally (map outcome_label cycles) []" "rs_cycles_run sm = length cycles"
      "rs_accepted sm = map (\<lambda>a. (art_id a, art_type a)) acc" "rs_trial_count sm = length rej"
      "rs_refine_count sm = length rvs"
    using sm by (auto simp: summary_of_def bindS_eq_Inr rejected_log_def Let_def)
  have "length rej = length (filter (\<lambda>r. art_status r = REJECTED) (t_artifacts (working s)))"
    "length rvs = length (filter (\<lambda>r. art_status r = REVISED) (t_artifacts (working s)))"
    using mset_eq_length [OF query_ids [OF q(2)]] mset_eq_length [OF query_ids [OF q(3)]] by simp_all
  moreover have "sum_list (map snd (rs_outcomes sm)) = rs_cycles_run sm"
    by (simp add: f sum_tallies)
  moreover have "mset (map fst (rs_accepted sm)) =
      mset (map art_id (filter (\<lambda>r. art_status r = ACCEPTED) (t_artifacts (working s))))"
    using query_ids [OF q(1)] by (simp add: f comp_def)
  moreover have "case map_of (rs_outcomes sm) l of Some n \<Rightarrow> n = count_list (map outcome_label cycles) l
      | None \<Rightarrow> l \<notin> outcome_label ` set cycles" for l
    by (simp add: f map_of_tallies)
  ultimately show ?thesis using len each by (simp add: rep f)
qed

definition demo_cycle :: "string option \<Rightarrow> cycle_input" where
  "demo_cycle err = \<lparr>ci_goal = ''g'', ci_entered = (err = None), ci_shape_error = None, ci_sandbox_error = err,
     ci_gate_error = None, ci_commit = None, ci_timings = \<lparr>cycle_ms = Some 2, sandbox_ms = None, commit_ms = None\<rparr>,
     ci_telemetry = None, ci_served_chars = None, ci_provisioned_bytes = None, ci_transcript_ref = None\<rparr>"

lemma demo_report:
  "\<exists>rep. build_run_report [demo_cycle (Some ''slow''), demo_cycle None] demo_store ''t'' [] ''now'' [] ''me'' = Inr rep"
  by (simp add: build_run_report_def cycle_report_of_def proposal_of_def commit_of_def demo_cycle_def
      summary_of_def query_artifacts_def rejected_log_def superseded_log_def empty_db_def run_telemetry_def
      map_filter_simps)

lemma report_is_faithful_witness:
  "\<exists>rep. build_run_report [demo_cycle (Some ''slow''), demo_cycle None] demo_store ''t'' [] ''now'' [] ''me'' = Inr rep \<and>
     cy_sandbox_error (rp_cycles rep ! 0) = Some ''slow'' \<and> rs_accepted (rp_summary rep) = []"
proof -
  obtain rep where r: "build_run_report [demo_cycle (Some ''slow''), demo_cycle None] demo_store ''t'' [] ''now'' [] ''me'' = Inr rep"
    using demo_report by blast
  show ?thesis using report_is_faithful [OF r] r by (simp add: demo_cycle_def empty_db_def)
qed

definition demo_record :: "string \<Rightarrow> run_record" where
  "demo_record tenant = \<lparr>rc_tenant_id = tenant, rc_task_id = ''t'', rc_run_id = ''r'', rc_status = ''complete'',
     rc_report = \<lparr>rp_version = 1, rp_task_id = ''t'', rp_generated_at = '''', rp_policy = [], rp_cycles = [],
       rp_summary = \<lparr>rs_cycles_run = 0, rs_outcomes = [], rs_accepted = [], rs_superseded = [],
         rs_trial_count = 0, rs_refine_count = 0, rs_object_count = 0, rs_wall_time_ms = None\<rparr>,
       rp_telemetry = None, rp_tenant_id = tenant\<rparr>, rc_accepted_ids = []\<rparr>"

lemma run_records_are_scoped_witness:
  "set (records_list (records_put (demo_record ''b'') (fold records_put [demo_record ''a''] [])) ''a'' None) =
     set (records_list (fold records_put [demo_record ''a''] []) ''a'' None)"
  using run_records_are_scoped [of "[demo_record ''a'']" "''a''" "''r''" None "demo_record ''b''"]
  by (simp add: demo_record_def)

end
