(* ===== verification/Intake.thy ===== *)
theory Intake
  imports Workspace Context Provisioning Provenance Invariants Run_Report
begin

text \<open>
  \<open>control_plane/api.py\<close>, first half, with \<open>contracts/ports.py\<close>, \<open>contracts/run_context.py\<close> and the task
  configuration of \<open>control_plane/config.py\<close>: what a task is made of, the services it talks to, and
  proposal intake. A sandbox is a record of state transformers on a state of its own, like the
  verifier service; neither sees the store. A session is the part of the control plane one task's
  operations work on. The binding of the run context to services (worker labels) is not modelled.
\<close>

section \<open>Providers\<close>

type_synonym 'p provider_registry = "(string \<times> (exc + 'p)) list"

definition register_provider :: "string \<Rightarrow> string \<Rightarrow> (exc + 'p) \<Rightarrow> 'p provider_registry \<Rightarrow>
    exc + 'p provider_registry" where
  "register_provider kind key factory reg =
     (if key \<in> fst ` set reg
      then Inl (ProviderError (kind @ '' provider already registered: '' @ py_repr key))
      else Inr (dict_put key factory reg))"

definition provider_keys :: "'p provider_registry \<Rightarrow> string list" where
  "provider_keys reg = sort (map fst reg)"

definition create_provider :: "string \<Rightarrow> 'p provider_registry \<Rightarrow> string \<Rightarrow> exc + 'p" where
  "create_provider kind reg key =
     (case map_of reg key of
        Some made \<Rightarrow> made
      | None \<Rightarrow> Inl (ProviderError (''unknown '' @ kind @ '' provider: '' @ py_repr key @ '' (registered: '' @
          py_list_repr (provider_keys reg) @ '')'')))"

section \<open>Ports\<close>

record served_context =
  sc_system_prompt :: string
  sc_tail :: string
  sc_feedback :: string
  sc_workspace_objects :: contents

record proposal_envelope =
  pe_artifact :: artifact
  pe_operation :: operation
  pe_metadata :: string
  pe_objects :: "(string \<times> bytes) list"
  pe_telemetry :: "json_dict option"
  pe_transcript :: "bytes option"

record 'x sandbox_port =
  sb_serve :: "served_context \<Rightarrow> ('x, exc, unit) st"
  sb_collect :: "('x, exc, proposal_envelope) st"
  sb_regenerate :: "('x, exc, unit) st"
  sb_provision :: "('x, exc, unit) st"
  sb_teardown :: "('x, exc, unit) st"

record run_context =
  ctx_tenant_id :: string
  ctx_run_id :: string
  ctx_cycle :: nat

section \<open>Tasks\<close>

record harvested_child =
  hc_type :: string
  hc_op_name :: string
  hc_payload :: json

record task_config =
  tc_task_id :: string
  tc_instructions :: string
  tc_domain_instructions :: string
  tc_schema :: schema_registry
  tc_gated :: gated_types
  tc_retrieval :: retrieval_policy
  tc_shape_validator :: "artifact \<Rightarrow> exc + string option"
  tc_object_namer :: "artifact \<Rightarrow> exc + string list"
  tc_sandbox_key :: string
  tc_verifier_key :: string
  tc_tenant_id :: string
  tc_data_sources :: "string list"
  tc_context_files :: "string list"
  tc_provisioning :: provisioning_policy
  tc_harvester :: "(artifact \<Rightarrow> exc + harvested_child list) option"
  tc_contract :: workspace_contract

definition system_prompt :: "task_config \<Rightarrow> exc + string" where
  "system_prompt tc = compose_system_prompt (tc_contract tc) (tc_domain_instructions tc) (tc_instructions tc)"

record orchestration_policy =
  max_cycles :: int
  refine_cap :: int
  stop_on_accept :: bool
  max_consecutive :: int

definition default_policy :: orchestration_policy where
  "default_policy = \<lparr>max_cycles = 20, refine_cap = 3, stop_on_accept = False, max_consecutive = 3\<rparr>"

definition should_continue :: "orchestration_policy \<Rightarrow> int \<Rightarrow> bool" where
  "should_continue p cycles_run = (cycles_run < max_cycles p)"

record intake_result =
  ir_entered :: bool
  ir_shape_error :: "string option"
  ir_commit :: "commit_result option"
  ir_harvested :: "(string \<times> object_ref) list"
  ir_sandbox_error :: "string option"
  ir_gate_error :: "string option"
  ir_transcript_ref :: "object_ref option"

definition no_result :: intake_result where
  "no_result = \<lparr>ir_entered = False, ir_shape_error = None, ir_commit = None, ir_harvested = [],
     ir_sandbox_error = None, ir_gate_error = None, ir_transcript_ref = None\<rparr>"

text \<open>
  What the control plane was built with: the orchestration policy, the context assembler, the
  dispatch timeout as it is printed, the monotonic timer, the run id source, and the parameters
  \<open>show_float\<close> and \<open>json.loads\<close> (None: not valid JSON).
\<close>

record settings =
  st_policy :: orchestration_policy
  st_assembler :: context_assembler
  st_timeout :: "string option"
  st_timer :: "nat \<Rightarrow> rat"
  st_run_ids :: "nat \<Rightarrow> string"
  st_show_float :: "rat \<Rightarrow> string"
  st_loads :: "bytes \<Rightarrow> json option"

record ('x, 'v) session =
  ss_store :: store
  ss_timer_reads :: nat
  ss_runs_minted :: nat
  ss_records :: run_records
  ss_config :: task_config
  ss_sandbox_port :: "'x sandbox_port"
  ss_verifier_port :: "'v verifier_service"
  ss_sandbox :: 'x
  ss_verifier :: 'v
  ss_rationale :: "(string \<times> string) list"
  ss_history :: "cycle_input list"
  ss_run :: run_context

type_synonym ('x, 'v, 'a) session_op = "(('x, 'v) session, exc, 'a) st"

definition with_store :: "'a store_op \<Rightarrow> ('x, 'v, 'a) session_op" where
  "with_store m s = (case m (ss_store s) of (r, st) \<Rightarrow> (r, s\<lparr>ss_store := st\<rparr>))"

definition with_sandbox :: "('x sandbox_port \<Rightarrow> ('x, exc, 'a) st) \<Rightarrow> ('x, 'v, 'a) session_op" where
  "with_sandbox m s = (case m (ss_sandbox_port s) (ss_sandbox s) of (r, x) \<Rightarrow> (r, s\<lparr>ss_sandbox := x\<rparr>))"

definition with_verifier :: "('v verifier_service \<Rightarrow> ('v, exc, 'a) st) \<Rightarrow> ('x, 'v, 'a) session_op" where
  "with_verifier m s = (case m (ss_verifier_port s) (ss_verifier s) of (r, v) \<Rightarrow> (r, s\<lparr>ss_verifier := v\<rparr>))"

definition serve_context :: "settings \<Rightarrow> string \<Rightarrow> string \<Rightarrow> string \<Rightarrow> ('x, 'v, served_context) session_op" where
  "serve_context cs goal scratch feedback =
     bindE (reads (\<lambda>s. bindS (system_prompt (ss_config s)) (\<lambda>sp.
        assemble (st_show_float cs) (st_assembler cs) (ss_store s) sp goal scratch
          (Some (tc_retrieval (ss_config s)))))) (\<lambda>assembled.
     bindE (reads (\<lambda>s. materialize (tc_provisioning (ss_config s)) (ss_store s))) (\<lambda>objs.
     let served = \<lparr>sc_system_prompt = stable_prefix assembled, sc_tail = volatile_tail assembled,
       sc_feedback = feedback, sc_workspace_objects = objs\<rparr>
     in bindE (with_sandbox (\<lambda>p. sb_serve p served)) (\<lambda>_. ret served)))"

section \<open>Proposal intake\<close>

definition payload_type_name :: "payload \<Rightarrow> string" where
  "payload_type_name p = (case p of PRef _ \<Rightarrow> ''ObjectRef'' | PJson j \<Rightarrow> (case j of
      JNull \<Rightarrow> ''NoneType'' | JBool _ \<Rightarrow> ''bool'' | JInt _ \<Rightarrow> ''int'' | JFloat _ \<Rightarrow> ''float''
    | JStr _ \<Rightarrow> ''str'' | JList _ \<Rightarrow> ''list'' | JObj _ \<Rightarrow> ''dict''))"

definition check_shape :: "task_config \<Rightarrow> proposal_envelope \<Rightarrow> exc + string option" where
  "check_shape tc env =
     (case art_payload (pe_artifact env) of
        PJson (JObj kvs) \<Rightarrow>
          (let missing = (case sr_operation (tc_schema tc) (op_name (pe_operation env)) of
               Some sg \<Rightarrow> map (Pair (sig_name sg)) (filter (\<lambda>k. k \<notin> fst ` set kvs) (required_payload_keys sg))
             | None \<Rightarrow> [])
           in if missing \<noteq> []
              then Inr (Some (''payload for operation '' @ py_repr (fst (hd missing)) @
                 '' is missing required key(s): '' @ join '', '' (map snd missing)))
              else tc_shape_validator tc (pe_artifact env))
      | p \<Rightarrow> Inr (Some (''a proposal payload must be a JSON object, got '' @ payload_type_name p)))"

text \<open>The payload without the keys the operation does not declare; an operation that declares none
  leaves it alone.\<close>

definition allowed_keys :: "task_config \<Rightarrow> operation \<Rightarrow> string list" where
  "allowed_keys tc op = (case sr_operation (tc_schema tc) (op_name op) of
      Some sg \<Rightarrow> required_payload_keys sg @ object_payload_keys sg
    | None \<Rightarrow> [])"

definition clean_payload :: "task_config \<Rightarrow> operation \<Rightarrow> payload \<Rightarrow> payload" where
  "clean_payload tc op p =
     (case p of
        PJson (JObj kvs) \<Rightarrow>
          if allowed_keys tc op \<noteq> [] then PJson (JObj (filter (\<lambda>(k, _). k \<in> set (allowed_keys tc op)) kvs))
          else p
      | _ \<Rightarrow> p)"

definition declared_objects :: "string list \<Rightarrow> (string \<times> bytes) list \<Rightarrow> (string \<times> bytes) list" where
  "declared_objects declared objs = filter (\<lambda>(n, _). n \<in> set declared) objs"

definition put_objects :: "(string \<times> bytes) list \<Rightarrow> (string \<times> object_ref) list store_op" where
  "put_objects objs = mapM (\<lambda>(n, data). bindE (put_object data) (\<lambda>r. ret (n, r))) objs"

definition intake_artifact :: "task_config \<Rightarrow> proposal_envelope \<Rightarrow> (string \<times> object_ref) list \<Rightarrow> artifact" where
  "intake_artifact tc env harvested =
     (let a = (pe_artifact env)\<lparr>art_payload := clean_payload tc (pe_operation env) (art_payload (pe_artifact env))\<rparr>
      in if harvested \<noteq> [] then a\<lparr>objects := harvested\<rparr> else a)"

definition link_revision_if_any :: "operation \<Rightarrow> string \<Rightarrow> unit store_op" where
  "link_revision_if_any op new_id =
     (if op_name op \<noteq> ''revises'' \<or> parents op = [] then ret ()
      else bindE (reads (get_artifact (hd (parents op)))) (\<lambda>flagged. case flagged of
          Some a \<Rightarrow> if art_status a = REVISED then link_revision (art_id a) new_id else ret ()
        | None \<Rightarrow> ret ()))"

lemma unseen_ids_decrease:
  assumes "i \<notin> set seen" "get_artifact i s = Inr (Some a)"
  shows "card (art_id ` set (t_artifacts (working s)) - set (i # seen)) <
    card (art_id ` set (t_artifacts (working s)) - set seen)"
proof (rule psubset_card_mono)
  have "i \<in> art_id ` set (t_artifacts (working s))" by (rule get_artifact_exists [OF assms(2)])
  then show "art_id ` set (t_artifacts (working s)) - set (i # seen) \<subset>
      art_id ` set (t_artifacts (working s)) - set seen" using assms(1) by auto
qed simp

function refine_walk :: "store \<Rightarrow> string list \<Rightarrow> nat \<Rightarrow> string \<Rightarrow> exc + nat" where
  "refine_walk s seen n current =
     (if current \<in> set seen then Inr n
      else case get_artifact current s of
        Inl e \<Rightarrow> Inl e
      | Inr None \<Rightarrow> Inr n
      | Inr (Some a) \<Rightarrow>
          if art_status a \<noteq> REVISED then Inr n
          else let revises = filter (\<lambda>p. op_name p = ''revises'') (operations_into current s)
               in if revises \<noteq> [] \<and> parents (hd revises) \<noteq> []
                  then refine_walk s (current # seen) (n + 1) (hd (parents (hd revises)))
                  else Inr (n + 1))"
  by pat_completeness auto
termination
  by (relation "measure (\<lambda>(s, seen, _, _). card (art_id ` set (t_artifacts (working s)) - set seen))")
    (auto dest: unseen_ids_decrease)

definition count_lineage_refines :: "store \<Rightarrow> operation \<Rightarrow> exc + nat" where
  "count_lineage_refines s op =
     (if op_name op \<noteq> ''revises'' \<or> parents op = [] then Inr 0
      else refine_walk s [] 0 (hd (parents op)))"

declare refine_walk.simps [simp del]

definition store_transcript :: "bytes option \<Rightarrow> object_ref option store_op" where
  "store_transcript transcript =
     (case transcript of
        None \<Rightarrow> ret None
      | Some data \<Rightarrow> bindE (attempt (put_object data)) (\<lambda>r. case r of
          Inr ref \<Rightarrow> ret (Some ref)
        | Inl e \<Rightarrow> if is_store_error e then ret None else raise e))"

definition session_commit :: "settings \<Rightarrow> string \<Rightarrow> (string \<times> bytes) list \<Rightarrow> bool \<Rightarrow>
    ('x, 'v, commit_result) session_op" where
  "session_commit cs i objs refine_exhausted s =
     (case run_commit i (resolve_gate (tc_gated (ss_config s)))
             (port_dispatch (ss_verifier_port s) (st_timeout cs) (tc_gated (ss_config s)) objs)
             (vp_identity (ss_verifier_port s)) refine_exhausted (ss_store s, ss_verifier s) of
        (r, (st, v)) \<Rightarrow> (r, s\<lparr>ss_store := st, ss_verifier := v\<rparr>))"

text \<open>A child is a proposal of the control plane itself: its id, lineage and objects come from the
  parent.\<close>

definition child_artifact :: "artifact \<Rightarrow> nat \<Rightarrow> harvested_child \<Rightarrow> string \<Rightarrow> artifact" where
  "child_artifact parent index child now =
     \<lparr>art_id = art_id parent @ ''::'' @ lower (hc_type child) @ ''::'' @ nat_str index,
      art_type = hc_type child, art_payload = PJson (hc_payload child), art_status = PROPOSED,
      created_by = created_by parent, created_at = now, superseded_by = None, revised_by = None,
      is_root = False, objects = objects parent\<rparr>"

definition child_operation :: "artifact \<Rightarrow> harvested_child \<Rightarrow> artifact \<Rightarrow> operation" where
  "child_operation parent child a =
     \<lparr>op_id = ''op-'' @ art_id a, op_name = hc_op_name child, parents = [art_id parent],
      output_id = art_id a, op_status = SUCCESS, op_created_at = created_at a\<rparr>"

definition harvest_child :: "settings \<Rightarrow> artifact \<Rightarrow> (string \<times> bytes) list \<Rightarrow> nat \<times> harvested_child \<Rightarrow>
    ('x, 'v, unit) session_op" where
  "harvest_child cs parent parent_bytes = (\<lambda>(index, child).
     bindE (with_store tick) (\<lambda>now.
     let a = child_artifact parent index child now
     in bindE (with_store (propose a (child_operation parent child a))) (\<lambda>_.
        bindE (session_commit cs (art_id a) parent_bytes False) (\<lambda>_. ret ()))))"

definition harvest_children :: "settings \<Rightarrow> (artifact \<Rightarrow> exc + harvested_child list) \<Rightarrow> artifact \<Rightarrow>
    ('x, 'v, unit) session_op" where
  "harvest_children cs harvester parent =
     bindE (reads (\<lambda>_. harvester parent)) (\<lambda>children.
       if children = [] then ret ()
       else bindE (reads (\<lambda>s. mapE (\<lambda>(n, ref). bindS (get_object (content_hash ref) (ss_store s)) (\<lambda>data. Inr (n, data)))
                (objects parent))) (\<lambda>pairs.
            let parent_bytes = fold (\<lambda>(n, data). dict_put n data) pairs []
            in bindE (mapM (harvest_child cs parent parent_bytes) (enumerate 0 children)) (\<lambda>_. ret ())))"

text \<open>The proposal is in the store; the rest of intake commits it.\<close>

definition commit_proposal :: "settings \<Rightarrow> proposal_envelope \<Rightarrow> artifact \<Rightarrow> (string \<times> bytes) list \<Rightarrow>
    (string \<times> object_ref) list \<Rightarrow> ('x, 'v, intake_result) session_op" where
  "commit_proposal cs env a objs harvested =
     bindE (reads (\<lambda>s. count_lineage_refines (ss_store s) (pe_operation env))) (\<lambda>refines.
     bindE (session_commit cs (art_id a) objs (int refines \<ge> refine_cap (st_policy cs))) (\<lambda>result.
     bindE (gets ss_config) (\<lambda>tc.
     bindE (case (cr_outcome result, tc_harvester tc) of
         (OUT_ACCEPTED, Some h) \<Rightarrow> try_catch (harvest_children cs h a) (\<lambda>_. ret ())
       | _ \<Rightarrow> ret ()) (\<lambda>_.
     bindE (with_store (store_transcript (pe_transcript env))) (\<lambda>tref.
     ret (no_result\<lparr>ir_entered := True, ir_commit := Some result, ir_harvested := harvested,
            ir_transcript_ref := tref\<rparr>))))))"

definition note_rationale :: "proposal_envelope \<Rightarrow> artifact \<Rightarrow> (string \<times> string) list \<Rightarrow> (string \<times> string) list" where
  "note_rationale env a r = (if pe_metadata env \<noteq> '''' then dict_put (art_id a) (pe_metadata env) r else r)"

text \<open>Harvest the declared objects, note the rationale, propose, and link the revision.\<close>

definition enter_proposal :: "proposal_envelope \<Rightarrow>
    ('x, 'v, artifact \<times> (string \<times> bytes) list \<times> (string \<times> object_ref) list) session_op" where
  "enter_proposal env =
     bindE (reads (\<lambda>s. tc_object_namer (ss_config s) (pe_artifact env))) (\<lambda>declared.
     let objs = declared_objects declared (pe_objects env) in
     bindE (with_store (put_objects objs)) (\<lambda>harvested.
     bindE (gets (\<lambda>s. intake_artifact (ss_config s) env harvested)) (\<lambda>a.
     bindE (modify (ss_rationale_update (note_rationale env a))) (\<lambda>_.
     bindE (with_store (propose a (pe_operation env))) (\<lambda>_.
     bindE (with_store (link_revision_if_any (pe_operation env) (art_id a))) (\<lambda>_.
     ret (a, objs, harvested)))))))"

definition submit_proposal :: "settings \<Rightarrow> proposal_envelope \<Rightarrow> ('x, 'v, intake_result) session_op" where
  "submit_proposal cs env =
     bindE (reads (\<lambda>s. check_shape (ss_config s) env)) (\<lambda>shape_error. case shape_error of
       Some m \<Rightarrow> ret (no_result\<lparr>ir_shape_error := Some m\<rparr>)
     | None \<Rightarrow>
         bindE (enter_proposal env) (\<lambda>(a, objs, harvested). commit_proposal cs env a objs harvested))"

end
