(* ===== verification/Orchestration.thy ===== *)
theory Orchestration
  imports Intake
begin

text \<open>
  \<open>control_plane/api.py\<close>, second half: one cycle, the run loop with its stop rules, run records, and
  the control plane that holds the tasks. A cycle's handlers run in the state the failed body left,
  as Python's do.
\<close>

section \<open>One cycle\<close>

definition total_size :: "contents \<Rightarrow> int" where
  "total_size objs = sum_list (map (\<lambda>(_, files). sum_list (map (\<lambda>(_, b). int (length b)) files)) objs)"

definition context_metrics :: "served_context \<Rightarrow> int \<times> int" where
  "context_metrics served =
     (int (length (sc_system_prompt served) + length (sc_tail served) + length (sc_feedback served)),
      total_size (sc_workspace_objects served))"

text \<open>Empty or unparseable telemetry, or one that is not an object, degrades to nothing.\<close>

definition failed_cycle_telemetry :: "(bytes \<Rightarrow> json option) \<Rightarrow> bytes option \<Rightarrow> json_dict option" where
  "failed_cycle_telemetry loads raw =
     (case raw of
        None \<Rightarrow> None
      | Some b \<Rightarrow> if b = [] then None
          else case loads b of Some (JObj kvs) \<Rightarrow> Some kvs | _ \<Rightarrow> None)"

definition failure_of :: "intake_result \<Rightarrow> (string \<times> string) option" where
  "failure_of r =
     (case ir_sandbox_error r of Some m \<Rightarrow> Some (''sandbox-error'', m) | None \<Rightarrow>
     (case ir_gate_error r of Some m \<Rightarrow> Some (''gate-error'', m) | None \<Rightarrow>
     (case ir_shape_error r of Some m \<Rightarrow> Some (''shape-error'', m) | None \<Rightarrow> None)))"

definition rejection_reason :: "commit_result \<Rightarrow> string" where
  "rejection_reason c =
     (case List.find (\<lambda>d. d_verdict d = REJECT) (cr_decisions c) of
        Some d \<Rightarrow> d_rationale d
      | None \<Rightarrow> ''the submission did not clear a gate'')"

definition feedback_from :: "intake_result \<Rightarrow> string" where
  "feedback_from r =
     (case ir_sandbox_error r of
        Some m \<Rightarrow> ''sandbox-error: the previous attempt did not produce a valid submission ('' @ m @
          ''); produce exactly one complete proposal within the budget''
      | None \<Rightarrow>
     (case ir_gate_error r of
        Some m \<Rightarrow> ''gate-unavailable: the verifier could not evaluate the last proposal ('' @ m @ '') '' @
          ch_emdash @ '' this was not a rejection; submit the proposal again''
      | None \<Rightarrow>
          if \<not> ir_entered r \<and> ir_shape_error r \<noteq> None
          then ''shape-error: '' @ the (ir_shape_error r)
          else case ir_commit r of
            None \<Rightarrow> ''''
          | Some c \<Rightarrow>
              if cr_outcome c = OUT_REVISED \<and> cr_defects c \<notin> {None, Some []}
              then ''refine: '' @ join '', '' (the (cr_defects c))
              else if cr_outcome c = OUT_REJECTED then ''rejected: '' @ rejection_reason c
              else ''''))"

definition read_timer :: "settings \<Rightarrow> ('x, 'v, rat) session_op" where
  "read_timer cs s = (Inr (st_timer cs (ss_timer_reads s)), s\<lparr>ss_timer_reads := Suc (ss_timer_reads s)\<rparr>)"

definition since :: "settings \<Rightarrow> rat \<Rightarrow> ('x, 'v, rat) session_op" where
  "since cs t0 = bindE (read_timer cs) (\<lambda>t. ret ((t - t0) * 1000))"

definition cycle_input_of :: "string \<Rightarrow> intake_result \<Rightarrow> timings \<Rightarrow> json_dict option \<Rightarrow> (int \<times> int) option \<Rightarrow>
    cycle_input" where
  "cycle_input_of goal r tm telemetry context = \<lparr>ci_goal = goal, ci_entered = ir_entered r,
     ci_shape_error = ir_shape_error r, ci_sandbox_error = ir_sandbox_error r,
     ci_gate_error = ir_gate_error r, ci_commit = ir_commit r, ci_timings = tm, ci_telemetry = telemetry,
     ci_served_chars = map_option fst context, ci_provisioned_bytes = map_option snd context,
     ci_transcript_ref = map_option content_hash (ir_transcript_ref r)\<rparr>"

definition record_cycle :: "string \<Rightarrow> intake_result \<Rightarrow> timings \<Rightarrow> json_dict option \<Rightarrow> (int \<times> int) option \<Rightarrow>
    ('x, 'v, unit) session_op" where
  "record_cycle goal r tm telemetry context =
     bindE (case failure_of r of
         None \<Rightarrow> ret ()
       | Some (kind, detail) \<Rightarrow>
           bindE (attempt (with_store (record_cycle_failure kind detail
               (map_option content_hash (ir_transcript_ref r))))) (\<lambda>res. case res of
             Inr _ \<Rightarrow> ret ()
           | Inl e \<Rightarrow> if is_store_error e then ret () else raise e)) (\<lambda>_.
     modify (ss_history_update (\<lambda>h. h @ [cycle_input_of goal r tm telemetry context])))"

text \<open>The sandbox yielded no proposal.\<close>

definition sandbox_failed :: "settings \<Rightarrow> string \<Rightarrow> rat \<Rightarrow> rat \<Rightarrow> int \<times> int \<Rightarrow> exc \<Rightarrow> bytes option \<Rightarrow>
    bytes option \<Rightarrow> ('x, 'v, intake_result) session_op" where
  "sandbox_failed cs goal started sandbox_started context e transcript telemetry =
     bindE (since cs sandbox_started) (\<lambda>sb_ms.
     bindE (with_store (store_transcript transcript)) (\<lambda>tref.
     bindE (with_sandbox sb_regenerate) (\<lambda>_.
     let result = no_result\<lparr>ir_sandbox_error := Some (exc_str e), ir_transcript_ref := tref\<rparr>
     in bindE (since cs started) (\<lambda>cy_ms.
        bindE (record_cycle goal result \<lparr>cycle_ms = Some cy_ms, sandbox_ms = Some sb_ms, commit_ms = None\<rparr>
          (failed_cycle_telemetry (st_loads cs) telemetry) (Some context)) (\<lambda>_. ret result)))))"

text \<open>The workspace is discarded and the cycle recorded, whether or not the gate could rule.\<close>

definition finish_cycle :: "settings \<Rightarrow> string \<Rightarrow> rat \<Rightarrow> rat \<Rightarrow> rat \<Rightarrow> int \<times> int \<Rightarrow> proposal_envelope \<Rightarrow>
    intake_result \<Rightarrow> ('x, 'v, intake_result) session_op" where
  "finish_cycle cs goal started sb_ms commit_started context env result =
     bindE (since cs commit_started) (\<lambda>co_ms.
     bindE (with_sandbox sb_regenerate) (\<lambda>_.
     bindE (since cs started) (\<lambda>cy_ms.
     bindE (record_cycle goal result \<lparr>cycle_ms = Some cy_ms, sandbox_ms = Some sb_ms, commit_ms = Some co_ms\<rparr>
       (pe_telemetry env) (Some context)) (\<lambda>_. ret result))))"

definition propose_and_commit :: "settings \<Rightarrow> string \<Rightarrow> rat \<Rightarrow> int \<times> int \<Rightarrow> ('x, 'v, intake_result) session_op" where
  "propose_and_commit cs goal started context =
     bindE (read_timer cs) (\<lambda>sandbox_started.
     bindE (attempt (with_sandbox sb_collect)) (\<lambda>collected. case collected of
       Inl e \<Rightarrow> (case sandbox_salvage e of
           Some (transcript, telemetry) \<Rightarrow>
             sandbox_failed cs goal started sandbox_started context e transcript telemetry
         | None \<Rightarrow> raise e)
     | Inr env \<Rightarrow>
         bindE (since cs sandbox_started) (\<lambda>sb_ms.
         bindE (read_timer cs) (\<lambda>commit_started.
         bindE (attempt (submit_proposal cs env)) (\<lambda>submitted. case submitted of
           Inl e \<Rightarrow> if is_gate_unavailable e
             then finish_cycle cs goal started sb_ms commit_started context env
               (no_result\<lparr>ir_gate_error := Some (exc_str e)\<rparr>)
             else raise e
         | Inr result \<Rightarrow> finish_cycle cs goal started sb_ms commit_started context env result)))))"

text \<open>Any other exception: best-effort cleanup, and a recorded failed cycle.\<close>

definition cycle_failed :: "settings \<Rightarrow> string \<Rightarrow> rat \<Rightarrow> (int \<times> int) option \<Rightarrow> exc \<Rightarrow>
    ('x, 'v, intake_result) session_op" where
  "cycle_failed cs goal started context e =
     bindE (attempt (with_sandbox sb_regenerate)) (\<lambda>_.
     let result = no_result\<lparr>ir_sandbox_error := Some (''cycle failed: '' @ exc_str e)\<rparr>
     in bindE (since cs started) (\<lambda>cy_ms.
        bindE (record_cycle goal result \<lparr>cycle_ms = Some cy_ms, sandbox_ms = None, commit_ms = None\<rparr>
          None context) (\<lambda>_. ret result)))"

definition run_cycle :: "settings \<Rightarrow> string \<Rightarrow> string \<Rightarrow> ('x, 'v, intake_result) session_op" where
  "run_cycle cs goal feedback =
     bindE (modify (ss_run_update (\<lambda>c. c\<lparr>ctx_cycle := Suc (ctx_cycle c)\<rparr>))) (\<lambda>_.
     bindE (read_timer cs) (\<lambda>started.
     bindE (attempt (serve_context cs goal '''' feedback)) (\<lambda>served. case served of
       Inl e \<Rightarrow> cycle_failed cs goal started None e
     | Inr sc \<Rightarrow>
         let context = context_metrics sc
         in try_catch (propose_and_commit cs goal started context)
              (cycle_failed cs goal started (Some context)))))"

section \<open>The run\<close>

definition policy_json :: "orchestration_policy \<Rightarrow> json_dict" where
  "policy_json p =
     [(''max_cycles'', JInt (max_cycles p)), (''refine_cap'', JInt (refine_cap p)),
      (''stop_on_accept'', JBool (stop_on_accept p)),
      (''max_consecutive_sandbox_failures'', JInt (max_consecutive p))]"

definition session_report :: "settings \<Rightarrow> ('x, 'v, run_report) session_op" where
  "session_report cs =
     bindE (with_store tick) (\<lambda>now.
     reads (\<lambda>s. build_run_report (ss_history s) (ss_store s) (tc_task_id (ss_config s))
       (policy_json (st_policy cs)) now (ss_rationale s) (tc_tenant_id (ss_config s))))"

definition record_run :: "settings \<Rightarrow> string \<Rightarrow> ('x, 'v, run_record) session_op" where
  "record_run cs status =
     bindE (session_report cs) (\<lambda>report.
     bindE (gets (\<lambda>s. record_from_report report (ctx_run_id (ss_run s)) status)) (\<lambda>record.
     bindE (modify (ss_records_update (records_put record))) (\<lambda>_. ret record)))"

text \<open>\<open>result.sandbox_error or result.gate_error\<close>.\<close>

definition cycle_failure_text :: "intake_result \<Rightarrow> string option" where
  "cycle_failure_text r = (if said (ir_sandbox_error r) then ir_sandbox_error r else ir_gate_error r)"

definition accepted_result :: "intake_result \<Rightarrow> bool" where
  "accepted_result r = (case ir_commit r of Some c \<Rightarrow> cr_status c = ACCEPTED | None \<Rightarrow> False)"

function run_loop :: "settings \<Rightarrow> string \<Rightarrow> string \<Rightarrow> int \<Rightarrow> int \<Rightarrow> intake_result list \<Rightarrow>
    ('x, 'v, intake_result list) session_op" where
  "run_loop cs goal feedback cycles failures results =
     (if \<not> should_continue (st_policy cs) cycles then ret results
      else bindE (run_cycle cs goal feedback) (\<lambda>result.
        let results' = results @ [result]; cycles' = cycles + 1 in
        case cycle_failure_text result of
          Some m \<Rightarrow>
            (let failures' = failures + 1; cap = max_consecutive (st_policy cs)
             in if cap \<noteq> 0 \<and> failures' \<ge> cap
                then bindE (record_run cs ''aborted'') (\<lambda>_.
                  raise (OrchestrationError (''aborting run after '' @ int_str failures' @
                    '' consecutive failed cycles (last: '' @ m @ '')'')))
                else run_loop cs goal (feedback_from result) cycles' failures' results')
        | None \<Rightarrow>
            if stop_on_accept (st_policy cs) \<and> accepted_result result then ret results'
            else run_loop cs goal (feedback_from result) cycles' 0 results'))"
  by pat_completeness auto
termination
  by (relation "measure (\<lambda>(cs, _, _, cycles, _, _). nat (max_cycles (st_policy cs) - cycles))")
    (auto simp: should_continue_def)

declare run_loop.simps [simp del]

definition run_body :: "settings \<Rightarrow> string \<Rightarrow> ('x, 'v, intake_result list) session_op" where
  "run_body cs goal =
     bindE (with_verifier vp_provision) (\<lambda>_.
     bindE (run_loop cs goal '''' 0 0 []) (\<lambda>results.
     bindE (record_run cs ''complete'') (\<lambda>_. ret results)))"

text \<open>\<open>try: ... finally: teardown\<close>: the teardown runs whatever the body did, and its own failure is
  swallowed.\<close>

definition run :: "settings \<Rightarrow> string \<Rightarrow> ('x, 'v, intake_result list) session_op" where
  "run cs goal =
     bindE (\<lambda>s. (Inr (), s\<lparr>ss_run := (ss_run s)\<lparr>ctx_run_id := st_run_ids cs (ss_runs_minted s), ctx_cycle := 0\<rparr>,
        ss_runs_minted := Suc (ss_runs_minted s)\<rparr>)) (\<lambda>_.
     bindE (attempt (run_body cs goal)) (\<lambda>outcome.
     bindE (attempt (with_verifier vp_teardown)) (\<lambda>_.
     case outcome of Inl e \<Rightarrow> raise e | Inr results \<Rightarrow> ret results)))"

section \<open>The control plane\<close>

record ('x, 'v) task_state =
  ts_config :: task_config
  ts_sandbox_port :: "'x sandbox_port"
  ts_verifier_port :: "'v verifier_service"
  ts_sandbox :: 'x
  ts_verifier :: 'v
  ts_rationale :: "(string \<times> string) list"
  ts_history :: "cycle_input list"
  ts_run :: run_context

record ('x, 'v) control_plane =
  cp_store :: store
  cp_timer_reads :: nat
  cp_runs_minted :: nat
  cp_records :: run_records
  cp_sandboxes :: "('x sandbox_port \<times> 'x) provider_registry"
  cp_verifiers :: "('v verifier_service \<times> 'v) provider_registry"
  cp_tasks :: "(string \<times> ('x, 'v) task_state) list"

type_synonym ('x, 'v, 'a) cp_op = "(('x, 'v) control_plane, exc, 'a) st"

definition open_session :: "('x, 'v) control_plane \<Rightarrow> ('x, 'v) task_state \<Rightarrow> ('x, 'v) session" where
  "open_session cp t = \<lparr>ss_store = cp_store cp, ss_timer_reads = cp_timer_reads cp,
     ss_runs_minted = cp_runs_minted cp, ss_records = cp_records cp, ss_config = ts_config t,
     ss_sandbox_port = ts_sandbox_port t, ss_verifier_port = ts_verifier_port t, ss_sandbox = ts_sandbox t,
     ss_verifier = ts_verifier t, ss_rationale = ts_rationale t, ss_history = ts_history t, ss_run = ts_run t\<rparr>"

definition close_session :: "string \<Rightarrow> ('x, 'v) control_plane \<Rightarrow> ('x, 'v) session \<Rightarrow> ('x, 'v) control_plane" where
  "close_session i cp s = cp\<lparr>cp_store := ss_store s, cp_timer_reads := ss_timer_reads s,
     cp_runs_minted := ss_runs_minted s, cp_records := ss_records s,
     cp_tasks := dict_put i \<lparr>ts_config = ss_config s, ts_sandbox_port = ss_sandbox_port s,
       ts_verifier_port = ss_verifier_port s, ts_sandbox = ss_sandbox s, ts_verifier = ss_verifier s,
       ts_rationale = ss_rationale s, ts_history = ss_history s, ts_run = ss_run s\<rparr> (cp_tasks cp)\<rparr>"

definition cp_task :: "string \<Rightarrow> ('x, 'v) control_plane \<Rightarrow> exc + ('x, 'v) task_state" where
  "cp_task i cp = (case map_of (cp_tasks cp) i of
      Some t \<Rightarrow> Inr t
    | None \<Rightarrow> Inl (UnknownTask (''task not configured: '' @ py_repr i)))"

text \<open>An operation of a task: look the task up, work on its session, put it back.\<close>

definition on_task :: "string \<Rightarrow> ('x, 'v, 'a) session_op \<Rightarrow> ('x, 'v, 'a) cp_op" where
  "on_task i m cp =
     (case cp_task i cp of
        Inl e \<Rightarrow> (Inl e, cp)
      | Inr t \<Rightarrow> (case m (open_session cp t) of (r, s) \<Rightarrow> (r, close_session i cp s)))"

definition cp_serve_context :: "settings \<Rightarrow> string \<Rightarrow> string \<Rightarrow> string \<Rightarrow> string \<Rightarrow> ('x, 'v, served_context) cp_op" where
  "cp_serve_context cs i goal scratch feedback = on_task i (serve_context cs goal scratch feedback)"

definition cp_submit_proposal :: "settings \<Rightarrow> string \<Rightarrow> proposal_envelope \<Rightarrow> ('x, 'v, intake_result) cp_op" where
  "cp_submit_proposal cs i env = on_task i (submit_proposal cs env)"

definition cp_run_cycle :: "settings \<Rightarrow> string \<Rightarrow> string \<Rightarrow> string \<Rightarrow> ('x, 'v, intake_result) cp_op" where
  "cp_run_cycle cs i goal feedback = on_task i (run_cycle cs goal feedback)"

definition cp_run :: "settings \<Rightarrow> string \<Rightarrow> string \<Rightarrow> ('x, 'v, intake_result list) cp_op" where
  "cp_run cs i goal = on_task i (run cs goal)"

definition cp_run_report :: "settings \<Rightarrow> string \<Rightarrow> ('x, 'v, run_report) cp_op" where
  "cp_run_report cs i = on_task i (session_report cs)"

definition cp_teardown :: "string \<Rightarrow> ('x, 'v, unit) cp_op" where
  "cp_teardown i = on_task i (bindE (with_sandbox sb_teardown) (\<lambda>_. with_verifier vp_teardown))"

definition on_store :: "'a store_op \<Rightarrow> ('x, 'v, 'a) cp_op" where
  "on_store m cp = (case m (cp_store cp) of (r, st) \<Rightarrow> (r, cp\<lparr>cp_store := st\<rparr>))"

definition register_sandbox :: "string \<Rightarrow> (exc + 'x sandbox_port \<times> 'x) \<Rightarrow> ('x, 'v, unit) cp_op" where
  "register_sandbox key factory cp =
     (case register_provider ''sandbox'' key factory (cp_sandboxes cp) of
        Inl e \<Rightarrow> (Inl e, cp)
      | Inr reg \<Rightarrow> (Inr (), cp\<lparr>cp_sandboxes := reg\<rparr>))"

definition register_verifier :: "string \<Rightarrow> (exc + 'v verifier_service \<times> 'v) \<Rightarrow> ('x, 'v, unit) cp_op" where
  "register_verifier key factory cp =
     (case register_provider ''verifier'' key factory (cp_verifiers cp) of
        Inl e \<Rightarrow> (Inl e, cp)
      | Inr reg \<Rightarrow> (Inr (), cp\<lparr>cp_verifiers := reg\<rparr>))"

definition stamp_versions :: "task_config \<Rightarrow> unit store_op" where
  "stamp_versions tc =
     bindE (gets current_schema_version) (\<lambda>current.
     let version = (case current of Some v \<Rightarrow> sv_version v + 1 | None \<Rightarrow> 1) in
     bindE tick (\<lambda>now.
     bindE (register_schema_version (schema_snapshot (tc_schema tc) version now)) (\<lambda>_.
     bindE (reads (\<lambda>s. orientation_digest (sha256 s) (tc_contract tc))) (\<lambda>digest.
     bindE tick (\<lambda>now'.
     register_contract_version \<lparr>cv_version = wc_version (tc_contract tc), cv_orientation_digest = digest,
       cv_created_at = now'\<rparr>)))))"

definition configure :: "settings \<Rightarrow> task_config \<Rightarrow> ('x, 'v, unit) cp_op" where
  "configure cs tc =
     bindE (on_store (stamp_versions tc)) (\<lambda>_.
     bindE (reads (\<lambda>cp. create_provider ''sandbox'' (cp_sandboxes cp) (tc_sandbox_key tc))) (\<lambda>(sp, x).
     bindE (reads (\<lambda>cp. create_provider ''verifier'' (cp_verifiers cp) (tc_verifier_key tc))) (\<lambda>(vp, v).
     case sb_provision sp x of
       (Inl e, x') \<Rightarrow> raise e
     | (Inr _, x') \<Rightarrow>
         modify (\<lambda>cp. cp\<lparr>cp_runs_minted := Suc (cp_runs_minted cp),
           cp_tasks := dict_put (tc_task_id tc)
             \<lparr>ts_config = tc, ts_sandbox_port = sp, ts_verifier_port = vp, ts_sandbox = x', ts_verifier = v,
              ts_rationale = [], ts_history = [],
              ts_run = \<lparr>ctx_tenant_id = tc_tenant_id tc, ctx_run_id = st_run_ids cs (cp_runs_minted cp),
                ctx_cycle = 0\<rparr>\<rparr> (cp_tasks cp)\<rparr>))))"

section \<open>Extraction\<close>

definition accepted_artifacts :: "string option \<Rightarrow> ('x, 'v) control_plane \<Rightarrow> exc + artifact list" where
  "accepted_artifacts ty cp = query_artifacts ty (Some ACCEPTED) (cp_store cp)"

definition cp_provenance :: "string \<Rightarrow> ('x, 'v) control_plane \<Rightarrow> exc + provenance" where
  "cp_provenance i cp = get_provenance i (cp_store cp)"

definition cp_rejected_log :: "string option \<Rightarrow> ('x, 'v) control_plane \<Rightarrow> exc + artifact list" where
  "cp_rejected_log ty cp = rejected_log ty (cp_store cp)"

definition cp_superseded_log :: "string option \<Rightarrow> ('x, 'v) control_plane \<Rightarrow> exc + artifact list" where
  "cp_superseded_log ty cp = superseded_log ty (cp_store cp)"

definition revised_log :: "string option \<Rightarrow> ('x, 'v) control_plane \<Rightarrow> exc + artifact list" where
  "revised_log ty cp = query_artifacts ty (Some REVISED) (cp_store cp)"

definition rationale_for :: "string \<Rightarrow> ('x, 'v) control_plane \<Rightarrow> string option" where
  "rationale_for i cp =
     (case List.find (\<lambda>(_, t). i \<in> fst ` set (ts_rationale t)) (cp_tasks cp) of
        Some (_, t) \<Rightarrow> map_of (ts_rationale t) i
      | None \<Rightarrow> None)"

end
