(* ===== verification/Control_Laws.thy ===== *)
theory Control_Laws
  imports Orchestration
begin

text \<open>
  What every operation of the control plane keeps. A property of stores that the store's writes and
  the commit's settling keep is kept by a cycle, a run, and any sequence of API calls, whatever the
  sandbox, the verifier and the domain hooks do.
\<close>

section \<open>Disciplined stores\<close>

text \<open>\<open>ok\<close> is what is asked of an artifact entering the store. The writes of a commit come first,
  then everything else the control plane writes.\<close>

locale commit_discipline =
  fixes P :: "store \<Rightarrow> bool" and ok :: "artifact \<Rightarrow> bool"
  assumes keeps_tick: "keeps P tick"
    and keeps_propose: "ok a \<Longrightarrow> keeps P (propose a p)"
    and keeps_link_revision: "keeps P (link_revision i j)"
    and settle_stored: "P s \<Longrightarrow> get_artifact (art_id a) s = Inr (Some a) \<Longrightarrow> art_status a = PROPOSED \<Longrightarrow>
      P (snd (settle a b ex s))"

locale store_discipline = commit_discipline +
  assumes keeps_put_object: "keeps P (put_object data)"
    and keeps_failure: "keeps P (record_cycle_failure k d t)"
    and keeps_schema: "keeps P (register_schema_version sv)"
    and keeps_contract: "keeps P (register_contract_version cv)"

sublocale db_invariant \<subseteq> discipline: store_discipline "store_inv Q" ok
  by unfold_locales (auto intro: inv_writes inv_tick inv_settle [unfolded keeps_def, rule_format])

interpretation quiet: store_discipline quiescent "\<lambda>_. True"
  by unfold_locales (auto intro: keeps_intros keeps_quiescent_settle [unfolded keeps_def, rule_format])

lemma keeps_with_store: "keeps P m \<Longrightarrow> keeps (\<lambda>s. P (ss_store s)) (with_store m)"
  by (auto simp: keeps_def with_store_def split: prod.splits)

lemma keeps_with_sandbox: "keeps (\<lambda>s. P (ss_store s)) (with_sandbox m)"
  by (auto simp: keeps_def with_sandbox_def split: prod.splits)

lemma keeps_with_verifier: "keeps (\<lambda>s. P (ss_store s)) (with_verifier m)"
  by (auto simp: keeps_def with_verifier_def split: prod.splits)

text \<open>The proposals and children that can reach the store of a session.\<close>

definition collects :: "(artifact \<Rightarrow> bool) \<Rightarrow> 'x sandbox_port \<Rightarrow> bool" where
  "collects ok sp \<longleftrightarrow>
     (\<forall>x env x' tc h. sb_collect sp x = (Inr env, x') \<longrightarrow> ok (intake_artifact tc env h))"

definition harvests :: "(artifact \<Rightarrow> bool) \<Rightarrow> task_config \<Rightarrow> bool" where
  "harvests ok tc \<longleftrightarrow> (\<forall>f a cs. tc_harvester tc = Some f \<longrightarrow> f a = Inr cs \<longrightarrow>
        (\<forall>c \<in> set cs. \<forall>index now. ok (child_artifact a index c now)))"

definition admits :: "(artifact \<Rightarrow> bool) \<Rightarrow> task_config \<Rightarrow> 'x sandbox_port \<Rightarrow> bool" where
  "admits ok tc sp \<longleftrightarrow> collects ok sp \<and> harvests ok tc"

text \<open>A session never changes its configuration nor its sandbox port, so a fact \<open>R\<close> of them stays.\<close>

definition safe :: "(store \<Rightarrow> bool) \<Rightarrow> (task_config \<Rightarrow> 'x sandbox_port \<Rightarrow> bool) \<Rightarrow> ('x, 'v) session \<Rightarrow> bool" where
  "safe P R s \<longleftrightarrow> P (ss_store s) \<and> R (ss_config s) (ss_sandbox_port s)"

lemma safe_with_store: "keeps P m \<Longrightarrow> keeps (safe P R) (with_store m)"
  by (auto simp: keeps_def safe_def with_store_def split: prod.splits)

lemma safe_with_sandbox [keeps_intros]: "keeps (safe P R) (with_sandbox m)"
  by (auto simp: keeps_def safe_def with_sandbox_def split: prod.splits)

lemma safe_with_verifier [keeps_intros]: "keeps (safe P R) (with_verifier m)"
  by (auto simp: keeps_def safe_def with_verifier_def split: prod.splits)

lemma safe_read_timer [keeps_intros]: "keeps (safe P R) (read_timer cs)"
  by (auto simp: keeps_def safe_def read_timer_def)

lemma safe_since [keeps_intros]: "keeps (safe P R) (since cs t)"
  unfolding since_def by (intro keeps_intros)

lemma keeps_Let [keeps_intros]: "keeps P (f x) \<Longrightarrow> keeps P (let y = x in f y)"
  by simp

lemma keeps_prod [keeps_intros]: "(\<And>a b. x = (a, b) \<Longrightarrow> keeps P (f a b)) \<Longrightarrow> keeps P (case x of (a, b) \<Rightarrow> f a b)"
  by (cases x) simp

lemma keeps_exc_StoreError:
  "(\<And>m. keeps P (f m)) \<Longrightarrow> (\<And>e. keeps P (g e)) \<Longrightarrow> keeps P (case e of StoreError m \<Rightarrow> f m | _ \<Rightarrow> g e)"
  by (cases e) auto

lemma keeps_gets_bind:
  "(\<And>s. P s \<Longrightarrow> keeps P (f (g s))) \<Longrightarrow> keeps P (bindE (gets g) f)"
  by (auto simp: keeps_def bindE_def gets_def)

lemma keeps_attempt_bind:
  "(\<And>s r s'. P s \<Longrightarrow> m s = (r, s') \<Longrightarrow> P (snd (f r s'))) \<Longrightarrow> keeps P (bindE (attempt m) f)"
  by (auto simp: keeps_def bindE_def attempt_def split: prod.splits)

lemma keeps_reads_bind:
  "(\<And>s x. P s \<Longrightarrow> g s = Inr x \<Longrightarrow> keeps P (f x)) \<Longrightarrow> keeps P (bindE (reads g) f)"
  by (auto simp: keeps_def bindE_def reads_def split: sum.splits)

lemma keeps_put_objects_of:
  "(\<And>n data. (n, data) \<in> set objs \<Longrightarrow> keeps P (put_object data)) \<Longrightarrow> keeps P (put_objects objs)"
  unfolding put_objects_def by (rule keeps_mapM_set) (auto intro!: keeps_intros)

lemma keeps_transcript_of:
  "(\<And>data. t = Some data \<Longrightarrow> keeps P (put_object data)) \<Longrightarrow> keeps P (store_transcript t)"
  unfolding store_transcript_def
  by (intro keeps_option keeps_ret keeps_bindE keeps_attempt keeps_sum keeps_if keeps_raise)

context commit_discipline
begin

lemma keeps_link_if_any: "keeps P (link_revision_if_any op i)"
  unfolding link_revision_if_any_def by (intro keeps_intros keeps_link_revision)

lemma safe_commit: "keeps (safe P R) (session_commit cs i objs ex)"
proof (rule keepsI)
  fix s
  assume s: "safe P R s"
  obtain r st v where c: "run_commit i (resolve_gate (tc_gated (ss_config s)))
     (port_dispatch (ss_verifier_port s) (st_timeout cs) (tc_gated (ss_config s)) objs)
     (vp_identity (ss_verifier_port s)) ex (ss_store s, ss_verifier s) = (r, (st, v))"
    by (metis prod.collapse)
  have "P st"
    using run_commit_settles [OF c]
  proof (elim disjE exE conjE)
    fix a b
    assume a: "get_artifact i (ss_store s) = Inr (Some a)" "art_status a = PROPOSED"
      and st: "settle a b ex (ss_store s) = (r, st)"
    have "art_id a = i" by (rule get_artifact_id [OF a(1)])
    then show "P st" using settle_stored [of "ss_store s" a b ex] a st s by (simp add: safe_def)
  qed (use s in \<open>simp add: safe_def\<close>)
  then show "safe P R (snd (session_commit cs i objs ex s))"
    using s c by (simp add: session_commit_def safe_def)
qed

lemma safe_harvest_child:
  assumes "\<forall>index now. ok (child_artifact a index c now)"
  shows "keeps (safe P R) (harvest_child cs a pb (i, c))"
  unfolding harvest_child_def prod.case
  by (intro keeps_bindE keeps_Let safe_with_store keeps_tick safe_commit keeps_ret keeps_propose)
    (use assms in blast)

lemma safe_harvest:
  assumes "\<And>as. h a = Inr as \<Longrightarrow> \<forall>c \<in> set as. \<forall>index now. ok (child_artifact a index c now)"
  shows "keeps (safe P R) (harvest_children cs h a)"
  unfolding harvest_children_def
proof (rule keeps_reads_bind)
  fix children assume h: "h a = Inr children"
  have each: "keeps (safe P R) (harvest_child cs a pb ic)" if "ic \<in> set (enumerate 0 children)" for pb ic
  proof -
    obtain i c where ic: "ic = (i, c)" by (cases ic)
    have "c \<in> set children" using that by (auto simp: ic in_set_enumerate_eq)
    then show ?thesis unfolding ic using assms [OF h] by (intro safe_harvest_child) blast
  qed
  show "keeps (safe P R) (if children = [] then ret ()
       else bindE (reads (\<lambda>s. mapE (\<lambda>(n, ref). bindS (get_object (content_hash ref) (ss_store s)) (\<lambda>data. Inr (n, data)))
                (objects a))) (\<lambda>pairs.
            let parent_bytes = fold (\<lambda>(n, data). dict_put n data) pairs []
            in bindE (mapM (harvest_child cs a parent_bytes) (enumerate 0 children)) (\<lambda>_. ret ())))"
    by (intro keeps_if keeps_ret keeps_bindE keeps_reads keeps_Let keeps_mapM_set each)
qed

lemma safe_commit_proposal:
  fixes R :: "task_config \<Rightarrow> 'x sandbox_port \<Rightarrow> bool"
  assumes "\<And>tc sp. R tc sp \<Longrightarrow> harvests ok tc" "keeps P (store_transcript (pe_transcript env))"
  shows "keeps (safe P R) (commit_proposal cs env a objs harvested)"
proof -
  have h: "keeps (safe P R) (case (out, tc_harvester tc) of
         (OUT_ACCEPTED, Some h) \<Rightarrow> try_catch (harvest_children cs h a) (\<lambda>_. ret ())
       | _ \<Rightarrow> ret ())" if "R tc sp" for out tc sp
    using assms(1) [OF that] by (cases out; cases "tc_harvester tc")
      (auto simp: harvests_def intro!: keeps_try_catch keeps_ret safe_harvest)
  show ?thesis
    unfolding commit_proposal_def
    by (rule keeps_bindE, rule keeps_reads, rule keeps_bindE, rule safe_commit, rule keeps_gets_bind,
        rule keeps_bindE, rule h, auto simp: safe_def)
      (intro keeps_bindE safe_with_store assms(2) keeps_ret)
qed

lemma safe_modify [keeps_intros]:
  "keeps (safe P R) (modify (ss_rationale_update f))" "keeps (safe P R) (modify (ss_history_update g))"
  "keeps (safe P R) (modify (ss_run_update h))" "keeps (safe P R) (modify (ss_records_update k))"
  by (auto simp: keeps_def safe_def modify_def)

lemma safe_enter:
  fixes R :: "task_config \<Rightarrow> 'x sandbox_port \<Rightarrow> bool"
  assumes "\<And>tc sp h. R tc sp \<Longrightarrow> ok (intake_artifact tc env h)"
    "\<And>tc sp d. R tc sp \<Longrightarrow> tc_object_namer tc (pe_artifact env) = Inr d \<Longrightarrow>
      keeps P (put_objects (declared_objects d (pe_objects env)))"
  shows "keeps (safe P R) (enter_proposal env)"
proof -
  have rest: "keeps (safe P R) (bindE (with_store (propose (intake_artifact tc env h) (pe_operation env))) (\<lambda>_.
         bindE (with_store (link_revision_if_any (pe_operation env) (art_id (intake_artifact tc env h)))) (\<lambda>_.
         ret (intake_artifact tc env h, objs, h))))" if "\<exists>sp. R tc sp" for tc h objs
    using that assms(1)
    by (intro keeps_bindE safe_with_store keeps_propose keeps_link_if_any keeps_ret) blast
  show ?thesis unfolding enter_proposal_def
  proof (rule keeps_reads_bind)
    fix s d
    assume s: "safe P R s" and d: "tc_object_namer (ss_config s) (pe_artifact env) = Inr d"
    have put: "keeps P (put_objects (declared_objects d (pe_objects env)))"
      using s assms(2) [OF _ d] by (auto simp: safe_def)
    show "keeps (safe P R) (let objs = declared_objects d (pe_objects env) in
     bindE (with_store (put_objects objs)) (\<lambda>harvested.
     bindE (gets (\<lambda>s. intake_artifact (ss_config s) env harvested)) (\<lambda>a.
     bindE (modify (ss_rationale_update (note_rationale env a))) (\<lambda>_.
     bindE (with_store (propose a (pe_operation env))) (\<lambda>_.
     bindE (with_store (link_revision_if_any (pe_operation env) (art_id a))) (\<lambda>_.
     ret (a, objs, harvested)))))))"
      by (rule keeps_Let, rule keeps_bindE, rule safe_with_store, rule put, rule keeps_gets_bind,
          rule keeps_bindE, rule safe_modify, rule rest, auto simp: safe_def)
  qed
qed

lemma safe_submit_with:
  fixes R :: "task_config \<Rightarrow> 'x sandbox_port \<Rightarrow> bool"
  assumes "\<And>tc sp. R tc sp \<Longrightarrow> harvests ok tc" "\<And>tc sp h. R tc sp \<Longrightarrow> ok (intake_artifact tc env h)"
    "keeps P (store_transcript (pe_transcript env))"
    "\<And>tc sp d. R tc sp \<Longrightarrow> tc_object_namer tc (pe_artifact env) = Inr d \<Longrightarrow>
      keeps P (put_objects (declared_objects d (pe_objects env)))"
  shows "keeps (safe P R) (submit_proposal cs env)"
  unfolding submit_proposal_def
  by (rule keeps_bindE, rule keeps_reads, rule keeps_option, rule keeps_bindE, rule safe_enter,
      erule assms(2), erule (1) assms(4), rule keeps_prod, rule keeps_prod, rule safe_commit_proposal,
      erule assms(1), rule assms(3), rule keeps_ret)

end

context store_discipline
begin

lemma keeps_put_objects: "keeps P (put_objects objs)"
  by (intro keeps_put_objects_of keeps_put_object)

lemma keeps_transcript: "keeps P (store_transcript t)"
  by (intro keeps_transcript_of keeps_put_object)

lemma keeps_stamp: "keeps P (stamp_versions tc)"
  unfolding stamp_versions_def by (intro keeps_intros keeps_tick keeps_schema keeps_contract)

lemma safe_submit:
  fixes R :: "task_config \<Rightarrow> 'x sandbox_port \<Rightarrow> bool"
  assumes "\<And>tc sp. R tc sp \<Longrightarrow> admits ok tc sp" "\<And>tc sp h. R tc sp \<Longrightarrow> ok (intake_artifact tc env h)"
  shows "keeps (safe P R) (submit_proposal cs env)"
  using assms by (intro safe_submit_with keeps_transcript keeps_put_objects) (auto simp: admits_def)

lemma safe_record_cycle: "keeps (safe P R) (record_cycle goal r tm te ctx)"
  unfolding record_cycle_def
  by (intro keeps_bindE keeps_option keeps_ret keeps_prod keeps_attempt safe_with_store keeps_failure
      keeps_sum keeps_if keeps_raise safe_modify)

lemma safe_serve: "keeps (safe P R) (serve_context cs goal scratch feedback)"
  unfolding serve_context_def by (intro keeps_bindE keeps_reads keeps_Let safe_with_sandbox keeps_ret)

lemma safe_finish: "keeps (safe P R) (finish_cycle cs goal t0 ms t1 ctx env r)"
  unfolding finish_cycle_def
  by (intro keeps_bindE safe_since safe_with_sandbox safe_record_cycle keeps_ret)

lemma safe_sandbox_failed: "keeps (safe P R) (sandbox_failed cs goal t0 t1 ctx e tr te)"
  unfolding sandbox_failed_def
  by (intro keeps_bindE safe_since safe_with_sandbox safe_with_store keeps_transcript keeps_Let
      safe_record_cycle keeps_ret)

lemma safe_cycle_failed: "keeps (safe P R) (cycle_failed cs goal t0 ctx e)"
  unfolding cycle_failed_def
  by (intro keeps_bindE keeps_attempt safe_since safe_with_sandbox keeps_Let safe_record_cycle keeps_ret)

lemma safe_propose_and_commit:
  assumes "\<And>tc sp. R tc sp \<Longrightarrow> admits ok tc sp"
  shows "keeps (safe P R) (propose_and_commit cs goal t0 ctx)"
proof -
  have env: "keeps (safe P (\<lambda>tc sp. R tc sp \<and> (\<forall>h. ok (intake_artifact tc env h))))
      (bindE (since cs t1) (\<lambda>sb_ms.
         bindE (read_timer cs) (\<lambda>t2.
         bindE (attempt (submit_proposal cs env)) (\<lambda>submitted. case submitted of
           Inl e \<Rightarrow> if is_gate_unavailable e
             then finish_cycle cs goal t0 sb_ms t2 ctx env (no_result\<lparr>ir_gate_error := Some (exc_str e)\<rparr>)
             else raise e
         | Inr result \<Rightarrow> finish_cycle cs goal t0 sb_ms t2 ctx env result))))" (is "keeps (safe P ?R) _") for env t1
    by (intro keeps_bindE safe_since safe_read_timer keeps_attempt safe_submit keeps_sum keeps_if
        safe_finish keeps_raise) (auto simp: assms)
  have fail: "keeps (safe P R) (case sandbox_salvage e of Some (tr, te) \<Rightarrow> sandbox_failed cs goal t0 t1 ctx e tr te
      | None \<Rightarrow> raise e)" for e t1
    by (intro keeps_option keeps_prod safe_sandbox_failed keeps_raise)
  show ?thesis unfolding propose_and_commit_def
  proof (rule keeps_bindE, rule safe_read_timer, rule keeps_attempt_bind)
    fix t1 s r s'
    assume s: "safe P R s" and c: "with_sandbox sb_collect s = (r, s')"
    have s': "safe P R s'" using keepsD [OF safe_with_sandbox s c] .
    show "safe P R (snd ((case r of
       Inl e \<Rightarrow> (case sandbox_salvage e of Some (tr, te) \<Rightarrow> sandbox_failed cs goal t0 t1 ctx e tr te
           | None \<Rightarrow> raise e)
     | Inr env \<Rightarrow>
         bindE (since cs t1) (\<lambda>sb_ms.
         bindE (read_timer cs) (\<lambda>t2.
         bindE (attempt (submit_proposal cs env)) (\<lambda>submitted. case submitted of
           Inl e \<Rightarrow> if is_gate_unavailable e
             then finish_cycle cs goal t0 sb_ms t2 ctx env (no_result\<lparr>ir_gate_error := Some (exc_str e)\<rparr>)
             else raise e
         | Inr result \<Rightarrow> finish_cycle cs goal t0 sb_ms t2 ctx env result)))) s'))"
    proof (cases r)
      case (Inl e)
      from fail [unfolded keeps_def, rule_format, OF s', of e t1] show ?thesis by (simp add: Inl)
    next
      case (Inr env)
      have "\<forall>h. ok (intake_artifact (ss_config s) env h)"
        using c assms [of "ss_config s" "ss_sandbox_port s"] s unfolding Inr with_sandbox_def admits_def collects_def safe_def
        by (auto split: prod.splits)
      moreover have "ss_config s' = ss_config s" using c by (auto simp: with_sandbox_def split: prod.splits)
      ultimately have "safe P (\<lambda>tc sp. R tc sp \<and> (\<forall>h. ok (intake_artifact tc env h))) s'"
        using s' by (simp add: safe_def)
      from env [of env t1, unfolded keeps_def, rule_format, OF this] show ?thesis by (simp add: Inr safe_def)
    qed
  qed
qed

lemma safe_run_cycle:
  assumes "\<And>tc sp. R tc sp \<Longrightarrow> admits ok tc sp"
  shows "keeps (safe P R) (run_cycle cs goal feedback)"
  unfolding run_cycle_def
  by (intro keeps_bindE safe_modify safe_read_timer keeps_attempt safe_serve keeps_sum safe_cycle_failed
      keeps_Let keeps_try_catch safe_propose_and_commit assms)

lemma safe_record_run: "keeps (safe P R) (record_run cs status)"
  unfolding record_run_def session_report_def
  by (intro keeps_bindE safe_with_store keeps_tick keeps_reads keeps_gets safe_modify keeps_ret)

lemma safe_run_loop:
  assumes "\<And>tc sp. R tc sp \<Longrightarrow> admits ok tc sp"
  shows "keeps (safe P R) (run_loop cs goal feedback cycles failures results)"
proof (induction cs goal feedback cycles failures results rule: run_loop.induct)
  case (1 cs goal feedback cycles failures results)
  show ?case
    by (subst run_loop.simps, intro keeps_if keeps_ret keeps_bindE safe_run_cycle assms keeps_Let)
      (auto simp: Let_def intro!: keeps_option keeps_if keeps_bindE safe_record_run keeps_raise keeps_ret "1.IH")
qed

lemma safe_run:
  assumes "\<And>tc sp. R tc sp \<Longrightarrow> admits ok tc sp"
  shows "keeps (safe P R) (run cs goal)"
proof -
  have start: "keeps (safe P R) (\<lambda>s. (Inr (), s\<lparr>ss_run := (ss_run s)\<lparr>ctx_run_id := st_run_ids cs (ss_runs_minted s), ctx_cycle := 0\<rparr>,
        ss_runs_minted := Suc (ss_runs_minted s)\<rparr>))"
    by (simp add: keeps_def safe_def)
  show ?thesis unfolding run_def run_body_def
    by (intro keeps_bindE start keeps_attempt safe_with_verifier safe_run_loop assms safe_record_run
        keeps_ret keeps_sum keeps_raise)
qed

end

section \<open>The API\<close>

datatype ('x, 'v) api_call =
    Configure task_config
  | Serve string string string string
  | Submit string proposal_envelope
  | Run_Cycle string string string
  | Run string string
  | Report string
  | Teardown string
  | Register_Sandbox string "exc + 'x sandbox_port \<times> 'x"
  | Register_Verifier string "exc + 'v verifier_service \<times> 'v"

fun call_api :: "settings \<Rightarrow> ('x, 'v) api_call \<Rightarrow> ('x, 'v) control_plane \<Rightarrow> ('x, 'v) control_plane" where
  "call_api cs (Configure tc) cp = snd (configure cs tc cp)"
| "call_api cs (Serve i goal scratch feedback) cp = snd (cp_serve_context cs i goal scratch feedback cp)"
| "call_api cs (Submit i env) cp = snd (cp_submit_proposal cs i env cp)"
| "call_api cs (Run_Cycle i goal feedback) cp = snd (cp_run_cycle cs i goal feedback cp)"
| "call_api cs (Run i goal) cp = snd (cp_run cs i goal cp)"
| "call_api cs (Report i) cp = snd (cp_run_report cs i cp)"
| "call_api cs (Teardown i) cp = snd (cp_teardown i cp)"
| "call_api cs (Register_Sandbox key f) cp = snd (register_sandbox key f cp)"
| "call_api cs (Register_Verifier key f) cp = snd (register_verifier key f cp)"

text \<open>Any sequence of API calls, each whether it returned or raised.\<close>

inductive api_steps :: "settings \<Rightarrow> ('x, 'v) api_call list \<Rightarrow> ('x, 'v) control_plane \<Rightarrow>
    ('x, 'v) control_plane \<Rightarrow> bool" for cs where
  api_none: "api_steps cs [] cp cp"
| api_call: "api_steps cs calls (call_api cs c cp) cp' \<Longrightarrow> api_steps cs (c # calls) cp cp'"

inductive_cases api_steps_ConsE: "api_steps cs (c # calls) cp cp'"
inductive_simps api_steps_Nil: "api_steps cs [] cp cp'"

lemma api_steps_keep:
  "api_steps cs calls cp cp' \<Longrightarrow> list_all C calls \<Longrightarrow> (\<And>c cp. C c \<Longrightarrow> I cp \<Longrightarrow> I (call_api cs c cp)) \<Longrightarrow>
     I cp \<Longrightarrow> I cp'"
  by (induction rule: api_steps.induct) auto

definition cp_inv :: "(store \<Rightarrow> bool) \<Rightarrow> (artifact \<Rightarrow> bool) \<Rightarrow> ('x, 'v) control_plane \<Rightarrow> bool" where
  "cp_inv P ok cp \<longleftrightarrow> P (cp_store cp) \<and>
     (\<forall>(i, t) \<in> set (cp_tasks cp). admits ok (ts_config t) (ts_sandbox_port t)) \<and>
     (\<forall>(k, f) \<in> set (cp_sandboxes cp). \<forall>sp x. f = Inr (sp, x) \<longrightarrow> collects ok sp)"

text \<open>What is asked of a call: the proposals handed in, the harvester of a new task and a new sandbox
  only yield acceptable artifacts.\<close>

fun call_admits :: "(artifact \<Rightarrow> bool) \<Rightarrow> ('x, 'v) api_call \<Rightarrow> bool" where
  "call_admits ok (Configure tc) = harvests ok tc"
| "call_admits ok (Submit i env) = (\<forall>tc h. ok (intake_artifact tc env h))"
| "call_admits ok (Register_Sandbox key f) = (case f of Inr (sp, x) \<Rightarrow> collects ok sp | Inl e \<Rightarrow> True)"
| "call_admits ok _ = True"

lemma collects_all [simp]: "collects (\<lambda>_. True) sp" by (simp add: collects_def)
lemma harvests_all [simp]: "harvests (\<lambda>_. True) tc" by (simp add: harvests_def)
lemma call_admits_all [simp]: "call_admits (\<lambda>_. True) c"
  by (cases c) (auto split: sum.split)

lemma set_dict_put_subset: "set (dict_put k v d) \<subseteq> insert (k, v) (set d)"
  by (induction d) auto

lemma cp_inv_on_task:
  fixes m :: "('x, 'v, 'a) session_op"
  assumes "keeps (safe P (\<lambda>tc sp. admits ok tc sp)) m"
  shows "keeps (cp_inv P ok) (on_task i m)"
proof (rule keepsI)
  fix cp :: "('x, 'v) control_plane"
  assume cp: "cp_inv P ok cp"
  show "cp_inv P ok (snd (on_task i m cp))"
  proof (cases "map_of (cp_tasks cp) i")
    case None
    then show ?thesis using cp by (simp add: on_task_def cp_task_def)
  next
    case (Some t)
    then have "admits ok (ts_config t) (ts_sandbox_port t)"
      using cp by (auto simp: cp_inv_def dest: map_of_SomeD)
    then have s: "safe P (\<lambda>tc sp. admits ok tc sp) (open_session cp t)"
      using cp by (simp add: cp_inv_def safe_def open_session_def)
    obtain r s' where m: "m (open_session cp t) = (r, s')" by fastforce
    then have "safe P (\<lambda>tc sp. admits ok tc sp) s'" using keepsD [OF assms s] by blast
    then show ?thesis using cp Some m set_dict_put_subset
      by (fastforce simp: on_task_def cp_task_def cp_inv_def safe_def close_session_def)
  qed
qed

lemma cp_inv_factory:
  "cp_inv P ok cp \<Longrightarrow> (k, Inr (sp, x)) \<in> set (cp_sandboxes cp) \<Longrightarrow> collects ok sp"
  unfolding cp_inv_def by blast

lemma cp_inv_register:
  assumes "cp_inv P ok cp" "\<And>sp x. f = Inr (sp, x) \<Longrightarrow> collects ok sp"
  shows "cp_inv P ok (snd (register_sandbox key f cp))"
proof -
  have "collects ok sp" if "(k, Inr (sp, x)) \<in> set (dict_put key f (cp_sandboxes cp))" for k sp x
    using that assms(2) cp_inv_factory [OF assms(1)] set_dict_put_subset [of key f "cp_sandboxes cp"] by blast
  then show ?thesis using assms(1)
    by (auto simp: register_sandbox_def register_provider_def cp_inv_def split: sum.split)
qed

context store_discipline
begin

lemma cp_inv_configure:
  assumes "cp_inv P ok cp" "harvests ok tc"
  shows "cp_inv P ok (snd (configure cs tc cp))"
proof -
  obtain r st where st: "stamp_versions tc (cp_store cp) = (r, st)" by fastforce
  have "P st" using keepsD [OF keeps_stamp _ st] assms(1) by (simp add: cp_inv_def)
  then have inv: "cp_inv P ok (cp\<lparr>cp_store := st\<rparr>)" using assms(1) by (simp add: cp_inv_def)
  have made: "collects ok sp" if "create_provider ''sandbox'' (cp_sandboxes cp) k = Inr (sp, x)" for k sp x
    using that cp_inv_factory [OF assms(1)] by (auto simp: create_provider_def split: option.splits dest: map_of_SomeD)
  show ?thesis
    using st inv made assms(2)
      set_dict_put_subset [of "tc_task_id tc" _ "cp_tasks cp"]
    by (fastforce simp: configure_def bindE_def on_store_def reads_def raise_def modify_def cp_inv_def admits_def
        split: sum.split prod.split)
qed

lemma cp_inv_call:
  assumes "call_admits ok c" "cp_inv P ok cp"
  shows "cp_inv P ok (call_api cs c cp)"
proof -
  have task: "cp_inv P ok (snd (on_task i m cp))" if "keeps (safe P (\<lambda>tc sp. admits ok tc sp)) m" for i m
    using cp_inv_on_task [OF that] assms(2) by (simp add: keeps_def)
  show ?thesis
  proof (cases c)
    case (Submit i env)
    have ok: "\<forall>tc h. ok (intake_artifact tc env h)" using assms(1) Submit by simp
    show ?thesis unfolding Submit call_api.simps cp_submit_proposal_def
      by (intro task safe_submit) (use ok in auto)
  next
    case (Configure tc)
    then show ?thesis using cp_inv_configure assms by simp
  next
    case (Register_Sandbox key f)
    have "collects ok sp" if "f = Inr (sp, x)" for sp x using assms(1) Register_Sandbox that by simp
    from cp_inv_register [OF assms(2) this] show ?thesis by (simp add: Register_Sandbox)
  next
    case (Register_Verifier key f)
    then show ?thesis using assms(2)
      by (auto simp: register_verifier_def register_provider_def cp_inv_def)
  next
    case (Teardown i)
    then show ?thesis unfolding Teardown call_api.simps cp_teardown_def
      by (intro task keeps_bindE safe_with_sandbox safe_with_verifier)
  next
    case (Report i)
    then show ?thesis unfolding Report call_api.simps cp_run_report_def session_report_def
      by (intro task keeps_bindE safe_with_store keeps_tick keeps_reads)
  qed (auto simp: cp_serve_context_def cp_run_cycle_def cp_run_def intro!: task safe_serve safe_run_cycle safe_run)
qed

lemma cp_inv_steps:
  "api_steps cs calls cp cp' \<Longrightarrow> list_all (call_admits ok) calls \<Longrightarrow> cp_inv P ok cp \<Longrightarrow> cp_inv P ok cp'"
  by (rule api_steps_keep [where C = "call_admits ok"]) (auto intro: cp_inv_call)

end

end
