(* ===== verification/Control_Claims.thy ===== *)
theory Control_Claims
  imports Control_Laws
begin

text \<open>
  The properties of the control plane as a whole: its history, its audit, its intake, its cycles and
  its runs.
\<close>

section \<open>Stores that audit clean\<close>

lemma propose_Inl:
  assumes "quiescent s" "propose a p s = (Inl e, s')"
  shows "working s' = working s"
proof (cases "art_status a = PROPOSED")
  case True
  define body where "body x = bindE (assert_fresh_id (art_id x)) (\<lambda>_.
     bindE (assert_fresh_op_id (op_id p)) (\<lambda>_. bindE (insert_artifact x) (\<lambda>_. insert_operation p)))"
    for x :: artifact
  obtain x s1 where s1: "(if created_at a \<noteq> [] then ret a
      else bindE tick (\<lambda>now. ret (a\<lparr>created_at := now\<rparr>))) s = (Inr x, s1)"
    by (cases "created_at a = []") (auto simp: bindE_def tick_def ret_def)
  then have q: "quiescent s1" "working s1 = working s" using assms(1)
    by (auto simp: ret_def tick_def bindE_def quiescent_def split: if_splits)
  obtain e' where t: "tx (body x) s1 = (Inl e', s')"
    using assms(2) True s1
    by (auto simp: propose_def bindE_def ret_def body_def split: prod.splits sum.splits)
  have "keeps (inside 1 (committed s1)) (body x)"
    unfolding body_def by (intro keeps_intros)
  from tx_atomic [OF q(1) this t] show ?thesis using q(2) by simp
qed (use assms(2) in \<open>simp add: propose_def raise_def\<close>)

definition row_sound :: "db \<Rightarrow> artifact_row \<Rightarrow> bool" where
  "row_sound d r \<longleftrightarrow> row_provenanced d r \<and> row_pointers d r \<and>
     (\<forall>j. revised_by r = Some j \<longrightarrow> has_artifact j d)"

definition rows_sound :: "db \<Rightarrow> bool" where
  "rows_sound d \<longleftrightarrow> (\<forall>r \<in> set (t_artifacts d). row_sound d r)"

lemmas row_sound_defs = row_sound_def row_provenanced_def row_pointers_def

definition clean :: "store \<Rightarrow> bool" where
  "clean s \<longleftrightarrow> quiescent s \<and> unique_keys (working s) \<and> rows_ok (working s) \<and> rows_sound (working s)"

text \<open>What a proposal must not bring along.\<close>

definition unlinked :: "artifact \<Rightarrow> bool" where
  "unlinked a \<longleftrightarrow> storable (art_payload a) \<and> revised_by a = None"

lemma clean_parts:
  "clean s \<Longrightarrow> store_inv (\<lambda>c w. unique_keys c \<and> unique_keys w) s \<and> store_inv (\<lambda>c w. rows_ok c \<and> rows_ok w) s"
  by (auto simp: clean_def store_inv_def quiescent_def)

lemma clean_step:
  assumes "clean s" "m s = (r, s')" "keeps quiescent m"
    "keeps (store_inv (\<lambda>c w. unique_keys c \<and> unique_keys w)) m"
    "keeps (store_inv (\<lambda>c w. rows_ok c \<and> rows_ok w)) m" "rows_sound (working s')"
  shows "clean s'"
  using assms keepsD [OF assms(3) _ assms(2)] keepsD [OF assms(4) _ assms(2)] keepsD [OF assms(5) _ assms(2)]
    clean_parts [OF assms(1)] by (simp add: clean_def store_inv_def)

lemma rows_sound_cong:
  assumes "t_artifacts d = t_artifacts e" "set (t_operations d) \<subseteq> set (t_operations e)" "rows_sound d"
  shows "rows_sound e"
proof -
  have "has_artifact j d = has_artifact j e" for j using assms(1) by (simp add: has_artifact_def)
  then have "row_sound d r \<Longrightarrow> row_sound e r" for r
    using assms(2) by (auto simp: row_sound_defs)
  then show ?thesis using assms(1,3) by (simp add: rows_sound_def)
qed

lemma rows_sound_map:
  assumes "rows_sound d" "\<And>r. art_id (f r) = art_id r"
    "\<And>r. r \<in> set (t_artifacts d) \<Longrightarrow> art_id r = i \<Longrightarrow> row_sound d r \<Longrightarrow> row_sound d (f r)"
  shows "rows_sound (map_row i f d)"
proof -
  have "row_sound (map_row i f d) y = row_sound d y" for y
    using assms(2) by (simp add: row_sound_defs)
  then show ?thesis using assms(1,3) by (auto simp: rows_sound_def map_row_def [of i f d])
qed

lemma rows_sound_link:
  "rows_sound d \<Longrightarrow> has_artifact j d \<Longrightarrow>
     rows_sound (map_row i (\<lambda>r. r\<lparr>art_status := REVISED, revised_by := Some j\<rparr>) d)"
  by (rule rows_sound_map) (simp_all add: row_sound_defs)

lemma rows_sound_superseded:
  "rows_sound d \<Longrightarrow> has_artifact i d \<Longrightarrow>
     rows_sound (map_row j (\<lambda>r. r\<lparr>art_status := SUPERSEDED, superseded_by := Some i\<rparr>) d)"
  by (rule rows_sound_map) (simp_all add: row_sound_defs)

lemma rows_sound_status:
  assumes "rows_sound d" "\<And>x. x \<in> set (t_artifacts d) \<Longrightarrow> art_id x = i \<Longrightarrow> row_provenanced d (x\<lparr>art_status := st\<rparr>)"
    "st \<noteq> SUPERSEDED"
  shows "rows_sound (map_row i (\<lambda>r. r\<lparr>art_status := st\<rparr>) d)"
  using assms(1)
proof (rule rows_sound_map)
  fix r assume r: "r \<in> set (t_artifacts d)" "art_id r = i" "row_sound d r"
  show "row_sound d (r\<lparr>art_status := st\<rparr>)"
    using assms(2) [OF r(1,2)] assms(3) r(3) by (simp add: row_sound_def row_pointers_def)
qed simp

lemma rows_sound_snoc:
  assumes "rows_sound d" "art_status r = PROPOSED" "revised_by r = None"
  shows "rows_sound (d\<lparr>t_artifacts := t_artifacts d @ [r], t_operations := t_operations d @ ps\<rparr>)"
proof -
  have "row_sound (d\<lparr>t_artifacts := t_artifacts d @ [r], t_operations := t_operations d @ ps\<rparr>) x"
    if "row_sound d x" for x
    using that by (auto simp: row_sound_defs has_artifact_iff)
  then show ?thesis using assms by (auto simp: rows_sound_def) (simp add: row_sound_defs)
qed

lemma rows_sound_propose:
  assumes "rows_sound (working s)" "propose a p s = (Inr x, s')" "unlinked a"
  shows "rows_sound (working s')"
proof -
  obtain q where x: "art_stamp a x" "art_status a = PROPOSED" and w: "working s' = (working s)\<lparr>
       t_artifacts := t_artifacts (working s) @ [artifact_to_row x],
       t_operations := t_operations (working s) @ [q]\<rparr>"
    using propose_Inr [OF assms(2)] by blast
  have "art_status x = PROPOSED" "revised_by x = None"
    using art_stamp_sel [OF x(1)] x(2) assms(3) by (simp_all add: unlinked_def)
  then show ?thesis unfolding w by (intro rows_sound_snoc assms(1)) simp_all
qed

lemma rows_sound_settle:
  assumes "clean s" "get_artifact (art_id a) s = Inr (Some a)" "settle a b ex s = (Inr r, s')"
  shows "rows_sound (working s')"
proof -
  obtain new where t: "terminal_effect a b ex (cr_decisions r) (s\<lparr>working :=
        (working s)\<lparr>t_decisions := t_decisions (working s) @ new\<rparr>\<rparr>) r (working s')"
    using settle_Inr [OF assms(3)] by blast
  let ?d = "(working s)\<lparr>t_decisions := t_decisions (working s) @ new\<rparr>"
  have rs: "rows_sound (working s)" using assms(1) by (simp add: clean_def)
  have d: "rows_sound ?d" by (rule rows_sound_cong [OF _ _ rs]) simp_all
  have own: "is_root x = is_root a" if "x \<in> set (t_artifacts (working s))" "art_id x = art_id a" for x
  proof -
    have "row_to_artifact x = Inr a" using find_key_row [OF assms(2) _ that] assms(1) by (simp add: clean_def)
    from row_to_artifact_fields [OF this] show ?thesis by simp
  qed
  have legal: "vb_status b \<in> {REJECTED, REVISED, TENTATIVE, ACCEPTED}"
    using t by (auto simp: terminal_effect_def from_proposed)
  have prov: "row_provenanced ?d (x\<lparr>art_status := final_status b ex\<rparr>)"
    if "x \<in> set (t_artifacts ?d)" "art_id x = art_id a" for x
    using t own [of x] that by (auto simp: terminal_effect_def row_provenanced_def provenanced_def)
  have st: "rows_sound (map_row (art_id a) (\<lambda>r. r\<lparr>art_status := final_status b ex\<rparr>) ?d)"
    using legal by (intro rows_sound_status d prov) (auto simp: final_status_def)
  have ha: "has_artifact (art_id a) ?d"
    using get_artifact_exists [OF assms(2)] by (simp add: has_artifact_iff)
  show ?thesis
  proof (cases "vb_status b = ACCEPTED \<and> vb_supersedes b \<noteq> None")
    case True
    then obtain j where "working s' = map_row j (\<lambda>r. r\<lparr>art_status := SUPERSEDED, superseded_by := Some (art_id a)\<rparr>)
        (map_row (art_id a) (\<lambda>r. r\<lparr>art_status := final_status b ex\<rparr>) ?d)"
      using t by (auto simp: terminal_effect_def settled_rows_def final_status_def)
    then show ?thesis using st ha by (simp add: rows_sound_superseded)
  next
    case False
    then have "working s' = map_row (art_id a) (\<lambda>r. r\<lparr>art_status := final_status b ex\<rparr>) ?d"
      using t by (auto simp: terminal_effect_def settled_rows_def final_status_def
          split: artifact_status.split option.split)
    then show ?thesis using st by simp
  qed
qed

lemma clean_untouched: "clean s \<Longrightarrow> quiescent s' \<Longrightarrow> working s' = working s \<Longrightarrow> clean s'"
  by (simp add: clean_def)

lemma clean_keeps:
  assumes "keeps quiescent m" "keeps (store_inv (\<lambda>c w. unique_keys c \<and> unique_keys w)) m"
    "keeps (store_inv (\<lambda>c w. rows_ok c \<and> rows_ok w)) m"
    "\<And>s r s'. clean s \<Longrightarrow> m s = (r, s') \<Longrightarrow> rows_sound (working s')"
  shows "keeps clean m"
proof (rule keepsI)
  fix s assume "clean s"
  moreover obtain r s' where "m s = (r, s')" by fastforce
  ultimately show "clean (snd (m s))" using clean_step [OF _ _ assms(1-3)] assms(4) by simp
qed

interpretation clean: store_discipline clean unlinked
proof
  show "keeps clean tick" by (auto simp: keeps_def tick_def clean_def quiescent_def)
  show "keeps clean (put_object data)" for data
    by (auto simp: keeps_def put_object_def Let_def clean_def quiescent_def ret_def raise_def split: option.split)
  show "keeps clean (propose a p)" if u: "unlinked a" for a p
  proof (rule clean_keeps)
    fix s r s' assume "clean s" "propose a p s = (r, s')"
    then show "rows_sound (working s')"
      using propose_Inl [of s a p _ s'] rows_sound_propose [OF _ _ u] by (cases r) (auto simp: clean_def)
  qed (use u in \<open>auto intro: keeps_intros keys.inv_writes rows.inv_writes simp: unlinked_def\<close>)
  show "keeps clean (link_revision i j)" for i j
  proof (rule clean_keeps)
    fix s r s' assume c: "clean s" and l: "link_revision i j s = (r, s')"
    show "rows_sound (working s')"
    proof (cases r)
      case (Inl e)
      have "keeps (inside 1 (committed s)) (bindE (require_artifact i) (\<lambda>_. bindE (require_artifact j) (\<lambda>_.
         upd (map_row i (\<lambda>r. r\<lparr>art_status := REVISED, revised_by := Some j\<rparr>)))))"
        by (intro keeps_intros)
      from tx_atomic [OF _ this, of r s'] show ?thesis using c l Inl
        by (simp add: link_revision_def clean_def)
    next
      case (Inr u)
      then show ?thesis using link_revision_Inr [of i j s u s'] l c rows_sound_link
        by (auto simp: clean_def)
    qed
  qed (auto intro: keeps_intros keys.inv_writes rows.inv_writes)
  show "clean (snd (settle a b ex s))"
    if c: "clean s" and a: "get_artifact (art_id a) s = Inr (Some a)" "art_status a = PROPOSED" for a b ex s
  proof -
    obtain r s' where st: "settle a b ex s = (r, s')" by fastforce
    have "rows_sound (working s')"
      using st rows_sound_settle [OF c a(1)] settle_Inl [of s a b ex _ s'] c by (cases r) (auto simp: clean_def)
    from clean_step [OF c st keeps_quiescent_settle keys.inv_settle rows.inv_settle this]
    show ?thesis by (simp add: st)
  qed
  show "keeps clean (record_cycle_failure k d t)" for k d t
  proof (rule clean_keeps)
    fix s r s' assume "clean s" "record_cycle_failure k d t s = (r, s')"
    then show "rows_sound (working s')"
      by (auto simp: record_cycle_failure_def insert_cycle_failure_def store_eval clean_def commit_def rollback_def
          quiescent_def Let_def raise_def elim!: rows_sound_cong [rotated 2] split: if_splits option.splits)
  qed (auto intro: keeps_intros keys.inv_writes rows.inv_writes)
  show schema: "keeps clean (register_schema_version sv)" for sv
  proof (rule clean_keeps)
    fix s r s' assume "clean s" "register_schema_version sv s = (r, s')"
    then show "rows_sound (working s')"
      by (auto simp: register_schema_version_def store_eval clean_def commit_def rollback_def quiescent_def Let_def
          elim!: rows_sound_cong [rotated 2] split: if_splits)
  qed (auto intro: keeps_intros keys.inv_writes rows.inv_writes)
  show "keeps clean (register_contract_version cv)" for cv
  proof (rule clean_keeps)
    fix s r s' assume "clean s" "register_contract_version cv s = (r, s')"
    then show "rows_sound (working s')"
      by (auto simp: register_contract_version_def store_eval clean_def commit_def rollback_def quiescent_def Let_def
          elim!: rows_sound_cong [rotated 2] split: if_splits option.splits)
  qed (auto intro: keeps_intros keys.inv_writes rows.inv_writes)
qed

section \<open>A small control plane\<close>

definition demo_config :: task_config where
  "demo_config = \<lparr>tc_task_id = ''t'', tc_instructions = ''do'', tc_domain_instructions = ''dom'',
     tc_schema = empty_schema, tc_gated = [(''Note'', [])], tc_retrieval = default_select False,
     tc_shape_validator = (\<lambda>_. Inr None), tc_object_namer = (\<lambda>_. Inr []), tc_sandbox_key = ''sb'',
     tc_verifier_key = ''v'', tc_tenant_id = ''me'', tc_data_sources = [], tc_context_files = [],
     tc_provisioning = default_provisioning, tc_harvester = None, tc_contract = WORKSPACE_CONTRACT\<rparr>"

definition demo_envelope :: "string \<Rightarrow> proposal_envelope" where
  "demo_envelope i = \<lparr>pe_artifact = demo_artifact i (PJson (JObj [])), pe_operation = demo_operation (''op-'' @ i) i,
     pe_metadata = ''because'', pe_objects = [(''f'', [1])], pe_telemetry = None, pe_transcript = None\<rparr>"

definition demo_port :: "unit sandbox_port" where
  "demo_port = \<lparr>sb_serve = (\<lambda>_. ret ()), sb_collect = ret (demo_envelope ''a''), sb_regenerate = ret (),
     sb_provision = ret (), sb_teardown = ret ()\<rparr>"

definition demo_service :: "verdict_bundle \<Rightarrow> unit verifier_service" where
  "demo_service b = \<lparr>vp_identity = ''gate'', vp_dispatch = (\<lambda>_. ret b), vp_late = (\<lambda>_ _ _. None),
     vp_provision = ret (), vp_teardown = ret ()\<rparr>"

definition demo_settings :: settings where
  "demo_settings = \<lparr>st_policy = default_policy, st_assembler = default_assembler, st_timeout = None,
     st_timer = (\<lambda>n. of_nat n), st_run_ids = (\<lambda>n. nat_str n), st_show_float = (\<lambda>_. ''''), st_loads = (\<lambda>_. None)\<rparr>"

definition demo_plane :: "(unit, unit) control_plane" where
  "demo_plane = \<lparr>cp_store = demo_store, cp_timer_reads = 0, cp_runs_minted = 0, cp_records = [],
     cp_sandboxes = [], cp_verifiers = [], cp_tasks = []\<rparr>"

definition demo_calls :: "(unit, unit) api_call list" where
  "demo_calls = [Register_Sandbox ''sb'' (Inr (demo_port, ())), Register_Verifier ''v'' (Inr (demo_service demo_bundle, ())),
     Configure demo_config, Run_Cycle ''t'' ''g'' '''', Run ''t'' ''g'', Teardown ''t'']"

definition demo_session :: "verdict_bundle \<Rightarrow> (unit, unit) session" where
  "demo_session b = \<lparr>ss_store = demo_store, ss_timer_reads = 0, ss_runs_minted = 0, ss_records = [],
     ss_config = demo_config, ss_sandbox_port = demo_port, ss_verifier_port = demo_service b,
     ss_sandbox = (), ss_verifier = (), ss_rationale = [], ss_history = [],
     ss_run = \<lparr>ctx_tenant_id = ''me'', ctx_run_id = '''', ctx_cycle = 0\<rparr>\<rparr>"

lemma api_steps_fold: "api_steps cs calls cp (fold (call_api cs) calls cp)"
  by (induction calls arbitrary: cp) (auto intro: api_steps.intros)

lemma demo_clean [simp]: "clean demo_store"
  by (simp add: clean_def unique_keys_def rows_ok_def rows_sound_def empty_db_def)

lemma demo_calls_admitted: "list_all (call_admits unlinked) demo_calls"
  by (auto simp: demo_calls_def collects_def harvests_def demo_port_def ret_def demo_envelope_def unlinked_def
      intake_artifact_def demo_artifact_def Let_def clean_payload_def storable_def dump_payload_def
      load_payload_def demo_config_def allowed_keys_def split: option.split)

section \<open>Claims about the whole control plane\<close>

text \<open>C10. The audit record is append-only under the whole API: along any sequence of calls, whatever
  the sandboxes, verifiers and domain hooks do and wherever calls fail, rows are never removed,
  reordered or rewritten except for an artifact's status and its two pointers, the durable database
  is extended the same way, and no transaction is left open.\<close>

theorem control_plane_history_append_only:
  assumes "api_steps cs calls cp cp'" "quiescent (cp_store cp)"
  shows "append_only (working (cp_store cp)) (working (cp_store cp')) \<and>
    append_only (committed (cp_store cp)) (committed (cp_store cp')) \<and> quiescent (cp_store cp')"
proof -
  let ?c = "committed (cp_store cp)"
  have all: "cp_inv P (\<lambda>_. True) cp = P (cp_store cp)" for P cp
    by (auto simp: cp_inv_def admits_def)
  have "list_all (call_admits (\<lambda>_. True)) calls" by (simp add: list_all_iff)
  moreover have "store_inv (history ?c) (cp_store cp)"
    using assms(2) by (simp add: store_inv_def history_def quiescent_def)
  ultimately have "store_inv (history ?c) (cp_store cp')" "quiescent (cp_store cp')"
    using hist.discipline.cp_inv_steps [OF assms(1), of ?c] quiet.cp_inv_steps [OF assms(1)] assms(2)
    by (simp_all add: all)
  then show ?thesis using assms(2) by (auto simp: store_inv_def history_def quiescent_def)
qed

theorem control_plane_history_append_only_witness:
  "quiescent (cp_store (fold (call_api demo_settings) demo_calls demo_plane))"
proof -
  have "quiescent (cp_store demo_plane)" by (simp add: demo_plane_def)
  with control_plane_history_append_only [OF api_steps_fold] show ?thesis by blast
qed

text \<open>C2. The system keeps itself auditable: starting from a clean store with no task, whatever calls
  are made and whatever the verifiers and hooks do, the audit of the store returns no violation, as
  long as no proposal brings a revision pointer or an undecodable payload with it.\<close>

theorem control_plane_audits_clean:
  assumes "api_steps cs calls cp cp'" "clean (cp_store cp)" "cp_tasks cp = []" "cp_sandboxes cp = []"
    "list_all (call_admits unlinked) calls"
  shows "audit (cp_store cp') = Inr []"
proof -
  have "cp_inv clean unlinked cp" using assms(2-4) by (simp add: cp_inv_def)
  from clean.cp_inv_steps [OF assms(1,5) this] have c: "clean (cp_store cp')" by (simp add: cp_inv_def)
  then have "audit_sound (working (cp_store cp'))"
    by (auto simp: clean_def audit_sound_def unique_keys_def rows_sound_def row_sound_def)
  then show ?thesis using audit_certifies [of "cp_store cp'"] c by (auto simp: clean_def)
qed

theorem control_plane_audits_clean_witness:
  "audit (cp_store (fold (call_api demo_settings) demo_calls demo_plane)) = Inr []"
  by (rule control_plane_audits_clean [OF api_steps_fold _ _ _ demo_calls_admitted])
    (simp_all add: demo_plane_def)

end
