(* ===== verification/Intake_Claims.thy ===== *)
theory Intake_Claims
  imports Control_Claims
begin

text \<open>
  What proposal intake lets into durable state, what it keeps from the gate, and what it leaves
  behind when it fails.
\<close>

section \<open>The two ways an intake returns\<close>

lemma with_store_ok: "with_store m s = (r, s') \<longleftrightarrow> (\<exists>st. m (ss_store s) = (r, st) \<and> s' = s\<lparr>ss_store := st\<rparr>)"
  by (auto simp: with_store_def split: prod.splits)

lemma session_commit_ok:
  "session_commit cs i objs ex s = (r, s') \<longleftrightarrow>
     (\<exists>st v. run_commit i (resolve_gate (tc_gated (ss_config s)))
        (port_dispatch (ss_verifier_port s) (st_timeout cs) (tc_gated (ss_config s)) objs)
        (vp_identity (ss_verifier_port s)) ex (ss_store s, ss_verifier s) = (r, (st, v)) \<and>
      s' = s\<lparr>ss_store := st, ss_verifier := v\<rparr>)"
  by (auto simp: session_commit_def split: prod.splits)

lemma enter_ok:
  "enter_proposal env s = (Inr (a, objs, harvested), s') \<longleftrightarrow>
     (\<exists>declared st0 st1 st2 x. tc_object_namer (ss_config s) (pe_artifact env) = Inr declared \<and>
        objs = declared_objects declared (pe_objects env) \<and>
        put_objects objs (ss_store s) = (Inr harvested, st0) \<and> a = intake_artifact (ss_config s) env harvested \<and>
        propose a (pe_operation env) st0 = (Inr x, st1) \<and>
        link_revision_if_any (pe_operation env) (art_id a) st1 = (Inr (), st2) \<and>
        s' = s\<lparr>ss_store := st2, ss_rationale := note_rationale env a (ss_rationale s)\<rparr>)"
  unfolding enter_proposal_def bindE_ok reads_eq gets_eq modify_eq with_store_ok Let_def ret_eq
  by fastforce

lemma submit_Inr:
  assumes "submit_proposal cs env s = (Inr r, s')"
  shows "(\<exists>m. check_shape (ss_config s) env = Inr (Some m) \<and> r = no_result\<lparr>ir_shape_error := Some m\<rparr> \<and> s' = s) \<or>
    (\<exists>a objs harvested s1. check_shape (ss_config s) env = Inr None \<and>
       enter_proposal env s = (Inr (a, objs, harvested), s1) \<and>
       commit_proposal cs env a objs harvested s1 = (Inr r, s'))"
proof -
  obtain sh where sh: "check_shape (ss_config s) env = Inr sh"
    using assms by (auto simp: submit_proposal_def bindE_ok reads_eq)
  show ?thesis
  proof (cases sh)
    case (Some m)
    then show ?thesis using assms sh by (simp add: submit_proposal_def bindE_def reads_eq ret_eq)
  next
    case None
    then show ?thesis using assms sh
      by (auto simp: submit_proposal_def bindE_ok reads_eq)
  qed
qed

lemma commit_proposal_Inr:
  assumes "commit_proposal cs env a objs harvested s = (Inr r, s')"
  shows "\<exists>n c. count_lineage_refines (ss_store s) (pe_operation env) = Inr n \<and>
    fst (session_commit cs (art_id a) objs (int n \<ge> refine_cap (st_policy cs)) s) = Inr c \<and>
    ir_entered r \<and> ir_shape_error r = None \<and> ir_commit r = Some c \<and> ir_harvested r = harvested \<and>
    ir_sandbox_error r = None \<and> ir_gate_error r = None"
  using assms by (auto simp: commit_proposal_def bindE_ok reads_eq gets_eq ret_eq no_result_def)

text \<open>A malformed proposal records nothing: intake either stops at the shape check, and then the
  whole session is exactly as before (no object, no row, no rationale, no call to the verifier) and the
  result carries the correction, or the payload is a JSON object with every required key that the
  domain accepted, and the result carries a commit.\<close>

lemma shape_errors_record_nothing:
  assumes "submit_proposal cs env s = (Inr r, s')"
  shows "\<not> ir_entered r \<and> s' = s \<and> check_shape (ss_config s) env = Inr (ir_shape_error r) \<and> ir_shape_error r \<noteq> None \<or>
    ir_entered r \<and> ir_shape_error r = None \<and> ir_commit r \<noteq> None \<and>
    (\<exists>kvs. art_payload (pe_artifact env) = PJson (JObj kvs) \<and>
      tc_shape_validator (ss_config s) (pe_artifact env) = Inr None \<and>
      (\<forall>sg. sr_operation (tc_schema (ss_config s)) (op_name (pe_operation env)) = Some sg \<longrightarrow>
        set (required_payload_keys sg) \<subseteq> fst ` set kvs))"
  using submit_Inr [OF assms]
proof (elim disjE exE conjE)
  fix m assume "check_shape (ss_config s) env = Inr (Some m)" "r = no_result\<lparr>ir_shape_error := Some m\<rparr>" "s' = s"
  then show ?thesis by (simp add: no_result_def)
next
  fix a objs harvested s1
  assume e: "check_shape (ss_config s) env = Inr None"
    and c: "commit_proposal cs env a objs harvested s1 = (Inr r, s')"
  from e have "\<exists>kvs. art_payload (pe_artifact env) = PJson (JObj kvs) \<and>
      tc_shape_validator (ss_config s) (pe_artifact env) = Inr None \<and>
      (\<forall>sg. sr_operation (tc_schema (ss_config s)) (op_name (pe_operation env)) = Some sg \<longrightarrow>
        set (required_payload_keys sg) \<subseteq> fst ` set kvs)"
    by (auto simp: check_shape_def Let_def filter_empty_conv subset_iff
        split: payload.splits json.splits option.splits if_splits)
  then show ?thesis using commit_proposal_Inr [OF c] by auto
qed

section \<open>Stored objects\<close>

definition stored_hashes :: "store \<Rightarrow> string set" where
  "stored_hashes s = fst ` set (dir_objects s) \<union> fst ` set (mem_objects s)"

definition holds_only :: "(bytes \<Rightarrow> string) \<Rightarrow> string set \<Rightarrow> store \<Rightarrow> bool" where
  "holds_only f H s \<longleftrightarrow> sha256 s = f \<and> stored_hashes s \<subseteq> H"

lemma holds_only_frame [simp]:
  "holds_only f H (s\<lparr>working := w\<rparr>) = holds_only f H s" "holds_only f H (s\<lparr>committed := w\<rparr>) = holds_only f H s"
  "holds_only f H (s\<lparr>tx_depth := n\<rparr>) = holds_only f H s" "holds_only f H (s\<lparr>ticks := n\<rparr>) = holds_only f H s"
  by (simp_all add: holds_only_def stored_hashes_def)

lemma holds_only_tick [keeps_intros]: "keeps (holds_only f H) tick"
  by (simp add: keeps_def tick_def)

lemma holds_only_upd [keeps_intros]: "keeps (holds_only f H) (upd g)"
  by (simp add: keeps_def upd_def modify_def)

lemma holds_only_tx [keeps_intros]:
  assumes "keeps (holds_only f H) m"
  shows "keeps (holds_only f H) (tx m)"
proof (rule keepsI)
  fix s assume s: "holds_only f H s"
  obtain r s2 where m: "m (s\<lparr>tx_depth := Suc (tx_depth s)\<rparr>) = (r, s2)" by fastforce
  have "holds_only f H s2" using keepsD [OF assms _ m] s by simp
  then show "holds_only f H (snd (tx m s))"
    using m by (cases r) (simp_all add: tx_def Let_def rollback_def commit_def)
qed

lemma holds_only_insert_operation [keeps_intros]: "keeps (holds_only f H) (insert_operation p)"
proof -
  have "keeps (holds_only f H) (\<lambda>s. if \<exists>q \<in> set (t_operations (working s)). op_id q = op_id p
       then raise (IntegrityError ''UNIQUE constraint failed: operations.op_id'') s
       else upd (\<lambda>d. d\<lparr>t_operations := t_operations d @ [p\<lparr>op_created_at := ts\<rparr>]\<rparr>) s)" for ts
    by (rule keeps_state_if) (simp add: upd_def modify_def)
  then show ?thesis unfolding insert_operation_def by (intro keeps_bindE keeps_or_clock holds_only_tick)
qed

lemma holds_only_insert_artifact [keeps_intros]: "keeps (holds_only f H) (insert_artifact a)"
  unfolding insert_artifact_def by (rule keeps_state_if) (simp add: upd_def modify_def)

lemma keys_dict_put: "fst ` set (dict_put k v d) = insert k (fst ` set d)"
  by (induction d) auto

lemma holds_only_put: "f data \<in> H \<Longrightarrow> keeps (holds_only f H) (put_object data)"
  by (simp add: keeps_def put_object_def Let_def holds_only_def stored_hashes_def ret_def raise_def
      keys_dict_put split: option.split)

lemma holds_only_set_status: "keeps (holds_only f H) (set_status i st)"
  "keeps (holds_only f H) (accept_superseding i j)" "keeps (holds_only f H) (link_revision i j)"
  unfolding set_status_def accept_superseding_def link_revision_def by (intro keeps_intros)+

lemma holds_only_record: "keeps (holds_only f H) (record_decision d)"
  unfolding record_decision_def insert_decision_def by (intro keeps_intros)

interpretation objs: commit_discipline "holds_only f H" "\<lambda>_. True" for f H
proof
  show "keeps (holds_only f H) tick" by (rule holds_only_tick)
  show "keeps (holds_only f H) (propose a p)" for a p
    unfolding propose_def by (intro keeps_intros)
  show "keeps (holds_only f H) (link_revision i j)" for i j by (rule holds_only_set_status)
  show "holds_only f H (snd (settle a b ex s))" if "holds_only f H s" for a b ex s
  proof -
    have "keeps (holds_only f H) (settle a b ex)"
      unfolding settle_def transaction_def
      by (intro holds_only_tx keeps_bindE keeps_record_rulings keeps_write_terminal holds_only_tick
          holds_only_record holds_only_set_status)
    then show ?thesis using that by (simp add: keeps_def)
  qed
qed

text \<open>The proposal's own row, from the moment it is proposed.\<close>

lemma put_objects_Inr:
  "put_objects objs s = (Inr hs, s') \<Longrightarrow> working s' = working s \<and> sha256 s' = sha256 s \<and>
     map (\<lambda>(n, ref). (n, content_hash ref)) hs = map (\<lambda>(n, data). (n, sha256 s data)) objs \<and>
     (quiescent s \<longrightarrow> quiescent s')"
proof (induction objs arbitrary: s hs)
  case (Cons o1 objs)
  obtain n data where o1: "o1 = (n, data)" by (cases o1)
  from Cons.prems obtain ref s1 rest where p: "put_object data s = (Inr ref, s1)"
    "put_objects objs s1 = (Inr rest, s')" "hs = (n, ref) # rest"
    by (auto simp: put_objects_def o1 bindE_ok ret_eq)
  have "working s1 = working s \<and> sha256 s1 = sha256 s \<and> content_hash ref = sha256 s data \<and> (quiescent s \<longrightarrow> quiescent s1)"
    using p(1) by (auto simp: put_object_def Let_def ret_def raise_def quiescent_def split: if_splits option.splits)
  then show ?case using Cons.IH [OF p(2)] p(3) o1 by simp
qed (simp add: put_objects_def ret_eq)

lemma enter_row:
  assumes "enter_proposal env s = (Inr (a, objs, harvested), s1)" "quiescent (ss_store s)"
  shows "\<exists>row \<in> set (t_artifacts (working (ss_store s1))). art_id row = art_id (pe_artifact env) \<and>
     art_payload row = dump_payload (clean_payload (ss_config s) (pe_operation env) (art_payload (pe_artifact env))) \<and>
     objects row = (if harvested \<noteq> [] then harvested else objects (pe_artifact env))"
    "quiescent (ss_store s1)"
proof -
  obtain declared st0 st1 st2 x where e: "put_objects objs (ss_store s) = (Inr harvested, st0)"
    "a = intake_artifact (ss_config s) env harvested" "propose a (pe_operation env) st0 = (Inr x, st1)"
    "link_revision_if_any (pe_operation env) (art_id a) st1 = (Inr (), st2)" "ss_store s1 = st2"
    using assms(1) by (auto simp: enter_ok)
  have q0: "quiescent st0" using put_objects_Inr [OF e(1)] assms(2) by simp
  have q1: "quiescent st1" using keepsD [OF keeps_quiescent_propose q0 e(3)] .
  have q2: "quiescent st2" using keepsD [OF quiet.keeps_link_if_any q1 e(4)] .
  show "quiescent (ss_store s1)" using q2 e(5) by simp
  obtain row where row: "row \<in> set (t_artifacts (working st1))" "art_id row = art_id a"
    "art_payload row = dump_payload (art_payload a)" "objects row = objects a"
  proof -
    obtain q where "art_stamp a x" "working st1 = (working st0)\<lparr>
       t_artifacts := t_artifacts (working st0) @ [artifact_to_row x],
       t_operations := t_operations (working st0) @ [q]\<rparr>" using propose_Inr [OF e(3)] by blast
    then show thesis using that [of "artifact_to_row x"] art_stamp_sel [of a x] by simp
  qed
  have "store_inv (history (working st1)) st1" using q1 by (simp add: store_inv_def history_def quiescent_def)
  from keepsD [OF hist.discipline.keeps_link_if_any this e(4)]
  have "append_only (working st1) (working st2)" using q2 by (auto simp: store_inv_def history_def quiescent_def)
  then obtain row' where "row' \<in> set (t_artifacts (working st2))" "row_frozen row row'"
    using append_only_row row(1) by blast
  then show "\<exists>row \<in> set (t_artifacts (working (ss_store s1))). art_id row = art_id (pe_artifact env) \<and>
     art_payload row = dump_payload (clean_payload (ss_config s) (pe_operation env) (art_payload (pe_artifact env))) \<and>
     objects row = (if harvested \<noteq> [] then harvested else objects (pe_artifact env))"
    using row(2-4) e(2,5) by (intro bexI [of _ row']) (auto simp: row_frozen_def intake_artifact_def Let_def)
qed

lemma commit_proposal_history:
  assumes "commit_proposal cs env a objs harvested s = (r, s')" "quiescent (ss_store s)"
  shows "append_only (working (ss_store s)) (working (ss_store s'))"
proof -
  have "safe (store_inv (history (working (ss_store s)))) (\<lambda>_ _. True) s" "safe quiescent (\<lambda>_ _. True) s"
    using assms(2) by (simp_all add: safe_def store_inv_def history_def quiescent_def)
  from keepsD [OF hist.discipline.safe_commit_proposal this(1) assms(1)]
    keepsD [OF quiet.safe_commit_proposal this(2) assms(1)]
  show ?thesis
    by (auto simp: safe_def store_inv_def history_def quiescent_def
        hist.discipline.keeps_transcript quiet.keeps_transcript)
qed

text \<open>The keys an operation declares for its payload, and a recorded payload that agrees with a proposed
  one on them: when the operation declares keys, an object keeps its fields under declared keys, with
  their values, and no others; any other payload is recorded as it is.\<close>

definition declares :: "task_config \<Rightarrow> operation \<Rightarrow> string \<Rightarrow> bool" where
  "declares tc op k \<longleftrightarrow> (case sr_operation (tc_schema tc) (op_name op) of
      Some sg \<Rightarrow> k \<in> set (required_payload_keys sg) \<or> k \<in> set (object_payload_keys sg)
    | None \<Rightarrow> False)"

definition declared_part :: "task_config \<Rightarrow> operation \<Rightarrow> payload \<Rightarrow> json \<Rightarrow> bool" where
  "declared_part tc op p j \<longleftrightarrow>
     (if \<exists>k. declares tc op k
      then \<forall>kvs. p = PJson (JObj kvs) \<longrightarrow>
        (\<exists>kvs'. j = JObj kvs' \<and> set kvs' = {(k, v). (k, v) \<in> set kvs \<and> declares tc op k})
      else j = dump_payload p)"

lemma clean_payload_declared: "declared_part tc op p (dump_payload (clean_payload tc op p))"
proof (cases "sr_operation (tc_schema tc) (op_name op)")
  case (Some sg)
  have "(\<exists>k. declares tc op k) \<longleftrightarrow> allowed_keys tc op \<noteq> []"
    using Some by (auto simp: declares_def allowed_keys_def ex_in_conv [symmetric] simp del: ex_in_conv)
      (metis list.set_intros(1) neq_Nil_conv)+
  moreover have "declares tc op k \<longleftrightarrow> k \<in> set (allowed_keys tc op)" for k
    using Some by (simp add: declares_def allowed_keys_def)
  ultimately show ?thesis
    by (auto simp: declared_part_def clean_payload_def dump_payload_def split: payload.split json.split)
qed (simp add: declared_part_def declares_def clean_payload_def allowed_keys_def split: payload.split json.split)

text \<open>C14. Files and payload fields enter durable state by declaration: the object store grows only by
  objects the domain declares for the proposal and by the transcript; and if the proposal is recorded,
  its row holds, of an object payload, the fields under the keys its operation declares, with their
  values, and no other field (an operation that declares no key leaves the payload alone); what is
  harvested is exactly the declared files of the outbox, by the hash of their bytes, and the row refers
  to them. When nothing is harvested the row keeps the references the proposal came with.\<close>

theorem intake_admits_declared_only:
  assumes "submit_proposal cs env s = (Inr r, s')" "quiescent (ss_store s)"
    "tc_object_namer (ss_config s) (pe_artifact env) = Inr declared"
  shows "stored_hashes (ss_store s') \<subseteq> stored_hashes (ss_store s) \<union> sha256 (ss_store s) `
      ({data. \<exists>n \<in> set declared. (n, data) \<in> set (pe_objects env)} \<union> set_option (pe_transcript env)) \<and>
    (ir_entered r \<longrightarrow> (\<exists>row \<in> set (t_artifacts (working (ss_store s'))). art_id row = art_id (pe_artifact env) \<and>
      declared_part (ss_config s) (pe_operation env) (art_payload (pe_artifact env)) (art_payload row) \<and>
      map (\<lambda>(n, ref). (n, content_hash ref)) (ir_harvested r) =
        map (\<lambda>(n, data). (n, sha256 (ss_store s) data)) (filter (\<lambda>(n, _). n \<in> set declared) (pe_objects env)) \<and>
      objects row = (if ir_harvested r \<noteq> [] then ir_harvested r else objects (pe_artifact env))))"(is "_ \<subseteq> ?H \<and> _")
proof (intro conjI impI)
  let ?f = "sha256 (ss_store s)"
  let ?R = "\<lambda>tc sp. tc = ss_config s"
  have start: "safe (holds_only ?f ?H) ?R s" by (simp add: safe_def holds_only_def)
  have put: "keeps (holds_only ?f ?H) (put_object data)" if "?f data \<in> ?H" for data
    using that by (rule holds_only_put)
  have "keeps (safe (holds_only ?f ?H) ?R) (submit_proposal cs env)"
  proof (rule objs.safe_submit_with)
    show "keeps (holds_only ?f ?H) (store_transcript (pe_transcript env))"
      by (rule keeps_transcript_of, rule put) simp
    show "keeps (holds_only ?f ?H) (put_objects (declared_objects d (pe_objects env)))"
      if "tc = ss_config s" "tc_object_namer tc (pe_artifact env) = Inr d" for tc d
      using that assms(3) by (intro keeps_put_objects_of put) (auto simp: declared_objects_def)
  qed simp_all
  from keepsD [OF this start assms(1)] show "stored_hashes (ss_store s') \<subseteq> ?H"
    by (simp add: safe_def holds_only_def)
next
  assume en: "ir_entered r"
  from submit_Inr [OF assms(1)] en obtain a objs harvested s1 where
    e: "enter_proposal env s = (Inr (a, objs, harvested), s1)"
    and c: "commit_proposal cs env a objs harvested s1 = (Inr r, s')"
    by (auto simp: no_result_def)
  obtain st0 where p: "put_objects (declared_objects declared (pe_objects env)) (ss_store s) = (Inr harvested, st0)"
    using e assms(3) by (auto simp: enter_ok)
  have names: "map (\<lambda>(n, ref). (n, content_hash ref)) harvested =
      map (\<lambda>(n, data). (n, sha256 (ss_store s) data)) (filter (\<lambda>(n, _). n \<in> set declared) (pe_objects env))"
    using put_objects_Inr [OF p] by (simp add: declared_objects_def)
  have h: "ir_harvested r = harvested" using commit_proposal_Inr [OF c] by blast
  obtain row where row: "row \<in> set (t_artifacts (working (ss_store s1)))" "art_id row = art_id (pe_artifact env)"
     "art_payload row = dump_payload (clean_payload (ss_config s) (pe_operation env) (art_payload (pe_artifact env)))"
     "objects row = (if harvested \<noteq> [] then harvested else objects (pe_artifact env))"
    using enter_row(1) [OF e assms(2)] by blast
  have "append_only (working (ss_store s1)) (working (ss_store s'))"
    by (rule commit_proposal_history [OF c enter_row(2) [OF e assms(2)]])
  from append_only_row [OF this row(1)] obtain row' where
    "row' \<in> set (t_artifacts (working (ss_store s')))" "row_frozen row row'" by blast
  then show "\<exists>row \<in> set (t_artifacts (working (ss_store s'))). art_id row = art_id (pe_artifact env) \<and>
      declared_part (ss_config s) (pe_operation env) (art_payload (pe_artifact env)) (art_payload row) \<and>
      map (\<lambda>(n, ref). (n, content_hash ref)) (ir_harvested r) =
        map (\<lambda>(n, data). (n, sha256 (ss_store s) data)) (filter (\<lambda>(n, _). n \<in> set declared) (pe_objects env)) \<and>
      objects row = (if ir_harvested r \<noteq> [] then ir_harvested r else objects (pe_artifact env))"
    using row names clean_payload_declared [of "ss_config s" "pe_operation env" "art_payload (pe_artifact env)"]
    by (intro bexI [of _ row']) (auto simp: row_frozen_def h)qed

lemma demo_submit:
  "\<exists>r s'. submit_proposal demo_settings (demo_envelope ''a'') (demo_session demo_bundle) = (Inr r, s') \<and> ir_entered r"
proof -
  have "case submit_proposal demo_settings (demo_envelope ''a'') (demo_session demo_bundle) of
      (Inr r, s') \<Rightarrow> ir_entered r | _ \<Rightarrow> False"
    by code_simp
  then show ?thesis by (auto split: prod.splits sum.splits)
qed

lemma shape_errors_record_nothing_witness:
  "\<exists>r s'. submit_proposal demo_settings (demo_envelope ''a'') (demo_session demo_bundle) = (Inr r, s') \<and>
     ir_commit r \<noteq> None"
proof -
  obtain r s' where r: "submit_proposal demo_settings (demo_envelope ''a'') (demo_session demo_bundle) = (Inr r, s')"
    "ir_entered r" using demo_submit by blast
  from shape_errors_record_nothing [OF r(1)] r show ?thesis by blast
qed

theorem intake_admits_declared_only_witness:
  "\<exists>r s'. submit_proposal demo_settings (demo_envelope ''a'') (demo_session demo_bundle) = (Inr r, s') \<and>
     stored_hashes (ss_store s') = {}"
proof -
  obtain r s' where r: "submit_proposal demo_settings (demo_envelope ''a'') (demo_session demo_bundle) = (Inr r, s')"
    "ir_entered r" using demo_submit by blast
  have "quiescent (ss_store (demo_session demo_bundle))"
    "tc_object_namer (ss_config (demo_session demo_bundle)) (pe_artifact (demo_envelope ''a'')) = Inr []"
    by (simp_all add: demo_session_def demo_config_def)
  from intake_admits_declared_only [OF r(1) this] r(1) show ?thesis
    by (auto simp: demo_session_def stored_hashes_def demo_store_def open_store_def demo_envelope_def)
qed

section \<open>The rationale channel\<close>

text \<open>Two sessions that differ at most in the rationales noted, and operations that take such sessions
  to such sessions with the same result.\<close>

definition erase :: "('x, 'v) session \<Rightarrow> ('x, 'v) session" where
  "erase s = s\<lparr>ss_rationale := []\<rparr>"

definition alike :: "('x, 'v, 'a) session_op \<Rightarrow> ('x, 'v, 'a) session_op \<Rightarrow> bool" where
  "alike m m' \<longleftrightarrow> (\<forall>s t. erase s = erase t \<longrightarrow>
     fst (m s) = fst (m' t) \<and> erase (snd (m s)) = erase (snd (m' t)))"

named_theorems alike_intros

lemma erase_eqD: "erase s = erase t \<Longrightarrow> \<exists>x. t = s\<lparr>ss_rationale := x\<rparr>"
  by (cases s; cases t) (simp add: erase_def)

lemma erase_rationale [simp]: "erase (s\<lparr>ss_rationale := x\<rparr>) = erase s" by (simp add: erase_def)

lemma alikeI: "(\<And>s x. fst (m s) = fst (m' (s\<lparr>ss_rationale := x\<rparr>)) \<and>
    erase (snd (m s)) = erase (snd (m' (s\<lparr>ss_rationale := x\<rparr>)))) \<Longrightarrow> alike m m'"
  unfolding alike_def using erase_eqD by metis

lemma alikeD:
  "alike m m' \<Longrightarrow> erase s = erase t \<Longrightarrow> m s = (r, s1) \<Longrightarrow> m' t = (r', t1) \<Longrightarrow> r' = r \<and> erase s1 = erase t1"
  unfolding alike_def by (metis fst_conv snd_conv)

lemma alike_bindE [alike_intros]:
  fixes m :: "('x, 'v, 'a) session_op"
  assumes "alike m m'" "\<And>x. alike (f x) (f' x)"
  shows "alike (bindE m f) (bindE m' f')"
  unfolding alike_def
proof (intro allI impI)
  fix s t :: "('x, 'v) session"
  assume e: "erase s = erase t"
  obtain r s1 where m: "m s = (r, s1)" by fastforce
  obtain r' t1 where m': "m' t = (r', t1)" by fastforce
  have r: "r' = r" and e1: "erase s1 = erase t1" using alikeD [OF assms(1) e m m'] by simp_all
  show "fst (bindE m f s) = fst (bindE m' f' t) \<and> erase (snd (bindE m f s)) = erase (snd (bindE m' f' t))"
    using m m' e1 assms(2) [unfolded alike_def, rule_format, OF e1] unfolding r
    by (cases r) (simp_all add: bindE_def)
qed

lemma alike_ret [alike_intros]: "alike (ret x) (ret x)" by (simp add: alike_def ret_def)
lemma alike_raise [alike_intros]: "alike (raise e) (raise e)" by (simp add: alike_def raise_def)

lemma alike_gets [alike_intros]: "(\<And>s x. f (s\<lparr>ss_rationale := x\<rparr>) = f s) \<Longrightarrow> alike (gets f) (gets f)"
  by (rule alikeI) (simp add: gets_def)

lemma alike_reads [alike_intros]: "(\<And>s x. f (s\<lparr>ss_rationale := x\<rparr>) = f s) \<Longrightarrow> alike (reads f) (reads f)"
  by (rule alikeI) (simp add: reads_def)

lemma alike_note: "alike (modify (ss_rationale_update f)) (modify (ss_rationale_update g))"
  by (rule alikeI) (simp add: modify_def erase_def)

lemma alike_with_store [alike_intros]: "alike (with_store m) (with_store m)"
  by (rule alikeI) (simp add: with_store_def erase_def split: prod.split)

lemma alike_commit [alike_intros]: "alike (session_commit cs i objs ex) (session_commit cs i objs ex)"
  by (rule alikeI) (simp add: session_commit_def erase_def split: prod.split)

lemma alike_mapM [alike_intros]: "(\<And>x. alike (f x) (f x)) \<Longrightarrow> alike (mapM f xs) (mapM f xs)"
  by (induction xs) (auto intro!: alike_intros)

lemma alike_try [alike_intros]:
  fixes m :: "('x, 'v, 'a) session_op"
  assumes "alike m m" "\<And>e. alike (h e) (h e)"
  shows "alike (try_catch m h) (try_catch m h)"
  unfolding alike_def
proof (intro allI impI)
  fix s t :: "('x, 'v) session"
  assume e: "erase s = erase t"
  obtain r s1 where m: "m s = (r, s1)" by fastforce
  obtain r' t1 where m': "m t = (r', t1)" by fastforce
  have r: "r' = r" and e1: "erase s1 = erase t1" using alikeD [OF assms(1) e m m'] by simp_all
  show "fst (try_catch m h s) = fst (try_catch m h t) \<and>
      erase (snd (try_catch m h s)) = erase (snd (try_catch m h t))"
    using m m' e1 assms(2) [unfolded alike_def, rule_format, OF e1] unfolding r
    by (cases r) (simp_all add: try_catch_def)
qed

lemma alike_Let [alike_intros]: "alike (f x) (f' x) \<Longrightarrow> alike (let y = x in f y) (let y = x in f' y)" by simp

lemma alike_if [alike_intros]: "alike m m \<Longrightarrow> alike m' m' \<Longrightarrow> alike (if b then m else m') (if b then m else m')"
  by simp

lemma alike_harvest: "alike (harvest_children cs h a) (harvest_children cs h a)"
proof -
  have child: "alike (harvest_child cs a pb ic) (harvest_child cs a pb ic)" for pb ic
    by (cases ic) (simp only: harvest_child_def prod.case, intro alike_intros)
  show ?thesis unfolding harvest_children_def by (intro alike_intros child) simp_all
qed

lemma alike_commit_proposal: "alike (commit_proposal cs env a objs harvested) (commit_proposal cs env a objs harvested)"
proof -
  have "alike (case (out, h) of (OUT_ACCEPTED, Some h) \<Rightarrow> try_catch (harvest_children cs h a) (\<lambda>_. ret ()) | _ \<Rightarrow> ret ())
      (case (out, h) of (OUT_ACCEPTED, Some h) \<Rightarrow> try_catch (harvest_children cs h a) (\<lambda>_. ret ()) | _ \<Rightarrow> ret ())"
    for out :: commit_outcome and h
    by (cases out; cases h) (auto intro: alike_intros alike_harvest)
  then show ?thesis unfolding commit_proposal_def by (intro alike_intros) simp_all
qed

text \<open>Two envelopes that agree on what intake is to read: the artifact, the operation, the transcript and,
  when the domain can name them, the declared files of the outbox. The rationale, the telemetry and every
  undeclared file may differ.\<close>

definition same_declared :: "task_config \<Rightarrow> proposal_envelope \<Rightarrow> proposal_envelope \<Rightarrow> bool" where
  "same_declared tc env env' \<longleftrightarrow> pe_artifact env' = pe_artifact env \<and> pe_operation env' = pe_operation env \<and>
     pe_transcript env' = pe_transcript env \<and>
     (\<forall>declared. tc_object_namer tc (pe_artifact env) = Inr declared \<longrightarrow>
        filter (\<lambda>(n, _). n \<in> set declared) (pe_objects env') = filter (\<lambda>(n, _). n \<in> set declared) (pe_objects env))"

lemma alike_rest:
  assumes "pe_artifact env' = pe_artifact env" "pe_operation env' = pe_operation env"
  shows "alike (bindE (with_store (put_objects objs)) (\<lambda>harvested.
       bindE (gets (\<lambda>s. intake_artifact (ss_config s) env harvested)) (\<lambda>a.
       bindE (modify (ss_rationale_update (note_rationale env a))) (\<lambda>_.
       bindE (with_store (propose a (pe_operation env))) (\<lambda>_.
       bindE (with_store (link_revision_if_any (pe_operation env) (art_id a))) (\<lambda>_.
       ret (a, objs, harvested)))))))
     (bindE (with_store (put_objects objs)) (\<lambda>harvested.
       bindE (gets (\<lambda>s. intake_artifact (ss_config s) env' harvested)) (\<lambda>a.
       bindE (modify (ss_rationale_update (note_rationale env' a))) (\<lambda>_.
       bindE (with_store (propose a (pe_operation env'))) (\<lambda>_.
       bindE (with_store (link_revision_if_any (pe_operation env') (art_id a))) (\<lambda>_.
       ret (a, objs, harvested)))))))"
proof -
  have art: "intake_artifact tc env' h = intake_artifact tc env h" for tc h
    by (simp add: intake_artifact_def assms)
  show ?thesis unfolding art assms
    by (rule alike_bindE, rule alike_with_store, rule alike_bindE, rule alike_gets, simp, rule alike_bindE,
        rule alike_note) (intro alike_intros)
qed

lemma enter_same:
  assumes "same_declared (ss_config s) env env'" "enter_proposal env s = (r, s1)" "enter_proposal env' s = (r', t1)"
  shows "r' = r \<and> erase s1 = erase t1"
proof (cases "tc_object_namer (ss_config s) (pe_artifact env)")
  case (Inl e)
  then show ?thesis using assms by (simp add: enter_proposal_def bindE_def reads_def same_declared_def)
next
  case (Inr declared)
  have "declared_objects declared (pe_objects env') = declared_objects declared (pe_objects env)"
    using assms(1) Inr by (simp add: same_declared_def declared_objects_def)
  then show ?thesis
    using alikeD [OF alike_rest [of env' env "declared_objects declared (pe_objects env)"] refl, of s r s1 r' t1] assms Inr
    by (simp add: enter_proposal_def bindE_def [of "reads _"] reads_def same_declared_def Let_def)
qed

lemma submit_same:
  fixes s :: "('x, 'v) session"
  assumes "same_declared (ss_config s) env env'"
  shows "fst (submit_proposal cs env' s) = fst (submit_proposal cs env s) \<and>
    erase (snd (submit_proposal cs env' s)) = erase (snd (submit_proposal cs env s))"
proof -
  have same_fields: "pe_artifact env' = pe_artifact env" "pe_operation env' = pe_operation env"
    "pe_transcript env' = pe_transcript env" using assms by (simp_all add: same_declared_def)
  have shape: "check_shape tc env' = check_shape tc env" for tc
    by (simp only: check_shape_def same_fields)
  have c: "commit_proposal cs env' = commit_proposal cs env"
    by (simp add: commit_proposal_def fun_eq_iff same_fields)
  obtain r s1 where e: "enter_proposal env s = (r, s1)" by fastforce
  obtain r' t1 where e': "enter_proposal env' s = (r', t1)" by fastforce
  have same: "r' = r" "erase s1 = erase t1" using enter_same [OF assms e e'] by simp_all
  have rest: "fst (commit_proposal cs env a objs h t1) = fst (commit_proposal cs env a objs h s1) \<and>
      erase (snd (commit_proposal cs env a objs h t1)) = erase (snd (commit_proposal cs env a objs h s1))" for a objs h
    using alike_commit_proposal [of cs env a objs h, unfolded alike_def, rule_format, OF same(2) [symmetric]] .
  show ?thesis
    using e e' same rest
    by (auto simp: submit_proposal_def bindE_def reads_def shape c ret_def split: sum.split option.split prod.split)
qed

text \<open>C15. Neither the rationale nor an undeclared file reaches a gate: two envelopes with the same
  artifact, operation and transcript, whose outboxes agree on the files the domain declares, have the
  same intake whatever their rationale, telemetry and undeclared files: the same result, the same store,
  the same verifier and sandbox state; only the rationale noted for the artifact differs. So nothing the
  verifier is sent and nothing recorded depends on them.\<close>

theorem rationale_reaches_no_gate:
  assumes "pe_artifact env' = pe_artifact env" "pe_operation env' = pe_operation env"
    "pe_transcript env' = pe_transcript env"
    "\<And>declared. tc_object_namer (ss_config s) (pe_artifact env) = Inr declared \<Longrightarrow>
       filter (\<lambda>(n, _). n \<in> set declared) (pe_objects env') = filter (\<lambda>(n, _). n \<in> set declared) (pe_objects env)"
  shows "fst (submit_proposal cs env' s) = fst (submit_proposal cs env s) \<and>
   (snd (submit_proposal cs env' s))\<lparr>ss_rationale := []\<rparr> = (snd (submit_proposal cs env s))\<lparr>ss_rationale := []\<rparr>"
  using submit_same [of s env env' cs] assms by (simp add: same_declared_def erase_def)

theorem rationale_reaches_no_gate_witness:
  "fst (submit_proposal demo_settings ((demo_envelope ''a'')\<lparr>pe_metadata := ''trust me'',
       pe_objects := [(''smuggled'', [7]), (''f'', [2])]\<rparr>) (demo_session demo_bundle)) =
   fst (submit_proposal demo_settings (demo_envelope ''a'') (demo_session demo_bundle))"
proof -
  have "tc_object_namer (ss_config (demo_session demo_bundle)) (pe_artifact (demo_envelope ''a'')) = Inr []"
    by (simp add: demo_session_def demo_config_def)
  then show ?thesis
    using rationale_reaches_no_gate [of "(demo_envelope ''a'')\<lparr>pe_metadata := ''trust me'',
       pe_objects := [(''smuggled'', [7]), (''f'', [2])]\<rparr>" "demo_envelope ''a''" "demo_session demo_bundle" demo_settings]
    by (auto simp: demo_session_def demo_config_def)
qed

end
