(* ===== verification/Session_Frame.thy ===== *)
theory Session_Frame
  imports Control_Laws
begin

text \<open>
  What the operations of a task's session leave alone. A property of sessions that does not look at the
  store, the services, the timer and the rationales is kept by the whole intake; one that does not look
  at the history and the cycle counter either is kept by whole cycles and by reports. Only a run record
  and a new run touch the rest.
\<close>

locale session_frame =
  fixes Q :: "('x, 'v) session \<Rightarrow> bool"
  assumes upd_store: "Q s \<Longrightarrow> Q (s\<lparr>ss_store := st\<rparr>)"
    and upd_sandbox: "Q s \<Longrightarrow> Q (s\<lparr>ss_sandbox := x\<rparr>)"
    and upd_verifier: "Q s \<Longrightarrow> Q (s\<lparr>ss_verifier := v\<rparr>)"
    and upd_timer: "Q s \<Longrightarrow> Q (s\<lparr>ss_timer_reads := n\<rparr>)"
    and upd_rationale: "Q s \<Longrightarrow> Q (ss_rationale_update f s)"
begin

lemma keeps_store: "keeps Q (with_store m)"
  by (auto simp: keeps_def with_store_def upd_store split: prod.split)

lemma keeps_sandbox: "keeps Q (with_sandbox m)"
  by (auto simp: keeps_def with_sandbox_def upd_sandbox split: prod.split)

lemma keeps_verifier: "keeps Q (with_verifier m)"
  by (auto simp: keeps_def with_verifier_def upd_verifier split: prod.split)

lemma keeps_timer: "keeps Q (read_timer cs)"
  by (simp add: keeps_def read_timer_def upd_timer)

lemma keeps_since: "keeps Q (since cs t)"
  unfolding since_def by (intro keeps_bindE keeps_timer keeps_ret)

lemma keeps_rationale: "keeps Q (modify (ss_rationale_update f))"
  by (simp add: keeps_def modify_def upd_rationale)

lemma keeps_commit: "keeps Q (session_commit cs i objs ex)"
proof (rule keepsI)
  fix s assume "Q s"
  then have "Q (s\<lparr>ss_store := st, ss_verifier := v\<rparr>)" for st v using upd_verifier [OF upd_store] by simp
  then show "Q (snd (session_commit cs i objs ex s))" by (simp add: session_commit_def split: prod.split)
qed

lemmas session_intros = keeps_store keeps_sandbox keeps_verifier keeps_timer keeps_since keeps_rationale keeps_commit

lemma keeps_harvest: "keeps Q (harvest_children cs h a)"
proof -
  have child: "keeps Q (harvest_child cs a pb ic)" for pb ic
    by (cases ic) (simp only: harvest_child_def prod.case, intro keeps_bindE keeps_Let keeps_ret session_intros)
  show ?thesis unfolding harvest_children_def
    by (intro keeps_bindE keeps_reads keeps_if keeps_Let keeps_mapM child keeps_ret)
qed

lemma keeps_submit: "keeps Q (submit_proposal cs env)"
proof -
  have kids: "keeps Q (case (out, h) of
      (OUT_ACCEPTED, Some h) \<Rightarrow> try_catch (harvest_children cs h a) (\<lambda>_. ret ()) | _ \<Rightarrow> ret ())" for out h a
    by (cases out; cases h) (auto intro: keeps_try_catch keeps_ret keeps_harvest)
  show ?thesis
    unfolding submit_proposal_def enter_proposal_def commit_proposal_def
    by (intro keeps_bindE keeps_reads keeps_gets keeps_option keeps_prod keeps_Let keeps_ret kids session_intros)
qed

lemma keeps_serve: "keeps Q (serve_context cs goal scratch feedback)"
  unfolding serve_context_def by (intro keeps_bindE keeps_reads keeps_Let keeps_ret session_intros)

lemma keeps_session_report: "keeps Q (session_report cs)"
  unfolding session_report_def by (intro keeps_bindE keeps_reads session_intros)

end

locale cycle_frame = session_frame +
  assumes upd_history: "Q s \<Longrightarrow> Q (ss_history_update g s)"
    and upd_cycle: "Q s \<Longrightarrow> Q (ss_run_update (\<lambda>c. c\<lparr>ctx_cycle := Suc (ctx_cycle c)\<rparr>) s)"
begin

lemma keeps_record_cycle: "keeps Q (record_cycle goal r tm te ctx)"
proof -
  have "keeps Q (modify (ss_history_update g))" for g by (simp add: keeps_def modify_def upd_history)
  then show ?thesis unfolding record_cycle_def
    by (intro keeps_bindE keeps_option keeps_ret keeps_prod keeps_attempt keeps_store keeps_sum keeps_if keeps_raise)
qed

lemma keeps_finish: "keeps Q (finish_cycle cs goal t0 ms t1 ctx env r)"
  unfolding finish_cycle_def by (intro keeps_bindE keeps_since keeps_sandbox keeps_record_cycle keeps_ret)

lemma keeps_sandbox_failed: "keeps Q (sandbox_failed cs goal t0 t1 ctx e tr te)"
  unfolding sandbox_failed_def
  by (intro keeps_bindE keeps_since keeps_sandbox keeps_store keeps_Let keeps_record_cycle keeps_ret)

lemma keeps_cycle_failed: "keeps Q (cycle_failed cs goal t0 ctx e)"
  unfolding cycle_failed_def
  by (intro keeps_bindE keeps_attempt keeps_since keeps_sandbox keeps_Let keeps_record_cycle keeps_ret)

lemma keeps_propose: "keeps Q (propose_and_commit cs goal t0 ctx)"
  unfolding propose_and_commit_def
  by (intro keeps_bindE keeps_timer keeps_attempt keeps_sandbox keeps_sum keeps_option keeps_prod keeps_since
      keeps_sandbox_failed keeps_raise keeps_submit keeps_if keeps_finish)

lemma keeps_run_cycle: "keeps Q (run_cycle cs goal feedback)"
proof -
  have "keeps Q (modify (ss_run_update (\<lambda>c. c\<lparr>ctx_cycle := Suc (ctx_cycle c)\<rparr>)))"
    by (simp add: keeps_def modify_def upd_cycle)
  then show ?thesis unfolding run_cycle_def
    by (intro keeps_bindE keeps_timer keeps_attempt keeps_serve keeps_sum keeps_cycle_failed keeps_Let
        keeps_try_catch keeps_propose)
qed

end

end
