(* ===== verification/Cycle_Claims.thy ===== *)
theory Cycle_Claims
  imports Intake_Claims Session_Frame
begin

text \<open>
  What a cycle leaves behind on every path, how a run ends, and what bounds a refinement chain.
\<close>

section \<open>Cycles that have recorded nothing yet\<close>

text \<open>How inserts into the failure table fail, and the table, in both databases.\<close>

definition fails :: "(cycle_failure \<Rightarrow> exc option) \<Rightarrow> cycle_failure list \<Rightarrow> store \<Rightarrow> bool" where
  "fails E F s \<longleftrightarrow> insert_error s = E \<and> t_cycle_failures (working s) = F \<and> t_cycle_failures (committed s) = F"

lemma fails_upd: "(\<And>d. t_cycle_failures (f d) = t_cycle_failures d) \<Longrightarrow> keeps (fails E F) (upd f)"
  by (simp add: keeps_def upd_def modify_def fails_def)

lemma fails_tick [keeps_intros]: "keeps (fails E F) tick"
  by (simp add: keeps_def tick_def fails_def)

lemma fails_tx [keeps_intros]:
  assumes "keeps (fails E F) m"
  shows "keeps (fails E F) (tx m)"
proof (rule keepsI)
  fix s assume s: "fails E F s"
  obtain r s2 where m: "m (s\<lparr>tx_depth := Suc (tx_depth s)\<rparr>) = (r, s2)" by fastforce
  have "fails E F s2" using keepsD [OF assms _ m] s by (simp add: fails_def)
  then show "fails E F (snd (tx m s))"
    using m by (cases r) (simp_all add: tx_def Let_def rollback_def commit_def fails_def)
qed

lemma fails_insert_operation: "keeps (fails E F) (insert_operation p)"
proof -
  have "keeps (fails E F) (\<lambda>s. if \<exists>q \<in> set (t_operations (working s)). op_id q = op_id p
       then raise (IntegrityError ''UNIQUE constraint failed: operations.op_id'') s
       else upd (\<lambda>d. d\<lparr>t_operations := t_operations d @ [p\<lparr>op_created_at := ts\<rparr>]\<rparr>) s)" for ts
    by (rule keeps_state_if) (simp add: upd_def modify_def fails_def)
  then show ?thesis unfolding insert_operation_def by (intro keeps_bindE keeps_or_clock fails_tick)
qed

lemma fails_insert_artifact: "keeps (fails E F) (insert_artifact a)"
  unfolding insert_artifact_def by (rule keeps_state_if) (simp add: upd_def modify_def fails_def)

lemma fails_rows: "keeps (fails E F) (upd (map_row i f))"
  by (rule fails_upd) (simp add: map_row_def)

lemma fails_writes: "keeps (fails E F) (set_status i st)" "keeps (fails E F) (accept_superseding i j)"
  "keeps (fails E F) (link_revision i j)"
  unfolding set_status_def accept_superseding_def link_revision_def
  by (intro keeps_intros fails_rows)+

lemma fails_record: "keeps (fails E F) (record_decision d)"
proof -
  have "keeps (fails E F) (upd (\<lambda>db. db\<lparr>t_decisions := t_decisions db @ [x]\<rparr>))" for x
    by (rule fails_upd) simp
  then show ?thesis unfolding record_decision_def insert_decision_def by (intro keeps_intros)
qed

lemma fails_put_object: "keeps (fails E F) (put_object data)"
  by (simp add: keeps_def put_object_def Let_def ret_def raise_def fails_def split: option.split)

interpretation fails: commit_discipline "fails E F" "\<lambda>_. True" for E F
proof
  show "keeps (fails E F) tick" by (rule fails_tick)
  show "keeps (fails E F) (propose a p)" for a p
    unfolding propose_def by (intro keeps_intros fails_insert_operation fails_insert_artifact)
  show "keeps (fails E F) (link_revision i j)" for i j by (rule fails_writes)
  show "fails E F (snd (settle a b ex s))" if "fails E F s" for a b ex s
  proof -
    have "keeps (fails E F) (settle a b ex)"
      unfolding settle_def transaction_def
      by (intro fails_tx keeps_bindE keeps_record_rulings keeps_write_terminal fails_tick
          fails_record fails_writes)
    then show ?thesis using that by (simp add: keeps_def)
  qed
qed

text \<open>What a session keeps until it records its cycle: the store between transactions, the failure
  table, the history, the run context and the verifier port.\<close>

definition frame :: "cycle_input list \<Rightarrow> run_context \<Rightarrow> 'v verifier_service \<Rightarrow> ('x, 'v) session \<Rightarrow> bool" where
  "frame H c p s \<longleftrightarrow> ss_history s = H \<and> ss_run s = c \<and> ss_verifier_port s = p"

interpretation frame: session_frame "frame H c p" for H c p
  by unfold_locales (simp_all add: frame_def)

lemma frame_records: "keeps (frame H c p) (modify (ss_records_update g))"
  by (simp add: keeps_def frame_def modify_def)

lemmas frame_intros = frame.session_intros frame.keeps_submit frame.keeps_serve frame_records

definition fresh :: "cycle_input list \<Rightarrow> (cycle_failure \<Rightarrow> exc option) \<Rightarrow> cycle_failure list \<Rightarrow> run_context \<Rightarrow> 'v verifier_service \<Rightarrow>
    ('x, 'v) session \<Rightarrow> bool" where
  "fresh H E F c p s \<longleftrightarrow> frame H c p s \<and> quiescent (ss_store s) \<and> fails E F (ss_store s)"

lemma keeps_fresh:
  assumes "keeps (frame H c p) m" "keeps (safe quiescent (\<lambda>_ _. True)) m" "keeps (safe (fails E F) (\<lambda>_ _. True)) m"
  shows "keeps (fresh H E F c p) m"
  using assms by (auto simp: keeps_def fresh_def safe_def)

lemma fresh_sandbox: "keeps (fresh H E F c p) (with_sandbox m)"
  by (intro keeps_fresh frame_intros safe_with_sandbox)

lemma fresh_since: "keeps (fresh H E F c p) (since cs t)"
  by (intro keeps_fresh frame_intros safe_since)

lemma fresh_timer: "keeps (fresh H E F c p) (read_timer cs)"
  by (intro keeps_fresh frame_intros safe_read_timer)

lemma fresh_serve: "keeps (fresh H E F c p) (serve_context cs goal scratch feedback)"
proof (intro keeps_fresh frame_intros quiet.safe_serve)
  show "keeps (safe (fails E F) (\<lambda>_ _. True)) (serve_context cs goal scratch feedback)"
    unfolding serve_context_def by (intro keeps_bindE keeps_reads keeps_Let safe_with_sandbox keeps_ret)
qed

lemma fresh_transcript: "keeps (fresh H E F c p) (with_store (store_transcript t))"
  by (intro keeps_fresh frame_intros safe_with_store quiet.keeps_transcript keeps_transcript_of fails_put_object)

lemma fresh_submit: "keeps (fresh H E F c p) (submit_proposal cs env)"
proof (intro keeps_fresh frame_intros)
  show "keeps (safe quiescent (\<lambda>_ _. True)) (submit_proposal cs env)"
    by (rule quiet.safe_submit) (simp_all add: admits_def)
  show "keeps (safe (fails E F) (\<lambda>_ _. True)) (submit_proposal cs env)"
    by (rule fails.safe_submit_with)
      (simp_all add: keeps_transcript_of keeps_put_objects_of fails_put_object)
qed

section \<open>Every cycle is recorded once\<close>

text \<open>What a cycle that has recorded its result leaves: its entry of the history and, when it failed,
  its failure row. The row is lost when the insert raises a \<open>StoreError\<close>, which \<open>_record_cycle\<close> logs.\<close>

definition reported :: "string \<Rightarrow> intake_result \<Rightarrow> cycle_input \<Rightarrow> bool" where
  "reported goal r ci \<longleftrightarrow> (\<exists>tm te ctx. ci = cycle_input_of goal r tm te ctx)"

definition failure_rows :: "(cycle_failure \<Rightarrow> exc option) \<Rightarrow> intake_result \<Rightarrow> cycle_failure list \<Rightarrow>
    cycle_failure list \<Rightarrow> bool" where
  "failure_rows E r F F' \<longleftrightarrow> (case failure_of r of
      None \<Rightarrow> F' = F
    | Some (kind, detail) \<Rightarrow> \<exists>f. cf_kind f = kind \<and> cf_detail f = detail \<and>
        cf_transcript_ref f = map_option content_hash (ir_transcript_ref r) \<and>
        (case E f of None \<Rightarrow> F' = F @ [f] | Some e \<Rightarrow> is_store_error e \<and> F' = F))"

definition logged :: "string \<Rightarrow> cycle_input list \<Rightarrow> (cycle_failure \<Rightarrow> exc option) \<Rightarrow> cycle_failure list \<Rightarrow>
    run_context \<Rightarrow> 'v verifier_service \<Rightarrow> intake_result \<Rightarrow> ('x, 'v) session \<Rightarrow> bool" where
  "logged goal H E F c p r s \<longleftrightarrow> (\<exists>ci F'. reported goal r ci \<and> failure_rows E r F F' \<and> fresh (H @ [ci]) E F' c p s)"

text \<open>An operation that either raises one of some exceptions before it has recorded anything, or records
  what it returns.\<close>

definition logs :: "((cycle_failure \<Rightarrow> exc option) \<Rightarrow> exc \<Rightarrow> bool) \<Rightarrow> string \<Rightarrow>
    ('x, 'v, intake_result) session_op \<Rightarrow> bool" where
  "logs X goal m \<longleftrightarrow> (\<forall>H E F c p s. fresh H E F c p s \<longrightarrow> (case m s of
      (Inl e, s') \<Rightarrow> fresh H E F c p s' \<and> X E e
    | (Inr r, s') \<Rightarrow> logged goal H E F c p r s'))"

definition anything :: "(cycle_failure \<Rightarrow> exc option) \<Rightarrow> exc \<Rightarrow> bool" where
  [simp]: "anything E e = True"

text \<open>The exceptions of the last handler: the insert of its own failure row raised, not a \<open>StoreError\<close>.\<close>

definition escapes :: "(cycle_failure \<Rightarrow> exc option) \<Rightarrow> exc \<Rightarrow> bool" where
  "escapes E e \<longleftrightarrow> \<not> is_store_error e \<and>
     (\<exists>f m. E f = Some e \<and> cf_kind f = ''sandbox-error'' \<and> cf_detail f = ''cycle failed: '' @ m)"

lemma logs_raise: "logs anything goal (raise e)"
  by (simp add: logs_def raise_def)

lemma logs_bind:
  fixes m :: "('x, 'v, 'a) session_op"
  assumes "\<And>H E F c p. keeps (fresh H E F c p) m" "\<And>x. logs X goal (f x)"
    and raises: "\<And>E s e. fst (m s) = Inl e \<Longrightarrow> X E e"
  shows "logs X goal (bindE m f)"
  unfolding logs_def
proof (intro allI impI)
  fix H E F c p and s :: "('x, 'v) session"
  assume s: "fresh H E F c p s"
  obtain r s1 where m: "m s = (r, s1)" by fastforce
  have s1: "fresh H E F c p s1" using keepsD [OF assms(1) s m] .
  show "case bindE m f s of (Inl e, s') \<Rightarrow> fresh H E F c p s' \<and> X E e | (Inr r, s') \<Rightarrow> logged goal H E F c p r s'"
    using m s1 raises [of s] assms(2) [unfolded logs_def, rule_format, OF s1]
    by (cases r) (simp_all add: bindE_def)
qed

lemma logs_bindE:
  assumes "\<And>H E F c p. keeps (fresh H E F c p) m" "\<And>x. logs anything goal (f x)"
  shows "logs anything goal (bindE m f)"
  by (rule logs_bind) (simp_all add: assms)

lemma logs_attempt:
  assumes "\<And>H E F c p. keeps (fresh H E F c p) m" "\<And>x. logs X goal (f x)"
  shows "logs X goal (bindE (attempt m) f)"
  by (rule logs_bind) (auto simp: assms keeps_attempt attempt_def split: prod.splits)

lemma logs_since: "(\<And>x. logs X goal (f x)) \<Longrightarrow> logs X goal (bindE (since cs t) f)"
  by (rule logs_bind [OF fresh_since]) (auto simp: since_def read_timer_def bindE_def ret_def)

lemma logs_sum: "(\<And>e. logs X goal (f e)) \<Longrightarrow> (\<And>x. logs X goal (g x)) \<Longrightarrow>
    logs X goal (case r of Inl e \<Rightarrow> f e | Inr x \<Rightarrow> g x)"
  by (cases r) auto

lemma logs_catch:
  fixes m :: "('x, 'v, intake_result) session_op"
  assumes "logs Y goal m" "\<And>e. logs X goal (h e)"
  shows "logs X goal (try_catch m h)"
  unfolding logs_def
proof (intro allI impI)
  fix H E F c p and s :: "('x, 'v) session"
  assume s: "fresh H E F c p s"
  obtain r s1 where m: "m s = (r, s1)" by fastforce
  show "case try_catch m h s of (Inl e, s') \<Rightarrow> fresh H E F c p s' \<and> X E e | (Inr r, s') \<Rightarrow> logged goal H E F c p r s'"
  proof (cases r)
    case (Inl e)
    have s1: "fresh H E F c p s1" using assms(1) [unfolded logs_def, rule_format, OF s] m Inl by simp
    from assms(2) [of e, unfolded logs_def, rule_format, OF s1] show ?thesis
      using m Inl by (simp add: try_catch_def)
  next
    case (Inr x)
    then show ?thesis using assms(1) [unfolded logs_def, rule_format, OF s] m by (simp add: try_catch_def)
  qed
qed

lemma record_cycle_failure_ends:
  assumes "quiescent s" "fails E F s"
  shows "\<exists>f s'. record_cycle_failure kind detail t s = (case E f of None \<Rightarrow> Inr f | Some e \<Rightarrow> Inl e, s') \<and>
    quiescent s' \<and> fails E (if E f = None then F @ [f] else F) s' \<and>
    cf_kind f = kind \<and> cf_detail f = detail \<and> cf_transcript_ref f = t"
proof -
  let ?f = "\<lparr>cf_kind = kind, cf_detail = detail, cf_created_at = clock s (ticks s), cf_transcript_ref = t\<rparr>"
  show ?thesis using assms
    by (intro exI [of _ ?f]) (auto simp: record_cycle_failure_def insert_cycle_failure_def tick_def tx_def upd_def
      modify_def bindE_def ret_def raise_def Let_def commit_def rollback_def quiescent_def fails_def split: option.split)
qed

lemma logs_record:
  assumes "\<And>E e f. E f = Some e \<Longrightarrow> \<not> is_store_error e \<Longrightarrow> failure_of r = Some (cf_kind f, cf_detail f) \<Longrightarrow> X E e"
  shows "logs X goal (bindE (record_cycle goal r tm te ctx) (\<lambda>_. ret r) :: ('x, 'v, intake_result) session_op)"
    (is "logs X goal ?m")
  unfolding logs_def
proof (intro allI impI)
  fix H E F c p and s :: "('x, 'v) session"
  assume s: "fresh H E F c p s"
  let ?ci = "cycle_input_of goal r tm te ctx"
  have fresh: "fresh (H @ [?ci]) E F' c p (ss_history_update (\<lambda>h. h @ [?ci]) (s\<lparr>ss_store := st\<rparr>))"
    if "quiescent st" "fails E F' st" for F' st
    using s that by (simp add: fresh_def frame_def)
  show "case ?m s of (Inl e, s') \<Rightarrow> fresh H E F c p s' \<and> X E e | (Inr r, s') \<Rightarrow> logged goal H E F c p r s'"
  proof (cases "failure_of r")
    case None
    have "logged goal H E F c p r (ss_history_update (\<lambda>h. h @ [?ci]) (s\<lparr>ss_store := ss_store s\<rparr>))"
      unfolding logged_def failure_rows_def reported_def using None s fresh [of "ss_store s" F]
      by (intro exI [of _ ?ci] exI [of _ F]) (auto simp: fresh_def)
    then show ?thesis using None by (simp add: record_cycle_def bindE_def ret_def modify_def)
  next
    case (Some kd)
    obtain kind detail where kd: "kd = (kind, detail)" by (cases kd)
    have q: "quiescent (ss_store s)" "fails E F (ss_store s)" using s by (simp_all add: fresh_def)
    obtain f st where f: "record_cycle_failure kind detail (map_option content_hash (ir_transcript_ref r)) (ss_store s)
        = (case E f of None \<Rightarrow> Inr f | Some e \<Rightarrow> Inl e, st)" "quiescent st" "fails E (if E f = None then F @ [f] else F) st"
        "cf_kind f = kind" "cf_detail f = detail" "cf_transcript_ref f = map_option content_hash (ir_transcript_ref r)"
      using record_cycle_failure_ends [OF q] by blast
    show ?thesis
    proof (cases "\<exists>e. E f = Some e \<and> \<not> is_store_error e")
      case True
      then obtain e where e: "E f = Some e" "\<not> is_store_error e" by blast
      have "?m s = (Inl e, s\<lparr>ss_store := st\<rparr>)"
        using e f(1) Some kd by (simp add: record_cycle_def bindE_def attempt_def with_store_def raise_eq)
      moreover have "fresh H E F c p (s\<lparr>ss_store := st\<rparr>)" using s f(2,3) e by (simp add: fresh_def frame_def)
      moreover have "X E e" using assms [of E f e] e Some kd f by simp
      ultimately show ?thesis by simp
    next
      case False
      let ?F = "if E f = None then F @ [f] else F"
      have "?m s = (Inr r, ss_history_update (\<lambda>h. h @ [?ci]) (s\<lparr>ss_store := st\<rparr>))"
        using False f(1) Some kd
        by (cases "E f") (simp_all add: record_cycle_def bindE_def ret_def modify_def attempt_def with_store_def)
      moreover have "failure_rows E r F ?F"
        unfolding failure_rows_def Some kd using f False by (auto intro!: exI [of _ f] split: option.split)
      ultimately show ?thesis
        using fresh [OF f(2,3)] unfolding logged_def reported_def by auto
    qed
  qed
qed

lemma logs_finish: "logs anything goal (finish_cycle cs goal t0 ms t1 ctx env r)"
  unfolding finish_cycle_def by (intro logs_bindE fresh_since fresh_sandbox logs_record) simp

lemma logs_sandbox_failed: "logs anything goal (sandbox_failed cs goal t0 t1 ctx e tr te)"
  unfolding sandbox_failed_def Let_def
  by (intro logs_bindE fresh_since fresh_sandbox fresh_transcript logs_record) simp

lemma escapesI:
  assumes "E f = Some e" "\<not> is_store_error e"
    "failure_of (no_result\<lparr>ir_sandbox_error := Some (''cycle failed: '' @ m)\<rparr>) = Some (cf_kind f, cf_detail f)"
  shows "escapes E e"
  unfolding escapes_def using assms
  by (intro conjI exI [of _ f] exI [of _ m]) (simp_all add: failure_of_def)

lemma logs_cycle_failed: "logs escapes goal (cycle_failed cs goal t0 ctx e)"
  unfolding cycle_failed_def Let_def
  by (intro logs_attempt logs_since fresh_sandbox logs_record) (rule escapesI)

lemma logs_propose: "logs anything goal (propose_and_commit cs goal t0 ctx)"
proof -
  have submit: "logs anything goal (bindE (since cs t1) (\<lambda>sb_ms.
         bindE (read_timer cs) (\<lambda>t2.
         bindE (attempt (submit_proposal cs env)) (\<lambda>submitted. case submitted of
           Inl e \<Rightarrow> if is_gate_unavailable e
             then finish_cycle cs goal t0 sb_ms t2 ctx env (no_result\<lparr>ir_gate_error := Some (exc_str e)\<rparr>)
             else raise e
         | Inr result \<Rightarrow> finish_cycle cs goal t0 sb_ms t2 ctx env result))))" for t1 env
    by (intro logs_bindE fresh_since fresh_timer logs_attempt fresh_submit logs_sum)
      (auto simp: logs_finish logs_raise)
  have fail: "logs anything goal (case sandbox_salvage e of Some (tr, te) \<Rightarrow> sandbox_failed cs goal t0 t1 ctx e tr te
      | None \<Rightarrow> raise e)" for e t1
    by (auto simp: logs_sandbox_failed logs_raise split: option.split)
  show ?thesis unfolding propose_and_commit_def
    by (intro logs_bindE fresh_timer logs_attempt fresh_sandbox logs_sum submit fail)
qed

text \<open>How a cycle ends: returning a result it has recorded, or raising what the insert of its last
  handler raised.\<close>

lemma run_cycle_ends:
  assumes "fresh H E F c p s" "run_cycle cs goal feedback s = (out, s')"
  shows "case out of Inl e \<Rightarrow> fresh H E F (c\<lparr>ctx_cycle := Suc (ctx_cycle c)\<rparr>) p s' \<and> escapes E e
    | Inr r \<Rightarrow> logged goal H E F (c\<lparr>ctx_cycle := Suc (ctx_cycle c)\<rparr>) p r s'"
proof -
  let ?c = "c\<lparr>ctx_cycle := Suc (ctx_cycle c)\<rparr>"
  let ?s1 = "ss_run_update (\<lambda>c. c\<lparr>ctx_cycle := Suc (ctx_cycle c)\<rparr>) s"
  let ?body = "\<lambda>started. bindE (attempt (serve_context cs goal '''' feedback)) (\<lambda>served. case served of
       Inl e \<Rightarrow> cycle_failed cs goal started None e
     | Inr sc \<Rightarrow>
         let context = context_metrics sc
         in try_catch (propose_and_commit cs goal started context)
              (cycle_failed cs goal started (Some context)))"
  have s1: "fresh H E F ?c p ?s1" using assms by (simp add: fresh_def frame_def)
  obtain t s2 where t: "read_timer cs ?s1 = (Inr t, s2)" by (simp add: read_timer_def)
  have s2: "fresh H E F ?c p s2" using keepsD [OF fresh_timer s1 t] .
  have "logs escapes goal (?body t)"
    by (intro logs_attempt fresh_serve logs_sum)
      (auto simp: Let_def intro!: logs_catch [OF logs_propose] logs_cycle_failed)
  from this [unfolded logs_def, rule_format, OF s2]
  show ?thesis using t assms(2) by (simp add: run_cycle_def modify_def bindE_def split: prod.splits sum.splits)
qed

text \<open>C3. A failed step is recorded, not fatal: whatever the sandbox, the verifier, the object store and
  the domain hooks do, a cycle whose failure row can be inserted returns, adds exactly one entry to the
  task's history, with the facts of the result it returns, and leaves exactly one durable failure row, of
  the result's kind, detail and transcript, when it failed, none otherwise. When the insert of that row
  raises a \<open>StoreError\<close>, only the row is missing. A cycle raises only what the insert of the last handler's
  own failure row (\<open>cycle failed: ...\<close>) raised, and only when that is not a \<open>StoreError\<close>: then it leaves
  neither an entry nor a row. However it ends, the cycle stamp has advanced and no transaction is left
  open.\<close>

theorem every_cycle_is_recorded:
  assumes "quiescent (ss_store s)" "run_cycle cs goal feedback s = (out, s')"
  shows "(case out of
      Inr r \<Rightarrow> \<exists>ci. ss_history s' = ss_history s @ [ci] \<and>
        ci_goal ci = goal \<and> ci_entered ci = ir_entered r \<and> ci_commit ci = ir_commit r \<and>
        ci_shape_error ci = ir_shape_error r \<and> ci_sandbox_error ci = ir_sandbox_error r \<and>
        ci_gate_error ci = ir_gate_error r \<and>
        ci_transcript_ref ci = map_option content_hash (ir_transcript_ref r) \<and>
        (case failure_of r of
           None \<Rightarrow> t_cycle_failures (committed (ss_store s')) = t_cycle_failures (committed (ss_store s))
         | Some (kind, detail) \<Rightarrow> \<exists>f. cf_kind f = kind \<and> cf_detail f = detail \<and>
             cf_transcript_ref f = ci_transcript_ref ci \<and>
             (case insert_error (ss_store s) f of
                None \<Rightarrow> t_cycle_failures (committed (ss_store s')) = t_cycle_failures (committed (ss_store s)) @ [f]
              | Some e \<Rightarrow> is_store_error e \<and>
                  t_cycle_failures (committed (ss_store s')) = t_cycle_failures (committed (ss_store s))))
    | Inl e \<Rightarrow> ss_history s' = ss_history s \<and>
        t_cycle_failures (committed (ss_store s')) = t_cycle_failures (committed (ss_store s)) \<and>
        \<not> is_store_error e \<and> (\<exists>f m. insert_error (ss_store s) f = Some e \<and> cf_kind f = ''sandbox-error'' \<and>
          cf_detail f = ''cycle failed: '' @ m)) \<and>
    ctx_cycle (ss_run s') = Suc (ctx_cycle (ss_run s)) \<and> quiescent (ss_store s')"
proof -
  let ?F = "t_cycle_failures (committed (ss_store s))" and ?E = "insert_error (ss_store s)"
  have "fresh (ss_history s) ?E ?F (ss_run s) (ss_verifier_port s) s"
    using assms by (simp add: fresh_def frame_def fails_def quiescent_def)
  note ends = run_cycle_ends [OF this assms(2)]
  show ?thesis
  proof (cases out)
    case (Inl e)
    then show ?thesis using ends by (auto simp: escapes_def fresh_def frame_def fails_def)
  next
    case (Inr r)
    then obtain ci F' where r: "reported goal r ci" "failure_rows ?E r ?F F'"
      "fresh (ss_history s @ [ci]) ?E F' ((ss_run s)\<lparr>ctx_cycle := Suc (ctx_cycle (ss_run s))\<rparr>) (ss_verifier_port s) s'"
      using ends unfolding logged_def by auto
    then have "t_cycle_failures (committed (ss_store s')) = F'" by (simp add: fresh_def fails_def)
    with r show ?thesis unfolding Inr
      by (auto simp: reported_def failure_rows_def fresh_def frame_def cycle_input_of_def split: option.splits)
  qed
qed

theorem every_cycle_is_recorded_witness:
  "\<exists>r s'. run_cycle demo_settings ''g'' '''' (demo_session demo_bundle) = (Inr r, s') \<and> length (ss_history s') = 1"
proof -
  obtain out s' where r: "run_cycle demo_settings ''g'' '''' (demo_session demo_bundle) = (out, s')" by fastforce
  have q: "quiescent (ss_store (demo_session demo_bundle))" by (simp add: demo_session_def)
  have "insert_error (ss_store (demo_session demo_bundle)) f = None" for f
    by (simp add: demo_session_def demo_store_def open_store_def)
  then show ?thesis using every_cycle_is_recorded [OF q r] r
    by (cases out) (auto simp: demo_session_def)
qed

text \<open>The exception does escape: the sandbox gives no proposal, and the file of the store is full. The
  comment in \<open>_record_cycle\<close> promises that a failed insert never masks the cycle, but the handler there
  catches \<open>StoreError\<close> only, and SQLite's errors are not.\<close>

definition full_session :: "(unit, unit) session" where
  "full_session = (demo_session demo_bundle)\<lparr>
     ss_sandbox_port := demo_port\<lparr>sb_collect := raise (SandboxError ''timed out'' None None)\<rparr>,
     ss_store := demo_store\<lparr>insert_error := (\<lambda>_. Some (OtherError ''database or disk is full''))\<rparr>\<rparr>"

lemma unrecorded_cycle_raises:
  "run_cycle demo_settings ''g'' '''' full_session = (out, s') \<Longrightarrow>
     out = Inl (OtherError ''database or disk is full'') \<and> ss_history s' = [] \<and>
     t_cycle_failures (committed (ss_store s')) = []"
proof -
  assume r: "run_cycle demo_settings ''g'' '''' full_session = (out, s')"
  have q: "quiescent (ss_store full_session)"
    by (simp add: full_session_def quiescent_def demo_store_def open_store_def)
  have "isl (fst (run_cycle demo_settings ''g'' '''' full_session))" by code_simp
  then obtain e where e: "out = Inl e" using r by (auto simp: isl_def)
  from q have "fresh [] (\<lambda>_. Some (OtherError ''database or disk is full'')) [] (ss_run full_session)
      (ss_verifier_port full_session) full_session"
    by (simp add: fresh_def frame_def fails_def full_session_def demo_session_def demo_store_def open_store_def empty_db_def)
  from run_cycle_ends [OF this r] show ?thesis by (auto simp: e escapes_def fresh_def frame_def fails_def)
qed

section \<open>How a run ends\<close>

text \<open>The failed cycles in a row at the end, and the cap on them.\<close>

definition streak :: "intake_result list \<Rightarrow> nat" where
  "streak rs = length (takeWhile (\<lambda>r. cycle_failure_text r \<noteq> None) (rev rs))"

definition aborts :: "orchestration_policy \<Rightarrow> intake_result list \<Rightarrow> bool" where
  "aborts p rs \<longleftrightarrow> 0 < streak rs \<and> max_consecutive p \<noteq> 0 \<and> max_consecutive p \<le> int (streak rs)"

lemma streak_simps [simp]:
  "streak [] = 0" "streak (rs @ [r]) = (if cycle_failure_text r = None then 0 else Suc (streak rs))"
  by (simp_all add: streak_def)

lemma aborts_Nil [simp]: "\<not> aborts p []"
  by (simp add: aborts_def)

text \<open>The cycles a run has recorded, results and history entries in order, and how many more it began.\<close>

definition has_run :: "string \<Rightarrow> cycle_input list \<Rightarrow> (cycle_failure \<Rightarrow> exc option) \<Rightarrow> 'v verifier_service \<Rightarrow> nat \<Rightarrow>
    intake_result list \<Rightarrow> ('x, 'v) session \<Rightarrow> bool" where
  "has_run goal H E p n rs s \<longleftrightarrow> (\<exists>cis F c. fresh (H @ cis) E F c p s \<and> list_all2 (reported goal) rs cis \<and>
     ctx_cycle c = length rs + n)"

lemma has_run_cycle:
  assumes "has_run goal H E p 0 rs s" "run_cycle cs goal feedback s = (r, s')"
  shows "case r of Inl e \<Rightarrow> has_run goal H E p 1 rs s' \<and> escapes E e | Inr x \<Rightarrow> has_run goal H E p 0 (rs @ [x]) s'"
proof -
  obtain cis F c where f: "fresh (H @ cis) E F c p s" "list_all2 (reported goal) rs cis" "ctx_cycle c = length rs"
    using assms(1) by (auto simp: has_run_def)
  note ends = run_cycle_ends [OF f(1) assms(2)]
  show ?thesis
  proof (cases r)
    case (Inl e)
    then show ?thesis using ends f unfolding has_run_def
      by (auto intro!: exI [of _ cis] exI [of _ F] exI [of _ "c\<lparr>ctx_cycle := Suc (ctx_cycle c)\<rparr>"])
  next
    case (Inr x)
    then obtain ci F' where
      x: "reported goal x ci" "fresh ((H @ cis) @ [ci]) E F' (c\<lparr>ctx_cycle := Suc (ctx_cycle c)\<rparr>) p s'"
      using ends unfolding logged_def by auto
    have "has_run goal H E p 0 (rs @ [x]) s'"
      unfolding has_run_def using x f
      by (intro exI [of _ "cis @ [ci]"] exI [of _ F'] exI [of _ "c\<lparr>ctx_cycle := Suc (ctx_cycle c)\<rparr>"])
        (simp add: list_all2_appendI)
    then show ?thesis using Inr by simp
  qed
qed

lemma fresh_report: "keeps (fresh H E F c p) (record_run cs status)"
proof (intro keeps_fresh quiet.safe_record_run)
  show "keeps (frame H c p) (record_run cs status)"
    unfolding record_run_def session_report_def
    by (intro keeps_bindE frame_intros keeps_reads keeps_gets keeps_ret)
  show "keeps (safe (fails E F) (\<lambda>_ _. True)) (record_run cs status)"
    unfolding record_run_def session_report_def
    by (intro keeps_bindE safe_with_store fails_tick keeps_reads keeps_gets fails.safe_modify keeps_ret)
qed

lemma ran_report: "keeps (has_run goal H E p n rs) (record_run cs status)"
  using fresh_report unfolding keeps_def has_run_def by blast

lemma ran_verifier: "keeps (has_run goal H E p n rs) (with_verifier m)"
proof -
  have "keeps (fresh H E F c p) (with_verifier m)" for H E F c
    by (intro keeps_fresh frame_intros safe_with_verifier)
  then show ?thesis unfolding keeps_def has_run_def by blast
qed

text \<open>What the loop returns or raises with.\<close>

definition run_stopped :: "orchestration_policy \<Rightarrow> intake_result list \<Rightarrow> bool" where
  "run_stopped p rs \<longleftrightarrow> max_cycles p \<le> int (length rs) \<or>
     rs \<noteq> [] \<and> stop_on_accept p \<and> accepted_result (last rs) \<and> cycle_failure_text (last rs) = None"

definition in_bounds :: "orchestration_policy \<Rightarrow> intake_result list \<Rightarrow> bool" where
  "in_bounds p rs \<longleftrightarrow> int (length rs) \<le> max 0 (max_cycles p) \<and> (\<forall>n < length rs. \<not> aborts p (take n rs))"

lemma in_bounds_snoc:
  "in_bounds p rs \<Longrightarrow> \<not> aborts p rs \<Longrightarrow> should_continue p (int (length rs)) \<Longrightarrow> in_bounds p (rs @ [r])"
  by (auto simp: in_bounds_def should_continue_def less_Suc_eq)

text \<open>The loop broke off in a cycle that raised, one that the policy allowed.\<close>

definition broke_off :: "(cycle_failure \<Rightarrow> exc option) \<Rightarrow> orchestration_policy \<Rightarrow> intake_result list \<Rightarrow> exc \<Rightarrow> bool" where
  "broke_off E p rs e \<longleftrightarrow> escapes E e \<and> int (length rs) < max_cycles p \<and> \<not> aborts p rs"

lemma run_loop_ends:
  assumes "run_loop cs goal feedback cycles failures results s = (out, s')" "has_run goal H E p 0 results s"
    "cycles = int (length results)" "failures = int (streak results)"
    "in_bounds (st_policy cs) results" "\<not> aborts (st_policy cs) results"
  shows "\<exists>rs n. has_run goal H E p n rs s' \<and> in_bounds (st_policy cs) rs \<and>
    (case out of Inr res \<Rightarrow> n = 0 \<and> res = rs \<and> \<not> aborts (st_policy cs) rs \<and> run_stopped (st_policy cs) rs
       | Inl e \<Rightarrow> n = 0 \<and> aborts (st_policy cs) rs \<or> n = 1 \<and> broke_off E (st_policy cs) rs e)"
  using assms
proof (induction cs goal feedback cycles failures results arbitrary: s out s' rule: run_loop.induct)
  case (1 cs goal feedback cycles failures results)
  let ?p = "st_policy cs"
  show ?case
  proof (cases "should_continue ?p cycles")
    case False
    then have "out = Inr results \<and> s' = s" using "1.prems"(1) by (subst (asm) run_loop.simps) (simp add: ret_eq)
    then show ?thesis using "1.prems" False
      by (intro exI [of _ results] exI [of _ 0]) (auto simp: run_stopped_def should_continue_def)
  next
    case True
    obtain r1 s1 where r1: "run_cycle cs goal feedback s = (r1, s1)" by fastforce
    show ?thesis
    proof (cases r1)
    case (Inl e)
    then have "out = Inl e \<and> s' = s1"
      using "1.prems"(1) True r1 by (subst (asm) run_loop.simps) (simp add: bindE_def)
    then show ?thesis using has_run_cycle [OF "1.prems"(2) r1] Inl "1.prems"(3,5,6) True
      by (intro exI [of _ results] exI [of _ 1]) (auto simp: broke_off_def should_continue_def)
    next
    case (Inr x)
    then have x: "r1 = Inr x" "has_run goal H E p 0 (results @ [x]) s1"
      using has_run_cycle [OF "1.prems"(2) r1] by simp_all
    let ?rs = "results @ [x]"
    have w: "in_bounds ?p ?rs" using in_bounds_snoc "1.prems"(3,5,6) True by blast
    note step = "1.prems"(1) [unfolded run_loop.simps [of cs goal feedback cycles failures results]]
    show ?thesis
    proof (cases "cycle_failure_text x")
      case None
      have na: "\<not> aborts ?p ?rs" using None by (simp add: aborts_def)
      show ?thesis
      proof (cases "stop_on_accept ?p \<and> accepted_result x")
        case stop: True
        then have "out = Inr ?rs \<and> s' = s1" using step True r1 x(1) None by (simp add: bindE_def Let_def ret_eq)
        then show ?thesis using x(2) w na stop None by (intro exI [of _ ?rs] exI [of _ 0]) (auto simp: run_stopped_def)
      next
        case False
        then have "run_loop cs goal (feedback_from x) (cycles + 1) 0 ?rs s1 = (out, s')"
          using step True r1 x(1) None by (auto simp: bindE_def Let_def)
        from "1.IH"(1) [OF _ refl refl None _ this x(2)] True False w na None "1.prems"(3) show ?thesis by simp
      qed
    next
      case (Some m)
      show ?thesis
      proof (cases "max_consecutive ?p \<noteq> 0 \<and> failures + 1 \<ge> max_consecutive ?p")
        case abort: True
        have a: "aborts ?p ?rs" using abort Some "1.prems"(4) by (simp add: aborts_def)
        obtain r2 s2 where r2: "record_run cs ''aborted'' s1 = (r2, s2)" by fastforce
        have "s' = s2 \<and> (\<exists>e. out = Inl e)"
          using step True r1 x(1) Some abort r2
          by (cases r2) (auto simp: bindE_def Let_def raise_eq)
        moreover have "has_run goal H E p 0 ?rs s2" using keepsD [OF ran_report x(2) r2] .
        ultimately show ?thesis using w a by (intro exI [of _ ?rs] exI [of _ 0]) auto
      next
        case False
        then have na: "\<not> aborts ?p ?rs" using Some "1.prems"(4) by (auto simp: aborts_def)
        have "run_loop cs goal (feedback_from x) (cycles + 1) (failures + 1) ?rs s1 = (out, s')"
          using step True r1 x(1) Some False by (auto simp: bindE_def Let_def)
        from "1.IH"(2) [OF _ refl refl Some refl refl _ this x(2)] True False w na Some "1.prems"(3,4)
        show ?thesis by simp
      qed
    qed
    qed
  qed
qed

lemma run_body_ends:
  assumes "run_body cs goal s = (out, s')" "has_run goal H E p 0 [] s"
  shows "\<exists>rs n. has_run goal H E p n rs s' \<and> in_bounds (st_policy cs) rs \<and>
    (case out of Inr res \<Rightarrow> n = 0 \<and> res = rs \<and> \<not> aborts (st_policy cs) rs \<and> run_stopped (st_policy cs) rs
       | Inl e \<Rightarrow> n = 0 \<or> n = 1 \<and> broke_off E (st_policy cs) rs e)"
proof -
  obtain r1 s1 where r1: "with_verifier vp_provision s = (r1, s1)" by fastforce
  have s1: "has_run goal H E p 0 [] s1" using keepsD [OF ran_verifier assms(2) r1] .
  have w0: "in_bounds (st_policy cs) []" by (simp add: in_bounds_def)
  show ?thesis
  proof (cases r1)
    case (Inl e)
    then have "out = Inl e \<and> s' = s1" using assms(1) r1 by (simp add: run_body_def bindE_def)
    then show ?thesis using s1 w0 by (intro exI [of _ "[]"] exI [of _ 0]) simp
  next
    case (Inr u)
    obtain r2 s2 where r2: "run_loop cs goal '''' 0 0 [] s1 = (r2, s2)" by fastforce
    obtain rs n where rs: "has_run goal H E p n rs s2" "in_bounds (st_policy cs) rs"
      "case r2 of Inr res \<Rightarrow> n = 0 \<and> res = rs \<and> \<not> aborts (st_policy cs) rs \<and> run_stopped (st_policy cs) rs
       | Inl e \<Rightarrow> n = 0 \<and> aborts (st_policy cs) rs \<or> n = 1 \<and> broke_off E (st_policy cs) rs e"
      using run_loop_ends [OF r2 s1 _ _ w0] by auto
    obtain r3 s3 where r3: "record_run cs ''complete'' s2 = (r3, s3)" by fastforce
    have s3: "has_run goal H E p n rs s3" using keepsD [OF ran_report rs(1) r3] .
    show ?thesis
      using assms(1) r1 Inr r2 r3 rs s3
      by (intro exI [of _ rs] exI [of _ n]) (cases r2; cases r3; auto simp: run_body_def bindE_def ret_eq)
  qed
qed

text \<open>C4. Every run is bounded and accounted for: it begins at most \<open>max_cycles\<close> cycles; each that returns
  has its entry in the history, in order, and the run stops as soon as the last cycles reach the cap of
  consecutive failures. A run that returns returns the results of all its cycles, and ended because the
  cycles were used up or because its last cycle had an accepted artifact and the policy says to stop
  there; a run that hit the failure cap never returns. A cycle that raises ends the run with its
  exception, and none does unless an insert of a failure row raises something other than a \<open>StoreError\<close>.
  However the run ends, the verifier has been torn down last and no transaction is left open.\<close>

theorem run_is_bounded:
  assumes "quiescent (ss_store s)" "run cs goal s = (out, s')"
  shows "\<exists>rs cis v raised. ss_history s' = ss_history s @ cis \<and>
    list_all2 (\<lambda>r ci. \<exists>tm te ctx. ci = cycle_input_of goal r tm te ctx) rs cis \<and>
    int (length rs + raised) \<le> max 0 (max_cycles (st_policy cs)) \<and>
    (\<forall>n < length rs. \<not> aborts (st_policy cs) (take n rs)) \<and>
    (case out of
       Inr results \<Rightarrow> raised = 0 \<and> results = rs \<and> \<not> aborts (st_policy cs) rs \<and>
         (max_cycles (st_policy cs) \<le> int (length rs) \<or>
          rs \<noteq> [] \<and> stop_on_accept (st_policy cs) \<and> accepted_result (last rs) \<and> cycle_failure_text (last rs) = None)
     | Inl e \<Rightarrow> raised = 0 \<or> raised = 1 \<and> \<not> aborts (st_policy cs) rs \<and>
         \<not> is_store_error e \<and> (\<exists>f. insert_error (ss_store s) f = Some e)) \<and>
    ctx_cycle (ss_run s') = length rs + raised \<and> quiescent (ss_store s') \<and>
    ss_verifier s' = snd (vp_teardown (ss_verifier_port s) v)"
proof -
  let ?H = "ss_history s" and ?p = "ss_verifier_port s" and ?P = "st_policy cs" and ?E = "insert_error (ss_store s)"
  let ?s0 = "s\<lparr>ss_run := (ss_run s)\<lparr>ctx_run_id := st_run_ids cs (ss_runs_minted s), ctx_cycle := 0\<rparr>,
        ss_runs_minted := Suc (ss_runs_minted s)\<rparr>"
  have s0: "has_run goal ?H ?E ?p 0 [] ?s0"
    unfolding has_run_def using assms(1)
    by (intro exI [of _ "[]"] exI [of _ "t_cycle_failures (committed (ss_store s))"] exI [of _ "ss_run ?s0"])
      (simp add: fresh_def frame_def fails_def quiescent_def)
  obtain b s1 where b: "run_body cs goal ?s0 = (b, s1)" by fastforce
  obtain rs n where rs: "has_run goal ?H ?E ?p n rs s1" "in_bounds ?P rs"
    "case b of Inr res \<Rightarrow> n = 0 \<and> res = rs \<and> \<not> aborts ?P rs \<and> run_stopped ?P rs
       | Inl e \<Rightarrow> n = 0 \<or> n = 1 \<and> broke_off ?E ?P rs e"
    using run_body_ends [OF b s0] by blast
  obtain t s2 where t: "with_verifier vp_teardown s1 = (t, s2)" by fastforce
  have s2: "has_run goal ?H ?E ?p n rs s2" using keepsD [OF ran_verifier rs(1) t] .
  have out: "out = b" "s' = s2"
    using assms(2) b t by (auto simp: run_def bindE_def attempt_def raise_eq ret_eq split: sum.splits)
  have port: "ss_verifier_port s1 = ?p" using rs(1) by (auto simp: has_run_def fresh_def frame_def)
  have v: "ss_verifier s2 = snd (vp_teardown ?p (ss_verifier s1))"
    using t port by (auto simp: with_verifier_def split: prod.splits)
  obtain cis F c where f: "fresh (?H @ cis) ?E F c ?p s2" "list_all2 (reported goal) rs cis" "ctx_cycle c = length rs + n"
    using s2 by (auto simp: has_run_def)
  have bound: "int (length rs + n) \<le> max 0 (max_cycles ?P)"
    using rs(2,3) by (auto simp: in_bounds_def broke_off_def split: sum.splits)
  show ?thesis
    unfolding out
    using f rs(2,3) v bound
    by (intro exI [of _ rs] exI [of _ cis] exI [of _ "ss_verifier s1"] exI [of _ n])
      (auto simp: fresh_def frame_def reported_def [abs_def] in_bounds_def run_stopped_def broke_off_def escapes_def
        split: sum.splits)
qed

text \<open>A run of a single cycle.\<close>

definition one_cycle :: settings where
  "one_cycle = demo_settings\<lparr>st_policy := default_policy\<lparr>max_cycles := 1\<rparr>\<rparr>"

theorem run_is_bounded_witness:
  "\<exists>rs. fst (run one_cycle ''g'' (demo_session demo_bundle)) = Inr rs \<and> length rs = 1"
proof -
  obtain out s' where r: "run one_cycle ''g'' (demo_session demo_bundle) = (out, s')" by fastforce
  have q: "quiescent (ss_store (demo_session demo_bundle))" by (simp add: demo_session_def)
  have "case fst (run one_cycle ''g'' (demo_session demo_bundle)) of Inr rs \<Rightarrow> True | Inl e \<Rightarrow> False"
    by code_simp
  then obtain rs where rs: "out = Inr rs" using r by (auto split: sum.splits)
  have p: "max_cycles (st_policy one_cycle) = 1" "\<not> stop_on_accept (st_policy one_cycle)"
    by (simp_all add: one_cycle_def default_policy_def)
  from run_is_bounded [OF q r] have "int (length rs) \<le> 1" "1 \<le> int (length rs)" by (auto simp: rs p)
  then show ?thesis using r rs by simp
qed

end
