(* ===== verification/Refine_Claims.thy ===== *)
theory Refine_Claims
  imports Intake_Claims
begin

text \<open>
  What bounds a refinement chain, and what an intake that raises leaves behind.
\<close>

section \<open>Refinement chains\<close>

text \<open>The artifact was sent back, and the artifact it was itself a revision of.\<close>

definition is_revised :: "store \<Rightarrow> string \<Rightarrow> bool" where
  "is_revised s i = (case get_artifact i s of Inr (Some a) \<Rightarrow> art_status a = REVISED | _ \<Rightarrow> False)"

definition revised_from :: "store \<Rightarrow> string \<Rightarrow> string option" where
  "revised_from s i = (let revises = filter (\<lambda>p. op_name p = ''revises'') (operations_into i s)
     in if revises \<noteq> [] \<and> parents (hd revises) \<noteq> [] then Some (hd (parents (hd revises))) else None)"

fun revised_chain :: "store \<Rightarrow> string list \<Rightarrow> bool" where
  "revised_chain s [] = True"
| "revised_chain s [i] = is_revised s i"
| "revised_chain s (i # j # js) = (is_revised s i \<and> revised_from s i = Some j \<and> revised_chain s (j # js))"

lemma refine_walk_mono: "refine_walk s seen n i = Inr m \<Longrightarrow> n \<le> m"
proof (induction s seen n i rule: refine_walk.induct)
  case (1 s seen n i)
  from "1.prems" show ?case
    by (subst (asm) refine_walk.simps)
      (auto simp: Let_def split: if_splits sum.splits option.splits dest: "1.IH")
qed

lemma refine_walk_counts:
  assumes "revised_chain s (i # js)" "distinct (i # js)" "set (i # js) \<inter> set seen = {}" "refine_walk s seen n i = Inr m"
  shows "n + length (i # js) \<le> m"
  using assms
proof (induction js arbitrary: i seen n)
  case Nil
  then show ?case
    by (subst (asm) refine_walk.simps)
      (auto simp: is_revised_def Let_def split: if_splits sum.splits option.splits dest: refine_walk_mono)
next
  case (Cons j js)
  obtain a where a: "get_artifact i s = Inr (Some a)" "art_status a = REVISED"
    using Cons.prems(1) by (auto simp: is_revised_def split: sum.splits option.splits)
  have "refine_walk s (i # seen) (n + 1) j = Inr m"
    using Cons.prems a by (subst (asm) refine_walk.simps) (auto simp: revised_from_def Let_def split: if_splits)
  from Cons.IH [OF _ _ _ this] Cons.prems show ?case by auto
qed

text \<open>Entering a proposal of its own id leaves the chain of its ancestors as it was.\<close>

definition same_revisions :: "store \<Rightarrow> store \<Rightarrow> string \<Rightarrow> bool" where
  "same_revisions s t i \<longleftrightarrow> (is_revised s i \<longrightarrow> is_revised t i) \<and> operations_into i t = operations_into i s"

lemma chain_cong:
  "revised_chain s is \<Longrightarrow> (\<And>i. i \<in> set is \<Longrightarrow> same_revisions s t i) \<Longrightarrow> revised_chain t is"
  by (induction s "is" rule: revised_chain.induct) (auto simp: same_revisions_def revised_from_def)

lemma chain_has: "revised_chain s is \<Longrightarrow> i \<in> set is \<Longrightarrow> is_revised s i"
  by (induction s "is" rule: revised_chain.induct) auto

lemma is_revised_row:
  "is_revised s i = (case List.find (\<lambda>r. art_id r = i) (t_artifacts (working s)) of
     Some r \<Rightarrow> art_status r = REVISED \<and> (\<exists>p. load_payload (art_payload r) = Inr p) | None \<Rightarrow> False)"
  by (auto simp: is_revised_def get_artifact_def row_to_artifact_def row_with_def bindS_def
      split: sum.splits option.splits)

lemma is_revised_artifact: "is_revised s i \<Longrightarrow> has_artifact i (working s)"
  by (auto simp: is_revised_row has_artifact_iff dest: find_Some_in split: option.splits)

lemma find_append: "List.find P (xs @ ys) = (case List.find P xs of Some x \<Rightarrow> Some x | None \<Rightarrow> List.find P ys)"
  by (induction xs) auto

lemma find_map_row: "(\<And>r. art_id (f r) = art_id r) \<Longrightarrow>
  List.find (\<lambda>r. art_id r = i) (map (\<lambda>r. if art_id r = j then f r else r) rs) =
    map_option (\<lambda>r. if art_id r = j then f r else r) (List.find (\<lambda>r. art_id r = i) rs)"
  by (induction rs) auto

lemma same_revisions_propose:
  assumes "propose a p s = (Inr x, s')" "output_id p = art_id a" "is_revised s i"
  shows "same_revisions s s' i"
proof -
  obtain q where q: "op_stamp p q" "working s' = (working s)\<lparr>
       t_artifacts := t_artifacts (working s) @ [artifact_to_row x],
       t_operations := t_operations (working s) @ [q]\<rparr>" "\<not> has_artifact (art_id a) (working s)"
    using propose_Inr [OF assms(1)] by blast
  have "output_id q \<noteq> i" using q assms(2) is_revised_artifact [OF assms(3)] op_stamp_sel [OF q(1)] by auto
  then show ?thesis using q assms(3)
    by (auto simp: same_revisions_def operations_into_def is_revised_row find_append split: option.splits)
qed

lemma same_revisions_link:
  assumes "link_revision_if_any p j s = (Inr u, s')" "is_revised s i"
  shows "same_revisions s s' i"
proof -
  have "s' = s \<or> (\<exists>k. link_revision k j s = (Inr (), s'))"
    using assms(1) by (auto simp: link_revision_if_any_def bindE_ok reads_eq ret_eq split: if_splits option.splits)
  then show ?thesis
  proof
    assume "\<exists>k. link_revision k j s = (Inr (), s')"
    then obtain k where "working s' = map_row k (\<lambda>r. r\<lparr>art_status := REVISED, revised_by := Some j\<rparr>) (working s)"
      using link_revision_Inr by blast
    then show ?thesis using assms(2)
      by (auto simp: same_revisions_def operations_into_def is_revised_row map_row_def find_map_row split: option.splits)
  qed (simp add: same_revisions_def)
qed

lemma same_revisions_enter:
  assumes "enter_proposal env s = (Inr (a, objs, h), s1)" "output_id (pe_operation env) = art_id (pe_artifact env)"
    "is_revised (ss_store s) i"
  shows "same_revisions (ss_store s) (ss_store s1) i"
proof -
  obtain st0 st1 st2 x where e: "put_objects objs (ss_store s) = (Inr h, st0)"
    "a = intake_artifact (ss_config s) env h" "propose a (pe_operation env) st0 = (Inr x, st1)"
    "link_revision_if_any (pe_operation env) (art_id a) st1 = (Inr (), st2)" "ss_store s1 = st2"
    using assms(1) by (auto simp: enter_ok)
  have w: "working st0 = working (ss_store s)" using put_objects_Inr [OF e(1)] by simp
  have 0: "is_revised st0 i" "operations_into i st0 = operations_into i (ss_store s)"
    using assms(3) w by (simp_all add: is_revised_row operations_into_def)
  have id: "art_id a = art_id (pe_artifact env)" by (simp add: e(2) intake_artifact_def Let_def)
  have 1: "same_revisions st0 st1 i" using same_revisions_propose [OF e(3) _ 0(1)] assms(2) id by simp
  have 2: "same_revisions st1 st2 i" using same_revisions_link [OF e(4)] 0(1) 1 by (simp add: same_revisions_def)
  show ?thesis using 0 1 2 assms(3) e(5) by (simp add: same_revisions_def)
qed

lemma commit_exhausted:
  assumes "fst (session_commit cs i objs True s) = Inr c"
  shows "cr_artifact_id c = i \<and> cr_status c \<in> {ACCEPTED, TENTATIVE, REJECTED}"
proof -
  obtain st v where r: "run_commit i (resolve_gate (tc_gated (ss_config s)))
        (port_dispatch (ss_verifier_port s) (st_timeout cs) (tc_gated (ss_config s)) objs)
        (vp_identity (ss_verifier_port s)) True (ss_store s, ss_verifier s) = (Inr c, (st, v))"
    using assms by (auto simp: session_commit_def split: prod.splits)
  from run_commit_Inr [OF r] obtain a b where ab: "art_id a = i" "settle a b True (ss_store s) = (Inr c, st)" by metis
  from settle_Inr [OF ab(2)] have "cr_artifact_id c = art_id a" "cr_status c = final_status b True"
    "is_legal_transition PROPOSED (vb_status b)" by (auto simp: terminal_effect_def)
  then show ?thesis using ab(1) by (auto simp: final_status_def from_proposed)
qed

text \<open>C16. Refinement ends: once a proposal revises an artifact that stands at the end of a chain of at least
  \<open>refine_cap\<close> artifacts sent back one after the other, its commit never sends it back again, whatever
  the verifier rules. The chain is read from the store as it was before the proposal.\<close>

theorem refine_cap_ends_the_loop:
  assumes "submit_proposal cs env s = (Inr r, s')" "ir_shape_error r = None"
    "op_name (pe_operation env) = ''revises''" "parents (pe_operation env) = i # ps"
    "output_id (pe_operation env) = art_id (pe_artifact env)"
    "revised_chain (ss_store s) (i # js)" "distinct (i # js)" "refine_cap (st_policy cs) \<le> int (length (i # js))"
  shows "\<exists>c. ir_commit r = Some c \<and> cr_artifact_id c = art_id (pe_artifact env) \<and>
    cr_status c \<in> {ACCEPTED, TENTATIVE, REJECTED}"
proof -
  obtain a objs h s1 where e: "enter_proposal env s = (Inr (a, objs, h), s1)"
    and c: "commit_proposal cs env a objs h s1 = (Inr r, s')"
    using submit_Inr [OF assms(1)] assms(2) by (auto simp: no_result_def)
  obtain n k where n: "count_lineage_refines (ss_store s1) (pe_operation env) = Inr n" "ir_commit r = Some k"
    "fst (session_commit cs (art_id a) objs (int n \<ge> refine_cap (st_policy cs)) s1) = Inr k"
    using commit_proposal_Inr [OF c] by blast
  have "revised_chain (ss_store s1) (i # js)"
    by (rule chain_cong [OF assms(6)]) (rule same_revisions_enter [OF e assms(5)], rule chain_has [OF assms(6)])
  moreover have "refine_walk (ss_store s1) [] 0 i = Inr n"
    using n(1) assms(3,4) by (simp add: count_lineage_refines_def)
  ultimately have "length (i # js) \<le> n" using refine_walk_counts [of "ss_store s1" i js "[]" 0 n] assms(7) by simp
  then have "int n \<ge> refine_cap (st_policy cs)" using assms(8) by linarith
  then have "fst (session_commit cs (art_id a) objs True s1) = Inr k" using n(3) by simp
  moreover have "art_id a = art_id (pe_artifact env)" using e by (auto simp: enter_ok intake_artifact_def Let_def)
  ultimately show ?thesis using commit_exhausted n(2) by metis
qed

text \<open>A store with one artifact that was sent back, and a proposal that revises it.\<close>

definition demo_revised :: "(unit, unit) session" where
  "demo_revised = (demo_session \<lparr>vb_status = REVISED, vb_decisions = [\<lparr>gd_gate = ''g'', gd_kind = REFINE,
       gd_rationale = ''again'', gd_defects = Some [''d''], gd_score = None\<rparr>], vb_supersedes = None\<rparr>)
     \<lparr>ss_store := (let d = empty_db\<lparr>t_artifacts := [(artifact_to_row (demo_artifact ''p'' (PJson (JObj []))))
          \<lparr>art_status := REVISED\<rparr>]\<rparr> in demo_store\<lparr>working := d, committed := d\<rparr>)\<rparr>"

definition demo_revision :: proposal_envelope where
  "demo_revision = (demo_envelope ''a'')\<lparr>pe_operation :=
     (demo_operation ''op-a'' ''a'')\<lparr>op_name := ''revises'', parents := [''p'']\<rparr>\<rparr>"

definition cap_one :: settings where
  "cap_one = demo_settings\<lparr>st_policy := default_policy\<lparr>refine_cap := 1\<rparr>\<rparr>"

theorem refine_cap_ends_the_loop_witness:
  "\<exists>r s' c. submit_proposal cap_one demo_revision demo_revised = (Inr r, s') \<and> ir_commit r = Some c \<and>
     cr_status c \<in> {ACCEPTED, TENTATIVE, REJECTED}"
proof -
  have "case submit_proposal cap_one demo_revision demo_revised of
      (Inr r, s') \<Rightarrow> ir_shape_error r = None | _ \<Rightarrow> False"
    by code_simp
  then obtain r s' where r: "submit_proposal cap_one demo_revision demo_revised = (Inr r, s')" "ir_shape_error r = None"
    by (auto split: prod.splits sum.splits)
  have "revised_chain (ss_store demo_revised) [''p'']" by code_simp
  then show ?thesis
    using refine_cap_ends_the_loop [OF r, of "''p''" "[]" "[]"] r(1)
    by (auto simp: demo_revision_def demo_envelope_def demo_operation_def demo_artifact_def cap_one_def)
qed

section \<open>Intakes that raise\<close>

lemma store_transcript_returns: "\<exists>r s'. store_transcript t s = (Inr r, s')"
  by (auto simp: store_transcript_def bindE_def attempt_def put_object_def Let_def ret_def raise_def
      is_store_error_def split: option.split)

text \<open>A commit of a proposal raises only where nothing has been decided.\<close>

lemma commit_proposal_Inl:
  assumes "commit_proposal cs env a objs h s = (Inl e, s')" "quiescent (ss_store s)"
  shows "working (ss_store s') = working (ss_store s)"
proof (cases "count_lineage_refines (ss_store s) (pe_operation env)")
  case (Inl e')
  then show ?thesis using assms(1) by (simp add: commit_proposal_def bindE_def reads_def)
next
  case (Inr n)
  obtain r1 s1 where c: "session_commit cs (art_id a) objs (int n \<ge> refine_cap (st_policy cs)) s = (r1, s1)"
    by fastforce
  show ?thesis
  proof (cases r1)
    case (Inl e')
    then have "s' = s1" using assms(1) \<open>_ = Inr n\<close> c by (simp add: commit_proposal_def bindE_def reads_def)
    then show ?thesis using c Inl by (auto simp: session_commit_ok dest!: run_commit_Inl [OF assms(2)])
  next
    case k: (Inr k)
    let ?kids = "\<lambda>tc. case (cr_outcome k, tc_harvester tc) of
         (OUT_ACCEPTED, Some h) \<Rightarrow> try_catch (harvest_children cs h a) (\<lambda>_. ret ())
       | _ \<Rightarrow> ret ()"
    have "\<exists>u t. ?kids (ss_config s1) s1 = (Inr u, t)"
      by (cases "cr_outcome k"; cases "tc_harvester (ss_config s1)")
        (auto simp: try_catch_def ret_def split: prod.split sum.split)
    then obtain u t where t: "?kids (ss_config s1) s1 = (Inr u, t)" by blast
    obtain ref st where st: "store_transcript (pe_transcript env) (ss_store t) = (Inr ref, st)"
      using store_transcript_returns by blast
    have "\<exists>x y. commit_proposal cs env a objs h s = (Inr x, y)"
      using \<open>_ = Inr n\<close> c k t st
      by (simp add: commit_proposal_def bindE_def reads_def gets_def ret_def with_store_def)
    then show ?thesis using assms(1) by simp
  qed
qed

definition same_status :: "artifact_row \<Rightarrow> artifact_row \<Rightarrow> bool" where
  "same_status r r' \<longleftrightarrow> row_frozen r r' \<and> art_status r' = art_status r"

lemma same_status_refl: "list_all2 same_status rs rs"
  by (rule list_all2_refl) (simp add: same_status_def row_frozen_def)

lemma link_keeps_status:
  assumes "link_revision_if_any p j s = (r, s')" "quiescent s" "unique_keys (working s)"
  shows "t_decisions (working s') = t_decisions (working s) \<and>
    list_all2 same_status (t_artifacts (working s)) (t_artifacts (working s'))"
proof -
  have "s' = s \<or> (\<exists>k a. get_artifact k s = Inr (Some a) \<and> art_status a = REVISED \<and> link_revision k j s = (r, s'))"
  proof (cases "get_artifact (hd (parents p)) s")
    case (Inr found)
    then show ?thesis using assms(1)
      by (cases found) (auto simp: link_revision_if_any_def bindE_def reads_def ret_def get_artifact_id
          split: if_splits)
  qed (use assms(1) in \<open>auto simp: link_revision_if_any_def bindE_def reads_def ret_def split: if_splits\<close>)
  then show ?thesis
  proof (elim disjE exE conjE)
    fix k a assume k: "get_artifact k s = Inr (Some a)" "art_status a = REVISED" "link_revision k j s = (r, s')"
    show ?thesis
    proof (cases r)
      case (Inl e)
      have "keeps (inside 1 (committed s)) (bindE (require_artifact k) (\<lambda>_. bindE (require_artifact j) (\<lambda>_.
          upd (map_row k (\<lambda>r. r\<lparr>art_status := REVISED, revised_by := Some j\<rparr>)))))"
        by (intro keeps_intros)
      from tx_atomic [OF assms(2) this, of r s'] k(3) Inl show ?thesis
        by (simp add: link_revision_def same_status_refl)
    next
      case (Inr u)
      have w: "working s' = map_row k (\<lambda>r. r\<lparr>art_status := REVISED, revised_by := Some j\<rparr>) (working s)"
        using link_revision_Inr k(3) Inr by blast
      have "same_status x (if art_id x = k then x\<lparr>art_status := REVISED, revised_by := Some j\<rparr> else x)"
        if "x \<in> set (t_artifacts (working s))" for x
        using find_key_row [OF k(1) assms(3) that] k(2) by (auto simp: same_status_def row_frozen_def)
      then have "list_all2 same_status (t_artifacts (working s)) (map (\<lambda>x. if art_id x = k
          then x\<lparr>art_status := REVISED, revised_by := Some j\<rparr> else x) (t_artifacts (working s)))"
        unfolding list_all2_map2 by (rule list_all2_same [THEN iffD2, rule_format])
      then show ?thesis using w by (simp add: map_row_def)
    qed
  qed (simp add: same_status_refl)
qed

text \<open>What proposing and linking leave, whether or not they raise.\<close>

definition only_proposed :: "string \<Rightarrow> db \<Rightarrow> db \<Rightarrow> bool" where
  "only_proposed i d d' \<longleftrightarrow> t_decisions d' = t_decisions d \<and> (\<exists>old new. t_artifacts d' = old @ new \<and>
     list_all2 same_status (t_artifacts d) old \<and> length new \<le> 1 \<and>
     (\<forall>r \<in> set new. art_id r = i \<and> art_status r = PROPOSED))"

lemma only_proposed_refl: "t_decisions d' = t_decisions d \<Longrightarrow> t_artifacts d' = t_artifacts d \<Longrightarrow> only_proposed i d d'"
  unfolding only_proposed_def by (intro conjI exI [of _ "t_artifacts d"] exI [of _ "[]"]) (simp_all add: same_status_refl)

lemma keeps_working_put_objects: "keeps (\<lambda>s. working s = d) (put_objects objs)"
  by (rule keeps_put_objects_of) (simp add: keeps_def put_object_def Let_def ret_def raise_def split: option.split)

lemma only_proposed_enter:
  assumes "enter_proposal env s = (r, s')" "quiescent (ss_store s)" "unique_keys (working (ss_store s))"
  shows "only_proposed (art_id (pe_artifact env)) (working (ss_store s)) (working (ss_store s'))"
proof (cases "tc_object_namer (ss_config s) (pe_artifact env)")
  case (Inl e)
  then show ?thesis using assms(1) by (simp add: enter_proposal_def bindE_def reads_def only_proposed_refl)
next
  case (Inr declared)
  let ?objs = "declared_objects declared (pe_objects env)" and ?d = "working (ss_store s)"
  obtain r0 st0 where p0: "put_objects ?objs (ss_store s) = (r0, st0)" by fastforce
  have w0: "working st0 = ?d" "quiescent st0"
    using keepsD [OF quiet.keeps_put_objects assms(2) p0]
      keepsD [OF keeps_working_put_objects refl p0] by simp_all
  show ?thesis
  proof (cases r0)
    case (Inl e)
    then show ?thesis using assms(1) Inr p0 w0
      by (auto simp: enter_proposal_def bindE_def reads_def with_store_def Let_def only_proposed_refl)
  next
    case h: (Inr h)
    let ?a = "intake_artifact (ss_config s) env h"
    have id: "art_id ?a = art_id (pe_artifact env)" by (simp add: intake_artifact_def Let_def)
    obtain r1 st1 where p1: "propose ?a (pe_operation env) st0 = (r1, st1)" by fastforce
    show ?thesis
    proof (cases r1)
      case (Inl e)
      have "working st1 = working st0" using propose_Inl [OF w0(2)] p1 Inl by blast
      then show ?thesis using assms(1) \<open>_ = Inr declared\<close> p0 h p1 Inl w0
        by (auto simp: enter_proposal_def bindE_def reads_def gets_def modify_def with_store_def Let_def only_proposed_refl)
    next
      case (Inr x)
      obtain q where w1: "art_stamp ?a x" "art_status ?a = PROPOSED" "working st1 = (working st0)\<lparr>
         t_artifacts := t_artifacts (working st0) @ [artifact_to_row x],
         t_operations := t_operations (working st0) @ [q]\<rparr>" using propose_Inr [OF p1 [unfolded Inr]] by blast
      have q1: "quiescent st1" using keepsD [OF keeps_quiescent_propose w0(2) p1] .
      have "store_inv (\<lambda>c w. unique_keys c \<and> unique_keys w) st0"
        using assms(3) w0 by (simp add: store_inv_def quiescent_def)
      from keepsD [OF keys.discipline.keeps_propose this p1] have u1: "unique_keys (working st1)"
        by (simp add: store_inv_def)
      obtain r2 st2 where p2: "link_revision_if_any (pe_operation env) (art_id ?a) st1 = (r2, st2)" by fastforce
      have s': "ss_store s' = st2"
        using assms(1) \<open>_ = Inr declared\<close> p0 h p1 Inr p2
        by (cases r2) (auto simp: enter_proposal_def bindE_def reads_def gets_def modify_def with_store_def Let_def ret_def)
      have l: "t_decisions (working st2) = t_decisions ?d"
        "list_all2 same_status (t_artifacts ?d @ [artifact_to_row x]) (t_artifacts (working st2))"
        using link_keeps_status [OF p2 q1 u1] w1 w0 by simp_all
      from l(2) obtain old row where row: "t_artifacts (working st2) = old @ [row]"
        "list_all2 same_status (t_artifacts ?d) old" "same_status (artifact_to_row x) row"
        by (auto simp: list_all2_append1 list_all2_Cons1)
      have "art_id row = art_id (pe_artifact env) \<and> art_status row = PROPOSED"
        using row(3) w1(1,2) art_stamp_sel [OF w1(1)] id by (auto simp: same_status_def row_frozen_def)
      then show ?thesis unfolding only_proposed_def s' using l(1) row(1,2)
        by (intro conjI exI [of _ old] exI [of _ "[row]"]) auto
    qed
  qed
qed

text \<open>C17. An intake that raises decides nothing: no decision is recorded, no row changes its status, and
  at most the proposal's own row has been added, as a proposal without verdict. In particular a gate
  that is unavailable never leaves half a verdict behind.\<close>

theorem failed_intake_decides_nothing:
  assumes "submit_proposal cs env s = (Inl e, s')" "quiescent (ss_store s)" "unique_keys (working (ss_store s))"
  shows "t_decisions (working (ss_store s')) = t_decisions (working (ss_store s)) \<and>
    (\<exists>old new. t_artifacts (working (ss_store s')) = old @ new \<and>
      list_all2 (\<lambda>r r'. row_frozen r r' \<and> art_status r' = art_status r) (t_artifacts (working (ss_store s))) old \<and>
      length new \<le> 1 \<and> (\<forall>r \<in> set new. art_id r = art_id (pe_artifact env) \<and> art_status r = PROPOSED))"
proof -
  have "only_proposed (art_id (pe_artifact env)) (working (ss_store s)) (working (ss_store s'))"
  proof (cases "check_shape (ss_config s) env")
    case (Inl e')
    then show ?thesis using assms(1) by (simp add: submit_proposal_def bindE_def reads_def only_proposed_refl)
  next
    case (Inr sh)
    then have sh: "sh = None" using assms(1) by (cases sh) (auto simp: submit_proposal_def bindE_def reads_def ret_def)
    obtain r1 s1 where e: "enter_proposal env s = (r1, s1)" by fastforce
    note one = only_proposed_enter [OF e assms(2,3)]
    show ?thesis
    proof (cases r1)
      case (Inl e')
      then show ?thesis using assms(1) Inr sh e one by (simp add: submit_proposal_def bindE_def reads_def)
    next
      case r1: (Inr x)
      obtain a objs h where x: "x = (a, objs, h)" by (cases x)
      have c: "commit_proposal cs env a objs h s1 = (Inl e, s')"
        using assms(1) Inr sh e r1 x by (simp add: submit_proposal_def bindE_def reads_def)
      have "quiescent (ss_store s1)" using enter_row(2) [OF e [unfolded r1 x] assms(2)] .
      from commit_proposal_Inl [OF c this] one show ?thesis by simp
    qed
  qed
  then show ?thesis unfolding only_proposed_def same_status_def [abs_def] .
qed

text \<open>A verifier that is down.\<close>

definition demo_down :: "(unit, unit) session" where
  "demo_down = (demo_session demo_bundle)\<lparr>ss_verifier_port :=
     (demo_service demo_bundle)\<lparr>vp_dispatch := (\<lambda>_. raise (GateUnavailable ''down''))\<rparr>\<rparr>"

theorem failed_intake_decides_nothing_witness:
  "\<exists>e s'. submit_proposal demo_settings (demo_envelope ''a'') demo_down = (Inl e, s') \<and>
     t_decisions (working (ss_store s')) = []"
proof -
  have "case submit_proposal demo_settings (demo_envelope ''a'') demo_down of (Inl e, s') \<Rightarrow> True | _ \<Rightarrow> False"
    by code_simp
  then obtain e s' where r: "submit_proposal demo_settings (demo_envelope ''a'') demo_down = (Inl e, s')"
    by (auto split: prod.splits sum.splits)
  have s: "ss_store demo_down = demo_store" by (simp add: demo_down_def demo_session_def)
  have "quiescent (ss_store demo_down)" "unique_keys (working (ss_store demo_down))"
    using demo_clean by (simp_all add: s clean_def quiescent_def)
  from failed_intake_decides_nothing [OF r this] r show ?thesis
    by (auto simp: s demo_store_def open_store_def empty_db_def)
qed

end
