(* ===== verification/Job_Queue.thy ===== *)
theory Job_Queue
  imports Model
begin

text \<open>
  \<open>contracts/jobqueue.py\<close>: the job queue port and its in-process default. The port is the locale
  \<open>job_queue\<close>, whose laws speak of the jobs waiting, oldest first, and the status of each known job;
  the default is an instance of it, and so refines the abstract first-in first-out queue.
\<close>

section \<open>Jobs\<close>

datatype job_status = QUEUED | CLAIMED | DONE | JOB_FAILED

fun job_status_value :: "job_status \<Rightarrow> string" where
  "job_status_value QUEUED = ''queued''"
| "job_status_value CLAIMED = ''claimed''"
| "job_status_value DONE = ''done''"
| "job_status_value JOB_FAILED = ''failed''"

record job =
  job_id :: string
  job_tenant_id :: string
  job_run_id :: string
  job_payload :: "(string \<times> json) list"

record job_state =
  js_job :: job
  js_status :: job_status
  js_result :: "(string \<times> json) list option"
  js_error :: "string option"

section \<open>The in-process queue\<close>

record in_process_queue =
  jq_pending :: "string list"
  jq_states :: "(string \<times> job_state) list"

type_synonym 'a queue_op = "(in_process_queue, exc, 'a) st"

definition empty_queue :: in_process_queue where
  "empty_queue = \<lparr>jq_pending = [], jq_states = []\<rparr>"

definition put_state :: "string \<Rightarrow> job_state \<Rightarrow> unit queue_op" where
  "put_state i js = modify (jq_states_update (dict_put i js))"

definition enqueue :: "job \<Rightarrow> string queue_op" where
  "enqueue j =
     bindE (put_state (job_id j) \<lparr>js_job = j, js_status = QUEUED, js_result = None, js_error = None\<rparr>) (\<lambda>_.
     bindE (modify (jq_pending_update (\<lambda>p. p @ [job_id j]))) (\<lambda>_.
     ret (job_id j)))"

text \<open>\<open>while self._pending\<close>: entries that are no longer queued are dropped on the way.\<close>

fun claim_loop :: "string list \<Rightarrow> (string \<times> job_state) list \<Rightarrow> job option \<times> in_process_queue" where
  "claim_loop [] states = (None, \<lparr>jq_pending = [], jq_states = states\<rparr>)"
| "claim_loop (i # pending) states =
     (case map_of states i of
        Some js \<Rightarrow>
          if js_status js = QUEUED
          then (Some (js_job js), \<lparr>jq_pending = pending, jq_states = dict_put i
                 \<lparr>js_job = js_job js, js_status = CLAIMED, js_result = None, js_error = None\<rparr> states\<rparr>)
          else claim_loop pending states
      | None \<Rightarrow> claim_loop pending states)"

definition claim :: "job option queue_op" where
  "claim q = (case claim_loop (jq_pending q) (jq_states q) of (j, q') \<Rightarrow> (Inr j, q'))"

definition require_job :: "string \<Rightarrow> in_process_queue \<Rightarrow> exc + job_state" where
  "require_job i q = (case map_of (jq_states q) i of
      Some js \<Rightarrow> Inr js
    | None \<Rightarrow> Inl (KeyError (''unknown job: '' @ i)))"

definition complete :: "string \<Rightarrow> (string \<times> json) list \<Rightarrow> unit queue_op" where
  "complete i result =
     bindE (reads (require_job i)) (\<lambda>js.
     put_state i \<lparr>js_job = js_job js, js_status = DONE, js_result = Some result, js_error = None\<rparr>)"

definition fail :: "string \<Rightarrow> string \<Rightarrow> unit queue_op" where
  "fail i error =
     bindE (reads (require_job i)) (\<lambda>js.
     put_state i \<lparr>js_job = js_job js, js_status = JOB_FAILED, js_result = None, js_error = Some error\<rparr>)"

definition job_status_of :: "string \<Rightarrow> job_status queue_op" where
  "job_status_of i = reads (\<lambda>q. bindS (require_job i q) (\<lambda>js. Inr (js_status js)))"

section \<open>The port\<close>

text \<open>The abstract queue: the jobs waiting, and the status of every job ever enqueued.\<close>

type_synonym fifo = "job list \<times> (string \<rightharpoonup> job_status)"

datatype queue_call =
    Enqueue job
  | Claim
  | Complete string "(string \<times> json) list"
  | Fail string string
  | Status string

datatype queue_reply = Job_Id string | Claimed "job option" | Settled | Job_Is job_status | Raised exc

definition unknown_job :: "string \<Rightarrow> exc" where
  "unknown_job i = KeyError (''unknown job: '' @ i)"

definition fifo_settle :: "string \<Rightarrow> job_status \<Rightarrow> fifo \<Rightarrow> queue_reply \<times> fifo" where
  "fifo_settle i st = (\<lambda>(w, known). case known i of
      None \<Rightarrow> (Raised (unknown_job i), (w, known))
    | Some _ \<Rightarrow> (Settled, (filter (\<lambda>j. job_id j \<noteq> i) w, known(i \<mapsto> st))))"

fun fifo_step :: "queue_call \<Rightarrow> fifo \<Rightarrow> queue_reply \<times> fifo" where
  "fifo_step (Enqueue j) (w, known) = (Job_Id (job_id j), (w @ [j], known(job_id j \<mapsto> QUEUED)))"
| "fifo_step Claim (w, known) = (case w of
      [] \<Rightarrow> (Claimed None, (w, known))
    | j # w' \<Rightarrow> (Claimed (Some j), (w', known(job_id j \<mapsto> CLAIMED))))"
| "fifo_step (Complete i r) f = fifo_settle i DONE f"
| "fifo_step (Fail i e) f = fifo_settle i JOB_FAILED f"
| "fifo_step (Status i) (w, known) = (case known i of
      None \<Rightarrow> (Raised (unknown_job i), (w, known))
    | Some st \<Rightarrow> (Job_Is st, (w, known)))"

fun replies :: "(queue_call \<Rightarrow> 'q \<Rightarrow> queue_reply \<times> 'q) \<Rightarrow> queue_call list \<Rightarrow> 'q \<Rightarrow> queue_reply list" where
  "replies step [] q = []"
| "replies step (c # cs) q = (case step c q of (r, q') \<Rightarrow> r # replies step cs q')"

fun enqueued :: "queue_call list \<Rightarrow> job list" where
  "enqueued [] = []"
| "enqueued (Enqueue j # cs) = j # enqueued cs"
| "enqueued (_ # cs) = enqueued cs"

text \<open>What a provider of the port promises: its operations step an abstract queue.\<close>

definition reply_of :: "('a \<Rightarrow> queue_reply) \<Rightarrow> (exc + 'a) \<times> 'q \<Rightarrow> queue_reply \<times> 'q" where
  "reply_of f = (\<lambda>(r, q). (case r of Inl e \<Rightarrow> Raised e | Inr x \<Rightarrow> f x, q))"

fun port_step :: "(job \<Rightarrow> ('q, exc, string) st) \<Rightarrow> ('q, exc, job option) st \<Rightarrow>
    (string \<Rightarrow> (string \<times> json) list \<Rightarrow> ('q, exc, unit) st) \<Rightarrow> (string \<Rightarrow> string \<Rightarrow> ('q, exc, unit) st) \<Rightarrow>
    (string \<Rightarrow> ('q, exc, job_status) st) \<Rightarrow> queue_call \<Rightarrow> 'q \<Rightarrow> queue_reply \<times> 'q" where
  "port_step enq clm cmp fl sts (Enqueue j) q = reply_of Job_Id (enq j q)"
| "port_step enq clm cmp fl sts Claim q = reply_of Claimed (clm q)"
| "port_step enq clm cmp fl sts (Complete i d) q = reply_of (\<lambda>_. Settled) (cmp i d q)"
| "port_step enq clm cmp fl sts (Fail i e) q = reply_of (\<lambda>_. Settled) (fl i e q)"
| "port_step enq clm cmp fl sts (Status i) q = reply_of Job_Is (sts i q)"

definition fifo_ok :: "fifo \<Rightarrow> bool" where
  "fifo_ok f \<longleftrightarrow> (\<forall>j \<in> set (fst f). snd f (job_id j) \<noteq> None)"

lemma fifo_step_ok: "fifo_step c f = (r, f') \<Longrightarrow> fifo_ok f \<Longrightarrow> fifo_ok f'"
  by (cases c; cases f) (auto simp: fifo_ok_def fifo_settle_def split: option.splits list.splits if_splits)

lemma fifo_step_fresh:
  "fifo_step c f = (r, f') \<Longrightarrow> fifo_ok f \<Longrightarrow> snd f i = None \<Longrightarrow> (\<And>j. c = Enqueue j \<Longrightarrow> job_id j \<noteq> i) \<Longrightarrow> snd f' i = None"
  by (cases c; cases f) (auto simp: fifo_ok_def fifo_settle_def split: option.splits list.splits if_splits)

locale job_queue =
  fixes enq :: "job \<Rightarrow> ('q, exc, string) st" and clm :: "('q, exc, job option) st"
    and cmp :: "string \<Rightarrow> (string \<times> json) list \<Rightarrow> ('q, exc, unit) st"
    and fl :: "string \<Rightarrow> string \<Rightarrow> ('q, exc, unit) st" and sts :: "string \<Rightarrow> ('q, exc, job_status) st"
    and valid :: "'q \<Rightarrow> bool" and abs :: "'q \<Rightarrow> fifo"
  assumes enq_abs: "valid q \<Longrightarrow> snd (abs q) (job_id j) = None \<Longrightarrow> reply_of Job_Id (enq j q) = (r, q') \<Longrightarrow>
      valid q' \<and> fifo_step (Enqueue j) (abs q) = (r, abs q')"
    and clm_abs: "valid q \<Longrightarrow> reply_of Claimed (clm q) = (r, q') \<Longrightarrow>
      valid q' \<and> fifo_step Claim (abs q) = (r, abs q')"
    and cmp_abs: "valid q \<Longrightarrow> reply_of (\<lambda>_. Settled) (cmp i d q) = (r, q') \<Longrightarrow>
      valid q' \<and> fifo_step (Complete i d) (abs q) = (r, abs q')"
    and fl_abs: "valid q \<Longrightarrow> reply_of (\<lambda>_. Settled) (fl i e q) = (r, q') \<Longrightarrow>
      valid q' \<and> fifo_step (Fail i e) (abs q) = (r, abs q')"
    and sts_abs: "valid q \<Longrightarrow> reply_of Job_Is (sts i q) = (r, q') \<Longrightarrow>
      valid q' \<and> fifo_step (Status i) (abs q) = (r, abs q')"
begin

lemma step_abs:
  assumes "valid q" "\<And>j. c = Enqueue j \<Longrightarrow> snd (abs q) (job_id j) = None"
    "port_step enq clm cmp fl sts c q = (r, q')"
  shows "valid q' \<and> fifo_step c (abs q) = (r, abs q')"
proof (cases c)
  case (Enqueue j)
  then show ?thesis using enq_abs [OF assms(1)] assms(2,3) by simp
next
  case Claim
  then show ?thesis using clm_abs [OF assms(1)] assms(3) by simp
next
  case (Complete i d)
  then show ?thesis using cmp_abs [OF assms(1)] assms(3) by simp
next
  case (Fail i e)
  then show ?thesis using fl_abs [OF assms(1)] assms(3) by simp
next
  case (Status i)
  then show ?thesis using sts_abs [OF assms(1)] assms(3) by simp
qed

lemma replies_abs:
  assumes "valid q" "fifo_ok (abs q)" "distinct (map job_id (enqueued cs))"
    "\<forall>j \<in> set (enqueued cs). snd (abs q) (job_id j) = None"
  shows "replies (port_step enq clm cmp fl sts) cs q = replies fifo_step cs (abs q)"
  using assms
proof (induction cs arbitrary: q)
  case (Cons c cs)
  obtain r q' where st: "port_step enq clm cmp fl sts c q = (r, q')" by fastforce
  have ok: "valid q'" "fifo_step c (abs q) = (r, abs q')"
    using step_abs [OF Cons.prems(1) _ st] Cons.prems(4) by auto
  have "\<forall>j \<in> set (enqueued cs). snd (abs q') (job_id j) = None"
    using fifo_step_fresh [OF ok(2) Cons.prems(2)] Cons.prems(3,4) by (cases c) auto
  moreover have "distinct (map job_id (enqueued cs))" using Cons.prems(3) by (cases c) auto
  ultimately show ?case using Cons.IH [OF ok(1) fifo_step_ok [OF ok(2) Cons.prems(2)]] st ok(2) by simp
qed simp

end

section \<open>The default is a provider\<close>

definition queued :: "(string \<times> job_state) list \<Rightarrow> string \<Rightarrow> bool" where
  "queued states i = (case map_of states i of Some js \<Rightarrow> js_status js = QUEUED | None \<Rightarrow> False)"

definition job_of :: "(string \<times> job_state) list \<Rightarrow> string \<Rightarrow> job" where
  "job_of states i = js_job (the (map_of states i))"

definition waiting :: "string list \<Rightarrow> (string \<times> job_state) list \<Rightarrow> job list" where
  "waiting pending states = map (job_of states) (filter (queued states) pending)"

definition queue_abs :: "in_process_queue \<Rightarrow> fifo" where
  "queue_abs q = (waiting (jq_pending q) (jq_states q), map_option js_status \<circ> map_of (jq_states q))"

definition queue_valid :: "in_process_queue \<Rightarrow> bool" where
  "queue_valid q \<longleftrightarrow> distinct (jq_pending q) \<and> set (jq_pending q) \<subseteq> dom (map_of (jq_states q)) \<and>
     (\<forall>i js. map_of (jq_states q) i = Some js \<longrightarrow> job_id (js_job js) = i)"

lemma waiting_other:
  "i \<notin> set p \<Longrightarrow> waiting p (dict_put i js states) = waiting p states"
  unfolding waiting_def by (induction p) (auto simp: queued_def job_of_def)

lemma waiting_drop:
  "\<forall>i js. map_of states i = Some js \<longrightarrow> job_id (js_job js) = i \<Longrightarrow> js_status js \<noteq> QUEUED \<Longrightarrow>
   waiting p (dict_put i js states) = filter (\<lambda>j. job_id j \<noteq> i) (waiting p states)"
  unfolding waiting_def by (induction p) (auto simp: queued_def job_of_def split: option.splits)

lemma claim_loop_abs:
  assumes "queue_valid \<lparr>jq_pending = p, jq_states = states\<rparr>" "claim_loop p states = (j, q')"
  shows "queue_valid q' \<and> fifo_step Claim (queue_abs \<lparr>jq_pending = p, jq_states = states\<rparr>) = (Claimed j, queue_abs q')"
  using assms
proof (induction p)
  case Nil
  then show ?case by (auto simp: queue_abs_def waiting_def)
next
  case (Cons i p)
  obtain js where js: "map_of states i = Some js" using Cons.prems(1) by (auto simp: queue_valid_def)
  show ?case
  proof (cases "js_status js = QUEUED")
    case True
    then have q': "j = Some (js_job js)" "q' = \<lparr>jq_pending = p, jq_states = dict_put i
        \<lparr>js_job = js_job js, js_status = CLAIMED, js_result = None, js_error = None\<rparr> states\<rparr>"
      using Cons.prems(2) js by auto
    have "i \<notin> set p" "job_id (js_job js) = i" using Cons.prems(1) js by (auto simp: queue_valid_def)
    then show ?thesis using Cons.prems(1) True js
      by (auto simp: q' queue_abs_def waiting_other fun_eq_iff queue_valid_def)
        (auto simp: waiting_def queued_def job_of_def)
  next
    case False
    then have skip: "claim_loop p states = (j, q')" using Cons.prems(2) js by simp
    have same: "waiting (i # p) states = waiting p states" using False js by (simp add: waiting_def queued_def)
    have "queue_valid \<lparr>jq_pending = p, jq_states = states\<rparr>" using Cons.prems(1) by (auto simp: queue_valid_def)
    from Cons.IH [OF this skip] show ?thesis by (simp add: queue_abs_def same)
  qed
qed

lemma claim_abs:
  "queue_valid q \<Longrightarrow> reply_of Claimed (claim q) = (r, q') \<Longrightarrow>
     queue_valid q' \<and> fifo_step Claim (queue_abs q) = (r, queue_abs q')"
  by (cases q) (auto simp: claim_def reply_of_def split: prod.splits dest: claim_loop_abs)

lemma settle_abs:
  assumes "queue_valid q" "st \<noteq> QUEUED"
    "reply_of (\<lambda>_. Settled) (bindE (reads (require_job i)) (\<lambda>js. put_state i (f js)) q) = (r, q')"
    "\<And>js. js_job (f js) = js_job js" "\<And>js. js_status (f js) = st"
  shows "queue_valid q' \<and> fifo_settle i st (queue_abs q) = (r, queue_abs q')"
proof (cases "map_of (jq_states q) i")
  case None
  then show ?thesis using assms(1,3)
    by (auto simp: reply_of_def bindE_def reads_def require_job_def fifo_settle_def queue_abs_def unknown_job_def)
next
  case (Some js)
  then have r: "r = Settled" "q' = jq_states_update (dict_put i (f js)) q"
    using assms(3) by (auto simp: reply_of_def bindE_def reads_def require_job_def put_state_def modify_def)
  show ?thesis using assms(1,2,4,5) Some
    by (auto simp: r queue_valid_def queue_abs_def fifo_settle_def waiting_drop fun_eq_iff)
qed

interpretation in_process: job_queue enqueue claim complete fail job_status_of queue_valid queue_abs
proof
  fix q r q' j
  assume q: "queue_valid q"
  show "queue_valid q' \<and> fifo_step (Enqueue j) (queue_abs q) = (r, queue_abs q')"
    if "snd (queue_abs q) (job_id j) = None" "reply_of Job_Id (enqueue j q) = (r, q')"
  proof -
    have fresh: "map_of (jq_states q) (job_id j) = None" "job_id j \<notin> set (jq_pending q)"
      using that(1) q by (auto simp: queue_abs_def queue_valid_def)
    have "r = Job_Id (job_id j)" "q' = \<lparr>jq_pending = jq_pending q @ [job_id j], jq_states = dict_put (job_id j)
        \<lparr>js_job = j, js_status = QUEUED, js_result = None, js_error = None\<rparr> (jq_states q)\<rparr>"
      using that(2) by (auto simp: enqueue_def put_state_def bindE_def modify_def ret_def reply_of_def)
    then show ?thesis using q fresh waiting_other [OF fresh(2)]
      by (auto simp: queue_valid_def queue_abs_def fun_eq_iff) (auto simp: waiting_def queued_def job_of_def)
  qed
  show "queue_valid q' \<and> fifo_step Claim (queue_abs q) = (r, queue_abs q')"
    if "reply_of Claimed (claim q) = (r, q')"
    using claim_abs [OF q that] .
next
  fix q r q' i d
  assume q: "queue_valid q"
  show "queue_valid q' \<and> fifo_step (Complete i d) (queue_abs q) = (r, queue_abs q')"
    if "reply_of (\<lambda>_. Settled) (complete i d q) = (r, q')"
    using settle_abs [OF q _ that [unfolded complete_def], of DONE] by simp
next
  fix q r q' i e
  assume q: "queue_valid q"
  show "queue_valid q' \<and> fifo_step (Fail i e) (queue_abs q) = (r, queue_abs q')"
    if "reply_of (\<lambda>_. Settled) (fail i e q) = (r, q')"
    using settle_abs [OF q _ that [unfolded fail_def], of JOB_FAILED] by simp
next
  fix q r q' i
  assume q: "queue_valid q"
  show "queue_valid q' \<and> fifo_step (Status i) (queue_abs q) = (r, queue_abs q')"
    if "reply_of Job_Is (job_status_of i q) = (r, q')"
    using that q by (auto simp: job_status_of_def reads_def require_job_def reply_of_def queue_abs_def unknown_job_def
        split: option.splits)
qed

section \<open>Claims\<close>

definition queue_step :: "queue_call \<Rightarrow> in_process_queue \<Rightarrow> queue_reply \<times> in_process_queue" where
  "queue_step = port_step enqueue claim complete fail job_status_of"

fun claimed :: "queue_reply list \<Rightarrow> job list" where
  "claimed [] = []"
| "claimed (Claimed (Some j) # rs) = j # claimed rs"
| "claimed (_ # rs) = claimed rs"

lemma fifo_claims: "subseq (claimed (replies fifo_step cs (w, known))) (w @ enqueued cs)"
proof (induction cs arbitrary: w known)
  case (Cons c cs)
  have drop: "subseq (claimed (replies fifo_step cs (filter (\<lambda>j. job_id j \<noteq> i) w, known'))) (w @ enqueued cs)" for i known'
    by (rule subseq_order.trans [OF Cons.IH]) (simp add: list_emb_append_mono)
  show ?case
  proof (cases c)
    case (Enqueue j)
    then show ?thesis using Cons.IH [of "w @ [j]"] by simp
  next
    case Claim
    then show ?thesis using Cons.IH [of "[]"] Cons.IH [of "tl w"] by (cases w) auto
  next
    case (Complete i r)
    then show ?thesis
      using Cons.IH [of w known] drop [of i] by (auto simp: fifo_settle_def split: option.split)
  next
    case (Fail i e)
    then show ?thesis
      using Cons.IH [of w known] drop [of i] by (auto simp: fifo_settle_def split: option.split)
  next
    case (Status i)
    then show ?thesis using Cons.IH by (auto split: option.split)
  qed
qed simp

text \<open>C35. The in-process queue is a first-in first-out queue: on any sequence of calls that enqueues no job
  id twice, every reply, errors included, is the one the abstract queue gives; and the jobs it hands
  out are some of the jobs enqueued, each at most once, in the order they were enqueued.\<close>

theorem queue_refines_fifo:
  assumes "distinct (map job_id (enqueued calls))"
  shows "replies queue_step calls empty_queue = replies fifo_step calls ([], \<lambda>_. None) \<and>
    subseq (claimed (replies queue_step calls empty_queue)) (enqueued calls)"
proof -
  have empty: "queue_valid empty_queue" "queue_abs empty_queue = ([], \<lambda>_. None)"
    by (simp_all add: queue_valid_def queue_abs_def empty_queue_def waiting_def fun_eq_iff)
  have "replies queue_step calls empty_queue = replies fifo_step calls ([], \<lambda>_. None)"
    using in_process.replies_abs [OF empty(1) _ assms] by (simp add: empty(2) queue_step_def fifo_ok_def)
  then show ?thesis using fifo_claims [of calls "[]"] by simp
qed

definition demo_job :: "string \<Rightarrow> job" where
  "demo_job i = \<lparr>job_id = i, job_tenant_id = ''me'', job_run_id = ''r'' @ i, job_payload = []\<rparr>"

theorem queue_refines_fifo_witness:
  "replies queue_step [Enqueue (demo_job ''a''), Enqueue (demo_job ''b''), Complete ''a'' [], Claim, Status ''b''] empty_queue =
     [Job_Id ''a'', Job_Id ''b'', Settled, Claimed (Some (demo_job ''b'')), Job_Is CLAIMED]"
  using queue_refines_fifo [of "[Enqueue (demo_job ''a''), Enqueue (demo_job ''b''), Complete ''a'' [], Claim, Status ''b'']"]
  by (simp add: demo_job_def fifo_settle_def)

end
