(* ===== verification/Wire.thy ===== *)
theory Wire
  imports Intake
begin

text \<open>
  \<open>contracts/wire.py\<close>: the JSON codecs of the values that cross a port. Object bytes travel as base64,
  which is written out with Python's decoder, lenient as it is: characters outside the alphabet are
  skipped, and decoding stops at the padding. A numeric string in the scores is read by \<open>float\<close>, a
  parameter. A decoder that meets a value of another type than its field's raises here; the source
  builds most of its records from whatever it finds and fails, if at all, where the value is used.
  So decoding is modelled for fields of their declared types, and nothing is claimed of the others.
\<close>

section \<open>Base64\<close>

definition b64_char :: "nat \<Rightarrow> char" where
  "b64_char n = (if n < 26 then char_of (65 + n) else if n < 52 then char_of (71 + n)
     else if n < 62 then char_of (n - 4) else if n = 62 then CHR ''+'' else CHR ''/'')"

definition b64_value :: "char \<Rightarrow> nat option" where
  "b64_value c = (let k = of_char c in
     if 65 \<le> k \<and> k \<le> 90 then Some (k - 65) else if 97 \<le> k \<and> k \<le> 122 then Some (k - 71)
     else if 48 \<le> k \<and> k \<le> 57 then Some (k + 4) else if k = 43 then Some 62
     else if k = 47 then Some 63 else (None :: nat option))"

fun b64encode :: "bytes \<Rightarrow> string" where
  "b64encode [] = ''''"
| "b64encode [a] = [b64_char (unat a div 4), b64_char (unat a mod 4 * 16), CHR ''='', CHR ''='']"
| "b64encode [a, b] = [b64_char (unat a div 4), b64_char (unat a mod 4 * 16 + unat b div 16),
     b64_char (unat b mod 16 * 4), CHR ''='']"
| "b64encode (a # b # c # bs) = b64_char (unat a div 4) # b64_char (unat a mod 4 * 16 + unat b div 16) #
     b64_char (unat b mod 16 * 4 + unat c div 64) # b64_char (unat c mod 64) # b64encode bs"

text \<open>The position in the current quad, the bits left over, and the padding seen.\<close>

fun b64_loop :: "nat \<Rightarrow> nat \<Rightarrow> nat \<Rightarrow> string \<Rightarrow> exc + bytes" where
  "b64_loop quad left pads [] =
     (if quad = 0 then Inr []
      else Inl (ValueError (if quad = 1
        then ''Invalid base64-encoded string: number of data characters cannot be 1 more than a multiple of 4''
        else ''Incorrect padding'')))"
| "b64_loop quad left pads (c # cs) =
     (if c = CHR ''=''
      then if 2 \<le> quad then (if 4 \<le> quad + (pads + 1) then Inr [] else b64_loop quad left (pads + 1) cs)
           else b64_loop quad left pads cs
      else case b64_value c of
        None \<Rightarrow> b64_loop quad left pads cs
      | Some v \<Rightarrow>
          if quad = 0 then b64_loop 1 v 0 cs
          else if quad = 1 then bindS (b64_loop 2 (v mod 16) 0 cs) (\<lambda>bs. Inr (of_nat (left * 4 + v div 16) # bs))
          else if quad = 2 then bindS (b64_loop 3 (v mod 4) 0 cs) (\<lambda>bs. Inr (of_nat (left * 16 + v div 4) # bs))
          else bindS (b64_loop 0 0 0 cs) (\<lambda>bs. Inr (of_nat (left * 64 + v) # bs)))"

definition b64decode :: "json \<Rightarrow> exc + bytes" where
  "b64decode j = (case j of
      JStr s \<Rightarrow> if \<forall>c \<in> set s. (of_char c :: nat) < 128 then b64_loop 0 0 0 s
        else Inl (ValueError ''string argument should contain only ASCII characters'')
    | _ \<Rightarrow> Inl (TypeError ''argument should be a bytes-like object or ASCII string''))"

section \<open>References and payloads\<close>

definition object_ref_to_dict :: "object_ref \<Rightarrow> json" where
  "object_ref_to_dict r = JObj [(''blob_ref'', JStr (blob_ref r)), (''content_hash'', JStr (content_hash r))]"

definition object_ref_from_dict :: "json \<Rightarrow> exc + object_ref" where
  "object_ref_from_dict d =
     bindS (json_get d ''blob_ref'') (\<lambda>b. bindS (json_get d ''content_hash'') (\<lambda>h.
     bindS (as_str b) (\<lambda>b'. bindS (as_str h) (\<lambda>h'. Inr \<lparr>blob_ref = b', content_hash = h'\<rparr>))))"

definition payload_to_json :: "payload \<Rightarrow> json" where
  "payload_to_json p = (case p of
      PRef r \<Rightarrow> JObj [(OBJECT_REF_MARKER, object_ref_to_dict r)]
    | PJson j \<Rightarrow> j)"

definition payload_from_json :: "json \<Rightarrow> exc + payload" where
  "payload_from_json v = (case v of
      JObj kvs \<Rightarrow> (case map_of kvs OBJECT_REF_MARKER of
          Some r \<Rightarrow> bindS (object_ref_from_dict r) (\<lambda>x. Inr (PRef x))
        | None \<Rightarrow> Inr (PJson v))
    | _ \<Rightarrow> Inr (PJson v))"

text \<open>\<open>for name, ref in ...\<close>: unpacking one element of the iteration.\<close>

definition unpack2 :: "json \<Rightarrow> exc + json \<times> json" where
  "unpack2 j = bindS (iter_json j) (\<lambda>xs. case xs of
      [a, b] \<Rightarrow> Inr (a, b)
    | _ \<Rightarrow> Inl (ValueError ''cannot unpack into 2 values''))"

section \<open>The model types\<close>

definition artifact_to_dict :: "artifact \<Rightarrow> json" where
  "artifact_to_dict a = JObj
     [(''id'', JStr (art_id a)), (''type'', JStr (art_type a)), (''payload'', payload_to_json (art_payload a)),
      (''status'', JStr (status_value (art_status a))), (''created_by'', JStr (created_by a)),
      (''created_at'', JStr (created_at a)), (''superseded_by'', opt_json JStr (superseded_by a)),
      (''revised_by'', opt_json JStr (revised_by a)), (''is_root'', JBool (is_root a)),
      (''objects'', JList (map (\<lambda>(n, ref). JList [JStr n, object_ref_to_dict ref]) (objects a)))]"

definition object_entry :: "json \<Rightarrow> exc + string \<times> object_ref" where
  "object_entry j = bindS (unpack2 j) (\<lambda>(n, ref). bindS (object_ref_from_dict ref) (\<lambda>r.
     bindS (as_str n) (\<lambda>n'. Inr (n', r))))"

definition artifact_from_dict :: "json \<Rightarrow> exc + artifact" where
  "artifact_from_dict d =
     bindS (json_get d ''id'') (\<lambda>i. bindS (json_get d ''type'') (\<lambda>t.
     bindS (bindS (json_get d ''payload'') payload_from_json) (\<lambda>p.
     bindS (bindS (bindS (json_get d ''status'') as_str) status_of) (\<lambda>st.
     bindS (json_get d ''created_by'') (\<lambda>cb. bindS (json_get d ''created_at'') (\<lambda>ca.
     bindS (json_get_or JNull d ''superseded_by'') (\<lambda>sb. bindS (json_get_or JNull d ''revised_by'') (\<lambda>rb.
     bindS (json_get_or (JBool False) d ''is_root'') (\<lambda>root'.
     bindS (bindS (bindS (json_get_or (JList []) d ''objects'') iter_json) (mapE object_entry)) (\<lambda>objs.
     bindS (as_str i) (\<lambda>i'. bindS (as_str t) (\<lambda>t'. bindS (as_str cb) (\<lambda>cb'. bindS (as_str ca) (\<lambda>ca'.
     bindS (as_opt as_str sb) (\<lambda>sb'. bindS (as_opt as_str rb) (\<lambda>rb'. bindS (as_bool root') (\<lambda>ir.
     Inr \<lparr>art_id = i', art_type = t', art_payload = p, art_status = st, created_by = cb', created_at = ca',
       superseded_by = sb', revised_by = rb', is_root = ir, objects = objs\<rparr>)))))))))))))))))"

definition operation_to_dict :: "operation \<Rightarrow> json" where
  "operation_to_dict p = JObj
     [(''op_id'', JStr (op_id p)), (''op_name'', JStr (op_name p)), (''parents'', JList (map JStr (parents p))),
      (''output_id'', JStr (output_id p)), (''status'', JStr (op_status_value (op_status p))),
      (''created_at'', JStr (op_created_at p))]"

definition operation_from_dict :: "json \<Rightarrow> exc + operation" where
  "operation_from_dict d =
     bindS (json_get d ''op_id'') (\<lambda>i. bindS (json_get d ''op_name'') (\<lambda>n.
     bindS (bindS (json_get d ''parents'') iter_json) (\<lambda>ps. bindS (json_get d ''output_id'') (\<lambda>out.
     bindS (bindS (bindS (json_get d ''status'') as_str) op_status_of) (\<lambda>st.
     bindS (json_get d ''created_at'') (\<lambda>ca.
     bindS (as_str i) (\<lambda>i'. bindS (as_str n) (\<lambda>n'. bindS (mapE as_str ps) (\<lambda>ps'.
     bindS (as_str out) (\<lambda>out'. bindS (as_str ca) (\<lambda>ca'.
     Inr \<lparr>op_id = i', op_name = n', parents = ps', output_id = out', op_status = st, op_created_at = ca'\<rparr>)))))))))))"

definition gate_decision_to_dict :: "gate_decision \<Rightarrow> json" where
  "gate_decision_to_dict g = JObj
     [(''gate'', JStr (gd_gate g)), (''kind'', JStr (verdict_value (gd_kind g))), (''rationale'', JStr (gd_rationale g)),
      (''defects'', opt_json (\<lambda>ds. JList (map JStr ds)) (gd_defects g)), (''score'', opt_json JFloat (gd_score g))]"

definition gate_decision_from_dict :: "json \<Rightarrow> exc + gate_decision" where
  "gate_decision_from_dict d =
     bindS (json_get_or JNull d ''defects'') (\<lambda>defects. bindS (json_get d ''gate'') (\<lambda>g.
     bindS (bindS (bindS (json_get d ''kind'') as_str) verdict_of) (\<lambda>k.
     bindS (json_get d ''rationale'') (\<lambda>r.
     bindS (as_opt iter_json defects) (\<lambda>ds. bindS (json_get_or JNull d ''score'') (\<lambda>sc.
     bindS (as_str g) (\<lambda>g'. bindS (as_str r) (\<lambda>r'.
     bindS (case ds of None \<Rightarrow> Inr None | Some xs \<Rightarrow> bindS (mapE as_str xs) (\<lambda>ys. Inr (Some ys))) (\<lambda>ds'.
     bindS (as_opt as_num sc) (\<lambda>sc'.
     Inr \<lparr>gd_gate = g', gd_kind = k, gd_rationale = r', gd_defects = ds', gd_score = sc'\<rparr>))))))))))"

definition verdict_bundle_to_dict :: "verdict_bundle \<Rightarrow> json" where
  "verdict_bundle_to_dict b = JObj
     [(''status'', JStr (status_value (vb_status b))), (''decisions'', JList (map gate_decision_to_dict (vb_decisions b))),
      (''supersedes'', opt_json JStr (vb_supersedes b))]"

definition verdict_bundle_from_dict :: "json \<Rightarrow> exc + verdict_bundle" where
  "verdict_bundle_from_dict d =
     bindS (bindS (bindS (json_get d ''status'') as_str) status_of) (\<lambda>st.
     bindS (bindS (bindS (json_get_or (JList []) d ''decisions'') iter_json) (mapE gate_decision_from_dict)) (\<lambda>ds.
     bindS (json_get_or JNull d ''supersedes'') (\<lambda>sp. bindS (as_opt as_str sp) (\<lambda>sp'.
     Inr \<lparr>vb_status = st, vb_decisions = ds, vb_supersedes = sp'\<rparr>))))"

section \<open>Object bytes\<close>

definition object_to_wire :: "bytes \<Rightarrow> json" where
  "object_to_wire data = JObj [(''inline'', JStr (b64encode data))]"

definition object_from_wire :: "json \<Rightarrow> exc + bytes" where
  "object_from_wire w =
     bindS (as_obj w) (\<lambda>kvs. case map_of kvs ''inline'' of
        Some data \<Rightarrow> b64decode data
      | None \<Rightarrow> Inl (WireError (''unsupported object encoding: '' @ py_list_repr (sort (map fst kvs)))))"

definition objects_to_wire :: "(string \<times> bytes) list \<Rightarrow> json" where
  "objects_to_wire objs = JObj (map (\<lambda>(n, data). (n, object_to_wire data)) objs)"

definition objects_from_wire :: "json \<Rightarrow> exc + (string \<times> bytes) list" where
  "objects_from_wire d =
     bindS (as_obj d) (mapE (\<lambda>(n, w). bindS (object_from_wire w) (\<lambda>data. Inr (n, data))))"

section \<open>The port types\<close>

definition served_context_to_dict :: "served_context \<Rightarrow> json" where
  "served_context_to_dict c = JObj
     [(''system_prompt'', JStr (sc_system_prompt c)), (''tail'', JStr (sc_tail c)), (''feedback'', JStr (sc_feedback c)),
      (''workspace_objects'', JObj (map (\<lambda>(r, files). (r, objects_to_wire files)) (sc_workspace_objects c)))]"

definition served_context_from_dict :: "json \<Rightarrow> exc + served_context" where
  "served_context_from_dict d =
     bindS (json_get d ''system_prompt'') (\<lambda>sp. bindS (json_get_or (JStr []) d ''tail'') (\<lambda>t.
     bindS (json_get_or (JStr []) d ''feedback'') (\<lambda>f.
     bindS (bindS (bindS (json_get_or (JObj []) d ''workspace_objects'') as_obj)
        (mapE (\<lambda>(r, files). bindS (objects_from_wire files) (\<lambda>o'. Inr (r, o'))))) (\<lambda>ws.
     bindS (as_str sp) (\<lambda>sp'. bindS (as_str t) (\<lambda>t'. bindS (as_str f) (\<lambda>f'.
     Inr \<lparr>sc_system_prompt = sp', sc_tail = t', sc_feedback = f', sc_workspace_objects = ws\<rparr>)))))))"

definition proposal_envelope_to_dict :: "proposal_envelope \<Rightarrow> json" where
  "proposal_envelope_to_dict e = JObj
     [(''artifact'', artifact_to_dict (pe_artifact e)), (''operation'', operation_to_dict (pe_operation e)),
      (''metadata'', JStr (pe_metadata e)), (''objects'', objects_to_wire (pe_objects e)),
      (''agent_telemetry'', opt_json JObj (pe_telemetry e)),
      (''transcript'', opt_json object_to_wire (pe_transcript e))]"

definition proposal_envelope_from_dict :: "json \<Rightarrow> exc + proposal_envelope" where
  "proposal_envelope_from_dict d =
     bindS (json_get_or JNull d ''agent_telemetry'') (\<lambda>te. bindS (json_get_or JNull d ''transcript'') (\<lambda>tr.
     bindS (bindS (json_get d ''artifact'') artifact_from_dict) (\<lambda>a.
     bindS (bindS (json_get d ''operation'') operation_from_dict) (\<lambda>p.
     bindS (json_get_or (JStr []) d ''metadata'') (\<lambda>m.
     bindS (bindS (json_get_or (JObj []) d ''objects'') objects_from_wire) (\<lambda>objs.
     bindS (as_opt as_obj te) (\<lambda>te'. bindS (as_opt object_from_wire tr) (\<lambda>tr'. bindS (as_str m) (\<lambda>m'.
     Inr \<lparr>pe_artifact = a, pe_operation = p, pe_metadata = m', pe_objects = objs, pe_telemetry = te',
       pe_transcript = tr'\<rparr>)))))))))"

definition verifier_request_to_dict :: "verifier_request \<Rightarrow> json" where
  "verifier_request_to_dict r = JObj
     [(''proposal'', artifact_to_dict (vr_proposal r)), (''store_slice'', JList (map artifact_to_dict (vr_slice r))),
      (''objects'', objects_to_wire (vr_objects r)),
      (''scores'', JObj (map (\<lambda>(a, gates). (a, JObj (map (\<lambda>(g, s). (g, JFloat s)) gates))) (vr_scores r)))]"

definition to_float :: "(string \<Rightarrow> rat option) \<Rightarrow> json \<Rightarrow> exc + rat" where
  "to_float parse j = (case j of JFloat r \<Rightarrow> Inr r | JInt i \<Rightarrow> Inr (of_int i)
    | JBool b \<Rightarrow> Inr (if b then 1 else 0)
    | JStr s \<Rightarrow> (case parse s of Some r \<Rightarrow> Inr r
        | None \<Rightarrow> Inl (ValueError (''could not convert string to float: '' @ py_repr s)))
    | _ \<Rightarrow> Inl (TypeError ''float() argument must be a string or a real number''))"

definition verifier_request_from_dict :: "(string \<Rightarrow> rat option) \<Rightarrow> json \<Rightarrow> exc + verifier_request" where
  "verifier_request_from_dict parse d =
     bindS (bindS (json_get d ''proposal'') artifact_from_dict) (\<lambda>a.
     bindS (bindS (bindS (json_get_or (JList []) d ''store_slice'') iter_json) (mapE artifact_from_dict)) (\<lambda>slice'.
     bindS (bindS (json_get_or (JObj []) d ''objects'') objects_from_wire) (\<lambda>objs.
     bindS (bindS (bindS (json_get_or (JObj []) d ''scores'') as_obj) (mapE (\<lambda>(i, gates).
        bindS (bindS (as_obj gates) (mapE (\<lambda>(g, s). bindS (to_float parse s) (\<lambda>x. Inr (g, x))))) (\<lambda>gs. Inr (i, gs))))) (\<lambda>scores.
     Inr \<lparr>vr_proposal = a, vr_slice = slice', vr_objects = objs, vr_scores = scores\<rparr>))))"

record verifier_setup =
  vs_objects :: "(string \<times> bytes) list"
  vs_params :: json_dict

definition verifier_setup_to_dict :: "verifier_setup \<Rightarrow> json" where
  "verifier_setup_to_dict s = JObj [(''objects'', objects_to_wire (vs_objects s)), (''params'', JObj (vs_params s))]"

definition verifier_setup_from_dict :: "json \<Rightarrow> exc + verifier_setup" where
  "verifier_setup_from_dict d =
     bindS (bindS (json_get_or (JObj []) d ''objects'') objects_from_wire) (\<lambda>objs.
     bindS (bindS (json_get_or (JObj []) d ''params'') as_obj) (\<lambda>ps.
     Inr \<lparr>vs_objects = objs, vs_params = ps\<rparr>))"

section \<open>Round trips\<close>

lemma b64_char_code:
  "n < 64 \<Longrightarrow> (of_char (b64_char n) :: nat) = (if n < 26 then 65 + n else if n < 52 then 71 + n
     else if n < 62 then n - 4 else if n = 62 then 43 else 47)"
  by (simp add: b64_char_def)

lemma b64_char_facts:
  assumes "n < 64"
  shows "b64_value (b64_char n) = Some n \<and> b64_char n \<noteq> CHR ''='' \<and> (of_char (b64_char n) :: nat) < 128"
proof -
  have "b64_char n \<noteq> CHR ''=''"
  proof
    assume "b64_char n = CHR ''=''"
    then have "(of_char (b64_char n) :: nat) = 61" by simp
    then show False using assms by (simp add: b64_char_code split: if_splits)
  qed
  then show ?thesis using assms by (auto simp: b64_value_def Let_def b64_char_code)
qed

lemma b64_char_simps [simp]:
  "n < 64 \<Longrightarrow> b64_value (b64_char n) = Some n" "n < 64 \<Longrightarrow> b64_char n \<noteq> CHR ''=''"
  "n < 64 \<Longrightarrow> CHR ''='' \<noteq> b64_char n"
  "n < 64 \<Longrightarrow> (of_char (b64_char n) :: nat) < 128"
  using b64_char_facts [of n] by auto

lemma byte_less: "unat (a :: 8 word) < 256"
  using unsigned_less [of a, where ?'a = nat] by simp

lemma byte_div: "unat (a :: 8 word) div 4 < 64" "unat a div 16 < 16" "unat a div 64 < 4"
  using byte_less [of a] by (simp_all add: less_mult_imp_div_less)

lemma sextet: "x < 4 \<Longrightarrow> y < 16 \<Longrightarrow> x * 16 + y < (64 :: nat)" "x < 16 \<Longrightarrow> y < 4 \<Longrightarrow> x * 4 + y < (64 :: nat)"
  by simp_all

lemma byte_bounds [simp]:
  fixes a b :: "8 word"
  shows "unat a div 4 < 64" "unat a mod 4 * 16 + unat b div 16 < 64" "unat a mod 16 * 4 + unat b div 64 < 64"
    "unat a mod 64 < 64" "unat a mod 4 * 16 < 64" "unat a mod 16 * 4 < 64"
  using byte_div [of a] byte_div [of b] sextet [of "unat a mod 4" "unat b div 16"]
    sextet [of "unat a mod 16" "unat b div 64"] sextet [of "unat a mod 4" 0] sextet [of "unat a mod 16" 0]
  by simp_all

lemma join_split: "y < m \<Longrightarrow> (x * m + y) div m = x" "y < m \<Longrightarrow> (x * m + y) mod m = (y :: nat)"
  by simp_all

lemma byte_joins:
  fixes a b c :: "8 word"
  shows "(unat a mod 4 * 16 + unat b div 16) div 16 = unat a mod 4" "(unat a mod 4 * 16 + unat b div 16) mod 16 = unat b div 16"
    "(unat b mod 16 * 4 + unat c div 64) div 4 = unat b mod 16" "(unat b mod 16 * 4 + unat c div 64) mod 4 = unat c div 64"
    "unat a mod 4 * 16 div 16 = unat a mod 4" "unat a mod 4 * 16 mod 16 = 0"
    "unat b mod 16 * 4 div 4 = unat b mod 16" "unat b mod 16 * 4 mod 4 = 0"
  by (simp_all only: join_split byte_div nonzero_mult_div_cancel_right mult_mod_right) simp_all

lemma byte_parts:
  fixes a :: "8 word"
  shows "of_nat (unat a div 4 * 4 + unat a mod 4) = a" "of_nat (unat a div 16 * 16 + unat a mod 16) = a"
    "of_nat (unat a div 64 * 64 + unat a mod 64) = a"
  by (simp_all only: div_mult_mod_eq) simp_all

lemma b64_roundtrip: "b64_loop 0 0 0 (b64encode data) = Inr data"
  by (induction data rule: b64encode.induct) (simp_all only: b64encode.simps b64_loop.simps b64_char_simps byte_bounds byte_joins byte_parts option.case bindS_simps
      if_True if_False, simp_all)

lemma b64_ascii: "c \<in> set (b64encode data) \<Longrightarrow> (of_char c :: nat) < 128"
  by (induction data rule: b64encode.induct) (auto simp: of_char_Char)

lemma b64decode_encode [simp]: "b64decode (JStr (b64encode data)) = Inr data"
  by (auto simp: b64decode_def b64_roundtrip b64_ascii)

lemma object_roundtrip_wire [simp]: "object_from_wire (object_to_wire data) = Inr data"
  by (simp add: object_from_wire_def object_to_wire_def json_defs)

lemma mapE_map: "(\<And>x. x \<in> set xs \<Longrightarrow> f (g x) = Inr (h x)) \<Longrightarrow> mapE f (map g xs) = Inr (map h xs)"
  by (induction xs) auto

lemma mapE_map_id: "(\<And>x. x \<in> set xs \<Longrightarrow> f (g x) = Inr x) \<Longrightarrow> mapE f (map g xs) = Inr xs"
  using mapE_map [of xs f g id] by simp

lemma objects_roundtrip [simp]: "objects_from_wire (objects_to_wire objs) = Inr objs"
  by (simp add: objects_from_wire_def objects_to_wire_def json_defs mapE_map_id case_prod_unfold)

lemma object_ref_roundtrip [simp]: "object_ref_from_dict (object_ref_to_dict r) = Inr r"
  by (simp add: object_ref_from_dict_def object_ref_to_dict_def json_defs)

lemma payload_codecs_agree: "payload_to_json = dump_payload" "payload_from_json = load_payload"
  by (auto simp: fun_eq_iff payload_to_json_def dump_payload_def object_ref_to_dict_def payload_from_json_def
      load_payload_def object_ref_from_dict_def bindS_def split: payload.split json.split option.split sum.split)

text \<open>A payload that reads back as itself.\<close>

definition plain_payload :: "payload \<Rightarrow> bool" where
  "plain_payload p = (case p of PJson (JObj kvs) \<Rightarrow> OBJECT_REF_MARKER \<notin> fst ` set kvs | _ \<Rightarrow> True)"

lemma payload_roundtrip_wire: "payload_from_json (payload_to_json p) = Inr p \<longleftrightarrow> plain_payload p"
  by (auto simp: payload_from_json_def payload_to_json_def plain_payload_def map_of_eq_None_iff bindS_eq_Inr
      split: payload.split json.split option.split dest: map_of_SomeD)
    (force dest: map_of_SomeD)?

lemma as_opt_str [simp]: "as_opt as_str (opt_json JStr x) = Inr x"
  by (cases x) (simp_all add: json_defs opt_json_def)

lemma mapE_as_str [simp]: "mapE as_str (map JStr xs) = Inr xs"
  by (rule mapE_map_id) (simp add: as_str_def)

lemma object_entry_roundtrip: "object_entry (JList [JStr n, object_ref_to_dict r]) = Inr (n, r)"
  by (simp add: object_entry_def unpack2_def iter_json_def as_str_def)

lemma artifact_roundtrip [simp]:
  assumes "plain_payload (art_payload a)"
  shows "artifact_from_dict (artifact_to_dict a) = Inr a"
proof -
  have "mapE object_entry (map (\<lambda>(n, ref). JList [JStr n, object_ref_to_dict ref]) (objects a)) = Inr (objects a)"
    by (rule mapE_map_id) (auto simp: object_entry_roundtrip)
  then show ?thesis
    using assms by (simp add: artifact_from_dict_def artifact_to_dict_def json_get_def json_get_or_def as_str_def as_bool_def
        iter_json_def payload_roundtrip_wire [THEN iffD2])
qed

lemma operation_roundtrip [simp]: "operation_from_dict (operation_to_dict p) = Inr p"
  by (simp add: operation_from_dict_def operation_to_dict_def json_get_def as_str_def [of "JStr _"] iter_json_def)

lemma gate_decision_roundtrip [simp]: "gate_decision_from_dict (gate_decision_to_dict g) = Inr g"
  by (cases "gd_defects g"; cases "gd_score g")
    (simp_all add: gate_decision_from_dict_def gate_decision_to_dict_def json_get_def json_get_or_def
      as_str_def [of "JStr _"] iter_json_def opt_json_def as_opt_def as_num_def)

lemma bundle_roundtrip [simp]: "verdict_bundle_from_dict (verdict_bundle_to_dict b) = Inr b"
  by (simp add: verdict_bundle_from_dict_def verdict_bundle_to_dict_def json_get_def json_get_or_def
      as_str_def [of "JStr _"] iter_json_def mapE_map_id)

lemma served_roundtrip [simp]: "served_context_from_dict (served_context_to_dict c) = Inr c"
  by (simp add: served_context_from_dict_def served_context_to_dict_def json_get_def json_get_or_def
      as_str_def as_obj_def mapE_map_id case_prod_unfold)

lemma envelope_roundtrip:
  assumes "plain_payload (art_payload (pe_artifact e))"
  shows "proposal_envelope_from_dict (proposal_envelope_to_dict e) = Inr e"
proof -
  have "as_opt as_obj (opt_json JObj x) = Inr x" for x
    by (cases x) (simp_all add: opt_json_def as_opt_def as_obj_def)
  moreover have "as_opt object_from_wire (opt_json object_to_wire x) = Inr x" for x
    by (cases x) (simp_all add: opt_json_def as_opt_def object_to_wire_def
        object_roundtrip_wire [unfolded object_to_wire_def])
  ultimately show ?thesis using assms
    by (simp add: proposal_envelope_from_dict_def proposal_envelope_to_dict_def json_get_def json_get_or_def as_str_def)
qed

lemma request_roundtrip:
  assumes "\<forall>a \<in> insert (vr_proposal r) (set (vr_slice r)). plain_payload (art_payload a)"
  shows "verifier_request_from_dict parse (verifier_request_to_dict r) = Inr r"
  using assms by (simp add: verifier_request_from_dict_def verifier_request_to_dict_def json_get_def json_get_or_def
      iter_json_def as_obj_def mapE_map_id case_prod_unfold to_float_def)

lemma setup_roundtrip [simp]: "verifier_setup_from_dict (verifier_setup_to_dict s) = Inr s"
  by (simp add: verifier_setup_from_dict_def verifier_setup_to_dict_def json_get_or_def as_obj_def)

lemma payload_from_json_plain: "payload_from_json j = Inr p \<Longrightarrow> plain_payload p"
  by (auto simp: payload_from_json_def plain_payload_def map_of_eq_None_iff bindS_eq_Inr split: json.splits option.splits)

lemma artifact_from_dict_plain: "artifact_from_dict j = Inr a \<Longrightarrow> plain_payload (art_payload a)"
  by (auto simp: artifact_from_dict_def bindS_eq_Inr dest: payload_from_json_plain)

section \<open>Claims\<close>

text \<open>C36. Nothing is lost between the services: encoding and decoding gives back every served context,
  verdict bundle and verifier setup, and every proposal envelope and verifier request whose payloads do
  not themselves use the reference marker, object bytes included.\<close>

theorem wire_roundtrip:
  assumes "plain_payload (art_payload (pe_artifact e))"
    "\<forall>a \<in> insert (vr_proposal r) (set (vr_slice r)). plain_payload (art_payload a)"
  shows "proposal_envelope_from_dict (proposal_envelope_to_dict e) = Inr e \<and>
    verifier_request_from_dict parse (verifier_request_to_dict r) = Inr r \<and>
    verdict_bundle_from_dict (verdict_bundle_to_dict b) = Inr b \<and>
    served_context_from_dict (served_context_to_dict c) = Inr c \<and>
    verifier_setup_from_dict (verifier_setup_to_dict s) = Inr s"
  using envelope_roundtrip [OF assms(1)] request_roundtrip [OF assms(2)] by simp

definition wire_artifact :: artifact where
  "wire_artifact = \<lparr>art_id = ''a'', art_type = ''Note'', art_payload = PJson (JObj [(''k'', JInt 1)]),
     art_status = PROPOSED, created_by = ''agent'', created_at = ''2026'', superseded_by = None,
     revised_by = None, is_root = False, objects = [(''f'', \<lparr>blob_ref = ''b'', content_hash = ''h''\<rparr>)]\<rparr>"

definition wire_envelope :: proposal_envelope where
  "wire_envelope = \<lparr>pe_artifact = wire_artifact, pe_operation = \<lparr>op_id = ''op'', op_name = ''derives'',
     parents = [''p''], output_id = ''a'', op_status = SUCCESS, op_created_at = ''2026''\<rparr>,
     pe_metadata = ''because'', pe_objects = [(''f'', [1, 2, 255, 0])], pe_telemetry = None, pe_transcript = Some [7]\<rparr>"

theorem wire_roundtrip_witness:
  "proposal_envelope_from_dict (proposal_envelope_to_dict wire_envelope) = Inr wire_envelope"
  using wire_roundtrip [of wire_envelope
      "\<lparr>vr_proposal = wire_artifact, vr_slice = [], vr_objects = [], vr_scores = []\<rparr>" "\<lambda>_. None" undefined undefined undefined]
  by (simp add: wire_envelope_def wire_artifact_def plain_payload_def OBJECT_REF_MARKER_def)

end
