(* ===== verification/Agent_Sandbox.thy ===== *)
theory Agent_Sandbox
  imports Control_Claims
begin

text \<open>
  \<open>sandbox/core.py\<close> and \<open>sandbox/descriptor.py\<close>: the sandbox that runs an agent loop in a workspace and
  mints the proposal on the trusted side. The driver that runs the agent is a field of the setup: it
  works on the files of the workspace and may raise. \<open>json.loads\<close>, \<open>json.dumps\<close> and \<open>str\<close> of a JSON value
  are parameters, as are the id source and the clock.
\<close>

section \<open>The proposal descriptor\<close>

definition RESERVED_PROPOSAL_NAME :: string where "RESERVED_PROPOSAL_NAME = ''__proposal__.json''"
definition RESERVED_TELEMETRY_NAME :: string where "RESERVED_TELEMETRY_NAME = ''__telemetry__.json''"
definition RESERVED_TRANSCRIPT_NAME :: string where "RESERVED_TRANSCRIPT_NAME = ''__transcript__.json''"

record proposal_descriptor =
  dsc_op_name :: string
  dsc_parents :: "string list"
  dsc_payload :: json
  dsc_metadata :: string

text \<open>The two ways \<open>json.loads\<close> refuses bytes.\<close>

datatype decode_error = JSONDecodeError string | UnicodeDecodeError string

record codec =
  cd_loads :: "bytes \<Rightarrow> decode_error + json"
  cd_dumps :: "json \<Rightarrow> bytes"
  cd_str :: "json \<Rightarrow> string"

definition descriptor_to_json :: "codec \<Rightarrow> proposal_descriptor \<Rightarrow> bytes" where
  "descriptor_to_json cd d = cd_dumps cd (JObj
     [(''metadata'', JStr (dsc_metadata d)), (''op_name'', JStr (dsc_op_name d)),
      (''parents'', JList (map JStr (dsc_parents d))), (''payload'', dsc_payload d)])"

definition quoted :: "string \<Rightarrow> string" where
  "quoted s = [CHR 0x27] @ s @ [CHR 0x27]"

definition not_an_object :: string where
  "not_an_object = ''proposal descriptor must be an object with an '' @ quoted ''op_name''"

definition parents_not_a_list :: string where
  "parents_not_a_list = ''proposal descriptor '' @ quoted ''parents'' @ '' must be a list''"

definition descriptor_from_json :: "codec \<Rightarrow> bytes \<Rightarrow> exc + proposal_descriptor" where
  "descriptor_from_json cd data =
     (case cd_loads cd data of
        Inl (JSONDecodeError m) \<Rightarrow> Inl (SandboxError (''proposal descriptor is not valid JSON: '' @ m) None None)
      | Inl (UnicodeDecodeError m) \<Rightarrow> Inl (ValueError m)
      | Inr (JObj kvs) \<Rightarrow> (case map_of kvs ''op_name'' of
            None \<Rightarrow> Inl (SandboxError not_an_object None None)
          | Some op \<Rightarrow> (case (case map_of kvs ''parents'' of Some p \<Rightarrow> p | None \<Rightarrow> JList []) of
                JList ps \<Rightarrow> Inr \<lparr>dsc_op_name = json_to_str (cd_str cd) op, dsc_parents = map (json_to_str (cd_str cd)) ps,
                    dsc_payload = (case map_of kvs ''payload'' of Some p \<Rightarrow> p | None \<Rightarrow> JNull),
                    dsc_metadata = (case map_of kvs ''metadata'' of Some m \<Rightarrow> json_to_str (cd_str cd) m | None \<Rightarrow> [])\<rparr>
              | _ \<Rightarrow> Inl (SandboxError parents_not_a_list None None)))
      | Inr _ \<Rightarrow> Inl (SandboxError not_an_object None None))"

section \<open>The output schema\<close>

definition SPEC_SCHEMA_NAME :: string where "SPEC_SCHEMA_NAME = ''output-schema.json''"

definition json_strs :: "string list \<Rightarrow> json" where
  "json_strs xs = JList (map JStr xs)"

definition output_schema :: "schema_registry \<Rightarrow> json" where
  "output_schema sr = JObj
     [(''$comment'', JStr (''The proposal/output contract for this task. Propose by calling exactly one operation '' @
         ''tool with `parents` (ids of artifacts whose type appears in that operation's '' @
         ''`inputs`) and a `payload` JSON object. Every key in an operation's '' @
         ''`object_payload_keys` names a file that must be written to /work/outbox/ before the '' @
         ''call (the propose tool '' @
         ''rejects the call if a declared object file is missing). The control plane reads only '' @
         ''the meta-schema (names/signatures); it never interprets payload values.'')),
      (''artifact_types'', JList (map (\<lambda>(_, t). JObj [(''name'', JStr (td_name t)), (''is_root'', JBool (td_is_root t))])
         (sr_types sr))),
      (''operations'', JList (map (\<lambda>(_, sg). JObj [(''name'', JStr (sig_name sg)), (''inputs'', json_strs (sig_inputs sg)),
         (''output'', JStr (sig_output sg)), (''required_payload_keys'', json_strs (required_payload_keys sg)),
         (''object_payload_keys'', json_strs (object_payload_keys sg))]) (sr_operations sr)))]"

definition render_output_schema_json :: "codec \<Rightarrow> schema_registry \<Rightarrow> bytes" where
  "render_output_schema_json cd sr = cd_dumps cd (output_schema sr)"

text \<open>Telemetry is advisory: whatever does not decode to an object is dropped.\<close>

definition parse_telemetry :: "codec \<Rightarrow> bytes option \<Rightarrow> json_dict option" where
  "parse_telemetry cd raw =
     (case raw of
        None \<Rightarrow> None
      | Some b \<Rightarrow> if b = [] then None
          else case cd_loads cd b of Inr (JObj kvs) \<Rightarrow> Some kvs | _ \<Rightarrow> None)"

section \<open>The sandbox\<close>

text \<open>What the sandbox was built with, and the state it works on: the context served, the workspace, the
  files, how many ids were minted, and the driver's own state.\<close>

record 'd sandbox_setup =
  su_root :: path
  su_run :: "string \<Rightarrow> string \<Rightarrow> operation_signature list \<Rightarrow> provisioned_workspace \<Rightarrow> ('d \<times> file_system, exc, unit) st"
  su_schema :: schema_registry
  su_identity :: string
  su_contents :: contents
  su_contract :: workspace_contract
  su_clock :: "nat \<Rightarrow> string"
  su_ids :: "nat \<Rightarrow> string"
  su_codec :: codec

record 'd agent_sandbox =
  ag_served :: "served_context option"
  ag_workspace :: "provisioned_workspace option"
  ag_fs :: file_system
  ag_minted :: nat
  ag_driver :: 'd

type_synonym ('d, 'a) sandbox_op = "('d agent_sandbox, exc, 'a) st"

definition provision_contents :: "'d sandbox_setup \<Rightarrow> contents" where
  "provision_contents su =
     (let spec = role_contents (su_contents su) ''spec'';
          spec' = (if SPEC_SCHEMA_NAME \<in> fst ` set spec then spec
            else spec @ [(SPEC_SCHEMA_NAME, render_output_schema_json (su_codec su) (su_schema su))])
      in dict_put ''spec'' spec' (su_contents su))"

definition with_files :: "(file_system, exc, 'a) st \<Rightarrow> ('d, 'a) sandbox_op" where
  "with_files m ag = (case m (ag_fs ag) of (r, fs) \<Rightarrow> (r, ag\<lparr>ag_fs := fs\<rparr>))"

definition ag_provision :: "'d sandbox_setup \<Rightarrow> ('d, unit) sandbox_op" where
  "ag_provision su =
     bindE (with_files (provision_workspace (su_contract su) (su_root su) (provision_contents su))) (\<lambda>w.
     modify (ag_workspace_update (\<lambda>_. Some w)))"

text \<open>\<open>if root.exists(): shutil.rmtree(root)\<close>\<close>

definition exists_path :: "file_system \<Rightarrow> path \<Rightarrow> bool" where
  "exists_path fs p = (p \<in> set (fs_dirs fs) \<or> p \<in> fst ` set (fs_files fs))"

definition rmtree :: "path \<Rightarrow> file_system \<Rightarrow> file_system" where
  "rmtree p fs = \<lparr>fs_dirs = filter (\<lambda>d. \<not> prefix p d) (fs_dirs fs),
     fs_files = filter (\<lambda>(f, _). \<not> prefix p f) (fs_files fs)\<rparr>"

definition remove_root :: "'d sandbox_setup \<Rightarrow> ('d, unit) sandbox_op" where
  "remove_root su = with_files (\<lambda>fs.
     if \<not> exists_path fs (su_root su) then (Inr (), fs)
     else if su_root su \<in> set (fs_dirs fs) then (Inr (), rmtree (su_root su) fs)
     else (Inl (OtherError ''Not a directory''), fs))"

definition ag_regenerate :: "'d sandbox_setup \<Rightarrow> ('d, unit) sandbox_op" where
  "ag_regenerate su = bindE (remove_root su) (\<lambda>_. ag_provision su)"

definition ag_teardown :: "'d sandbox_setup \<Rightarrow> ('d, unit) sandbox_op" where
  "ag_teardown su = bindE (remove_root su) (\<lambda>_. modify (ag_workspace_update (\<lambda>_. None)))"

definition require_workspace :: "'d agent_sandbox \<Rightarrow> exc + provisioned_workspace" where
  "require_workspace ag = (case ag_workspace ag of
      Some w \<Rightarrow> Inr w
    | None \<Rightarrow> Inl (SandboxError ''workspace not provisioned; call provision() first'' None None))"

definition materialize_file :: "path \<Rightarrow> string \<times> bytes \<Rightarrow> (file_system, exc, unit) st" where
  "materialize_file role_dir = (\<lambda>(n, data).
     let dest = path_join role_dir n
     in bindE (mkdirs [] (butlast dest)) (\<lambda>_. write_bytes dest data))"

definition materialize_objects :: "contents \<Rightarrow> ('d, unit) sandbox_op" where
  "materialize_objects objs =
     bindE (reads require_workspace) (\<lambda>w.
     bindE (mapM (\<lambda>(role, files).
        bindE (reads (\<lambda>_. workspace_path w role)) (\<lambda>role_dir.
        with_files (mapM (materialize_file role_dir) files))) objs) (\<lambda>_. ret ()))"

definition ag_serve :: "served_context \<Rightarrow> ('d, unit) sandbox_op" where
  "ag_serve sc =
     bindE (modify (ag_served_update (\<lambda>_. Some sc))) (\<lambda>_.
     if sc_workspace_objects sc \<noteq> [] then materialize_objects (sc_workspace_objects sc) else ret ())"

definition user_message :: "served_context \<Rightarrow> string" where
  "user_message sc = join (nl @ nl)
     ((if strip (sc_tail sc) \<noteq> [] then [strip (sc_tail sc)] else []) @
      (if strip (sc_feedback sc) \<noteq> []
       then [''# Correction from the previous attempt'' @ nl @ strip (sc_feedback sc)] else []) @
      [''Do the work, then call exactly one operation tool to submit the proposal. '' @
       ''Reference the input artifact id(s) from the context above as `parents`.''])"

text \<open>\<open>x or y\<close> on optional bytes.\<close>

definition bytes_or :: "bytes option \<Rightarrow> bytes option \<Rightarrow> bytes option" where
  "bytes_or x y = (case x of Some b \<Rightarrow> if b \<noteq> [] then x else y | None \<Rightarrow> y)"

definition is_os_error :: "exc \<Rightarrow> bool" where
  "is_os_error e = (case e of OtherError _ \<Rightarrow> True | _ \<Rightarrow> False)"

text \<open>What the driver left behind, attached to its error.\<close>

definition salvage :: "provisioned_workspace \<Rightarrow> file_system \<Rightarrow> exc \<Rightarrow> exc" where
  "salvage w fs e = (case e of
      SandboxError m tr te \<Rightarrow>
        if tr = None \<or> te = None
        then (case harvest w fs of
            Inr files \<Rightarrow> SandboxError m (bytes_or tr (map_of files RESERVED_TRANSCRIPT_NAME))
              (bytes_or te (map_of files RESERVED_TELEMETRY_NAME))
          | Inl e' \<Rightarrow> if is_os_error e' then SandboxError m (bytes_or tr None) (bytes_or te None) else e')
        else e
    | _ \<Rightarrow> e)"

definition run_driver :: "'d sandbox_setup \<Rightarrow> served_context \<Rightarrow> provisioned_workspace \<Rightarrow> ('d, unit) sandbox_op" where
  "run_driver su sc w ag =
     (case su_run su (sc_system_prompt sc) (user_message sc) (map snd (sr_operations (su_schema su))) w
         (ag_driver ag, ag_fs ag) of
        (Inr _, (d, fs)) \<Rightarrow> (Inr (), ag\<lparr>ag_driver := d, ag_fs := fs\<rparr>)
      | (Inl e, (d, fs)) \<Rightarrow> (Inl (salvage w fs e), ag\<lparr>ag_driver := d, ag_fs := fs\<rparr>))"

definition mint :: "'d sandbox_setup \<Rightarrow> proposal_descriptor \<Rightarrow> (string \<times> bytes) list \<Rightarrow> json_dict option \<Rightarrow>
    bytes option \<Rightarrow> ('d, proposal_envelope) sandbox_op" where
  "mint su d objs telemetry transcript =
     bindE (reads (\<lambda>_. case sr_operation (su_schema su) (dsc_op_name d) of
         Some sg \<Rightarrow> Inr sg
       | None \<Rightarrow> Inl (SandboxError (''unknown operation in proposal: '' @ py_repr (dsc_op_name d)) None None))) (\<lambda>sg.
     bindE (\<lambda>ag. (Inr (ag_minted ag), ag\<lparr>ag_minted := Suc (ag_minted ag)\<rparr>)) (\<lambda>n.
     let i = su_ids su n; now = su_clock su n
     in ret \<lparr>pe_artifact = \<lparr>art_id = i, art_type = sig_output sg, art_payload = PJson (dsc_payload d),
            art_status = PROPOSED, created_by = su_identity su, created_at = now, superseded_by = None,
            revised_by = None,
            is_root = (case sr_type (su_schema su) (sig_output sg) of Some td \<Rightarrow> td_is_root td | None \<Rightarrow> False),
            objects = []\<rparr>,
          pe_operation = \<lparr>op_id = ''op-'' @ i, op_name = sig_name sg, parents = dsc_parents d, output_id = i,
            op_status = SUCCESS, op_created_at = now\<rparr>,
          pe_metadata = dsc_metadata d, pe_objects = objs, pe_telemetry = telemetry, pe_transcript = transcript\<rparr>))"

definition reserved :: "string list" where
  "reserved = [RESERVED_PROPOSAL_NAME, RESERVED_TELEMETRY_NAME, RESERVED_TRANSCRIPT_NAME]"

definition harvest_outbox :: "provisioned_workspace \<Rightarrow> 'd agent_sandbox \<Rightarrow> exc + (string \<times> bytes) list" where
  "harvest_outbox w ag = (case harvest w (ag_fs ag) of
      Inr files \<Rightarrow> Inr files
    | Inl e \<Rightarrow> Inl (if is_os_error e then SandboxError (''could not harvest the outbox: '' @ exc_str e) None None else e))"

definition ag_collect :: "'d sandbox_setup \<Rightarrow> ('d, proposal_envelope) sandbox_op" where
  "ag_collect su =
     bindE (reads (\<lambda>ag. case ag_served ag of Some sc \<Rightarrow> Inr sc
       | None \<Rightarrow> Inl (SandboxError ''collect_proposal called before serve_context'' None None))) (\<lambda>sc.
     bindE (reads require_workspace) (\<lambda>w.
     bindE (run_driver su sc w) (\<lambda>_.
     bindE (reads (harvest_outbox w)) (\<lambda>files.
     let objs = filter (\<lambda>(n, _). n \<notin> set reserved) files; telemetry = map_of files RESERVED_TELEMETRY_NAME;
         transcript = map_of files RESERVED_TRANSCRIPT_NAME
     in case map_of files RESERVED_PROPOSAL_NAME of
          None \<Rightarrow> raise (SandboxError (''the agent produced no proposal (no '' @ RESERVED_PROPOSAL_NAME @
            '' in the outbox); outbox had: '' @ py_list_repr (sort (map fst objs))) transcript telemetry)
        | Some data \<Rightarrow>
            bindE (reads (\<lambda>_. descriptor_from_json (su_codec su) data)) (\<lambda>d.
            mint su d objs (parse_telemetry (su_codec su) telemetry) transcript)))))"

definition agent_port :: "'d sandbox_setup \<Rightarrow> 'd agent_sandbox sandbox_port" where
  "agent_port su = \<lparr>sb_serve = ag_serve, sb_collect = ag_collect su, sb_regenerate = ag_regenerate su,
     sb_provision = ag_provision su, sb_teardown = ag_teardown su\<rparr>"

section \<open>What the host mints\<close>

text \<open>What makes an envelope the host's: its ids, its times and its author are the sandbox's own, its
  operation is one the schema names and its type is that operation's output.\<close>

definition host_minted :: "'d sandbox_setup \<Rightarrow> nat \<Rightarrow> proposal_descriptor \<Rightarrow> proposal_envelope \<Rightarrow> bool" where
  "host_minted su n d env \<longleftrightarrow>
     (case sr_operation (su_schema su) (dsc_op_name d) of
        None \<Rightarrow> False
      | Some sg \<Rightarrow>
          pe_artifact env = \<lparr>art_id = su_ids su n, art_type = sig_output sg, art_payload = PJson (dsc_payload d),
            art_status = PROPOSED, created_by = su_identity su, created_at = su_clock su n,
            superseded_by = None, revised_by = None,
            is_root = (case sr_type (su_schema su) (sig_output sg) of Some td \<Rightarrow> td_is_root td | None \<Rightarrow> False),
            objects = []\<rparr> \<and>
          pe_operation env = \<lparr>op_id = ''op-'' @ su_ids su n, op_name = sig_name sg, parents = dsc_parents d,
            output_id = su_ids su n, op_status = SUCCESS, op_created_at = su_clock su n\<rparr> \<and>
          pe_metadata env = dsc_metadata d)"

text \<open>The envelope's attachments are the outbox without the three reserved files, and what the agent
  declared is read from the first of them.\<close>

definition from_outbox :: "'d sandbox_setup \<Rightarrow> (string \<times> bytes) list \<Rightarrow> proposal_descriptor \<Rightarrow> proposal_envelope \<Rightarrow> bool" where
  "from_outbox su files d env \<longleftrightarrow>
     (\<exists>data. map_of files RESERVED_PROPOSAL_NAME = Some data \<and> descriptor_from_json (su_codec su) data = Inr d) \<and>
     pe_objects env = filter (\<lambda>(n, _). n \<notin> set reserved) files \<and>
     pe_transcript env = map_of files RESERVED_TRANSCRIPT_NAME \<and>
     pe_telemetry env = parse_telemetry (su_codec su) (map_of files RESERVED_TELEMETRY_NAME)"

lemma mint_Inr:
  assumes "mint su d objs te tr ag = (Inr env, ag')"
  shows "host_minted su (ag_minted ag) d env \<and> pe_objects env = objs \<and> pe_telemetry env = te \<and>
    pe_transcript env = tr \<and> ag' = ag\<lparr>ag_minted := Suc (ag_minted ag)\<rparr>"
  using assms
  by (auto simp: mint_def bindE_def reads_def ret_def host_minted_def Let_def split: option.splits)

lemma mint_Inl: "mint su d objs te tr ag = (Inl e, ag') \<Longrightarrow> ag' = ag"
  by (auto simp: mint_def bindE_def reads_def ret_def Let_def split: option.splits)

lemma run_driver_frame:
  assumes "run_driver su sc w ag = (r, ag')"
  shows "ag_minted ag' = ag_minted ag \<and> ag_served ag' = ag_served ag \<and> ag_workspace ag' = ag_workspace ag"
  using assms by (auto simp: run_driver_def split: prod.splits sum.splits)

lemma bindE_InrE:
  assumes "bindE m f s = (Inr y, s')"
  obtains x s1 where "m s = (Inr x, s1)" "f x s1 = (Inr y, s')"
  using assms by (auto simp: bindE_def split: prod.splits sum.splits)

lemma reads_Inr: "reads g s = (Inr y, s') \<longleftrightarrow> g s = Inr y \<and> s' = s"
  by (auto simp: reads_def)

text \<open>The state in which a collection reads the outbox.\<close>

lemma ag_collect_Inr:
  assumes "ag_collect su ag = (Inr env, ag')"
  obtains sc w ag1 files data d where "ag_served ag = Some sc" "ag_workspace ag = Some w"
    "run_driver su sc w ag = (Inr (), ag1)" "harvest w (ag_fs ag1) = Inr files"
    "map_of files RESERVED_PROPOSAL_NAME = Some data" "descriptor_from_json (su_codec su) data = Inr d"
    "mint su d (filter (\<lambda>(n, _). n \<notin> set reserved) files)
       (parse_telemetry (su_codec su) (map_of files RESERVED_TELEMETRY_NAME))
       (map_of files RESERVED_TRANSCRIPT_NAME) ag1 = (Inr env, ag')"
  using assms unfolding ag_collect_def
  by (elim bindE_InrE)
    (auto simp: reads_Inr require_workspace_def harvest_outbox_def raise_def Let_def
      elim!: bindE_InrE split: option.splits sum.splits)

lemma ag_collect_Inl:
  assumes "ag_collect su ag = (Inl e, ag')"
  shows "ag_minted ag' = ag_minted ag"
proof -
  have keeps: "keeps (\<lambda>x. ag_minted x = ag_minted ag) (run_driver su sc w)" for sc w
    by (rule keepsI) (metis prod.collapse run_driver_frame)
  have "ag_minted (snd (mint su d objs te tr x)) = ag_minted x \<or>
    (\<exists>env. fst (mint su d objs te tr x) = Inr env)" for d objs te tr x
    using mint_Inl [of su d objs te tr x] by (metis prod.collapse sum.exhaust)
  with assms keeps show ?thesis
    unfolding ag_collect_def
    by (auto simp: bindE_def reads_def raise_def Let_def dest!: run_driver_frame mint_Inl
        split: prod.splits sum.splits option.splits)
qed

lemma agent_collects:
  assumes "ag_collect su ag = (Inr env, ag')"
  shows "ag_minted ag' = Suc (ag_minted ag) \<and>
    (\<exists>w files d. ag_workspace ag = Some w \<and> harvest w (ag_fs ag') = Inr files \<and>
       from_outbox su files d env \<and> host_minted su (ag_minted ag) d env)"
proof -
  obtain sc w ag1 files data d where w: "ag_workspace ag = Some w" and run: "run_driver su sc w ag = (Inr (), ag1)"
    and h: "harvest w (ag_fs ag1) = Inr files"
    and d: "map_of files RESERVED_PROPOSAL_NAME = Some data" "descriptor_from_json (su_codec su) data = Inr d"
    and m: "mint su d (filter (\<lambda>(n, _). n \<notin> set reserved) files)
       (parse_telemetry (su_codec su) (map_of files RESERVED_TELEMETRY_NAME))
       (map_of files RESERVED_TRANSCRIPT_NAME) ag1 = (Inr env, ag')"
    by (rule ag_collect_Inr [OF assms])
  from mint_Inr [OF m] run_driver_frame [OF run] have "host_minted su (ag_minted ag) d env"
    "from_outbox su files d env" "ag_minted ag' = Suc (ag_minted ag)" "harvest w (ag_fs ag') = Inr files"
    using d h by (auto simp: from_outbox_def)
  with w show ?thesis by blast
qed

section \<open>A sandbox over its lifetime\<close>

datatype sandbox_call = Serve served_context | Collect | Regenerate | Provision | Discard

text \<open>The envelopes a sequence of calls through the port hands out; a call that raises hands out none.\<close>

definition sandbox_after :: "'x sandbox_port \<Rightarrow> sandbox_call \<Rightarrow> 'x \<Rightarrow> proposal_envelope list \<times> 'x" where
  "sandbox_after sp c x =
     (case c of
        Serve sc \<Rightarrow> ([], snd (sb_serve sp sc x))
      | Collect \<Rightarrow> (case sb_collect sp x of (Inr env, y) \<Rightarrow> ([env], y) | (Inl _, y) \<Rightarrow> ([], y))
      | Regenerate \<Rightarrow> ([], snd (sb_regenerate sp x))
      | Provision \<Rightarrow> ([], snd (sb_provision sp x))
      | Discard \<Rightarrow> ([], snd (sb_teardown sp x)))"

fun collected :: "'x sandbox_port \<Rightarrow> sandbox_call list \<Rightarrow> 'x \<Rightarrow> proposal_envelope list" where
  "collected sp [] x = []"
| "collected sp (c # cs) x = (case sandbox_after sp c x of (envs, y) \<Rightarrow> envs @ collected sp cs y)"

abbreviation minted_is :: "nat \<Rightarrow> 'd agent_sandbox \<Rightarrow> bool" where
  "minted_is n \<equiv> \<lambda>ag. ag_minted ag = n"

lemma minted_with_files: "keeps (minted_is n) (with_files m)"
  by (auto simp: keeps_def with_files_def split: prod.splits)

lemma minted_modify: "keeps (minted_is n) (modify (ag_workspace_update f))"
  "keeps (minted_is n) (modify (ag_served_update g))"
  by (auto simp: keeps_def modify_def)

lemmas minted_intros = minted_with_files minted_modify keeps_bindE keeps_reads keeps_ret keeps_if

lemma minted_objects: "keeps (minted_is n) (materialize_objects objs)"
  unfolding materialize_objects_def
  by (intro keeps_bindE keeps_reads keeps_mapM_set keeps_ret keeps_prod minted_with_files)

lemma minted_calls: "keeps (minted_is n) (ag_serve sc)" "keeps (minted_is n) (ag_regenerate su)"
  "keeps (minted_is n) (ag_provision su)" "keeps (minted_is n) (ag_teardown su)"
  unfolding ag_serve_def ag_regenerate_def ag_provision_def ag_teardown_def remove_root_def
  by (intro minted_intros minted_objects)+

text \<open>Every call hands out at most one envelope, minted under the next number.\<close>

lemma sandbox_after_minted:
  assumes "sandbox_after (agent_port su) c ag = (envs, ag')"
  shows "envs = [] \<and> ag_minted ag' = ag_minted ag \<or>
    (\<exists>env files d. envs = [env] \<and> ag_minted ag' = Suc (ag_minted ag) \<and> from_outbox su files d env \<and>
       host_minted su (ag_minted ag) d env)"
proof (cases c)
  case Collect
  obtain r y where r: "ag_collect su ag = (r, y)" by fastforce
  show ?thesis
  proof (cases r)
    case (Inl e)
    then show ?thesis using assms Collect r ag_collect_Inl [of su ag e y]
      by (simp add: sandbox_after_def agent_port_def)
  next
    case (Inr env)
    then show ?thesis using assms Collect r agent_collects [of su ag env y]
      by (auto simp: sandbox_after_def agent_port_def)
  qed
qed (use assms minted_calls [unfolded keeps_def, rule_format, OF refl] in
    \<open>auto simp: sandbox_after_def agent_port_def\<close>)

lemma host_minted_id: "host_minted su n d env \<Longrightarrow> art_id (pe_artifact env) = su_ids su n"
  by (auto simp: host_minted_def split: option.splits)

lemma collected_minted:
  "(\<forall>env \<in> set (collected (agent_port su) calls ag). \<exists>n files d. ag_minted ag \<le> n \<and>
      from_outbox su files d env \<and> host_minted su n d env) \<and>
   (inj (su_ids su) \<longrightarrow> distinct (map (art_id \<circ> pe_artifact) (collected (agent_port su) calls ag)))"
proof (induction calls arbitrary: ag)
  case (Cons c cs)
  obtain envs y where c: "sandbox_after (agent_port su) c ag = (envs, y)" by fastforce
  note IH = Cons.IH [of y]
  from sandbox_after_minted [OF c] show ?case
  proof (elim disjE exE conjE)
    assume "envs = []" "ag_minted y = ag_minted ag"
    with IH c show ?thesis by simp
  next
    fix env files d
    assume e: "envs = [env]" "ag_minted y = Suc (ag_minted ag)" "from_outbox su files d env"
      "host_minted su (ag_minted ag) d env"
    have new: "art_id (pe_artifact env) \<notin> (art_id \<circ> pe_artifact) ` set (collected (agent_port su) cs y)"
      if "inj (su_ids su)"
    proof
      assume "art_id (pe_artifact env) \<in> (art_id \<circ> pe_artifact) ` set (collected (agent_port su) cs y)"
      then obtain env' where env': "env' \<in> set (collected (agent_port su) cs y)"
        "art_id (pe_artifact env') = art_id (pe_artifact env)"
        by auto
      obtain n where "ag_minted y \<le> n" "art_id (pe_artifact env') = su_ids su n"
        using IH env'(1) host_minted_id by blast
      with that e(2) env'(2) show False using host_minted_id [OF e(4)] by (simp add: inj_eq)
    qed
    have "\<exists>n files d. ag_minted ag \<le> n \<and> from_outbox su files d v \<and> host_minted su n d v"
      if "v \<in> set (collected (agent_port su) (c # cs) ag)" for v
    proof (cases "v = env")
      case True
      then show ?thesis using e(3,4) by blast
    next
      case False
      then have "v \<in> set (collected (agent_port su) cs y)" using that e(1) c by simp
      then obtain n where n: "ag_minted y \<le> n" "\<exists>files d. from_outbox su files d v \<and> host_minted su n d v"
        using IH by blast
      have "ag_minted ag \<le> n" using n(1) e(2) by simp
      then show ?thesis using n(2) by blast
    qed
    then show ?thesis using new IH e(1) c by auto
  qed
qed simp

text \<open>C20. The agent only declares: every proposal a sandbox hands out over any sequence of calls was
  minted by the host. Its ids, times and author are the sandbox's own, its operation is one the schema
  names and its type that operation's output, it is PROPOSED and points at no other artifact; payload,
  parents and rationale are what the reserved file of the outbox declares, the attachments are the
  other files of the outbox and never a reserved one, and no two proposals share an id.\<close>

theorem agent_cannot_forge:
  assumes "inj (su_ids su)"
  shows "distinct (map (art_id \<circ> pe_artifact) (collected (agent_port su) calls ag)) \<and>
    (\<forall>env \<in> set (collected (agent_port su) calls ag).
       (\<exists>n files d. from_outbox su files d env \<and> host_minted su n d env) \<and>
       fst ` set (pe_objects env) \<inter> set reserved = {})"
proof -
  have "fst ` set (pe_objects env) \<inter> set reserved = {}" if "from_outbox su files d env" for env files d
    using that by (auto simp: from_outbox_def)
  then show ?thesis using collected_minted [of su calls ag] assms by blast
qed

text \<open>A driver that writes its proposal, a transcript and an attachment, then one that forges nothing
  more by running twice.\<close>

definition demo_descriptor :: json where
  "demo_descriptor = JObj [(''op_name'', JStr ''write''), (''parents'', JList []), (''payload'', JObj [(''k'', JInt 1)])]"

definition demo_codec :: codec where
  "demo_codec = \<lparr>cd_loads = (\<lambda>b. if b = [1] then Inr demo_descriptor else Inl (JSONDecodeError ''bad'')),
     cd_dumps = (\<lambda>_. [9]), cd_str = (\<lambda>_. ''?'')\<rparr>"

definition demo_write :: "path \<Rightarrow> bytes \<Rightarrow> ('d \<times> file_system, exc, unit) st" where
  "demo_write p b x = (case write_bytes p b (snd x) of (r, fs) \<Rightarrow> (r, (fst x, fs)))"

definition demo_agent :: "unit sandbox_setup" where
  "demo_agent = \<lparr>su_root = [''w''],
     su_run = (\<lambda>_ _ _ _. bindE (demo_write [''w'', ''outbox'', RESERVED_PROPOSAL_NAME] [1]) (\<lambda>_.
       bindE (demo_write [''w'', ''outbox'', ''model.py''] [2]) (\<lambda>_.
       demo_write [''w'', ''outbox'', RESERVED_TRANSCRIPT_NAME] [3]))),
     su_schema = \<lparr>sr_types = [(''Note'', \<lparr>td_name = ''Note'', td_is_root = True\<rparr>)],
       sr_operations = [(''write'', \<lparr>sig_name = ''write'', sig_inputs = [], sig_output = ''Note'',
         required_payload_keys = [], object_payload_keys = []\<rparr>)]\<rparr>,
     su_identity = ''agent'', su_contents = [], su_contract = WORKSPACE_CONTRACT, su_clock = (\<lambda>_. ''''),
     su_ids = (\<lambda>n. replicate n CHR ''a''), su_codec = demo_codec\<rparr>"

definition demo_sandbox :: "unit agent_sandbox" where
  "demo_sandbox = \<lparr>ag_served = None, ag_workspace = None, ag_fs = \<lparr>fs_dirs = [], fs_files = []\<rparr>, ag_minted = 0,
     ag_driver = ()\<rparr>"

definition demo_sandbox_calls :: "sandbox_call list" where
  "demo_sandbox_calls = [Collect, Provision, Serve \<lparr>sc_system_prompt = '''', sc_tail = ''go'', sc_feedback = '''',
     sc_workspace_objects = []\<rparr>, Collect, Collect, Regenerate, Collect, Discard, Collect]"

theorem agent_cannot_forge_witness:
  "map (art_id \<circ> pe_artifact) (collected (agent_port demo_agent) demo_sandbox_calls demo_sandbox) =
     ['''', ''a'', ''aa''] \<and>
   distinct (map (art_id \<circ> pe_artifact) (collected (agent_port demo_agent) demo_sandbox_calls demo_sandbox))"
proof
  show "map (art_id \<circ> pe_artifact) (collected (agent_port demo_agent) demo_sandbox_calls demo_sandbox) =
     ['''', ''a'', ''aa'']"
    by code_simp
  have "inj (su_ids demo_agent)" by (simp add: inj_def demo_agent_def replicate_eq_replicate)
  from agent_cannot_forge [OF this]
  show "distinct (map (art_id \<circ> pe_artifact) (collected (agent_port demo_agent) demo_sandbox_calls demo_sandbox))"
    by blast
qed

end
