(* ===== verification/Csv_Reader.thy ===== *)
theory Csv_Reader
  imports Prelude
begin

text \<open>
  The part of Python's \<open>csv\<close> module the verifiers use: the reader with the default dialect (comma,
  double quote, doubled quotes, not strict) over the lines of an in-memory text, its two errors, and the
  dictionaries of \<open>csv.DictReader\<close>. The reader is a state machine over characters, with \<open>None\<close> for the
  end of a line.
\<close>

datatype csv_mode = START_RECORD | START_FIELD | IN_FIELD | IN_QUOTED_FIELD | QUOTE_IN_QUOTED_FIELD | EAT_CRNL

text \<open>The mode, the field being read, backwards, and the fields read, backwards.\<close>

type_synonym csv_state = "csv_mode \<times> string \<times> string list"

definition FIELD_LIMIT :: int where
  "FIELD_LIMIT = 131072"

definition csv_add :: "char \<Rightarrow> csv_mode \<Rightarrow> string \<Rightarrow> string list \<Rightarrow> string + csv_state" where
  "csv_add c m f fs = (if FIELD_LIMIT \<le> int (length f)
     then Inl ''field larger than field limit (131072)'' else Inr (m, c # f, fs))"

definition csv_save :: "csv_mode \<Rightarrow> string \<Rightarrow> string list \<Rightarrow> string + csv_state" where
  "csv_save m f fs = Inr (m, [], rev f # fs)"

definition is_newline :: "char \<Rightarrow> bool" where
  "is_newline c \<longleftrightarrow> c = CHR 0x0A \<or> c = CHR 0x0D"

text \<open>The end of a field's record, at a newline character or at the end of the line.\<close>

definition csv_field_char :: "char option \<Rightarrow> string \<Rightarrow> string list \<Rightarrow> string + csv_state" where
  "csv_field_char x f fs = (case x of
      None \<Rightarrow> csv_save START_RECORD f fs
    | Some c \<Rightarrow> if is_newline c then csv_save EAT_CRNL f fs
        else if c = CHR '','' then csv_save START_FIELD f fs
        else csv_add c IN_FIELD f fs)"

definition csv_start_field :: "char option \<Rightarrow> string \<Rightarrow> string list \<Rightarrow> string + csv_state" where
  "csv_start_field x f fs = (if x = Some (CHR 0x22) then Inr (IN_QUOTED_FIELD, f, fs) else csv_field_char x f fs)"

fun csv_char :: "char option \<Rightarrow> csv_state \<Rightarrow> string + csv_state" where
  "csv_char x (START_RECORD, f, fs) = (case x of
      None \<Rightarrow> Inr (START_RECORD, f, fs)
    | Some c \<Rightarrow> if is_newline c then Inr (EAT_CRNL, f, fs) else csv_start_field x f fs)"
| "csv_char x (START_FIELD, f, fs) = csv_start_field x f fs"
| "csv_char x (IN_FIELD, f, fs) = csv_field_char x f fs"
| "csv_char x (IN_QUOTED_FIELD, f, fs) = (case x of
      None \<Rightarrow> Inr (IN_QUOTED_FIELD, f, fs)
    | Some c \<Rightarrow> if c = CHR 0x22 then Inr (QUOTE_IN_QUOTED_FIELD, f, fs) else csv_add c IN_QUOTED_FIELD f fs)"
| "csv_char x (QUOTE_IN_QUOTED_FIELD, f, fs) =
     (if x = Some (CHR 0x22) then csv_add (CHR 0x22) IN_QUOTED_FIELD f fs else csv_field_char x f fs)"
| "csv_char x (EAT_CRNL, f, fs) = (case x of
      None \<Rightarrow> Inr (START_RECORD, f, fs)
    | Some c \<Rightarrow> if is_newline c then Inr (EAT_CRNL, f, fs)
        else Inl ''new-line character seen in unquoted field'')"

fun csv_line :: "string \<Rightarrow> csv_state \<Rightarrow> string + csv_state" where
  "csv_line [] s = csv_char None s"
| "csv_line (c # cs) s = bindS (csv_char (Some c) s) (csv_line cs)"

text \<open>The lines of \<open>io.StringIO\<close> with the default newline, kept with their ends.\<close>

fun io_lines :: "string \<Rightarrow> string \<Rightarrow> string list" where
  "io_lines acc [] = (if acc = [] then [] else [rev acc])"
| "io_lines acc (c # cs) = (if c = CHR 0x0A then rev (c # acc) # io_lines [] cs else io_lines (c # acc) cs)"

definition csv_fields :: "csv_state \<Rightarrow> string list" where
  "csv_fields = (\<lambda>(_, _, fs). rev fs)"

fun csv_records :: "csv_state \<Rightarrow> string list \<Rightarrow> string + string list list" where
  "csv_records (m, f, fs) [] = Inr (if f \<noteq> [] \<or> m = IN_QUOTED_FIELD then [rev (rev f # fs)] else [])"
| "csv_records s (l # ls) = bindS (csv_line l s) (\<lambda>s'.
     if fst s' = START_RECORD then bindS (csv_records (START_RECORD, [], []) ls) (\<lambda>rs. Inr (csv_fields s' # rs))
     else csv_records s' ls)"

definition csv_reader :: "string \<Rightarrow> string + string list list" where
  "csv_reader text = csv_records (START_RECORD, [], []) (io_lines [] text)"

text \<open>A row of \<open>DictReader\<close>: a short row leaves the remaining columns \<open>None\<close>; empty rows are skipped.
  The excess of a long row goes under the key \<open>None\<close>, which no caller reads.\<close>

definition dict_row :: "string list \<Rightarrow> string list \<Rightarrow> (string \<times> string option) list" where
  "dict_row names row = fold (\<lambda>k. dict_put k None) (drop (length row) names)
     (fold (\<lambda>(k, v). dict_put k (Some v)) (zip names row) [])"

definition dict_rows :: "string list \<Rightarrow> string list list \<Rightarrow> (string \<times> string option) list list" where
  "dict_rows names rows = map (dict_row names) (filter (\<lambda>r. r \<noteq> []) rows)"

section \<open>Reading what was written\<close>

text \<open>A field without comma, quote or newline is read back as it stands.\<close>

definition plain_field :: "string \<Rightarrow> bool" where
  "plain_field s \<longleftrightarrow> list_all (\<lambda>c. c \<noteq> CHR '','' \<and> c \<noteq> CHR 0x22 \<and> \<not> is_newline c) s \<and> int (length s) \<le> FIELD_LIMIT"

definition csv_row :: "string list \<Rightarrow> string" where
  "csv_row fields = join '','' fields @ nl"

definition csv_text :: "string list list \<Rightarrow> string" where
  "csv_text rows = concat (map csv_row rows)"

text \<open>A row of plain fields; the row of one empty field would be an empty line.\<close>

definition plain_row :: "string list \<Rightarrow> bool" where
  "plain_row r \<longleftrightarrow> r \<noteq> [] \<and> r \<noteq> [[]] \<and> list_all plain_field r"

lemma is_newline_simps [simp]: "is_newline (CHR 0x0A)" "\<not> is_newline (CHR '','')" "\<not> is_newline (CHR 0x22)"
  by (simp_all add: is_newline_def)

lemma csv_start_record:
  "x \<noteq> None \<Longrightarrow> \<not> is_newline (the x) \<Longrightarrow> csv_char x (START_RECORD, f, fs) = csv_char x (START_FIELD, f, fs)"
  by (cases x) simp_all

lemma csv_line_field:
  assumes "list_all (\<lambda>c. c \<noteq> CHR '','' \<and> c \<noteq> CHR 0x22 \<and> \<not> is_newline c) s"
    "int (length f) + int (length s) \<le> FIELD_LIMIT" "m = IN_FIELD \<or> m = START_FIELD"
  shows "csv_line (s @ rest) (m, f, fs) = csv_line rest (if s = [] then m else IN_FIELD, rev s @ f, fs)"
  using assms
proof (induction s arbitrary: f m)
  case (Cons c s)
  have "csv_char (Some c) (m, f, fs) = Inr (IN_FIELD, c # f, fs)"
    using Cons.prems by (auto simp: csv_start_field_def csv_field_char_def csv_add_def)
  then show ?case using Cons.IH [of "c # f" IN_FIELD] Cons.prems by simp
qed simp

lemma csv_line_fields:
  assumes "list_all plain_field fields" "fields \<noteq> []"
  shows "csv_line (join '','' fields @ nl) (START_FIELD, [], fs) = Inr (START_RECORD, [], rev fields @ fs)"
  using assms
proof (induction fields arbitrary: fs)
  case (Cons x xs)
  note field = csv_line_field [of x "[]" START_FIELD]
  show ?case
  proof (cases xs)
    case Nil
    then show ?thesis using Cons.prems field
      by (simp add: plain_field_def nl_def csv_start_field_def csv_field_char_def csv_save_def)
  next
    case (Cons y ys)
    have sep: "csv_char (Some (CHR '','')) (m, rev x, fs) = Inr (START_FIELD, [], x # fs)"
      if "m = START_FIELD \<or> m = IN_FIELD" for m
      using that by (auto simp: csv_start_field_def csv_field_char_def csv_save_def)
    show ?thesis using Cons Cons.IH Cons.prems field sep by (simp add: plain_field_def)
  qed
qed simp

lemma csv_line_row:
  assumes "plain_row r"
  shows "csv_line (csv_row r) (START_RECORD, [], []) = Inr (START_RECORD, [], rev r)"
proof -
  obtain x xs where r: "r = x # xs" "plain_field x" "x = [] \<longrightarrow> xs \<noteq> []"
    using assms by (cases r) (auto simp: plain_row_def)
  obtain c cs where c: "csv_row r = c # cs" "\<not> is_newline c"
  proof (cases x)
    case Nil
    then show ?thesis using r that by (cases xs) (auto simp: csv_row_def)
  next
    case (Cons c y)
    then show ?thesis using r that by (cases xs) (auto simp: csv_row_def plain_field_def)
  qed
  then have "csv_line (csv_row r) (START_RECORD, [], []) = csv_line (csv_row r) (START_FIELD, [], [])"
    using csv_start_record [of "Some c"] by simp
  then show ?thesis using csv_line_fields [of r "[]"] assms by (simp add: plain_row_def csv_row_def)
qed

lemma io_lines_row:
  "list_all (\<lambda>c. c \<noteq> CHR 0x0A) s \<Longrightarrow> io_lines acc (s @ nl @ rest) = (rev acc @ s @ nl) # io_lines [] rest"
  by (induction s arbitrary: acc) (auto simp: nl_def)

lemma plain_join: "list_all plain_field r \<Longrightarrow> list_all (\<lambda>c. c \<noteq> CHR 0x0A) (join '','' r)"
proof (induction r)
  case (Cons x xs)
  have "list_all (\<lambda>c. c \<noteq> CHR 0x0A) x" using Cons.prems by (auto simp: plain_field_def list_all_iff is_newline_def)
  then show ?case using Cons by (cases xs) auto
qed simp

lemma io_lines_text: "list_all plain_row rows \<Longrightarrow> io_lines [] (csv_text rows) = map csv_row rows"
  by (induction rows) (simp_all add: csv_text_def csv_row_def plain_row_def io_lines_row plain_join)

lemma csv_records_rows:
  "list_all plain_row rows \<Longrightarrow> csv_records (START_RECORD, [], []) (map csv_row rows) = Inr rows"
  by (induction rows) (simp_all add: csv_line_row csv_fields_def)

text \<open>Plain rows are read back as they were written.\<close>

lemma csv_reader_text: "list_all plain_row rows \<Longrightarrow> csv_reader (csv_text rows) = Inr rows"
  by (simp add: csv_reader_def io_lines_text csv_records_rows)

end
