(* ===== verification/Feature_Gates.thy ===== *)
theory Feature_Gates
  imports Intake Csv_Reader
begin

text \<open>
  The model-building domain, \<open>domains/feature_engineering.py\<close>: its schema and shape check on the
  control-plane side, and the two gates of a submission on the verifier side, over one cached run of the
  submitted script. The code runner steps a world of its own. SHA-256 and UTF-8 decoding are
  parameters; scores are exact rationals. The prompt text of the domain is not modelled.
\<close>

section \<open>The domain\<close>

definition DATASET_VERSION :: string where "DATASET_VERSION = ''DatasetVersion''"
definition SUBMISSION :: string where "SUBMISSION = ''Submission''"
definition ACCEPT_IMPROVE_OVER_BEST_PRIOR :: string where
  "ACCEPT_IMPROVE_OVER_BEST_PRIOR = ''improve_over_best_prior''"
definition ACCEPT_ALWAYS :: string where "ACCEPT_ALWAYS = ''always''"
definition ACCEPT_POLICIES :: "string list" where
  "ACCEPT_POLICIES = [ACCEPT_IMPROVE_OVER_BEST_PRIOR, ACCEPT_ALWAYS]"
definition ENTRYPOINT :: string where "ENTRYPOINT = ''submission.py''"
definition REQUIREMENTS :: string where "REQUIREMENTS = ''requirements.txt''"
definition SUBMISSION_OBJECT_KEYS :: "string list" where
  "SUBMISSION_OBJECT_KEYS = [''entrypoint'', ''requirements'']"
definition TRAIN_INPUT :: string where "TRAIN_INPUT = ''train.csv''"
definition TEST_INPUT :: string where "TEST_INPUT = ''test.csv''"
definition PREDICTIONS_OUTPUT :: string where "PREDICTIONS_OUTPUT = ''predictions.csv''"
definition RUN_ENV :: "(string \<times> string) list" where
  "RUN_ENV = [(''VERITY_DATA'', ''/data''), (''VERITY_OUT'', ''/out'')]"
definition FE_VERIFIER_IDENTITY :: string where "FE_VERIFIER_IDENTITY = ''feature-engineering-verifier''"

definition has_str :: "string \<Rightarrow> (string \<times> json) list \<Rightarrow> bool" where
  "has_str k kvs = (case map_of kvs k of Some (JStr _) \<Rightarrow> True | _ \<Rightarrow> False)"

definition validate_shape :: "artifact \<Rightarrow> string option" where
  "validate_shape a =
     (if art_type a \<noteq> SUBMISSION then None
      else case art_payload a of
        PJson (JObj kvs) \<Rightarrow>
          if \<not> has_str ''entrypoint'' kvs
          then Some (''a Submission must declare a string '' @ py_repr ''entrypoint'' @ '' (the script file name)'')
          else if \<not> has_str ''requirements'' kvs
          then Some (''a Submission payload must declare a string '' @ py_repr ''requirements'' @
            '' (the package-list file name)'')
          else None
      | _ \<Rightarrow> Some ''a Submission payload must be an object'')"

definition domain_objects :: "artifact \<Rightarrow> string list" where
  "domain_objects a =
     (if art_type a \<noteq> SUBMISSION then []
      else case art_payload a of
        PJson (JObj kvs) \<Rightarrow> remdups (concat (map (\<lambda>k. case map_of kvs k of
            Some (JStr n) \<Rightarrow> if n \<noteq> [] then [n] else [] | _ \<Rightarrow> []) SUBMISSION_OBJECT_KEYS))
      | _ \<Rightarrow> [])"

definition submission_operation :: "string \<Rightarrow> string \<Rightarrow> operation_signature" where
  "submission_operation n input = \<lparr>sig_name = n, sig_inputs = [input], sig_output = SUBMISSION,
     required_payload_keys = SUBMISSION_OBJECT_KEYS, object_payload_keys = SUBMISSION_OBJECT_KEYS\<rparr>"

record feature_domain =
  fd_schema :: schema_registry
  fd_gated :: gated_types
  fd_shape_validator :: "artifact \<Rightarrow> string option"

definition build_domain :: "exc + feature_domain" where
  "build_domain =
     bindS (register_type \<lparr>td_name = DATASET_VERSION, td_is_root = True\<rparr> empty_schema) (\<lambda>s.
     bindS (register_type \<lparr>td_name = SUBMISSION, td_is_root = False\<rparr> s) (\<lambda>s.
     bindS (register_operation (submission_operation ''submit'' DATASET_VERSION) s) (\<lambda>s.
     bindS (register_operation (submission_operation ''revises'' SUBMISSION) s) (\<lambda>s.
     bindS (gate_type SUBMISSION [INCUMBENTS, REJECTED_LOG] []) (\<lambda>g.
     Inr \<lparr>fd_schema = s, fd_gated = g, fd_shape_validator = validate_shape\<rparr>)))))"

section \<open>Reading predictions and labels\<close>

text \<open>A row whose class column is missing has the class \<open>None\<close>.\<close>

type_synonym predictions = "(string \<times> string option) list"

definition predictions_of :: "string list list \<Rightarrow> predictions option" where
  "predictions_of rows = (case rows of
      [] \<Rightarrow> None
    | names # rest \<Rightarrow>
        if ''id'' \<notin> set names \<or> ''class'' \<notin> set names then None
        else let preds = fold (\<lambda>row acc. case map_of row ''id'' of
                 Some (Some i) \<Rightarrow> if i \<noteq> [] then dict_put i (case map_of row ''class'' of Some c \<Rightarrow> c | None \<Rightarrow> None) acc else acc
               | _ \<Rightarrow> acc) (dict_rows names rest) []
             in if preds = [] then None else Some preds)"

definition parse_predictions :: "(bytes \<Rightarrow> string option) \<Rightarrow> bytes option \<Rightarrow> predictions option" where
  "parse_predictions decode output = (case output of
      None \<Rightarrow> None
    | Some b \<Rightarrow> if b = [] then None
        else case decode b of
          None \<Rightarrow> None
        | Some t \<Rightarrow> (case csv_reader t of Inl e \<Rightarrow> None | Inr rows \<Rightarrow> predictions_of rows))"

fun index_of :: "'a \<Rightarrow> 'a list \<Rightarrow> nat option" where
  "index_of x [] = None"
| "index_of x (y # ys) = (if x = y then Some 0 else map_option Suc (index_of x ys))"

definition label_rows :: "string \<Rightarrow> string \<Rightarrow> string list list \<Rightarrow> (string \<times> string) list" where
  "label_rows id_column target rows = (case rows of
      [] \<Rightarrow> []
    | header # rest \<Rightarrow>
        let (i, t) = (case (index_of id_column header, index_of target header) of
              (Some i, Some t) \<Rightarrow> (i, t) | _ \<Rightarrow> (0, 1))
        in fold (\<lambda>r acc. if max i t < length r then dict_put (r ! i) (r ! t) acc else acc) rest [])"

definition parse_label_csv :: "(bytes \<Rightarrow> string option) \<Rightarrow> string \<Rightarrow> string \<Rightarrow> bytes \<Rightarrow> exc + (string \<times> string) list" where
  "parse_label_csv decode id_column target data = (case decode data of
      None \<Rightarrow> Inl (ValueError ''UnicodeDecodeError'')
    | Some t \<Rightarrow> (case csv_reader t of
        Inl e \<Rightarrow> Inl (OtherError e)
      | Inr rows \<Rightarrow> Inr (label_rows id_column target rows)))"

section \<open>Balanced accuracy\<close>

definition count_in :: "string \<Rightarrow> (string \<times> nat) list \<Rightarrow> (string \<times> nat) list" where
  "count_in c d = dict_put c ((case map_of d c of Some n \<Rightarrow> n | None \<Rightarrow> 0) + 1) d"

definition tally_label :: "predictions \<Rightarrow> string \<times> string \<Rightarrow> (string \<times> nat) list \<times> (string \<times> nat) list \<Rightarrow>
    (string \<times> nat) list \<times> (string \<times> nat) list" where
  "tally_label preds = (\<lambda>(rid, label) (totals, correct).
     (count_in label totals, if map_of preds rid = Some (Some label) then count_in label correct else correct))"

definition balanced_accuracy :: "(string \<times> string) list \<Rightarrow> predictions \<Rightarrow> rat" where
  "balanced_accuracy truth preds =
     (case fold (tally_label preds) truth ([], []) of (totals, correct) \<Rightarrow>
        if totals = [] then 0
        else (\<Sum>(c, n)\<leftarrow>totals. of_nat (case map_of correct c of Some k \<Rightarrow> k | None \<Rightarrow> 0) / of_nat n) /
          of_nat (length totals))"

section \<open>The diagnosis of a failed run\<close>

definition DEPENDENCY_MARKERS :: "string list" where
  "DEPENDENCY_MARKERS = [''modulenotfounderror'', ''importerror'', ''no matching distribution found'',
     ''resolutionimpossible'', ''could not find a version'', ''error: pip'']"

text \<open>The two-way arrow of the message, at a code of its own.\<close>

definition ch_leftright :: string where "ch_leftright = [CHR 0x9D]"

definition DEPENDENCY_HINT :: string where
  "DEPENDENCY_HINT = '' Likely a sandbox'' @ ch_leftright @ ''gate environment mismatch: the gate installs EXACTLY what '' @
     py_repr REQUIREMENTS @ '' lists into a fresh container '' @ ch_emdash @ '' nothing else. Pin the exact versions the '' @
     ''script was actually tested with (`pip freeze` in the sandbox) for every import, and list '' @
     ''every package the script needs.''"

definition dependency_hint :: "string \<Rightarrow> string" where
  "dependency_hint err = (if \<exists>marker \<in> set DEPENDENCY_MARKERS. sublist marker (lower err) then DEPENDENCY_HINT else '''')"

fun break_lines :: "string \<Rightarrow> string \<Rightarrow> string list" where
  "break_lines acc [] = [rev acc]"
| "break_lines acc (c # cs) = (if c \<in> set line_breaks then rev acc # break_lines [] cs else break_lines (c # acc) cs)"

definition stderr_tail :: "string \<Rightarrow> string" where
  "stderr_tail err =
     (let ls = filter (\<lambda>l. l \<noteq> []) (map strip (break_lines [] err));
          meaningful = filter (\<lambda>l. \<not> prefix ''[notice]'' l \<and> \<not> prefix ''WARNING:'' l) ls
      in if meaningful = [] then ''no stderr''
         else case List.find (\<lambda>l. sublist ''Error'' l \<or> sublist ''Exception'' l \<or> sublist ''error:'' l) (rev meaningful) of
           Some l \<Rightarrow> l | None \<Rightarrow> last meaningful)"

section \<open>The gates\<close>

record 'w gate_setup =
  fe_runner :: "'w code_runner"
  fe_train_csv :: bytes
  fe_test_csv :: bytes
  fe_labels :: "(string \<times> string) list"
  fe_margin :: rat
  fe_deflation :: rat
  fe_timeout :: rat
  fe_sha256 :: "bytes \<Rightarrow> string"
  fe_decode :: "bytes \<Rightarrow> string option"

record 'w gates =
  fe_run_cache :: "(string \<times> run_result) list"
  fe_scores :: "(string \<times> rat) list"
  fe_world :: 'w

definition in_runner :: "('w, exc, 'a) st \<Rightarrow> ('w gates, exc, 'a) st" where
  "in_runner m g = (case m (fe_world g) of (r, w) \<Rightarrow> (r, g\<lparr>fe_world := w\<rparr>))"

definition submission_run :: "'w gate_setup \<Rightarrow> verifier_request \<Rightarrow> bytes \<Rightarrow> run_request" where
  "submission_run su request code = \<lparr>rq_code = code, rq_entrypoint = ENTRYPOINT,
     rq_inputs = [(TRAIN_INPUT, fe_train_csv su), (TEST_INPUT, fe_test_csv su)],
     rq_output_name = PREDICTIONS_OUTPUT, rq_timeout = fe_timeout su,
     rq_requirements = map_of (vr_objects request) REQUIREMENTS, rq_network = True, rq_env = RUN_ENV\<rparr>"

definition fe_run :: "'w gate_setup \<Rightarrow> verifier_request \<Rightarrow> ('w gates, exc, run_result option) st" where
  "fe_run su request =
     (case map_of (vr_objects request) ENTRYPOINT of
        None \<Rightarrow> ret None
      | Some code \<Rightarrow>
          let digest = fe_sha256 su code in
          bindE (gets (\<lambda>g. map_of (fe_run_cache g) digest)) (\<lambda>cached. case cached of
            Some result \<Rightarrow> ret (Some result)
          | None \<Rightarrow>
              bindE (in_runner (fe_runner su (submission_run su request code))) (\<lambda>result.
              bindE (modify (fe_run_cache_update (\<lambda>_. [(digest, result)]))) (\<lambda>_.
              ret (Some result)))))"

text \<open>\<open>self.reserved_labels.keys() - preds.keys()\<close>\<close>

definition missing_rows :: "'w gate_setup \<Rightarrow> predictions \<Rightarrow> string list" where
  "missing_rows su preds = filter (\<lambda>i. i \<notin> fst ` set preds) (map fst (fe_labels su))"

definition run_verdict :: "'w gate_setup \<Rightarrow> run_result option \<Rightarrow> gate_verdict" where
  "run_verdict su r =
     (case r of
        None \<Rightarrow> verdict REJECT (''no '' @ py_repr ENTRYPOINT @ '' attachment to run'')
      | Some result \<Rightarrow>
          if rr_timed_out result then verdict REJECT ''submission timed out before completing''
          else if rr_exit_code result \<noteq> 0
          then verdict REJECT (''submission exited '' @ int_str (rr_exit_code result) @ '': '' @
            stderr_tail (rr_stderr result) @ dependency_hint (rr_stderr result))
          else (case parse_predictions (fe_decode su) (rr_output result) of
              None \<Rightarrow> verdict REJECT (''no well-formed '' @ PREDICTIONS_OUTPUT @ '' produced'')
            | Some preds \<Rightarrow>
                if missing_rows su preds \<noteq> []
                then verdict REJECT (''predictions cover '' @ nat_str (length preds) @ '' of '' @
                  nat_str (length (fe_labels su)) @ '' reserved rows ('' @
                  nat_str (length (missing_rows su preds)) @ '' missing)'')
                else verdict ACCEPT ''runs clean and predicts every reserved row''))"

definition runnable :: "'w gate_setup \<Rightarrow> 'w gates gate_primitive" where
  "runnable su request = bindE (fe_run su request) (\<lambda>r. ret (Some (run_verdict su r)))"

text \<open>The predictions that can be scored.\<close>

definition scorable :: "'w gate_setup \<Rightarrow> run_result option \<Rightarrow> predictions option" where
  "scorable su r = (case r of
      None \<Rightarrow> None
    | Some result \<Rightarrow> (case parse_predictions (fe_decode su) (rr_output result) of
        None \<Rightarrow> None
      | Some preds \<Rightarrow> if missing_rows su preds \<noteq> [] then None else Some preds))"

definition no_scorable :: gate_verdict where
  "no_scorable = verdict REJECT ''submission produced no scorable predictions''"

text \<open>\<open>max(pairs, key=lambda p: p[1])\<close>, the first of the greatest.\<close>

definition max_pair :: "string \<times> rat \<Rightarrow> (string \<times> rat) list \<Rightarrow> string \<times> rat" where
  "max_pair p ps = foldl (\<lambda>best q. if snd best < snd q then q else best) p ps"

definition incumbent_score :: "verifier_request \<Rightarrow> (string \<times> rat) list \<Rightarrow> artifact \<Rightarrow> rat option" where
  "incumbent_score request scores a =
     (if art_status a \<noteq> ACCEPTED then None
      else case map_of scores (art_id a) of
        Some x \<Rightarrow> Some x
      | None \<Rightarrow> (case map_of (vr_scores request) (art_id a) of
          Some recorded \<Rightarrow> if recorded \<noteq> [] then Some (Max (set (map snd recorded))) else None
        | None \<Rightarrow> None))"

definition best_incumbent :: "verifier_request \<Rightarrow> (string \<times> rat) list \<Rightarrow> string option \<times> rat" where
  "best_incumbent request scores =
     (case List.map_filter (\<lambda>a. map_option (\<lambda>x. (art_id a, x)) (incumbent_score request scores a)) (vr_slice request) of
        [] \<Rightarrow> (None, 0)
      | p # ps \<Rightarrow> (case max_pair p ps of (i, x) \<Rightarrow> (Some i, x)))"

definition note_score :: "verifier_request \<Rightarrow> rat \<Rightarrow> ('w gates, exc, unit) st" where
  "note_score request score = modify (fe_scores_update (dict_put (art_id (vr_proposal request)) score))"

definition prior_trials :: "verifier_request \<Rightarrow> nat" where
  "prior_trials request = length (filter (\<lambda>a. art_status a = REJECTED) (vr_slice request))"

definition bar :: "'w gate_setup \<Rightarrow> verifier_request \<Rightarrow> rat \<Rightarrow> rat" where
  "bar su request baseline = baseline + fe_margin su + fe_deflation su * of_nat (prior_trials request)"

definition selection_verdict :: "'w gate_setup \<Rightarrow> verifier_request \<Rightarrow> rat \<Rightarrow> string option \<times> rat \<Rightarrow> gate_verdict" where
  "selection_verdict su request score = (\<lambda>(best_id, baseline).
     let limit = bar su request baseline;
         detail = ''balanced-accuracy '' @ fmt4 score @ '' vs bar '' @ fmt4 limit @ '' (incumbent '' @ fmt4 baseline @
           '', '' @ nat_str (prior_trials request) @ '' prior trials)''
     in if limit < score
        then \<lparr>gv_kind = ACCEPT, gv_rationale = ''improves: '' @ detail, gv_defects = None, gv_score = Some score,
          gv_supersedes = best_id\<rparr>
        else (verdict REJECT (''does not improve: '' @ detail))\<lparr>gv_score := Some score\<rparr>)"

definition selection :: "'w gate_setup \<Rightarrow> 'w gates gate_primitive" where
  "selection su request =
     bindE (fe_run su request) (\<lambda>r. case scorable su r of
        None \<Rightarrow> ret (Some no_scorable)
      | Some preds \<Rightarrow>
          let score = balanced_accuracy (fe_labels su) preds in
          bindE (note_score request score) (\<lambda>_.
          bindE (gets (\<lambda>g. best_incumbent request (fe_scores g))) (\<lambda>best.
          ret (Some (selection_verdict su request score best)))))"

definition score_and_accept :: "'w gate_setup \<Rightarrow> 'w gates gate_primitive" where
  "score_and_accept su request =
     bindE (fe_run su request) (\<lambda>r. case scorable su r of
        None \<Rightarrow> ret (Some no_scorable)
      | Some preds \<Rightarrow>
          let score = balanced_accuracy (fe_labels su) preds in
          bindE (note_score request score) (\<lambda>_.
          ret (Some ((verdict ACCEPT (''balanced-accuracy '' @ fmt4 score @
            '' (always-accept: score recorded, accepted)''))\<lparr>gv_score := Some score\<rparr>))))"

text \<open>The verifier package: \<open>build_feature_engineering_verifier\<close>.\<close>

definition hard_step :: "'w gate_setup \<Rightarrow> string \<Rightarrow> 'w gates gate_step" where
  "hard_step su policy =
     (if policy = ACCEPT_ALWAYS
      then \<lparr>gs_gate = ''score-and-accept'', gs_plugin = score_and_accept su, gs_is_hard = True, gs_requires_human = False\<rparr>
      else \<lparr>gs_gate = ''selection'', gs_plugin = selection su, gs_is_hard = True, gs_requires_human = False\<rparr>)"

definition submission_steps :: "'w gate_setup \<Rightarrow> string \<Rightarrow> 'w gates gate_step list" where
  "submission_steps su policy =
     [\<lparr>gs_gate = ''runs-clean'', gs_plugin = runnable su, gs_is_hard = False, gs_requires_human = False\<rparr>,
      hard_step su policy]"

definition build_verifier :: "'w gate_setup \<Rightarrow> string \<Rightarrow> exc + 'w gates pipelines" where
  "build_verifier su policy =
     (if policy \<notin> set ACCEPT_POLICIES
      then Inl (ValueError (''unknown accept_policy '' @ py_repr policy @ ''; expected one of ('' @
        join '', '' (map py_repr ACCEPT_POLICIES) @ '')''))
      else bindS (check_pipelines [(SUBMISSION, submission_steps su policy)]) (\<lambda>_.
        Inr [(SUBMISSION, submission_steps su policy)]))"

section \<open>Balanced accuracy is the mean recall\<close>

definition rows_of_class :: "(string \<times> string) list \<Rightarrow> string \<Rightarrow> (string \<times> string) list" where
  "rows_of_class truth c = filter (\<lambda>(_, l). l = c) truth"

definition hits :: "predictions \<Rightarrow> (string \<times> string) list \<Rightarrow> string \<Rightarrow> (string \<times> string) list" where
  "hits preds truth c = filter (\<lambda>(i, _). map_of preds i = Some (Some c)) (rows_of_class truth c)"

definition recall :: "predictions \<Rightarrow> (string \<times> string) list \<Rightarrow> string \<Rightarrow> rat" where
  "recall preds truth c = of_nat (length (hits preds truth c)) / of_nat (length (rows_of_class truth c))"

definition count_of :: "(string \<times> nat) list \<Rightarrow> string \<Rightarrow> nat" where
  "count_of d c = (case map_of d c of Some n \<Rightarrow> n | None \<Rightarrow> 0)"

lemma count_of_count_in: "count_of (count_in c d) = (count_of d)(c := Suc (count_of d c))"
  by (simp add: count_of_def count_in_def update_conv' fun_eq_iff)

definition tallied :: "predictions \<Rightarrow> (string \<times> string) list \<Rightarrow> (string \<times> nat) list \<times> (string \<times> nat) list \<Rightarrow> bool" where
  "tallied preds truth = (\<lambda>(totals, correct). distinct (map fst totals) \<and> fst ` set totals = snd ` set truth \<and>
     (\<forall>c. count_of totals c = length (rows_of_class truth c)) \<and>
     (\<forall>c. count_of correct c = length (hits preds truth c)))"

lemma rows_of_class_snoc:
  "length (rows_of_class (truth @ [(i, l)]) c) = length (rows_of_class truth c) + (if l = c then 1 else 0)"
  "length (hits preds (truth @ [(i, l)]) c) =
     length (hits preds truth c) + (if l = c \<and> map_of preds i = Some (Some c) then 1 else 0)"
  by (simp_all add: rows_of_class_def hits_def)

lemma tally_step: "tally_label preds (i, l) (t, c) =
    (count_in l t, if map_of preds i = Some (Some l) then count_in l c else c)"
  by (simp add: tally_label_def)

lemma tally_fold: "tallied preds truth (fold (tally_label preds) truth ([], []))"
proof (induction truth rule: rev_induct)
  case (snoc x truth)
  obtain i l where x: "x = (i, l)" by fastforce
  obtain t c where f: "fold (tally_label preds) truth ([], []) = (t, c)" by fastforce
  have IH: "tallied preds truth (t, c)" using snoc f by simp
  have keys: "distinct (map fst (count_in l t))" "fst ` set (count_in l t) = insert l (snd ` set truth)"
    using IH by (auto simp: tallied_def count_in_def distinct_update dom_update)
  have step: "fold (tally_label preds) (truth @ [x]) ([], []) =
      (count_in l t, if map_of preds i = Some (Some l) then count_in l c else c)"
    by (simp add: f x tally_step)
  show ?case unfolding step using IH keys
    by (cases "map_of preds i = Some (Some l)") (simp_all add: tallied_def x count_of_count_in rows_of_class_snoc)
qed (simp add: tallied_def rows_of_class_def hits_def count_of_def)

lemma recall_bounds: "0 \<le> recall preds truth c \<and> recall preds truth c \<le> 1"
  by (auto simp: recall_def hits_def divide_le_eq_1 length_filter_le)

lemma sum_list_keys:
  assumes "distinct (map fst d)"
  shows "(\<Sum>(c, n)\<leftarrow>d. g c n) = (\<Sum>c \<in> fst ` set d. g c (the (map_of d c)))"
proof -
  have "(\<Sum>(c, n)\<leftarrow>d. g c n) = (\<Sum>(c, n) \<in> set d. g c n)"
    using assms by (intro sum_list_distinct_conv_sum_set) (metis distinct_map)
  also have "\<dots> = (\<Sum>c \<in> fst ` set d. g c (the (map_of d c)))"
    using assms by (subst sum.reindex) (auto simp: distinct_map intro!: sum.cong)
  finally show ?thesis .
qed

lemma balanced_accuracy_mean:
  "balanced_accuracy truth preds = (\<Sum>c \<in> snd ` set truth. recall preds truth c) / of_nat (card (snd ` set truth))"
proof -
  obtain t k where f: "fold (tally_label preds) truth ([], []) = (t, k)" by fastforce
  have T: "distinct (map fst t)" "fst ` set t = snd ` set truth"
    "\<And>c. (case map_of t c of Some n \<Rightarrow> n | None \<Rightarrow> 0) = length (rows_of_class truth c)"
    "\<And>c. (case map_of k c of Some n \<Rightarrow> n | None \<Rightarrow> 0) = length (hits preds truth c)"
    using tally_fold [of preds truth] f by (simp_all add: tallied_def count_of_def)
  have "the (map_of t c) = length (rows_of_class truth c)" if "c \<in> fst ` set t" for c
    using T(3) [of c] that by (auto split: option.splits simp: map_of_eq_None_iff)
  then have "(\<Sum>(c, n)\<leftarrow>t. of_nat (case map_of k c of Some k \<Rightarrow> k | None \<Rightarrow> 0) / of_nat n) =
      (\<Sum>c \<in> snd ` set truth. recall preds truth c)"
    unfolding sum_list_keys [OF T(1)] T(4) by (simp add: T(2) recall_def)
  moreover have "length t = card (snd ` set truth)"
    using T(1,2) by (metis distinct_card length_map set_map)
  ultimately show ?thesis using T(2) by (auto simp: balanced_accuracy_def f)
qed

lemma mean_eq_1:
  fixes g :: "'a \<Rightarrow> rat"
  assumes "finite A" "\<And>c. c \<in> A \<Longrightarrow> g c \<le> 1" "A \<noteq> {}"
  shows "sum g A / of_nat (card A) = 1 \<longleftrightarrow> (\<forall>c \<in> A. g c = 1)"
proof -
  have "sum g A / of_nat (card A) = 1 \<longleftrightarrow> (\<Sum>c \<in> A. 1 - g c) = 0"
    using assms(1,3) by (auto simp: sum_subtractf divide_eq_eq)
  also have "\<dots> \<longleftrightarrow> (\<forall>c \<in> A. 1 - g c = 0)" using assms by (intro sum_nonneg_eq_0_iff) auto
  finally show ?thesis by auto
qed

lemma length_filter_all: "length (filter P xs) = length xs \<longleftrightarrow> (\<forall>x \<in> set xs. P x)"
proof (induction xs)
  case (Cons x xs)
  then show ?case using length_filter_le [of P xs] by (auto simp: less_Suc_eq_le [symmetric] simp del: length_filter_le)
qed simp

lemma recall_eq_1:
  assumes "c \<in> snd ` set truth"
  shows "recall preds truth c = 1 \<longleftrightarrow> (\<forall>(i, l) \<in> set truth. l = c \<longrightarrow> map_of preds i = Some (Some l))"
proof -
  have "rows_of_class truth c \<noteq> []" using assms by (auto simp: rows_of_class_def filter_empty_conv)
  then have "recall preds truth c = 1 \<longleftrightarrow> length (hits preds truth c) = length (rows_of_class truth c)"
    by (auto simp: recall_def)
  also have "\<dots> \<longleftrightarrow> (\<forall>x \<in> set (rows_of_class truth c). map_of preds (fst x) = Some (Some c))"
    unfolding hits_def by (simp add: length_filter_all case_prod_unfold)
  finally show ?thesis by (auto simp: rows_of_class_def)
qed

section \<open>One run per submission\<close>

text \<open>A run that returned is the one the next gate sees.\<close>

lemma fe_run_Inr:
  assumes "fe_run su request g = (Inr r, g')"
  shows "fe_scores g' = fe_scores g \<and>
    (case map_of (vr_objects request) ENTRYPOINT of
       None \<Rightarrow> r = None \<and> g' = g
     | Some code \<Rightarrow> \<exists>result. r = Some result \<and> map_of (fe_run_cache g') (fe_sha256 su code) = Some result \<and>
         (g' = g \<or> fe_world g' = snd (fe_runner su (submission_run su request code) (fe_world g))))"
proof (cases "map_of (vr_objects request) ENTRYPOINT")
  case (Some code)
  obtain x w where run: "fe_runner su (submission_run su request code) (fe_world g) = (x, w)" by fastforce
  show ?thesis
  proof (cases "map_of (fe_run_cache g) (fe_sha256 su code)")
    case None
    then show ?thesis using assms Some run
      by (cases x) (auto simp: fe_run_def ret_def bindE_def in_runner_def gets_def modify_def Let_def)
  next
    case (Some result)
    with \<open>map_of (vr_objects request) ENTRYPOINT = Some code\<close> show ?thesis using assms
      by (auto simp: fe_run_def ret_def bindE_def gets_def Let_def) metis
  qed
qed (use assms in \<open>simp add: fe_run_def ret_def\<close>)

lemma fe_run_again:
  assumes "fe_run su request g = (Inr r, g')" "fe_run_cache h = fe_run_cache g'"
    "map_option (fe_sha256 su) (map_of (vr_objects request') ENTRYPOINT) =
     map_option (fe_sha256 su) (map_of (vr_objects request) ENTRYPOINT)"
  shows "fe_run su request' h = (Inr r, h)"
  using fe_run_Inr [OF assms(1)] assms(2,3)
  by (auto simp: fe_run_def [of su request'] bindE_def ret_def gets_def Let_def split: option.splits)

lemma run_verdict_kind: "gv_kind (run_verdict su r) = REJECT \<or> gv_kind (run_verdict su r) = ACCEPT"
  by (auto simp: run_verdict_def verdict_def split: option.splits)

lemma run_verdict_ACCEPT:
  "gv_kind (run_verdict su r) = ACCEPT \<longleftrightarrow>
    (\<exists>result preds. r = Some result \<and> \<not> rr_timed_out result \<and> rr_exit_code result = 0 \<and>
       scorable su r = Some preds)"
  by (auto simp: run_verdict_def verdict_def scorable_def split: option.splits)

lemma scorable_iff:
  "scorable su (Some result) = Some preds \<longleftrightarrow>
     parse_predictions (fe_decode su) (rr_output result) = Some preds \<and> fst ` set (fe_labels su) \<subseteq> fst ` set preds"
  by (auto simp: scorable_def missing_rows_def filter_empty_conv split: option.splits if_splits)

text \<open>What the first gate decides, and what the second adds.\<close>

definition submission_decision :: "string \<Rightarrow> gate_verdict \<Rightarrow> gate_decision" where
  "submission_decision n v = \<lparr>gd_gate = n, gd_kind = gv_kind v, gd_rationale = gv_rationale v,
     gd_defects = gv_defects v, gd_score = gv_score v\<rparr>"

lemma gates_upd_simps [simp]: "fe_run_cache (fe_scores_update f g) = fe_run_cache g" by simp

lemma submission_pipeline:
  assumes "policy \<in> set ACCEPT_POLICIES"
  shows "run_pipeline (submission_steps su policy) request g =
    (case fe_run su request g of
       (Inl e, g1) \<Rightarrow> (Inl e, g1)
     | (Inr r, g1) \<Rightarrow>
         let d = submission_decision ''runs-clean'' (run_verdict su r)
         in if gd_kind d = REJECT then (Inr (mk_bundle REJECTED [d] None), g1)
            else let preds = the (scorable su r); score = balanced_accuracy (fe_labels su) preds;
                     g2 = g1\<lparr>fe_scores := dict_put (art_id (vr_proposal request)) score (fe_scores g1)\<rparr>;
                     v = (if policy = ACCEPT_ALWAYS
                       then (verdict ACCEPT (''balanced-accuracy '' @ fmt4 score @
                         '' (always-accept: score recorded, accepted)''))\<lparr>gv_score := Some score\<rparr>
                       else selection_verdict su request score (best_incumbent request (fe_scores g2)));
                     ds = [d, submission_decision (gs_gate (hard_step su policy)) v]
                 in if gv_kind v = REJECT then (Inr (mk_bundle REJECTED ds None), g2)
                    else (Inr (mk_bundle ACCEPTED ds (gv_supersedes v)), g2))"
proof (cases "fe_run su request g")
  case (Pair x g1)
  show ?thesis
  proof (cases x)
    case (Inl e)
    then show ?thesis using Pair
      by (simp add: submission_steps_def run_pipeline_def cheap_steps_def hard_step_def runnable_def bindE_def)
  next
    case (Inr r)
    have again: "fe_run su request g1 = (Inr r, g1)" using fe_run_again [of su request g r g1 g1 request] Pair Inr by simp
    have sv: "gv_kind (selection_verdict su request s b) \<noteq> REFINE" for s b
      by (simp add: selection_verdict_def verdict_def Let_def split: prod.split)
    have acc: "gv_kind (run_verdict su r) \<noteq> REJECT \<Longrightarrow> gv_kind (run_verdict su r) = ACCEPT \<and> (\<exists>p. scorable su r = Some p)"
      using run_verdict_kind [of su r] run_verdict_ACCEPT [of su r] by auto
    show ?thesis
    proof (cases "gv_kind (run_verdict su r) = REJECT")
      case True
      then show ?thesis using Pair Inr
        by (simp add: submission_steps_def run_pipeline_def cheap_steps_def hard_step_def runnable_def bindE_def ret_def
            or_return_def step_decision_def submission_decision_def Let_def)
    next
      case False
      then obtain p where p: "gv_kind (run_verdict su r) = ACCEPT" "scorable su r = Some p" using acc by auto
      show ?thesis using Pair Inr p again sv
        by (auto simp: submission_steps_def run_pipeline_def cheap_steps_def hard_steps_def hard_step_def runnable_def bindE_def ret_def
            or_return_def step_decision_def submission_decision_def Let_def selection_def score_and_accept_def note_score_def
            gets_def modify_def conclude_def verdict_def split: option.split)
    qed
  qed
qed

lemma submission_outcome:
  assumes "policy \<in> set ACCEPT_POLICIES" "fe_run su request g = (Inr r, g1)"
  obtains b g2 where "run_pipeline (submission_steps su policy) request g = (Inr b, g2)"
    "fe_run_cache g2 = fe_run_cache g1" "fe_world g2 = fe_world g1"
    "hd (vb_decisions b) = submission_decision ''runs-clean'' (run_verdict su r)"
    "vb_decisions b = [hd (vb_decisions b)] \<longleftrightarrow> gv_kind (run_verdict su r) = REJECT"
    "gv_kind (run_verdict su r) = REJECT \<Longrightarrow> vb_status b = REJECTED"
    "fe_scores g2 = fe_scores g1 \<or> (\<exists>x. fe_scores g2 = dict_put (art_id (vr_proposal request)) x (fe_scores g1))"
proof -
  define out where "out = run_pipeline (submission_steps su policy) request g"
  obtain d where d: "d = submission_decision ''runs-clean'' (run_verdict su r)" by blast
  have "\<exists>b g2. out = (Inr b, g2) \<and> fe_run_cache g2 = fe_run_cache g1 \<and> fe_world g2 = fe_world g1 \<and>
      hd (vb_decisions b) = d \<and> (vb_decisions b = [hd (vb_decisions b)] \<longleftrightarrow> gv_kind (run_verdict su r) = REJECT) \<and>
      (gv_kind (run_verdict su r) = REJECT \<longrightarrow> vb_status b = REJECTED) \<and>
      (fe_scores g2 = fe_scores g1 \<or> (\<exists>x. fe_scores g2 = dict_put (art_id (vr_proposal request)) x (fe_scores g1)))"
  proof (cases "gv_kind (run_verdict su r) = REJECT")
    case True
    then have "gd_kind d = REJECT" by (simp add: d submission_decision_def)
    then have "out = (Inr (mk_bundle REJECTED [d] None), g1)"
      unfolding out_def submission_pipeline [OF assms(1)] assms(2) prod.case sum.case Let_def d by (rule if_P)
    then show ?thesis using True by (simp add: mk_bundle_def)
  next
    case False
    then have k: "gd_kind d \<noteq> REJECT" by (simp add: d submission_decision_def)
    have "\<exists>st e sby x. out = (Inr (mk_bundle st [d, e] sby), g1\<lparr>fe_scores := dict_put (art_id (vr_proposal request)) x (fe_scores g1)\<rparr>)"
      unfolding out_def submission_pipeline [OF assms(1)] assms(2) prod.case sum.case Let_def
      unfolding d [symmetric] if_not_P [OF k]
      by (split if_split) blast
    then show ?thesis using False by (auto simp: mk_bundle_def)
  qed
  then show thesis using that unfolding out_def d by blast
qed

section \<open>The best incumbent\<close>

lemma max_pair: "max_pair p ps \<in> set (p # ps) \<and> (\<forall>q \<in> set (p # ps). snd q \<le> snd (max_pair p ps))"
proof (induction ps arbitrary: p)
  case (Cons q ps)
  show ?case using Cons.IH [of p] Cons.IH [of q] by (auto simp: max_pair_def intro: order_trans)
qed (simp add: max_pair_def)

lemma best_incumbent_spec:
  assumes "best_incumbent request scores = (i, x)"
  shows "(\<forall>a \<in> set (vr_slice request). \<forall>y. incumbent_score request scores a = Some y \<longrightarrow> y \<le> x) \<and>
    (\<forall>j. i = Some j \<longrightarrow> (\<exists>a \<in> set (vr_slice request). art_id a = j \<and> art_status a = ACCEPTED \<and>
       incumbent_score request scores a = Some x))"
proof -
  define known where "known = List.map_filter (\<lambda>a. map_option (\<lambda>x. (art_id a, x)) (incumbent_score request scores a))
    (vr_slice request)"
  have mem: "(j, y) \<in> set known \<longleftrightarrow> (\<exists>a \<in> set (vr_slice request). art_id a = j \<and> incumbent_score request scores a = Some y)"
    for j y by (force simp: known_def List.map_filter_def image_iff)
  have acc: "art_status a = ACCEPTED" if "incumbent_score request scores a = Some y" for a y
    using that by (auto simp: incumbent_score_def split: if_splits)
  show ?thesis
  proof (cases known)
    case Nil
    then show ?thesis using assms mem by (auto simp: best_incumbent_def known_def [symmetric])
  next
    case (Cons p ps)
    then have "max_pair p ps = (the i, x)" "i = Some (the i)"
      using assms by (auto simp: best_incumbent_def known_def [symmetric] split: prod.splits)
    then show ?thesis using max_pair [of p ps] mem acc Cons by (metis option.inject snd_conv)
  qed
qed

section \<open>Claims\<close>

lemma build_verifier_Inr:
  "build_verifier su policy = Inr ps \<longleftrightarrow> policy \<in> set ACCEPT_POLICIES \<and> ps = [(SUBMISSION, submission_steps su policy)]"
  by (auto simp: build_verifier_def check_pipelines_def submission_steps_def hard_step_def)

text \<open>What a dispatch of the package does to the verifier's state.\<close>

lemma submission_dispatch:
  assumes "build_verifier su policy = Inr ps" "art_type (vr_proposal request) = SUBMISSION"
    "sdk_dispatch ps request v = (r, v')"
  shows "policy \<in> set ACCEPT_POLICIES \<and>
    run_pipeline (submission_steps su policy) request (sdk_world v) = (r, sdk_world v')"
  using assms
  by (auto simp: build_verifier_Inr sdk_dispatch_def in_world_def bindE_def modify_def split: prod.splits)

text \<open>C18. A submission is accepted exactly when it improves: under the improving policy every verdict the
  package returns accepts or rejects, and it accepts exactly when the script ran clean within its time,
  its predictions are well-formed and cover every reserved row, and their balanced accuracy exceeds
  the best known accepted score by the margin, raised by the deflation for every rejected submission
  of the slice. An acceptance retires the best incumbent and no other, and beats by that much every
  accepted incumbent whose score is known.\<close>

theorem accepted_submissions_improve:
  assumes "build_verifier su ACCEPT_IMPROVE_OVER_BEST_PRIOR = Inr ps"
    "art_type (vr_proposal request) = SUBMISSION" "sdk_dispatch ps request v = (Inr b, v')"
  shows "\<exists>r. fe_run su request (sdk_world v') = (Inr r, sdk_world v') \<and>
    (let best = best_incumbent request (fe_scores (sdk_world v')) in
     vb_status b \<in> {ACCEPTED, REJECTED} \<and>
     (vb_status b = ACCEPTED \<longleftrightarrow>
        (\<exists>result preds. r = Some result \<and> \<not> rr_timed_out result \<and> rr_exit_code result = 0 \<and>
           parse_predictions (fe_decode su) (rr_output result) = Some preds \<and>
           fst ` set (fe_labels su) \<subseteq> fst ` set preds \<and>
           bar su request (snd best) < balanced_accuracy (fe_labels su) preds)) \<and>
     (vb_status b = ACCEPTED \<longrightarrow> vb_supersedes b = fst best \<and>
        (\<forall>j. fst best = Some j \<longrightarrow> (\<exists>a \<in> set (vr_slice request). art_id a = j \<and> art_status a = ACCEPTED)) \<and>
        (\<exists>score. gd_score (last (vb_decisions b)) = Some score \<and>
           (\<forall>a \<in> set (vr_slice request). \<forall>x. incumbent_score request (fe_scores (sdk_world v')) a = Some x \<longrightarrow>
              bar su request x < score))))"
proof -
  have p: "ACCEPT_IMPROVE_OVER_BEST_PRIOR \<in> set ACCEPT_POLICIES" "ACCEPT_IMPROVE_OVER_BEST_PRIOR \<noteq> ACCEPT_ALWAYS"
    by (simp_all add: ACCEPT_POLICIES_def ACCEPT_IMPROVE_OVER_BEST_PRIOR_def ACCEPT_ALWAYS_def)
  have run: "run_pipeline (submission_steps su ACCEPT_IMPROVE_OVER_BEST_PRIOR) request (sdk_world v) = (Inr b, sdk_world v')"
    using submission_dispatch [OF assms] by simp
  obtain r g1 where fe: "fe_run su request (sdk_world v) = (Inr r, g1)"
    using run unfolding submission_pipeline [OF p(1)] by (auto split: prod.splits sum.splits)
  have again: "fe_run su request h = (Inr r, h)" if "fe_run_cache h = fe_run_cache g1" for h
    by (rule fe_run_again [OF fe that]) simp
  show ?thesis
  proof (cases "gv_kind (run_verdict su r) = REJECT")
    case True
    then have "b = mk_bundle REJECTED [submission_decision ''runs-clean'' (run_verdict su r)] None" "sdk_world v' = g1"
      using run unfolding submission_pipeline [OF p(1)] fe by (simp_all add: submission_decision_def)
    moreover have "\<not> (\<exists>result preds. r = Some result \<and> \<not> rr_timed_out result \<and> rr_exit_code result = 0 \<and>
        scorable su (Some result) = Some preds)"
      using True run_verdict_ACCEPT [of su r] by auto
    ultimately show ?thesis using again [of g1] by (auto simp: mk_bundle_def Let_def scorable_iff)
  next
    case False
    then obtain result preds where ok: "r = Some result" "\<not> rr_timed_out result" "rr_exit_code result = 0"
      "scorable su (Some result) = Some preds"
      using run_verdict_kind [of su r] run_verdict_ACCEPT [of su r] by auto
    define score where "score = balanced_accuracy (fe_labels su) preds"
    define g2 where "g2 = g1\<lparr>fe_scores := dict_put (art_id (vr_proposal request)) score (fe_scores g1)\<rparr>"
    define v2 where "v2 = selection_verdict su request score (best_incumbent request (fe_scores g2))"
    define ds where "ds = [submission_decision ''runs-clean'' (run_verdict su r),
      submission_decision (gs_gate (hard_step su ACCEPT_IMPROVE_OVER_BEST_PRIOR)) v2]"
    have out: "sdk_world v' = g2" "b = (if gv_kind v2 = REJECT then mk_bundle REJECTED ds None
        else mk_bundle ACCEPTED ds (gv_supersedes v2))"
      using run False unfolding submission_pipeline [OF p(1)] fe
      by (simp_all add: ok p(2) Let_def score_def g2_def v2_def ds_def submission_decision_def split: if_splits)
    obtain i x where best: "best_incumbent request (fe_scores g2) = (i, x)" by fastforce
    have v2: "gv_kind v2 = REJECT \<longleftrightarrow> \<not> bar su request x < score" "gv_score v2 = Some score"
      "bar su request x < score \<Longrightarrow> gv_supersedes v2 = i"
      by (simp_all add: v2_def best selection_verdict_def verdict_def Let_def)
    have mono: "y \<le> x \<Longrightarrow> bar su request y \<le> bar su request x" for y by (simp add: bar_def)
    have "gd_score (last (vb_decisions b)) = Some score"
      using v2(2) by (simp add: out(2) mk_bundle_def ds_def submission_decision_def)
    moreover have status: "vb_status b = (if bar su request x < score then ACCEPTED else REJECTED)"
      "bar su request x < score \<Longrightarrow> vb_supersedes b = i"
      using v2 by (auto simp: out(2) mk_bundle_def)
    moreover have "(\<exists>result preds. r = Some result \<and> \<not> rr_timed_out result \<and> rr_exit_code result = 0 \<and>
           parse_predictions (fe_decode su) (rr_output result) = Some preds \<and>
           fst ` set (fe_labels su) \<subseteq> fst ` set preds \<and>
           bar su request x < balanced_accuracy (fe_labels su) preds) \<longleftrightarrow> bar su request x < score"
      using ok by (auto simp: scorable_iff score_def)
    moreover have "bar su request y < score"
      if "bar su request x < score" "a \<in> set (vr_slice request)" "incumbent_score request (fe_scores g2) a = Some y" for a y
      using that best_incumbent_spec [OF best] mono by (meson le_less_trans)
    moreover have "\<exists>a \<in> set (vr_slice request). art_id a = j \<and> art_status a = ACCEPTED" if "i = Some j" for j
      using that best_incumbent_spec [OF best] by blast
    moreover have "fe_run su request g2 = (Inr r, g2)" by (rule again) (simp add: g2_def)
    ultimately show ?thesis unfolding out(1) best Let_def fst_conv snd_conv by (intro exI [of _ r]) simp
  qed
qed

text \<open>A reserved set of two rows, and a runner that answers with the script's own bytes as predictions.\<close>

definition ascii :: "bytes \<Rightarrow> string option" where
  "ascii b = Some (map (\<lambda>x. char_of (unat x)) b)"

definition demo_runner :: "nat code_runner" where
  "demo_runner q n = (Inr \<lparr>rr_exit_code = (if rq_requirements q = None then 1 else 0), rr_stdout = '''',
     rr_stderr = ''ModuleNotFoundError: numpy'', rr_output = Some (rq_code q), rr_timed_out = False\<rparr>, Suc n)"

definition demo_gate_setup :: "nat gate_setup" where
  "demo_gate_setup = \<lparr>fe_runner = demo_runner, fe_train_csv = [], fe_test_csv = [], fe_labels = [(''1'', ''a''), (''2'', ''b'')],
     fe_margin = 1 / 10, fe_deflation = 0, fe_timeout = 900, fe_sha256 = map (\<lambda>x. char_of (unat x)), fe_decode = ascii\<rparr>"

definition demo_submission :: "bytes option \<Rightarrow> verifier_request" where
  "demo_submission reqs = \<lparr>vr_proposal = (demo_artifact ''new'' (PJson (JObj [])))\<lparr>art_type := SUBMISSION\<rparr>,
     vr_slice = [(demo_artifact ''old'' (PJson (JObj [])))\<lparr>art_type := SUBMISSION, art_status := ACCEPTED\<rparr>],
     vr_objects = (ENTRYPOINT, utf8 (csv_text [[''id'', ''class''], [''1'', ''a''], [''2'', ''b'']])) #
       (case reqs of Some r \<Rightarrow> [(REQUIREMENTS, r)] | None \<Rightarrow> []),
     vr_scores = [(''old'', [(''selection'', 1 / 2)])]\<rparr>"

definition demo_gates :: "nat gates sdk_verifier" where
  "demo_gates = \<lparr>sdk_requests = [], sdk_provisioned = True, sdk_world = \<lparr>fe_run_cache = [], fe_scores = [], fe_world = 0\<rparr>\<rparr>"

definition demo_result :: run_result where
  "demo_result = \<lparr>rr_exit_code = 0, rr_stdout = '''', rr_stderr = ''ModuleNotFoundError: numpy'',
     rr_output = Some (utf8 (csv_text [[''id'', ''class''], [''1'', ''a''], [''2'', ''b'']])), rr_timed_out = False\<rparr>"

lemma demo_run:
  "fe_run demo_gate_setup (demo_submission (Some [])) (sdk_world demo_gates) =
     (Inr (Some demo_result), \<lparr>fe_run_cache = [(''id,class'' @ nl @ ''1,a'' @ nl @ ''2,b'' @ nl, demo_result)],
        fe_scores = [], fe_world = 1\<rparr>)"
  by code_simp

lemma demo_scored:
  "parse_predictions ascii (Some (utf8 (csv_text [[''id'', ''class''], [''1'', ''a''], [''2'', ''b'']]))) =
     Some [(''1'', Some ''a''), (''2'', Some ''b'')]"
  by code_simp

theorem accepted_submissions_improve_witness:
  "\<exists>b v' ps. build_verifier demo_gate_setup ACCEPT_IMPROVE_OVER_BEST_PRIOR = Inr ps \<and>
     sdk_dispatch ps (demo_submission (Some [])) demo_gates = (Inr b, v') \<and> vb_status b = ACCEPTED \<and>
     vb_supersedes b = Some ''old'' \<and> vb_supersedes b = fst (best_incumbent (demo_submission (Some [])) (fe_scores (sdk_world v')))"
proof -
  let ?rq = "demo_submission (Some [])" and ?su = demo_gate_setup
  have ty: "art_type (vr_proposal ?rq) = SUBMISSION" by (simp add: demo_submission_def)
  have pol: "ACCEPT_IMPROVE_OVER_BEST_PRIOR \<in> set ACCEPT_POLICIES" by (simp add: ACCEPT_POLICIES_def)
  obtain b g where scores: "fe_scores g = [] \<or> (\<exists>x. fe_scores g = [(''new'', x)])"
    and cache: "fe_run_cache g = [(''id,class'' @ nl @ ''1,a'' @ nl @ ''2,b'' @ nl, demo_result)]" and g: "run_pipeline (submission_steps ?su ACCEPT_IMPROVE_OVER_BEST_PRIOR) ?rq (sdk_world demo_gates) = (Inr b, g)"
    by (rule submission_outcome [OF pol demo_run])
      (use that in \<open>fastforce simp: demo_submission_def demo_artifact_def\<close>)
  obtain ps where ps: "build_verifier ?su ACCEPT_IMPROVE_OVER_BEST_PRIOR = Inr ps" "map_of ps SUBMISSION =
      Some (submission_steps ?su ACCEPT_IMPROVE_OVER_BEST_PRIOR)"
    using build_verifier_Inr pol by fastforce
  then obtain v' where d: "sdk_dispatch ps ?rq demo_gates = (Inr b, v')" "sdk_world v' = g"
    using g ty by (auto simp: sdk_dispatch_def bindE_def modify_def in_world_def demo_gates_def)
  have best: "best_incumbent ?rq (fe_scores g) = (Some ''old'', 1 / 2)"
    using scores by (auto simp: best_incumbent_def demo_submission_def demo_artifact_def incumbent_score_def max_pair_def
        List.map_filter_simps)
  have score: "balanced_accuracy (fe_labels ?su) [(''1'', Some ''a''), (''2'', Some ''b'')] = 1"
    by (simp add: balanced_accuracy_mean demo_gate_setup_def recall_def hits_def rows_of_class_def)
  have again: "fe_run ?su ?rq g = (Inr (Some demo_result), g)"
    by (rule fe_run_again [OF demo_run]) (simp_all add: cache)
  have run: "rr_exit_code demo_result = 0" "\<not> rr_timed_out demo_result"
      "parse_predictions (fe_decode ?su) (rr_output demo_result) = Some [(''1'', Some ''a''), (''2'', Some ''b'')]"
      "fst ` set (fe_labels ?su) = {''1'', ''2''}" "bar ?su ?rq (1 / 2) = 3 / 5"
    using demo_scored by (simp_all add: demo_result_def demo_gate_setup_def bar_def)
  from accepted_submissions_improve [OF ps(1) ty d(1)] ps(1) d best show ?thesis
    using again score run by (auto simp: Let_def)
qed

text \<open>A script runs once: after a dispatch that returned, whatever is submitted next with a script of
  the same digest is judged on the result already there. The runner is not called again, the first
  decision is the one of the first submission, and if that one rejected, the new submission is rejected
  with it. This holds whatever package list comes with it, so a submission that failed for a missing
  package and is submitted again with the package listed fails again.\<close>

lemma one_run_per_script:
  assumes "build_verifier su policy = Inr ps"
    "art_type (vr_proposal request) = SUBMISSION" "art_type (vr_proposal request') = SUBMISSION"
    "map_of (vr_objects request) ENTRYPOINT = Some code" "map_of (vr_objects request') ENTRYPOINT = Some code'"
    "fe_sha256 su code' = fe_sha256 su code" "sdk_dispatch ps request v = (Inr b, v1)"
  shows "(fe_world (sdk_world v1) = fe_world (sdk_world v) \<or>
      fe_world (sdk_world v1) = snd (fe_runner su (submission_run su request code) (fe_world (sdk_world v)))) \<and>
    (\<exists>b' v2. sdk_dispatch ps request' v1 = (Inr b', v2) \<and> fe_world (sdk_world v2) = fe_world (sdk_world v1) \<and>
       hd (vb_decisions b') = hd (vb_decisions b) \<and>
       (vb_decisions b = [hd (vb_decisions b)] \<longrightarrow> vb_status b' = REJECTED \<and> vb_decisions b' = vb_decisions b))"
proof -
  have pol: "policy \<in> set ACCEPT_POLICIES"
    and run: "run_pipeline (submission_steps su policy) request (sdk_world v) = (Inr b, sdk_world v1)"
    using submission_dispatch [OF assms(1,2,7)] by simp_all
  obtain r g1 where fe: "fe_run su request (sdk_world v) = (Inr r, g1)"
    using run unfolding submission_pipeline [OF pol] by (auto split: prod.splits sum.splits)
  have first: "hd (vb_decisions b) = submission_decision ''runs-clean'' (run_verdict su r)"
    "fe_run_cache (sdk_world v1) = fe_run_cache g1" "fe_world (sdk_world v1) = fe_world g1"
    "vb_decisions b = [hd (vb_decisions b)] \<longleftrightarrow> gv_kind (run_verdict su r) = REJECT"
    by (rule submission_outcome [OF pol fe], use run in simp)+
  have again: "fe_run su request' (sdk_world v1) = (Inr r, sdk_world v1)"
    by (rule fe_run_again [OF fe first(2)]) (simp add: assms(4-6))
  obtain r' v2 where d: "sdk_dispatch ps request' v1 = (r', v2)" by fastforce
  have run': "run_pipeline (submission_steps su policy) request' (sdk_world v1) = (r', sdk_world v2)"
    using submission_dispatch [OF assms(1,3) d] by simp
  obtain b' where b': "r' = Inr b'" "hd (vb_decisions b') = submission_decision ''runs-clean'' (run_verdict su r)"
    "fe_world (sdk_world v2) = fe_world (sdk_world v1)"
    "vb_decisions b' = [hd (vb_decisions b')] \<longleftrightarrow> gv_kind (run_verdict su r) = REJECT"
    "gv_kind (run_verdict su r) = REJECT \<Longrightarrow> vb_status b' = REJECTED"
    by (rule submission_outcome [OF pol again]) (use run' that in simp)
  have "fe_world g1 = fe_world (sdk_world v) \<or>
      fe_world g1 = snd (fe_runner su (submission_run su request code) (fe_world (sdk_world v)))"
    using fe_run_Inr [OF fe] assms(4) by auto
  moreover have "vb_decisions b' = vb_decisions b" if "vb_decisions b = [hd (vb_decisions b)]"
    using that first b' by metis
  ultimately show ?thesis using first b' d by (intro conjI exI [of _ b'] exI [of _ v2]) auto
qed

text \<open>A first try without its package list fails; the second, with the list, is rejected on the first one's run.\<close>

lemma one_run_per_script_witness:
  "\<exists>ps b v1 b' v2. build_verifier demo_gate_setup ACCEPT_ALWAYS = Inr ps \<and>
     sdk_dispatch ps (demo_submission None) demo_gates = (Inr b, v1) \<and> vb_status b = REJECTED \<and>
     sdk_dispatch ps (demo_submission (Some [])) v1 = (Inr b', v2) \<and> vb_status b' = REJECTED \<and>
     vb_decisions b' = vb_decisions b"
proof -
  let ?su = demo_gate_setup and ?failed = "demo_result\<lparr>rr_exit_code := 1\<rparr>"
  have pol: "ACCEPT_ALWAYS \<in> set ACCEPT_POLICIES" by (simp add: ACCEPT_POLICIES_def)
  have run: "fe_run ?su (demo_submission None) (sdk_world demo_gates) =
     (Inr (Some ?failed), \<lparr>fe_run_cache = [(''id,class'' @ nl @ ''1,a'' @ nl @ ''2,b'' @ nl, ?failed)],
        fe_scores = [], fe_world = 1\<rparr>)"
    by code_simp
  have "gv_kind (run_verdict ?su (Some ?failed)) = REJECT"
    by (simp add: run_verdict_def demo_result_def verdict_def)
  then obtain b g where g: "run_pipeline (submission_steps ?su ACCEPT_ALWAYS) (demo_submission None) (sdk_world demo_gates) = (Inr b, g)"
    "vb_decisions b = [hd (vb_decisions b)]" "vb_status b = REJECTED"
    by (rule_tac submission_outcome [OF pol run]) blast
  obtain ps where ps: "build_verifier ?su ACCEPT_ALWAYS = Inr ps" "map_of ps SUBMISSION = Some (submission_steps ?su ACCEPT_ALWAYS)"
    using build_verifier_Inr pol by fastforce
  have ty: "art_type (vr_proposal (demo_submission r)) = SUBMISSION" for r by (simp add: demo_submission_def)
  obtain v1 where d: "sdk_dispatch ps (demo_submission None) demo_gates = (Inr b, v1)"
    using g ps ty by (auto simp: sdk_dispatch_def bindE_def modify_def in_world_def demo_gates_def)
  have code: "map_of (vr_objects (demo_submission r)) ENTRYPOINT =
      Some (utf8 (csv_text [[''id'', ''class''], [''1'', ''a''], [''2'', ''b'']]))" for r
    by (simp add: demo_submission_def)
  from one_run_per_script [OF ps(1) ty ty code code refl d] g(2,3) ps(1) d show ?thesis by metis
qed

text \<open>The score is the mean recall: balanced accuracy is the average over the classes of the reserved labels
  of the share of that class's rows predicted right, it lies between 0 and 1, and a submission scores 1
  exactly when every reserved row is predicted right.\<close>

lemma balanced_accuracy_is_mean_recall:
  "balanced_accuracy truth preds = (\<Sum>c \<in> snd ` set truth. recall preds truth c) / of_nat (card (snd ` set truth)) \<and>
   0 \<le> balanced_accuracy truth preds \<and> balanced_accuracy truth preds \<le> 1 \<and>
   (truth \<noteq> [] \<longrightarrow> (balanced_accuracy truth preds = 1 \<longleftrightarrow> (\<forall>(i, l) \<in> set truth. map_of preds i = Some (Some l))))"
proof -
  let ?A = "snd ` set truth"
  have le: "(\<Sum>c \<in> ?A. recall preds truth c) \<le> of_nat (card ?A)"
    using sum_mono [of ?A "recall preds truth" "\<lambda>_. 1"] recall_bounds by simp
  have "0 \<le> (\<Sum>c \<in> ?A. recall preds truth c)" by (intro sum_nonneg) (simp add: recall_bounds)
  moreover have "(\<Sum>c \<in> ?A. recall preds truth c) / of_nat (card ?A) = 1 \<longleftrightarrow>
      (\<forall>(i, l) \<in> set truth. map_of preds i = Some (Some l))" if "truth \<noteq> []"
  proof -
    have "(\<Sum>c \<in> ?A. recall preds truth c) / of_nat (card ?A) = 1 \<longleftrightarrow> (\<forall>c \<in> ?A. recall preds truth c = 1)"
      using that by (intro mean_eq_1) (auto simp: recall_bounds)
    also have "\<dots> \<longleftrightarrow> (\<forall>(i, l) \<in> set truth. map_of preds i = Some (Some l))"
    proof
      assume all: "\<forall>c \<in> ?A. recall preds truth c = 1"
      have "map_of preds i = Some (Some l)" if "(i, l) \<in> set truth" for i l
      proof -
        have l: "l \<in> ?A" using that by force
        show ?thesis using all [rule_format, OF l] that unfolding recall_eq_1 [OF l] by blast
      qed
      then show "\<forall>(i, l) \<in> set truth. map_of preds i = Some (Some l)" by blast
    next
      assume "\<forall>(i, l) \<in> set truth. map_of preds i = Some (Some l)"
      then show "\<forall>c \<in> ?A. recall preds truth c = 1" using recall_eq_1 by blast
    qed
    finally show ?thesis .
  qed
  moreover have "0 < (of_nat (card ?A) :: rat)" if "truth \<noteq> []" using that by (simp add: card_gt_0_iff)
  ultimately show ?thesis using le unfolding balanced_accuracy_mean
    by (cases "truth = []") (simp_all add: divide_le_eq_1_pos)
qed

lemma balanced_accuracy_is_mean_recall_witness:
  "balanced_accuracy [(''1'', ''a''), (''2'', ''a''), (''3'', ''b'')] [(''1'', Some ''a''), (''2'', Some ''b'')] = 1 / 4 \<and>
   balanced_accuracy [(''1'', ''a''), (''2'', ''a''), (''3'', ''b'')] [(''1'', Some ''a''), (''2'', Some ''b'')] \<noteq> 1"
proof -
  let ?t = "[(''1'', ''a''), (''2'', ''a''), (''3'', ''b'')]" and ?p = "[(''1'', Some ''a''), (''2'', Some ''b'')]"
  have "balanced_accuracy ?t ?p = 1 / 4" by (simp add: balanced_accuracy_mean recall_def hits_def rows_of_class_def)
  moreover have "balanced_accuracy ?t ?p \<noteq> 1"
    using balanced_accuracy_is_mean_recall [of ?t ?p] by simp
  ultimately show ?thesis by blast
qed

text \<open>Predictions written as plain rows are read back as they were written.\<close>

definition written :: "(string \<times> string) list \<Rightarrow> string" where
  "written rows = csv_text ([''id'', ''class''] # map (\<lambda>(i, c). [i, c]) rows)"

lemma written_rows:
  assumes "\<forall>(i, c) \<in> set rows. i \<noteq> [] \<and> plain_field i \<and> plain_field c"
  shows "csv_reader (written rows) = Inr ([''id'', ''class''] # map (\<lambda>(i, c). [i, c]) rows)"
  unfolding written_def
proof (rule csv_reader_text)
  have "plain_row [''id'', ''class'']" by (simp add: plain_row_def plain_field_def is_newline_def FIELD_LIMIT_def)
  moreover have "plain_row [i, c]" if "(i, c) \<in> set rows" for i c
    using assms that by (auto simp: plain_row_def)
  ultimately show "list_all plain_row ([''id'', ''class''] # map (\<lambda>(i, c). [i, c]) rows)"
    by (auto simp: list_all_iff)
qed

lemma dict_row_pair: "dict_row [''id'', ''class''] [i, c] = [(''id'', Some i), (''class'', Some c)]"
  by (simp add: dict_row_def)

lemma fold_fresh:
  "distinct (map fst (acc @ rows)) \<Longrightarrow> fold (\<lambda>(i, c). dict_put i (f c)) rows (map (\<lambda>(i, c). (i, f c)) acc) =
     map (\<lambda>(i, c). (i, f c)) (acc @ rows)"
proof (induction rows arbitrary: acc)
  case (Cons x rows)
  obtain i c where x: "x = (i, c)" by fastforce
  have "i \<notin> fst ` set (map (\<lambda>(i, c). (i, f c)) acc)" using Cons.prems by (force simp: x)
  then show ?case using Cons.IH [of "acc @ [x]"] Cons.prems by (simp add: x dict_put_fresh)
qed simp

text \<open>A well-formed predictions file is never refused and an answer key scores itself: a file with the
  columns id and class whose fields hold no comma, quote or newline is read back row by row, by the
  predictions parser and by the label parser alike, and scored against itself it reaches 1.\<close>

lemma predictions_read_back:
  assumes "\<forall>(i, c) \<in> set rows. i \<noteq> [] \<and> plain_field i \<and> plain_field c" "distinct (map fst rows)" "rows \<noteq> []"
    "decode b = Some (written rows)" "b \<noteq> []"
  shows "parse_predictions decode (Some b) = Some (map (\<lambda>(i, c). (i, Some c)) rows) \<and>
    parse_label_csv decode ''id'' ''class'' b = Inr rows \<and>
    balanced_accuracy rows (map (\<lambda>(i, c). (i, Some c)) rows) = 1"
proof -
  let ?preds = "map (\<lambda>(i, c). (i, Some c)) rows"
  have table: "dict_rows [''id'', ''class''] (map (\<lambda>(i, c). [i, c]) rows) =
      map (\<lambda>(i, c). [(''id'', Some i), (''class'', Some c)]) rows"
    by (induction rows) (auto simp: dict_rows_def dict_row_pair)
  have step: "(\<lambda>row acc. case map_of row ''id'' of
        Some (Some i) \<Rightarrow> if i \<noteq> [] then dict_put i (case map_of row ''class'' of Some c \<Rightarrow> c | None \<Rightarrow> None) acc else acc
      | _ \<Rightarrow> acc) ((\<lambda>(i, c). [(''id'', Some i), (''class'', Some c)]) x) = (\<lambda>(i, c). dict_put i (Some c)) x"
    if "x \<in> set rows" for x
    using that assms(1) by (auto simp: fun_eq_iff split: prod.splits)
  have "predictions_of ([''id'', ''class''] # map (\<lambda>(i, c). [i, c]) rows) = Some ?preds"
    using fold_fresh [of "[]" rows Some] assms(2,3)
    by (simp add: predictions_of_def table fold_map comp_def step cong: fold_cong)
  moreover have "label_rows ''id'' ''class'' ([''id'', ''class''] # map (\<lambda>(i, c). [i, c]) rows) = rows"
    using fold_fresh [of "[]" rows "\<lambda>c. c"] assms(2)
    by (simp add: label_rows_def fold_map comp_def case_prod_unfold)
  moreover have "map_of ?preds i = Some (Some c)" if "(i, c) \<in> set rows" for i c
    using that assms(2) by (intro map_of_is_SomeI) (force simp: comp_def case_prod_unfold)+
  ultimately show ?thesis
    using written_rows [OF assms(1)] assms(3-5) balanced_accuracy_is_mean_recall [of rows ?preds]
    by (auto simp: parse_predictions_def parse_label_csv_def)
qed

lemma predictions_read_back_witness:
  "parse_label_csv ascii ''id'' ''class'' (utf8 (written [(''1'', ''a''), (''2'', ''b'')])) =
     Inr [(''1'', ''a''), (''2'', ''b'')]"
proof -
  have "ascii (utf8 (written [(''1'', ''a''), (''2'', ''b'')])) = Some (written [(''1'', ''a''), (''2'', ''b'')])"
    by code_simp
  moreover have "utf8 (written [(''1'', ''a''), (''2'', ''b'')]) \<noteq> []" by code_simp
  ultimately show ?thesis
    using predictions_read_back [of "[(''1'', ''a''), (''2'', ''b'')]" ascii "utf8 (written [(''1'', ''a''), (''2'', ''b'')])"]
    by (simp add: plain_field_def is_newline_def FIELD_LIMIT_def)
qed

text \<open>The shape check asks for two strings; only non-empty ones name objects.\<close>

lemma validate_shape_None:
  assumes "art_type a = SUBMISSION" "validate_shape a = None"
  obtains kvs e r where "art_payload a = PJson (JObj kvs)" "map_of kvs ''entrypoint'' = Some (JStr e)"
    "map_of kvs ''requirements'' = Some (JStr r)" "domain_objects a = remdups (filter (\<lambda>n. n \<noteq> []) [e, r])"
proof -
  have str: "has_str k kvs \<longleftrightarrow> (\<exists>s. map_of kvs k = Some (JStr s))" for k kvs
    by (auto simp: has_str_def split: option.split json.split)
  obtain kvs e r where p: "art_payload a = PJson (JObj kvs)" "map_of kvs ''entrypoint'' = Some (JStr e)"
    "map_of kvs ''requirements'' = Some (JStr r)"
    using assms by (auto simp: validate_shape_def str split: payload.splits json.splits if_splits)
  then have "domain_objects a = remdups (filter (\<lambda>n. n \<noteq> []) [e, r])"
    using assms(1) by (simp add: domain_objects_def SUBMISSION_OBJECT_KEYS_def)
  with p show thesis by (rule that)
qed

text \<open>The gate runs one file name only: a submission that passes the shape check names its script and its
  package list freely, and exactly the files it names are handed to the verifier; but unless one of the
  two names is submission.py the verdict is a rejection for want of the script, whatever was written,
  and nothing is run.\<close>

lemma misnamed_submission_is_rejected:
  assumes "build_verifier su policy = Inr ps" "art_type (vr_proposal request) = SUBMISSION"
    "validate_shape (vr_proposal request) = None"
    "vr_objects request = declared_objects (domain_objects (vr_proposal request)) outbox_files"
  shows "\<exists>kvs e r. art_payload (vr_proposal request) = PJson (JObj kvs) \<and>
    map_of kvs ''entrypoint'' = Some (JStr e) \<and> map_of kvs ''requirements'' = Some (JStr r) \<and>
    set (vr_objects request) = {(n, data) \<in> set outbox_files. n \<noteq> [] \<and> n \<in> {e, r}} \<and>
    (ENTRYPOINT \<notin> {e, r} \<longrightarrow>
       (\<exists>b v'. sdk_dispatch ps request v = (Inr b, v') \<and> vb_status b = REJECTED \<and>
          vb_decisions b = [submission_decision ''runs-clean'' (run_verdict su None)] \<and>
          sdk_world v' = sdk_world v))"
proof -
  obtain kvs e r where p: "art_payload (vr_proposal request) = PJson (JObj kvs)"
    "map_of kvs ''entrypoint'' = Some (JStr e)" "map_of kvs ''requirements'' = Some (JStr r)"
    "domain_objects (vr_proposal request) = remdups (filter (\<lambda>n. n \<noteq> []) [e, r])"
    by (rule validate_shape_None [OF assms(2,3)])
  have objs: "set (vr_objects request) = {(n, data) \<in> set outbox_files. n \<noteq> [] \<and> n \<in> {e, r}}"
    unfolding assms(4) p(4) declared_objects_def set_filter set_remdups by auto
  have pol: "policy \<in> set ACCEPT_POLICIES" "ps = [(SUBMISSION, submission_steps su policy)]"
    using assms(1) build_verifier_Inr by blast+
  have "\<exists>b v'. sdk_dispatch ps request v = (Inr b, v') \<and> vb_status b = REJECTED \<and>
      vb_decisions b = [submission_decision ''runs-clean'' (run_verdict su None)] \<and> sdk_world v' = sdk_world v"
    if "ENTRYPOINT \<notin> {e, r}"
  proof -
    have "map_of (vr_objects request) ENTRYPOINT = None" using objs that by (auto simp: map_of_eq_None_iff)
    then have "fe_run su request (sdk_world v) = (Inr None, sdk_world v)" by (simp add: fe_run_def ret_def)
    moreover have "gd_kind (submission_decision ''runs-clean'' (run_verdict su None)) = REJECT"
      by (simp add: submission_decision_def run_verdict_def verdict_def)
    ultimately have "run_pipeline (submission_steps su policy) request (sdk_world v) =
        (Inr (mk_bundle REJECTED [submission_decision ''runs-clean'' (run_verdict su None)] None), sdk_world v)"
      unfolding submission_pipeline [OF pol(1)] by (simp add: Let_def)
    then show ?thesis using assms(2) pol(2)
      by (simp add: sdk_dispatch_def bindE_def modify_def in_world_def mk_bundle_def)
  qed
  then show ?thesis using p objs by blast
qed

text \<open>A shape-checked submission of a script called main.py.\<close>

definition misnamed :: artifact where
  "misnamed = (demo_artifact ''m'' (PJson (JObj [(''entrypoint'', JStr ''main.py''),
     (''requirements'', JStr REQUIREMENTS)])))\<lparr>art_type := SUBMISSION\<rparr>"

definition misnamed_request :: verifier_request where
  "misnamed_request = \<lparr>vr_proposal = misnamed, vr_slice = [],
     vr_objects = declared_objects (domain_objects misnamed) [(''main.py'', [1]), (REQUIREMENTS, [])], vr_scores = []\<rparr>"

lemma misnamed_submission_is_rejected_witness:
  "set (vr_objects misnamed_request) = {(''main.py'', [1]), (REQUIREMENTS, [])} \<and>
   (\<exists>ps b v'. build_verifier demo_gate_setup ACCEPT_ALWAYS = Inr ps \<and>
     sdk_dispatch ps misnamed_request demo_gates = (Inr b, v') \<and> vb_status b = REJECTED)"
proof -
  obtain ps where ps: "build_verifier demo_gate_setup ACCEPT_ALWAYS = Inr ps"
    using build_verifier_Inr [of demo_gate_setup ACCEPT_ALWAYS] by (simp add: ACCEPT_POLICIES_def)
  have m: "art_type (vr_proposal misnamed_request) = SUBMISSION" "validate_shape (vr_proposal misnamed_request) = None"
    "vr_objects misnamed_request = declared_objects (domain_objects (vr_proposal misnamed_request))
       [(''main.py'', [1]), (REQUIREMENTS, [])]"
    by (simp_all add: misnamed_request_def misnamed_def validate_shape_def demo_artifact_def has_str_def)
  from misnamed_submission_is_rejected [OF ps m, of demo_gates] ps show ?thesis
    by (auto simp: misnamed_request_def misnamed_def demo_artifact_def ENTRYPOINT_def REQUIREMENTS_def)
qed

end
