(* ===== verification/Plugins.thy ===== *)
theory Plugins
  imports Verifier
begin

text \<open>
  The registries that plugins extend: the task catalog (\<open>composition/catalog.py\<close>) with its published
  contracts (\<open>composition/description.py\<close>) and its loader (\<open>composition/loader.py\<close>), and the verifier
  registry with its own loader (\<open>verifier/registry.py\<close>). A plugin is what its entry point resolves to:
  the registrations its callable makes on the scratch registry it is given, and whether it then raises.
  Builders are opaque. The locale \<open>plugin_host\<close> states what both loaders rely on.
\<close>

section \<open>Published contracts\<close>

record operation_description =
  od_name :: string
  od_inputs :: "string list"
  od_output :: string
  od_required :: "string list"

definition operation_description_to_dict :: "operation_description \<Rightarrow> json" where
  "operation_description_to_dict d = JObj [(''name'', JStr (od_name d)),
     (''inputs'', JList (map JStr (od_inputs d))), (''output'', JStr (od_output d)),
     (''required_payload_keys'', JList (map JStr (od_required d)))]"

record task_description =
  ty_type_name :: string
  ty_artifact_types :: "string list"
  ty_gated_types :: "string list"
  ty_operations :: "operation_description list"
  ty_instructions :: string
  ty_approach :: string
  ty_notes :: string

definition task_description_to_dict :: "task_description \<Rightarrow> json" where
  "task_description_to_dict d = JObj [(''type_name'', JStr (ty_type_name d)),
     (''artifact_types'', JList (map JStr (ty_artifact_types d))),
     (''gated_types'', JList (map JStr (ty_gated_types d))),
     (''operations'', JList (map operation_description_to_dict (ty_operations d))),
     (''domain_instructions'', JStr (ty_instructions d)), (''verifier_approach'', JStr (ty_approach d)),
     (''sandbox_notes'', JStr (ty_notes d))]"

section \<open>The task catalog\<close>

text \<open>A describer is called when its description is asked for and may raise.\<close>

type_synonym describer = "exc + task_description"

record 'b task_catalog =
  cat_builders :: "(string \<times> 'b) list"
  cat_describers :: "(string \<times> describer) list"

definition empty_catalog :: "'b task_catalog" where
  "empty_catalog = \<lparr>cat_builders = [], cat_describers = []\<rparr>"

definition cat_register :: "string \<times> 'b \<times> describer option \<Rightarrow> 'b task_catalog \<Rightarrow> 'b task_catalog" where
  "cat_register = (\<lambda>(n, b, d) c. c\<lparr>cat_builders := dict_put n b (cat_builders c),
     cat_describers := (case d of Some f \<Rightarrow> dict_put n f (cat_describers c) | None \<Rightarrow> cat_describers c)\<rparr>)"

definition cat_types :: "'b task_catalog \<Rightarrow> string list" where
  "cat_types c = sort (map fst (cat_builders c))"

definition cat_has :: "'b task_catalog \<Rightarrow> string \<Rightarrow> bool" where
  "cat_has c n \<longleftrightarrow> n \<in> fst ` set (cat_builders c)"

text \<open>\<open>on_collision\<close> is \<open>"skip"\<close> or anything else, which raises at the first collision, with what was
  already merged staying merged.\<close>

definition collision_error :: "string \<Rightarrow> string \<Rightarrow> exc" where
  "collision_error n source = ValueError (''task type '' @ py_repr n @ '' from '' @ py_repr source @
     '' collides with an existing'')"

fun cat_merge_loop :: "'b task_catalog \<Rightarrow> string \<Rightarrow> string \<Rightarrow> string list \<Rightarrow> string list \<Rightarrow>
    ('b task_catalog, exc, string list) st" where
  "cat_merge_loop other on_collision source added [] = ret added"
| "cat_merge_loop other on_collision source added (n # ns) =
     bindE (gets (\<lambda>c. cat_has c n)) (\<lambda>collides.
     if collides
     then if on_collision = ''skip'' then cat_merge_loop other on_collision source added ns
       else raise (collision_error n source)
     else bindE (modify (\<lambda>c. c\<lparr>
         cat_builders := (case map_of (cat_builders other) n of Some b \<Rightarrow> dict_put n b (cat_builders c) | None \<Rightarrow> cat_builders c),
         cat_describers := (case map_of (cat_describers other) n of Some d \<Rightarrow> dict_put n d (cat_describers c)
           | None \<Rightarrow> cat_describers c)\<rparr>)) (\<lambda>_.
       cat_merge_loop other on_collision source (added @ [n]) ns))"

definition cat_merge :: "'b task_catalog \<Rightarrow> string \<Rightarrow> string \<Rightarrow> ('b task_catalog, exc, string list) st" where
  "cat_merge other on_collision source = cat_merge_loop other on_collision source [] (cat_types other)"

text \<open>A describer's own \<open>KeyError\<close> is taken for a missing description.\<close>

definition describe :: "'b task_catalog \<Rightarrow> string \<Rightarrow> exc + task_description" where
  "describe c n =
     (let unknown = Inl (KeyError (''no description for task type '' @ py_repr n @ ''; described: '' @
          py_list_repr (sort (map fst (cat_describers c)))))
      in case map_of (cat_describers c) n of
           None \<Rightarrow> unknown
         | Some (Inl (KeyError m)) \<Rightarrow> unknown
         | Some r \<Rightarrow> r)"

definition describe_all :: "'b task_catalog \<Rightarrow> exc + task_description list" where
  "describe_all c = mapE (\<lambda>n. case map_of (cat_describers c) n of Some r \<Rightarrow> r | None \<Rightarrow> Inl (KeyError n))
     (sort (map fst (cat_describers c)))"

definition cat_builder :: "'b task_catalog \<Rightarrow> string \<Rightarrow> exc + 'b" where
  "cat_builder c n = (case map_of (cat_builders c) n of
      Some b \<Rightarrow> Inr b
    | None \<Rightarrow> Inl (KeyError (''unknown task type '' @ py_repr n @ ''; known types: '' @ py_list_repr (cat_types c))))"

section \<open>Loading plugins\<close>

datatype 'r entry_load = Load_Failed exc | Not_Callable | Registers "'r list" "exc option"

record 'r entry_point =
  ep_name :: string
  ep_dist :: "string option"
  ep_load :: "'r entry_load"

definition CORE_DIST :: string where "CORE_DIST = ''verity''"

text \<open>Sorted by whether the distribution is the core one, then by name.\<close>

definition core_first :: "'r entry_point list \<Rightarrow> 'r entry_point list" where
  "core_first eps = sort_key (\<lambda>ep. if ep_dist ep = Some CORE_DIST then 0 else 1 :: nat) (sort_key ep_name eps)"

text \<open>What an entry point offers, on a registry of its own; \<open>None\<close> when it is skipped.\<close>

definition offered :: "('r \<Rightarrow> 'c \<Rightarrow> 'c) \<Rightarrow> 'c \<Rightarrow> 'r entry_point \<Rightarrow> 'c option" where
  "offered register start ep = (case ep_load ep of
      Registers rs None \<Rightarrow> Some (fold register rs start)
    | _ \<Rightarrow> None)"

definition load_one :: "'b task_catalog \<Rightarrow> (string \<times> 'b \<times> describer option) entry_point \<Rightarrow> 'b task_catalog" where
  "load_one c ep = (case offered cat_register empty_catalog ep of
      None \<Rightarrow> c
    | Some scratch \<Rightarrow> snd (cat_merge scratch ''skip'' (ep_name ep) c))"

definition load_task_plugins :: "(string \<times> 'b \<times> describer option) entry_point list \<Rightarrow> 'b task_catalog \<Rightarrow> 'b task_catalog" where
  "load_task_plugins eps c = foldl load_one c (core_first eps)"

definition BUILTIN_TASK_TYPES :: "string list" where
  "BUILTIN_TASK_TYPES = [''code'', ''fe-kaggle'']"

definition default_catalog :: "(string \<times> 'b \<times> describer option) entry_point list \<Rightarrow> exc + 'b task_catalog" where
  "default_catalog eps =
     (let c = load_task_plugins eps empty_catalog;
          missing = sort (filter (\<lambda>n. n \<notin> set (cat_types c)) BUILTIN_TASK_TYPES)
      in if missing \<noteq> []
         then Inl (OtherError (''built-in task types '' @ py_list_repr missing @ '' were not discovered from the '' @
           py_repr ''verity.task_types'' @ '' entry-point group '' @ ch_emdash @
           '' the install is missing its entry-point metadata; run `uv sync` (or reinstall) to regenerate it''))
         else Inr c)"

section \<open>The verifier registry\<close>

record ('i, 's) verifier_registry =
  reg_impls :: "(string \<times> 'i) list"
  reg_setups :: "(string \<times> 's) list"

datatype ('i, 's) verifier_registration = Impl string 'i | Setup string 's

definition empty_registry :: "('i, 's) verifier_registry" where
  "empty_registry = \<lparr>reg_impls = [], reg_setups = []\<rparr>"

definition register_impl :: "string \<Rightarrow> 'i \<Rightarrow> ('i, 's) verifier_registry \<Rightarrow> ('i, 's) verifier_registry" where
  "register_impl n b r = r\<lparr>reg_impls := dict_put n b (reg_impls r)\<rparr>"

definition register_setup :: "string \<Rightarrow> 's \<Rightarrow> ('i, 's) verifier_registry \<Rightarrow> ('i, 's) verifier_registry" where
  "register_setup n b r = r\<lparr>reg_setups := dict_put n b (reg_setups r)\<rparr>"

fun reg_register :: "('i, 's) verifier_registration \<Rightarrow> ('i, 's) verifier_registry \<Rightarrow> ('i, 's) verifier_registry" where
  "reg_register (Impl n b) r = register_impl n b r"
| "reg_register (Setup n b) r = register_setup n b r"

definition reg_has :: "('i, 's) verifier_registry \<Rightarrow> string \<Rightarrow> bool" where
  "reg_has r n \<longleftrightarrow> n \<in> fst ` set (reg_impls r) \<or> n \<in> fst ` set (reg_setups r)"

definition reg_names :: "('i, 's) verifier_registry \<Rightarrow> string list" where
  "reg_names r = sort (remdups (map fst (reg_impls r) @ map fst (reg_setups r)))"

definition reg_impl :: "('i, 's) verifier_registry \<Rightarrow> string \<Rightarrow> 'i option" where
  "reg_impl r n = map_of (reg_impls r) n"

definition reg_setup :: "('i, 's) verifier_registry \<Rightarrow> string \<Rightarrow> 's option" where
  "reg_setup r n = map_of (reg_setups r) n"

definition registration_name :: "('i, 's) verifier_registration \<Rightarrow> string" where
  "registration_name x = (case x of Impl n _ \<Rightarrow> n | Setup n _ \<Rightarrow> n)"

text \<open>First the other's implementations, then its setups, each against what is there by then.\<close>

fun reg_merge_loop :: "string \<Rightarrow> string \<Rightarrow> string list \<Rightarrow> ('i, 's) verifier_registration list \<Rightarrow>
    (('i, 's) verifier_registry, exc, string list) st" where
  "reg_merge_loop on_collision source added [] = ret added"
| "reg_merge_loop on_collision source added (x # xs) =
     bindE (gets (\<lambda>r. reg_has r (registration_name x))) (\<lambda>collides.
     if collides
     then if on_collision = ''skip'' then reg_merge_loop on_collision source added xs
       else raise (ValueError (''verifier '' @ py_repr (registration_name x) @ '' from '' @ py_repr source @
         '' collides with an existing type''))
     else bindE (modify (reg_register x)) (\<lambda>_.
       reg_merge_loop on_collision source (added @ [registration_name x]) xs))"

definition reg_merge :: "('i, 's) verifier_registry \<Rightarrow> string \<Rightarrow> string \<Rightarrow>
    (('i, 's) verifier_registry, exc, string list) st" where
  "reg_merge other on_collision source = reg_merge_loop on_collision source []
     (map (\<lambda>(n, b). Impl n b) (reg_impls other) @ map (\<lambda>(n, b). Setup n b) (reg_setups other))"

definition load_verifier :: "('i, 's) verifier_registry \<Rightarrow> ('i, 's) verifier_registration entry_point \<Rightarrow>
    ('i, 's) verifier_registry" where
  "load_verifier r ep = (case offered reg_register empty_registry ep of
      None \<Rightarrow> r
    | Some scratch \<Rightarrow> snd (reg_merge scratch ''skip'' (ep_name ep) r))"

definition load_verifier_plugins :: "('i, 's) verifier_registration entry_point list \<Rightarrow>
    ('i, 's) verifier_registry \<Rightarrow> ('i, 's) verifier_registry" where
  "load_verifier_plugins eps r = foldl load_verifier r (core_first eps)"

section \<open>What a loader relies on\<close>

definition first_some :: "'a option list \<Rightarrow> 'a option" where
  "first_some xs = (case List.find (\<lambda>x. x \<noteq> None) xs of Some x \<Rightarrow> x | None \<Rightarrow> None)"

lemma first_some_simps [simp]:
  "first_some [] = None" "first_some (x # xs) = (case x of Some e \<Rightarrow> Some e | None \<Rightarrow> first_some xs)"
  by (auto simp: first_some_def split: option.split)

text \<open>A host loads one plugin at a time; an entry is what it holds under a name, and what is served of an
  entry that comes from a plugin.\<close>

locale plugin_host =
  fixes load :: "'c \<Rightarrow> 'r entry_point \<Rightarrow> 'c"
    and offer :: "'r entry_point \<Rightarrow> 'c option"
    and entry :: "'c \<Rightarrow> string \<Rightarrow> 'e option"
    and served :: "'e \<Rightarrow> 'e"
    and valid :: "'c \<Rightarrow> bool"
  assumes load_skipped: "offer ep = None \<Longrightarrow> load c ep = c"
    and load_entry: "valid c \<Longrightarrow> offer ep = Some scratch \<Longrightarrow> entry (load c ep) n =
      (case entry c n of Some e \<Rightarrow> Some e | None \<Rightarrow> map_option served (entry scratch n))"
    and load_valid: "valid c \<Longrightarrow> valid (load c ep)"
begin

lemma first_offer:
  "valid c \<Longrightarrow> entry (foldl load c eps) n = (case entry c n of Some e \<Rightarrow> Some e
     | None \<Rightarrow> map_option served (first_some (map (\<lambda>x. entry x n) (List.map_filter offer eps))))"
proof (induction eps arbitrary: c)
  case Nil
  then show ?case by (simp split: option.split)
next
  case (Cons ep eps)
  show ?case
  proof (cases "offer ep")
    case None
    then show ?thesis using Cons load_skipped by (cases "entry c n") simp_all
  next
    case (Some scratch)
    show ?thesis using Cons.IH [OF load_valid [OF Cons.prems, of ep]] load_entry [OF Cons.prems Some, of n] Some
      by (cases "entry c n"; cases "entry scratch n") simp_all
  qed
qed

lemma broken_ignored: "foldl load c (filter (\<lambda>ep. offer ep \<noteq> None) eps) = foldl load c eps"
  using load_skipped by (induction eps arbitrary: c) auto

end

section \<open>The two hosts\<close>

definition cat_entry :: "'b task_catalog \<Rightarrow> string \<Rightarrow> ('b \<times> describer option) option" where
  "cat_entry c n = map_option (\<lambda>b. (b, map_of (cat_describers c) n)) (map_of (cat_builders c) n)"

definition cat_valid :: "'b task_catalog \<Rightarrow> bool" where
  "cat_valid c \<longleftrightarrow> fst ` set (cat_describers c) \<subseteq> fst ` set (cat_builders c)"

lemma cat_valid_register: "cat_valid c \<Longrightarrow> cat_valid (cat_register x c)"
  by (auto simp: cat_valid_def cat_register_def dom_update split: prod.splits option.splits)

lemma cat_valid_fold: "cat_valid c \<Longrightarrow> cat_valid (fold cat_register rs c)"
  by (induction rs arbitrary: c) (auto intro: cat_valid_register)

lemma cat_valid_empty: "cat_valid empty_catalog"
  by (simp add: cat_valid_def empty_catalog_def)

lemma cat_entry_None: "cat_entry c n = None \<longleftrightarrow> \<not> cat_has c n"
  by (simp add: cat_entry_def cat_has_def map_of_eq_None_iff)

lemma cat_merge_step:
  assumes "cat_valid c" "cat_valid scratch" "\<not> cat_has c n" "cat_has scratch n"
  defines "c' \<equiv> c\<lparr>cat_builders := (case map_of (cat_builders scratch) n of Some b \<Rightarrow> dict_put n b (cat_builders c) | None \<Rightarrow> cat_builders c),
       cat_describers := (case map_of (cat_describers scratch) n of Some d \<Rightarrow> dict_put n d (cat_describers c)
           | None \<Rightarrow> cat_describers c)\<rparr>"
  shows "cat_valid c' \<and> cat_entry c' m = (if m = n then cat_entry scratch n else cat_entry c m)"
proof -
  obtain b where b: "map_of (cat_builders scratch) n = Some b"
    using assms(4) by (metis cat_entry_None cat_entry_def not_Some_eq option.simps(8))
  have "map_of (cat_describers c) n = None" using assms(1,3) by (auto simp: cat_valid_def cat_has_def map_of_eq_None_iff)
  then show ?thesis using assms(1) b
    by (auto simp: c'_def cat_valid_def cat_entry_def dom_update split: option.split)
qed

lemma cat_merge_loop_skip:
  assumes "cat_valid c" "cat_valid scratch" "list_all (cat_has scratch) ns"
  shows "\<exists>added c'. cat_merge_loop scratch ''skip'' source acc ns c = (Inr added, c') \<and> cat_valid c' \<and>
    (\<forall>m. cat_entry c' m = (case cat_entry c m of Some e \<Rightarrow> Some e | None \<Rightarrow> if m \<in> set ns then cat_entry scratch m else None))"
  using assms
proof (induction ns arbitrary: c acc)
  case Nil
  then show ?case by (auto simp: ret_eq split: option.split)
next
  case (Cons n ns)
  show ?case
  proof (cases "cat_has c n")
    case True
    then have "cat_entry c n \<noteq> None" by (simp add: cat_entry_None)
    moreover obtain added c' where "cat_merge_loop scratch ''skip'' source acc ns c = (Inr added, c')" "cat_valid c'"
      "\<forall>m. cat_entry c' m = (case cat_entry c m of Some e \<Rightarrow> Some e | None \<Rightarrow> if m \<in> set ns then cat_entry scratch m else None)"
      using Cons.IH [of c acc] Cons.prems by auto
    ultimately show ?thesis using True by (auto simp: bindE_def gets_def split: option.split)
  next
    case False
    let ?c = "c\<lparr>cat_builders := (case map_of (cat_builders scratch) n of Some b \<Rightarrow> dict_put n b (cat_builders c) | None \<Rightarrow> cat_builders c),
       cat_describers := (case map_of (cat_describers scratch) n of Some d \<Rightarrow> dict_put n d (cat_describers c)
           | None \<Rightarrow> cat_describers c)\<rparr>"
    have s: "cat_valid ?c" "cat_entry ?c m = (if m = n then cat_entry scratch n else cat_entry c m)" for m
      using cat_merge_step [of c scratch n m] Cons.prems False by auto
    obtain added c' where l: "cat_merge_loop scratch ''skip'' source (acc @ [n]) ns ?c = (Inr added, c')" "cat_valid c'"
      "\<forall>m. cat_entry c' m = (case cat_entry ?c m of Some e \<Rightarrow> Some e | None \<Rightarrow> if m \<in> set ns then cat_entry scratch m else None)"
      using Cons.IH [of ?c "acc @ [n]"] Cons.prems s(1) by auto
    have "cat_entry c n = None" "cat_entry scratch n \<noteq> None" using False Cons.prems by (simp_all add: cat_entry_None)
    then have "cat_entry c' m = (case cat_entry c m of Some e \<Rightarrow> Some e
        | None \<Rightarrow> if m \<in> set (n # ns) then cat_entry scratch m else None)" for m
      using l(3) s(2) by (cases "m = n") (auto split: option.split)
    moreover have "cat_merge_loop scratch ''skip'' source acc (n # ns) c = (Inr added, c')"
      using False l(1) by (simp add: bindE_def gets_def modify_def)
    ultimately show ?thesis using l(2) by blast
  qed
qed

lemma load_one_entry:
  assumes "cat_valid c" "offered cat_register empty_catalog ep = Some scratch"
  shows "cat_valid (load_one c ep) \<and> cat_entry (load_one c ep) n =
    (case cat_entry c n of Some e \<Rightarrow> Some e | None \<Rightarrow> cat_entry scratch n)"
proof -
  have v: "cat_valid scratch"
    using assms(2) cat_valid_fold [OF cat_valid_empty] by (auto simp: offered_def split: entry_load.splits option.splits)
  have types: "n \<in> set (cat_types scratch) \<longleftrightarrow> cat_entry scratch n \<noteq> None" for n
    by (simp add: cat_entry_None cat_types_def cat_has_def)
  have "list_all (cat_has scratch) (cat_types scratch)" by (auto simp: list_all_iff cat_types_def cat_has_def)
  from cat_merge_loop_skip [OF assms(1) v this, of "ep_name ep" "[]"] show ?thesis
    using types [of n]
    by (cases "n \<in> set (cat_types scratch)"; cases "cat_entry scratch n")
      (auto simp: load_one_def assms(2) cat_merge_def split: option.split)
qed

interpretation tasks: plugin_host load_one "offered cat_register empty_catalog" cat_entry "\<lambda>e. e" cat_valid
proof
  show "cat_valid (load_one c ep)" if "cat_valid c" for c and ep :: "(string \<times> 'a \<times> describer option) entry_point"
    using load_one_entry [OF that] that by (cases "offered cat_register empty_catalog ep") (auto simp: load_one_def)
  show "load_one c ep = c" if "offered cat_register empty_catalog ep = None" for c and ep :: "(string \<times> 'a \<times> describer option) entry_point"
    using that by (simp add: load_one_def)
  show "cat_entry (load_one c ep) n = (case cat_entry c n of Some e \<Rightarrow> Some e | None \<Rightarrow> map_option (\<lambda>e. e) (cat_entry scratch n))"
    if "cat_valid c" "offered cat_register empty_catalog ep = Some scratch"
    for c and ep :: "(string \<times> 'a \<times> describer option) entry_point" and scratch n
    using load_one_entry [OF that, of n] by (cases "cat_entry c n") (simp_all add: option.map_ident)
qed

type_synonym ('i, 's) verifier_entry = "'i option \<times> 's option"

definition reg_entry :: "('i, 's) verifier_registry \<Rightarrow> string \<Rightarrow> ('i, 's) verifier_entry option" where
  "reg_entry r n = (case (reg_impl r n, reg_setup r n) of (None, None) \<Rightarrow> None | e \<Rightarrow> Some e)"

text \<open>What a merge keeps of an entry with both shapes.\<close>

definition impl_first :: "('i, 's) verifier_entry \<Rightarrow> ('i, 's) verifier_entry" where
  "impl_first e = (if fst e = None then e else (fst e, None))"

definition registration_entry :: "('i, 's) verifier_registration \<Rightarrow> ('i, 's) verifier_entry" where
  "registration_entry x = (case x of Impl _ b \<Rightarrow> (Some b, None) | Setup _ b \<Rightarrow> (None, Some b))"

lemma reg_has_iff: "reg_has r n \<longleftrightarrow> reg_impl r n \<noteq> None \<or> reg_setup r n \<noteq> None"
  by (simp add: reg_has_def reg_impl_def reg_setup_def map_of_eq_None_iff)

lemma reg_entry_None: "reg_entry r n = None \<longleftrightarrow> \<not> reg_has r n"
  by (auto simp: reg_entry_def reg_has_iff split: option.splits)

lemma reg_register_entry:
  "\<not> reg_has r (registration_name x) \<Longrightarrow> reg_entry (reg_register x r) m =
     (if m = registration_name x then Some (registration_entry x) else reg_entry r m)"
  unfolding reg_has_iff
  by (cases x) (auto simp: reg_entry_def reg_impl_def reg_setup_def registration_name_def registration_entry_def
      register_impl_def register_setup_def split: option.split)

lemma reg_merge_loop_skip:
  "\<exists>added r'. reg_merge_loop ''skip'' source acc xs r = (Inr added, r') \<and>
    (\<forall>m. reg_entry r' m = (case reg_entry r m of Some e \<Rightarrow> Some e
       | None \<Rightarrow> map_option registration_entry (List.find (\<lambda>x. registration_name x = m) xs)))"
proof (induction xs arbitrary: r acc)
  case Nil
  then show ?case by (auto simp: ret_eq split: option.split)
next
  case (Cons x xs)
  show ?case
  proof (cases "reg_has r (registration_name x)")
    case True
    obtain added r' where l: "reg_merge_loop ''skip'' source acc xs r = (Inr added, r')"
      "\<forall>m. reg_entry r' m = (case reg_entry r m of Some e \<Rightarrow> Some e
         | None \<Rightarrow> map_option registration_entry (List.find (\<lambda>x. registration_name x = m) xs))"
      using Cons.IH by blast
    have "reg_entry r (registration_name x) \<noteq> None" using True by (simp add: reg_entry_None)
    then show ?thesis using True l by (auto simp: bindE_def gets_def split: option.split)
  next
    case False
    obtain added r' where l: "reg_merge_loop ''skip'' source (acc @ [registration_name x]) xs (reg_register x r) = (Inr added, r')"
      "\<forall>m. reg_entry r' m = (case reg_entry (reg_register x r) m of Some e \<Rightarrow> Some e
         | None \<Rightarrow> map_option registration_entry (List.find (\<lambda>x. registration_name x = m) xs))"
      using Cons.IH by blast
    have "reg_entry r (registration_name x) = None" using False by (simp add: reg_entry_None)
    then show ?thesis using False l reg_register_entry [OF False]
      by (auto simp: bindE_def gets_def modify_def split: option.split)
  qed
qed

lemma find_in_append: "List.find P (xs @ ys) = (case List.find P xs of Some x \<Rightarrow> Some x | None \<Rightarrow> List.find P ys)"
  by (induction xs) auto

lemma find_registration:
  "List.find (\<lambda>x. registration_name x = m) (map (\<lambda>(n, b). Impl n b) l) = map_option (Impl m) (map_of l m)"
  "List.find (\<lambda>x. registration_name x = m) (map (\<lambda>(n, b). Setup n b) l') = map_option (Setup m) (map_of l' m)"
  by (induction l, auto simp: registration_name_def) (induction l', auto simp: registration_name_def)

lemma load_verifier_entry:
  assumes "offered reg_register empty_registry ep = Some scratch"
  shows "reg_entry (load_verifier r ep) n =
    (case reg_entry r n of Some e \<Rightarrow> Some e | None \<Rightarrow> map_option impl_first (reg_entry scratch n))"
proof -
  let ?xs = "map (\<lambda>(n, b). Impl n b) (reg_impls scratch) @ map (\<lambda>(n, b). Setup n b) (reg_setups scratch)"
  obtain added r' where r': "reg_merge_loop ''skip'' (ep_name ep) [] ?xs r = (Inr added, r')"
    "reg_entry r' n = (case reg_entry r n of Some e \<Rightarrow> Some e
       | None \<Rightarrow> map_option registration_entry (List.find (\<lambda>x. registration_name x = n) ?xs))"
    using reg_merge_loop_skip [of "ep_name ep" "[]" ?xs r] by blast
  have "map_option registration_entry (List.find (\<lambda>x. registration_name x = n) ?xs) = map_option impl_first (reg_entry scratch n)"
    by (auto simp: find_in_append find_registration registration_entry_def impl_first_def reg_entry_def
        reg_impl_def reg_setup_def split: option.split)
  then show ?thesis using r' by (cases "reg_entry r n") (simp_all add: load_verifier_def assms reg_merge_def)
qed

interpretation verifiers: plugin_host load_verifier "offered reg_register empty_registry" reg_entry impl_first "\<lambda>_. True"
  by unfold_locales (simp_all add: load_verifier_entry, simp add: load_verifier_def)

section \<open>Claims\<close>

lemma sort_key_two:
  assumes "\<forall>x \<in> set xs. f x = 0 \<or> f x = (1 :: nat)"
  shows "sort_key f xs = filter (\<lambda>x. f x = 0) xs @ filter (\<lambda>x. f x \<noteq> 0) xs"
proof -
  have ins: "insort_key f x (as @ bs) = (if f x = 0 then x # as @ bs else as @ x # bs)"
    if "\<forall>a \<in> set as. f a = 0" "\<forall>b \<in> set bs. f b = 1" "f x = 0 \<or> f x = 1" for x as bs
    using that by (induction as) (auto intro: insort_is_Cons)
  show ?thesis using assms
  proof (induction xs)
    case (Cons x xs)
    have "\<forall>b \<in> set (filter (\<lambda>x. f x \<noteq> 0) xs). f b = 1" using Cons.prems by auto
    then show ?case using Cons by (auto simp: ins)
  qed simp
qed

definition is_core :: "'r entry_point \<Rightarrow> bool" where
  "is_core ep \<longleftrightarrow> ep_dist ep = Some CORE_DIST"

lemma core_first_split:
  "core_first eps = filter is_core (sort_key ep_name eps) @ filter (\<lambda>ep. \<not> is_core ep) (sort_key ep_name eps)"
proof -
  have "sort_key (\<lambda>ep. if ep_dist ep = Some CORE_DIST then 0 else 1 :: nat) ys = filter is_core ys @ filter (\<lambda>ep. \<not> is_core ep) ys"
    for ys :: "'a entry_point list"
    by (subst sort_key_two) (auto simp: is_core_def cong: filter_cong)
  then show ?thesis by (simp add: core_first_def)
qed

lemma core_first_filter: "core_first (filter P eps) = filter P (core_first eps)"
  by (simp add: core_first_def filter_sort)

lemma first_some_append: "first_some (xs @ ys) = (case first_some xs of Some e \<Rightarrow> Some e | None \<Rightarrow> first_some ys)"
  by (induction xs) (auto split: option.split)

lemma first_some_mem: "first_some xs = Some e \<Longrightarrow> Some e \<in> set xs"
  by (induction xs) (auto split: option.splits)

lemma first_some_None: "first_some xs = None \<longleftrightarrow> set xs \<subseteq> {None}"
  by (induction xs) (auto split: option.splits)

text \<open>The entries offered under a name, in loading order.\<close>

definition task_offers :: "(string \<times> 'b \<times> describer option) entry_point list \<Rightarrow> string \<Rightarrow> ('b \<times> describer option) option list" where
  "task_offers eps n = map (\<lambda>x. cat_entry x n) (List.map_filter (offered cat_register empty_catalog) (core_first eps))"

definition verifier_offers :: "('i, 's) verifier_registration entry_point list \<Rightarrow> string \<Rightarrow> ('i, 's) verifier_entry option list" where
  "verifier_offers eps n = map (\<lambda>x. reg_entry x n) (List.map_filter (offered reg_register empty_registry) (core_first eps))"

lemma core_offer_first:
  assumes "ep \<in> set eps" "is_core ep" "offered cat_register empty_catalog ep = Some scratch" "cat_has scratch n"
  shows "\<exists>ep' \<in> set eps. is_core ep' \<and> (\<exists>scratch'. offered cat_register empty_catalog ep' = Some scratch' \<and>
    first_some (task_offers eps n) = cat_entry scratch' n \<and> cat_has scratch' n)"
proof -
  let ?offer = "offered cat_register empty_catalog"
  let ?core = "map (\<lambda>x. cat_entry x n) (List.map_filter ?offer (filter is_core (sort_key ep_name eps)))"
  have split: "task_offers eps n = ?core @
      map (\<lambda>x. cat_entry x n) (List.map_filter ?offer (filter (\<lambda>ep. \<not> is_core ep) (sort_key ep_name eps)))"
    unfolding task_offers_def core_first_split by (simp add: List.map_filter_def)
  have "cat_entry scratch n \<in> set ?core" using assms by (force simp: List.map_filter_def)
  moreover have "cat_entry scratch n \<noteq> None" using assms(4) by (simp add: cat_entry_None)
  ultimately obtain e where e: "first_some ?core = Some e" using first_some_None [of ?core] by (cases "first_some ?core") auto
  then have "Some e \<in> set ?core" by (rule first_some_mem)
  then obtain ep' scratch' where ep': "ep' \<in> set eps" "is_core ep'" "?offer ep' = Some scratch'" "cat_entry scratch' n = Some e"
    by (auto simp: List.map_filter_def)
  moreover have "cat_has scratch' n" using ep'(4) cat_entry_None [of scratch' n] by simp
  ultimately show ?thesis using e unfolding split first_some_append by auto
qed

text \<open>Incumbents win and a broken plugin costs only itself: loading plugins into a catalog keeps every
  task type it has, builder and description; under every other name it holds what the first working
  entry point offers, the core distribution's before all others; and entry points that fail to load,
  are not callable or raise while registering change nothing, wherever they come in the order. No
  other distribution can take a built-in type's name.\<close>

lemma plugins_incumbent_wins:
  fixes rs :: "(string \<times> 'b \<times> describer option) list"
  defines "c \<equiv> fold cat_register rs empty_catalog"
  shows "cat_entry (load_task_plugins eps c) n =
      (case cat_entry c n of Some e \<Rightarrow> Some e | None \<Rightarrow> first_some (task_offers eps n)) \<and>
    load_task_plugins (filter (\<lambda>ep. offered cat_register empty_catalog ep \<noteq> None) eps) c = load_task_plugins eps c \<and>
    (\<forall>ep \<in> set eps. is_core ep \<longrightarrow> (\<forall>scratch. offered cat_register empty_catalog ep = Some scratch \<longrightarrow> cat_has scratch n \<longrightarrow>
       (\<exists>ep' \<in> set eps. is_core ep' \<and> (\<exists>scratch'. offered cat_register empty_catalog ep' = Some scratch' \<and>
          cat_has scratch' n \<and> cat_entry (load_task_plugins eps empty_catalog) n = cat_entry scratch' n))))"
proof -
  have loaded: "cat_entry (load_task_plugins eps d) n =
      (case cat_entry d n of Some e \<Rightarrow> Some e | None \<Rightarrow> first_some (task_offers eps n))" if "cat_valid d" for d :: "'b task_catalog"
    unfolding load_task_plugins_def task_offers_def tasks.first_offer [OF that]
    by (cases "cat_entry d n") (simp_all add: option.map_ident)
  have empty: "cat_entry (empty_catalog :: 'b task_catalog) n = None" by (simp add: cat_entry_def empty_catalog_def)
  have "cat_valid c" unfolding c_def by (rule cat_valid_fold [OF cat_valid_empty])
  moreover have "load_task_plugins (filter (\<lambda>ep. offered cat_register empty_catalog ep \<noteq> None) eps) c = load_task_plugins eps c"
    unfolding load_task_plugins_def core_first_filter by (rule tasks.broken_ignored)
  moreover have "\<exists>ep' \<in> set eps. is_core ep' \<and> (\<exists>scratch'. offered cat_register empty_catalog ep' = Some scratch' \<and>
          cat_has scratch' n \<and> cat_entry (load_task_plugins eps empty_catalog) n = cat_entry scratch' n)"
    if "ep \<in> set eps" "is_core ep" "offered cat_register empty_catalog ep = Some scratch" "cat_has scratch n" for ep scratch
    using core_offer_first [OF that] loaded [OF cat_valid_empty] empty by simp blast
  ultimately show ?thesis using loaded by blast
qed

definition demo_entry :: "string \<Rightarrow> string option \<Rightarrow> (string \<times> nat \<times> describer option) entry_load \<Rightarrow>
    (string \<times> nat \<times> describer option) entry_point" where
  "demo_entry n d l = \<lparr>ep_name = n, ep_dist = d, ep_load = l\<rparr>"

definition demo_entries :: "(string \<times> nat \<times> describer option) entry_point list" where
  "demo_entries = [demo_entry ''aaa'' (Some ''other'') (Registers [(''code'', 9, None), (''mine'', 1, None)] None),
     demo_entry ''bbb'' None (Registers [(''mine'', 2, None)] (Some (OtherError ''boom''))),
     demo_entry ''code'' (Some CORE_DIST) (Registers [(''code'', 0, None)] None), demo_entry ''ccc'' None Not_Callable]"

lemma plugins_incumbent_wins_witness:
  "cat_entry (load_task_plugins demo_entries empty_catalog) ''code'' = Some (0, None) \<and>
   cat_entry (load_task_plugins demo_entries empty_catalog) ''mine'' = Some (1, None)"
proof -
  have core: "demo_entry ''code'' (Some CORE_DIST) (Registers [(''code'', 0, None)] None) \<in> set demo_entries"
    by (simp add: demo_entries_def)
  have e: "cat_entry (empty_catalog :: nat task_catalog) n = None" for n by (simp add: cat_entry_def empty_catalog_def)
  have "first_some (task_offers demo_entries ''code'') = Some (0, None)"
    "first_some (task_offers demo_entries ''mine'') = Some (1, None)"
    by code_simp+
  then show ?thesis
    using plugins_incumbent_wins [of demo_entries "[]" "''code''"] plugins_incumbent_wins [of demo_entries "[]" "''mine''"] e
    by simp
qed

text \<open>Verifier plugins load under the same rule, per verifier name and not per shape: what a registry holds
  stays, another name gets what the first working entry point offers. But a plugin that registers a
  name both as a plain verifier and with a set-up builder collides with itself: its set-up builder is
  dropped, though both are kept when registered directly.\<close>

lemma verifier_plugins_incumbent_wins:
  "reg_entry (load_verifier_plugins eps r) n = (case reg_entry r n of Some e \<Rightarrow> Some e
     | None \<Rightarrow> map_option impl_first (first_some (verifier_offers eps n))) \<and>
   load_verifier_plugins (filter (\<lambda>ep. offered reg_register empty_registry ep \<noteq> None) eps) r = load_verifier_plugins eps r \<and>
   (reg_impl (load_verifier_plugins eps r) n \<noteq> None \<longrightarrow> reg_impl r n = None \<longrightarrow>
      reg_setup (load_verifier_plugins eps r) n = None)"
proof -
  have l: "reg_entry (load_verifier_plugins eps r) n = (case reg_entry r n of Some e \<Rightarrow> Some e
     | None \<Rightarrow> map_option impl_first (first_some (verifier_offers eps n)))"
    unfolding load_verifier_plugins_def verifier_offers_def by (rule verifiers.first_offer) simp
  have entry: "reg_entry q n = (if reg_impl q n = None \<and> reg_setup q n = None then None else Some (reg_impl q n, reg_setup q n))"
    for q :: "('a, 'b) verifier_registry" by (auto simp: reg_entry_def split: option.split)
  have "reg_setup (load_verifier_plugins eps r) n = None"
    if "reg_impl (load_verifier_plugins eps r) n \<noteq> None" "reg_impl r n = None"
    using l that
    by (cases "first_some (verifier_offers eps n)") (auto simp: entry impl_first_def split: if_splits)
  moreover have "load_verifier_plugins (filter (\<lambda>ep. offered reg_register empty_registry ep \<noteq> None) eps) r = load_verifier_plugins eps r"
    unfolding load_verifier_plugins_def core_first_filter by (rule verifiers.broken_ignored)
  ultimately show ?thesis using l by blast
qed

lemma verifier_plugins_incumbent_wins_witness:
  "\<exists>r. r = load_verifier_plugins [\<lparr>ep_name = ''p'', ep_dist = None,
       ep_load = Registers [Impl ''v'' (1 :: nat), Setup ''v'' (2 :: nat)] None\<rparr>] empty_registry \<and>
     reg_impl r ''v'' = Some 1 \<and> reg_setup r ''v'' = None"
proof -
  let ?eps = "[\<lparr>ep_name = ''p'', ep_dist = None, ep_load = Registers [Impl ''v'' (1 :: nat), Setup ''v'' (2 :: nat)] None\<rparr>]"
  have "reg_impl (load_verifier_plugins ?eps empty_registry) ''v'' = Some 1" by code_simp
  then show ?thesis using verifier_plugins_incumbent_wins [of ?eps empty_registry "''v''"]
    by (simp add: empty_registry_def reg_impl_def)
qed

end
