(* ===== verification/Task_Request.thy ===== *)
theory Task_Request
  imports Agent_Sandbox
begin

text \<open>
  \<open>composition/task_request.py\<close>, the declarative definition of a task, and the model target it selects,
  \<open>sandbox/model_spec.py\<close>, as far as it crosses into the sandbox container through environment
  variables. \<open>json.dumps\<close> and \<open>json.loads\<close> are parameters; the lookup of the gateway host and the
  construction of the chat model are not modelled.
\<close>

section \<open>The model target\<close>

definition ENV_MODEL :: string where "ENV_MODEL = ''VERITY_SANDBOX_MODEL''"
definition ENV_BASE_URL :: string where "ENV_BASE_URL = ''VERITY_SANDBOX_BASE_URL''"
definition ENV_API_KEY_ENV :: string where "ENV_API_KEY_ENV = ''VERITY_SANDBOX_API_KEY_ENV''"
definition ENV_EXTRA :: string where "ENV_EXTRA = ''VERITY_SANDBOX_MODEL_EXTRA''"
definition DEFAULT_MODEL_STRING :: string where "DEFAULT_MODEL_STRING = ''anthropic:claude-sonnet-4-6''"
definition LOCAL_PROVIDER :: string where "LOCAL_PROVIDER = ''openai-compatible''"

definition DEFAULT_KEY_ENV :: "(string \<times> string) list" where
  "DEFAULT_KEY_ENV = [(''anthropic'', ''ANTHROPIC_API_KEY''), (''openai'', ''OPENAI_API_KEY'')]"

record model_spec =
  ms_provider :: string
  ms_model :: string
  ms_base_url :: "string option"
  ms_api_key_env :: "string option"
  ms_extra :: json_dict

definition native_spec :: "string \<Rightarrow> string \<Rightarrow> model_spec" where
  "native_spec p m = \<lparr>ms_provider = p, ms_model = m, ms_base_url = None, ms_api_key_env = None, ms_extra = []\<rparr>"

text \<open>\<open>s.partition(":")\<close>, with \<open>None\<close> when there is no colon.\<close>

fun partition_colon :: "string \<Rightarrow> (string \<times> string) option" where
  "partition_colon [] = None"
| "partition_colon (c # cs) = (if c = CHR '':'' then Some ([], cs)
     else map_option (\<lambda>(a, b). (c # a, b)) (partition_colon cs))"

definition from_provider_string :: "string \<Rightarrow> model_spec" where
  "from_provider_string s = (case partition_colon s of
      None \<Rightarrow> native_spec ''anthropic'' s
    | Some (p, m) \<Rightarrow> native_spec p m)"

definition provider_string :: "model_spec \<Rightarrow> string" where
  "provider_string s = ms_provider s @ '':'' @ ms_model s"

definition key_env :: "model_spec \<Rightarrow> string option" where
  "key_env s = (case ms_api_key_env s of
      Some e \<Rightarrow> if e \<noteq> [] then Some e else map_of DEFAULT_KEY_ENV (ms_provider s)
    | None \<Rightarrow> map_of DEFAULT_KEY_ENV (ms_provider s))"

type_synonym env = "(string \<times> string) list"

definition env_entry :: "string \<Rightarrow> string option \<Rightarrow> env" where
  "env_entry k v = (case v of Some x \<Rightarrow> [(k, x)] | None \<Rightarrow> [])"

definition spec_to_env :: "(json \<Rightarrow> string) \<Rightarrow> model_spec \<Rightarrow> env" where
  "spec_to_env dumps s = [(ENV_MODEL, provider_string s)] @ env_entry ENV_BASE_URL (ms_base_url s) @
     env_entry ENV_API_KEY_ENV (ms_api_key_env s) @
     (if ms_extra s \<noteq> [] then [(ENV_EXTRA, dumps (JObj (ms_extra s)))] else [])"

definition spec_from_env :: "(string \<Rightarrow> exc + json) \<Rightarrow> env \<Rightarrow> exc + model_spec" where
  "spec_from_env loads e =
     (let spec = from_provider_string (case map_of e ENV_MODEL of Some s \<Rightarrow> s | None \<Rightarrow> DEFAULT_MODEL_STRING);
          raw = (case map_of e ENV_EXTRA of Some s \<Rightarrow> s | None \<Rightarrow> [])
      in bindS (if raw \<noteq> [] then bindS (loads raw) as_obj else Inr []) (\<lambda>extra.
         Inr (spec\<lparr>ms_base_url := map_of e ENV_BASE_URL, ms_api_key_env := map_of e ENV_API_KEY_ENV, ms_extra := extra\<rparr>)))"

section \<open>The sandbox selection\<close>

record sandbox_request =
  sq_model :: "string option"
  sq_base_url :: "string option"
  sq_api_key_env :: "string option"
  sq_extra :: json_dict
  sq_sandbox_image :: string
  sq_code_image :: string
  sq_runtime :: "string option"
  sq_sandbox_memory :: string
  sq_code_memory :: string
  sq_code_tmpfs_size :: string
  sq_recursion_limit :: int
  sq_sandbox_timeout_s :: rat
  sq_code_timeout_s :: rat
  sq_step_budget :: "int option"

definition default_sandbox :: sandbox_request where
  "default_sandbox = \<lparr>sq_model = None, sq_base_url = None, sq_api_key_env = None, sq_extra = [],
     sq_sandbox_image = ''verity-sandbox:latest'', sq_code_image = ''verity-code-runner:latest'', sq_runtime = None,
     sq_sandbox_memory = ''4g'', sq_code_memory = ''2g'', sq_code_tmpfs_size = ''1g'', sq_recursion_limit = 200,
     sq_sandbox_timeout_s = 1500, sq_code_timeout_s = 12960, sq_step_budget = None\<rparr>"

definition to_model_spec :: "sandbox_request \<Rightarrow> model_spec option" where
  "to_model_spec q =
     (if sq_model q = None \<and> sq_base_url q = None then None
      else let base = (case sq_base_url q of
            Some _ \<Rightarrow> native_spec LOCAL_PROVIDER (case sq_model q of Some m \<Rightarrow> m | None \<Rightarrow> [])
          | None \<Rightarrow> (case sq_model q of
              Some m \<Rightarrow> from_provider_string m
            | None \<Rightarrow> native_spec ''anthropic'' ''claude-sonnet-4-6''))
      in Some (base\<lparr>ms_base_url := sq_base_url q, ms_api_key_env := sq_api_key_env q, ms_extra := sq_extra q\<rparr>))"

definition sandbox_request_to_dict :: "sandbox_request \<Rightarrow> json" where
  "sandbox_request_to_dict q = JObj
     [(''model'', opt_json JStr (sq_model q)), (''base_url'', opt_json JStr (sq_base_url q)),
      (''api_key_env'', opt_json JStr (sq_api_key_env q)), (''extra'', JObj (sq_extra q)),
      (''sandbox_image'', JStr (sq_sandbox_image q)), (''code_image'', JStr (sq_code_image q)),
      (''runtime'', opt_json JStr (sq_runtime q)), (''sandbox_memory'', JStr (sq_sandbox_memory q)),
      (''code_memory'', JStr (sq_code_memory q)), (''code_tmpfs_size'', JStr (sq_code_tmpfs_size q)),
      (''recursion_limit'', JInt (sq_recursion_limit q)), (''sandbox_timeout_s'', JFloat (sq_sandbox_timeout_s q)),
      (''code_timeout_s'', JFloat (sq_code_timeout_s q)), (''step_budget'', opt_json JInt (sq_step_budget q))]"

definition as_int :: "json \<Rightarrow> exc + int" where
  "as_int j = (case j of JInt i \<Rightarrow> Inr i | JBool b \<Rightarrow> Inr (if b then 1 else 0)
    | _ \<Rightarrow> Inl (TypeError ''expected an integer''))"

text \<open>\<open>cls(**{k: v for k, v in d.items() if k in slots})\<close>: a missing key takes the field's default,
  an unknown one is dropped.\<close>

definition field :: "json \<Rightarrow> string \<Rightarrow> (json \<Rightarrow> exc + 'a) \<Rightarrow> 'a \<Rightarrow> exc + 'a" where
  "field d k read dflt = bindS (as_obj d) (\<lambda>kvs. case map_of kvs k of Some v \<Rightarrow> read v | None \<Rightarrow> Inr dflt)"

definition sandbox_request_from_dict :: "json \<Rightarrow> exc + sandbox_request" where
  "sandbox_request_from_dict d =
     bindS (field d ''model'' (as_opt as_str) (sq_model default_sandbox)) (\<lambda>m.
     bindS (field d ''base_url'' (as_opt as_str) (sq_base_url default_sandbox)) (\<lambda>u.
     bindS (field d ''api_key_env'' (as_opt as_str) (sq_api_key_env default_sandbox)) (\<lambda>k.
     bindS (field d ''extra'' as_obj (sq_extra default_sandbox)) (\<lambda>ex.
     bindS (field d ''sandbox_image'' as_str (sq_sandbox_image default_sandbox)) (\<lambda>si.
     bindS (field d ''code_image'' as_str (sq_code_image default_sandbox)) (\<lambda>ci.
     bindS (field d ''runtime'' (as_opt as_str) (sq_runtime default_sandbox)) (\<lambda>rt.
     bindS (field d ''sandbox_memory'' as_str (sq_sandbox_memory default_sandbox)) (\<lambda>sm.
     bindS (field d ''code_memory'' as_str (sq_code_memory default_sandbox)) (\<lambda>cm.
     bindS (field d ''code_tmpfs_size'' as_str (sq_code_tmpfs_size default_sandbox)) (\<lambda>tm.
     bindS (field d ''recursion_limit'' as_int (sq_recursion_limit default_sandbox)) (\<lambda>rl.
     bindS (field d ''sandbox_timeout_s'' as_num (sq_sandbox_timeout_s default_sandbox)) (\<lambda>st.
     bindS (field d ''code_timeout_s'' as_num (sq_code_timeout_s default_sandbox)) (\<lambda>ct.
     bindS (field d ''step_budget'' (as_opt as_int) (sq_step_budget default_sandbox)) (\<lambda>sb.
     Inr \<lparr>sq_model = m, sq_base_url = u, sq_api_key_env = k, sq_extra = ex, sq_sandbox_image = si,
       sq_code_image = ci, sq_runtime = rt, sq_sandbox_memory = sm, sq_code_memory = cm, sq_code_tmpfs_size = tm,
       sq_recursion_limit = rl, sq_sandbox_timeout_s = st, sq_code_timeout_s = ct, sq_step_budget = sb\<rparr>))))))))))))))"

section \<open>The verifier, policy and data selections\<close>

record verifier_choice =
  vq_approach :: string
  vq_knobs :: json_dict

definition verifier_choice_to_dict :: "verifier_choice \<Rightarrow> json" where
  "verifier_choice_to_dict q = JObj [(''approach'', JStr (vq_approach q)), (''knobs'', JObj (vq_knobs q))]"

definition verifier_choice_from_dict :: "json \<Rightarrow> exc + verifier_choice" where
  "verifier_choice_from_dict d =
     bindS (field d ''approach'' as_str ''default'') (\<lambda>a. bindS (field d ''knobs'' as_obj []) (\<lambda>k.
     Inr \<lparr>vq_approach = a, vq_knobs = k\<rparr>))"

record policy_request =
  pq_max_cycles :: int
  pq_refine_cap :: int
  pq_stop_on_accept :: bool
  pq_max_consecutive :: int
  pq_provisioning :: json

definition default_policy_request :: policy_request where
  "default_policy_request = \<lparr>pq_max_cycles = 4, pq_refine_cap = 3, pq_stop_on_accept = False, pq_max_consecutive = 3,
     pq_provisioning = JNull\<rparr>"

definition to_orchestration_policy :: "policy_request \<Rightarrow> orchestration_policy" where
  "to_orchestration_policy q = \<lparr>max_cycles = pq_max_cycles q, refine_cap = pq_refine_cap q,
     stop_on_accept = pq_stop_on_accept q, max_consecutive = pq_max_consecutive q\<rparr>"

definition policy_request_to_dict :: "policy_request \<Rightarrow> json" where
  "policy_request_to_dict q = JObj [(''max_cycles'', JInt (pq_max_cycles q)), (''refine_cap'', JInt (pq_refine_cap q)),
     (''stop_on_accept'', JBool (pq_stop_on_accept q)),
     (''max_consecutive_sandbox_failures'', JInt (pq_max_consecutive q)), (''provisioning'', pq_provisioning q)]"

definition policy_request_from_dict :: "json \<Rightarrow> exc + policy_request" where
  "policy_request_from_dict d =
     bindS (field d ''max_cycles'' as_int (pq_max_cycles default_policy_request)) (\<lambda>m.
     bindS (field d ''refine_cap'' as_int (pq_refine_cap default_policy_request)) (\<lambda>r.
     bindS (field d ''stop_on_accept'' as_bool (pq_stop_on_accept default_policy_request)) (\<lambda>s.
     bindS (field d ''max_consecutive_sandbox_failures'' as_int (pq_max_consecutive default_policy_request)) (\<lambda>f.
     bindS (field d ''provisioning'' Inr (pq_provisioning default_policy_request)) (\<lambda>p.
     Inr \<lparr>pq_max_cycles = m, pq_refine_cap = r, pq_stop_on_accept = s, pq_max_consecutive = f, pq_provisioning = p\<rparr>)))))"

record data_request =
  dq_roles :: "(string \<times> (string \<times> string) list) list"

definition files_for :: "string \<Rightarrow> data_request \<Rightarrow> (string \<times> string) list" where
  "files_for role q = (case map_of (dq_roles q) role of Some files \<Rightarrow> files | None \<Rightarrow> [])"

definition data_with_role_file :: "string \<Rightarrow> string \<Rightarrow> string \<Rightarrow> data_request \<Rightarrow> data_request" where
  "data_with_role_file role n ref q = q\<lparr>dq_roles := dict_put role (dict_put n ref (files_for role q)) (dq_roles q)\<rparr>"

definition data_request_to_dict :: "data_request \<Rightarrow> json" where
  "data_request_to_dict q = JObj [(''roles'', JObj (map (\<lambda>(r, files). (r, JObj (map (\<lambda>(n, h). (n, JStr h)) files))) (dq_roles q)))]"

definition data_request_from_dict :: "json \<Rightarrow> exc + data_request" where
  "data_request_from_dict d =
     bindS (field d ''roles'' as_obj []) (\<lambda>roles.
     bindS (mapE (\<lambda>(r, files). bindS (bindS (as_obj files) (mapE (\<lambda>(n, h). bindS (as_str h) (\<lambda>s. Inr (n, s))))) (\<lambda>fs. Inr (r, fs))) roles)
       (\<lambda>rs. Inr \<lparr>dq_roles = rs\<rparr>))"

section \<open>The task definition\<close>

record task_request =
  tq_type_name :: string
  tq_goal :: string
  tq_sandbox :: sandbox_request
  tq_verifier :: verifier_choice
  tq_policy :: policy_request
  tq_data :: data_request
  tq_tenant_id :: string

definition with_role_file :: "string \<Rightarrow> string \<Rightarrow> string \<Rightarrow> task_request \<Rightarrow> task_request" where
  "with_role_file role n ref q = q\<lparr>tq_data := data_with_role_file role n ref (tq_data q)\<rparr>"

definition task_request_to_dict :: "task_request \<Rightarrow> json" where
  "task_request_to_dict q = JObj [(''type_name'', JStr (tq_type_name q)), (''goal'', JStr (tq_goal q)),
     (''sandbox'', sandbox_request_to_dict (tq_sandbox q)), (''verifier'', verifier_choice_to_dict (tq_verifier q)),
     (''policy'', policy_request_to_dict (tq_policy q)), (''data'', data_request_to_dict (tq_data q)),
     (''tenant_id'', JStr (tq_tenant_id q))]"

definition task_request_from_dict :: "json \<Rightarrow> exc + task_request" where
  "task_request_from_dict d =
     bindS (bindS (json_get d ''type_name'') as_str) (\<lambda>t.
     bindS (field d ''goal'' as_str []) (\<lambda>g.
     bindS (bindS (json_get_or (JObj []) d ''sandbox'') sandbox_request_from_dict) (\<lambda>s.
     bindS (bindS (json_get_or (JObj []) d ''verifier'') verifier_choice_from_dict) (\<lambda>v.
     bindS (bindS (json_get_or (JObj []) d ''policy'') policy_request_from_dict) (\<lambda>p.
     bindS (bindS (json_get_or (JObj []) d ''data'') data_request_from_dict) (\<lambda>da.
     bindS (field d ''tenant_id'' as_str ''default'') (\<lambda>te.
     Inr \<lparr>tq_type_name = t, tq_goal = g, tq_sandbox = s, tq_verifier = v, tq_policy = p, tq_data = da,
       tq_tenant_id = te\<rparr>)))))))"

section \<open>Round trips\<close>

lemma field_hit: "map_of kvs k = Some v \<Longrightarrow> field (JObj kvs) k read dflt = read v"
  by (simp add: field_def as_obj_def)

lemma as_opt_json:
  "as_opt as_str (opt_json JStr x) = Inr x" "as_opt as_int (opt_json JInt y) = Inr y"
  by (cases x; simp add: as_opt_def opt_json_def as_str_def) (cases y; simp add: as_opt_def opt_json_def as_int_def)

lemma as_values [simp]: "as_str (JStr s) = Inr s" "as_int (JInt i) = Inr i" "as_num (JFloat x) = Inr x"
  "as_bool (JBool b) = Inr b" "as_obj (JObj kvs) = Inr kvs"
  by (simp_all add: as_str_def as_int_def as_num_def as_bool_def as_obj_def)

lemma sandbox_request_roundtrip: "sandbox_request_from_dict (sandbox_request_to_dict q) = Inr q"
  by (simp add: sandbox_request_from_dict_def sandbox_request_to_dict_def field_hit as_opt_json)

lemma verifier_choice_roundtrip: "verifier_choice_from_dict (verifier_choice_to_dict q) = Inr q"
  by (simp add: verifier_choice_from_dict_def verifier_choice_to_dict_def field_hit)

lemma policy_request_roundtrip: "policy_request_from_dict (policy_request_to_dict q) = Inr q"
  by (simp add: policy_request_from_dict_def policy_request_to_dict_def field_hit)

lemma mapE_inverse: "(\<And>x. x \<in> set xs \<Longrightarrow> f (g x) = Inr x) \<Longrightarrow> mapE f (map g xs) = Inr xs"
  by (induction xs) simp_all

lemma data_request_roundtrip: "data_request_from_dict (data_request_to_dict q) = Inr q"
  by (simp add: data_request_from_dict_def data_request_to_dict_def field_hit mapE_inverse split_beta)

lemma task_request_roundtrip: "task_request_from_dict (task_request_to_dict q) = Inr q"
  by (simp add: task_request_from_dict_def task_request_to_dict_def json_get_def json_get_or_def field_hit
      sandbox_request_roundtrip verifier_choice_roundtrip policy_request_roundtrip data_request_roundtrip)

lemma partition_provider: "CHR '':'' \<notin> set p \<Longrightarrow> partition_colon (p @ CHR '':'' # m) = Some (p, m)"
  by (induction p) auto

lemma partition_colon_Some: "partition_colon s = Some (p, m) \<Longrightarrow> s = p @ CHR '':'' # m \<and> CHR '':'' \<notin> set p"
  by (induction s arbitrary: p) (auto split: if_splits)

lemma provider_no_colon:
  "CHR '':'' \<notin> set (ms_provider (from_provider_string s))" "CHR '':'' \<notin> set (ms_provider (native_spec LOCAL_PROVIDER m))"
  using partition_colon_Some [of s]
  by (auto simp: from_provider_string_def native_spec_def LOCAL_PROVIDER_def split: option.split prod.split)

lemma spec_env_roundtrip:
  assumes "CHR '':'' \<notin> set (ms_provider s)"
    "ms_extra s \<noteq> [] \<Longrightarrow> dumps (JObj (ms_extra s)) \<noteq> [] \<and> loads (dumps (JObj (ms_extra s))) = Inr (JObj (ms_extra s))"
  shows "spec_from_env loads (spec_to_env dumps s) = Inr s"
proof -
  have "from_provider_string (provider_string s) = native_spec (ms_provider s) (ms_model s)"
    using partition_provider [OF assms(1)] by (simp add: from_provider_string_def provider_string_def)
  moreover have keys: "ENV_MODEL \<noteq> ENV_BASE_URL" "ENV_MODEL \<noteq> ENV_API_KEY_ENV" "ENV_MODEL \<noteq> ENV_EXTRA"
    "ENV_BASE_URL \<noteq> ENV_API_KEY_ENV" "ENV_BASE_URL \<noteq> ENV_EXTRA" "ENV_API_KEY_ENV \<noteq> ENV_EXTRA"
    by (simp_all add: ENV_MODEL_def ENV_BASE_URL_def ENV_API_KEY_ENV_def ENV_EXTRA_def)
  moreover have "map_of (env_entry k v) k' = (if k' = k then v else None)" for k v k'
    by (simp add: env_entry_def split: option.split)
  ultimately show ?thesis
    using assms(2) keys [symmetric]
    by (cases "ms_extra s = []")
      (auto simp: spec_from_env_def spec_to_env_def Let_def native_spec_def map_add_def split: option.split)
qed

section \<open>Claims\<close>

text \<open>A task definition survives a restart: written to its dictionary and read back, every task request is
  the same, whatever its sandbox, verifier, policy and data selections; and stamping an input file's
  hash changes that role's file of that name and no other.\<close>

lemma task_request_survives:
  "task_request_from_dict (task_request_to_dict q) = Inr q \<and>
   task_request_from_dict (task_request_to_dict (with_role_file role n ref q)) = Inr (with_role_file role n ref q) \<and>
   map_of (files_for role' (tq_data (with_role_file role n ref q))) n' =
     (if role' = role \<and> n' = n then Some ref else map_of (files_for role' (tq_data q)) n')"
  by (auto simp: task_request_roundtrip with_role_file_def data_with_role_file_def files_for_def split: option.split)

text \<open>The model target reaches the container: what a task's sandbox selection resolves to is, after its way
  through the container's environment, the same target, provider, model, endpoint, key variable and
  extras; and when an endpoint is given the model is the literal name asked for, colons and all, never
  split into provider and model.\<close>

lemma model_target_reaches_the_container:
  assumes "to_model_spec q = Some spec"
    "sq_extra q \<noteq> [] \<Longrightarrow> dumps (JObj (sq_extra q)) \<noteq> [] \<and> loads (dumps (JObj (sq_extra q))) = Inr (JObj (sq_extra q))"
  shows "spec_from_env loads (spec_to_env dumps spec) = Inr spec \<and>
    ms_base_url spec = sq_base_url q \<and> ms_extra spec = sq_extra q \<and>
    (sq_base_url q \<noteq> None \<longrightarrow> ms_provider spec = LOCAL_PROVIDER \<and>
       ms_model spec = (case sq_model q of Some m \<Rightarrow> m | None \<Rightarrow> '''')) \<and>
    (sq_base_url q = None \<longrightarrow> sq_model q = Some (provider_string spec) \<or>
       sq_model q = Some (ms_model spec) \<and> ms_provider spec = ''anthropic'')"
proof -
  have parts: "sq_model q \<noteq> None \<or> sq_base_url q \<noteq> None" "spec = (case sq_base_url q of
        Some _ \<Rightarrow> native_spec LOCAL_PROVIDER (case sq_model q of Some m \<Rightarrow> m | None \<Rightarrow> [])
      | None \<Rightarrow> from_provider_string (the (sq_model q)))
      \<lparr>ms_base_url := sq_base_url q, ms_api_key_env := sq_api_key_env q, ms_extra := sq_extra q\<rparr>"
    using assms(1) by (auto simp: to_model_spec_def Let_def split: if_splits option.splits)
  have colon: "CHR '':'' \<notin> set (ms_provider spec)"
    unfolding parts(2) using provider_no_colon by (auto split: option.split)
  have "spec_from_env loads (spec_to_env dumps spec) = Inr spec"
    by (rule spec_env_roundtrip [OF colon]) (use assms(2) in \<open>simp add: parts(2) split: option.splits\<close>)
  moreover have "m = provider_string spec \<or> m = ms_model spec \<and> ms_provider spec = ''anthropic''"
    if "sq_base_url q = None" "sq_model q = Some m" for m
    using that partition_colon_Some [of m]
    by (cases "partition_colon m") (auto simp: parts(2) from_provider_string_def native_spec_def provider_string_def)
  ultimately show ?thesis using parts
    by (cases "sq_base_url q"; cases "sq_model q") (auto simp: native_spec_def)
qed

lemma model_target_reaches_the_container_witness:
  "\<exists>spec. to_model_spec (default_sandbox\<lparr>sq_model := Some ''qwen3.6:27b'', sq_base_url := Some ''http://h''\<rparr>) = Some spec \<and>
     ms_model spec = ''qwen3.6:27b'' \<and> spec_from_env (\<lambda>_. Inl (ValueError [])) (spec_to_env (\<lambda>_. []) spec) = Inr spec"
proof -
  let ?q = "default_sandbox\<lparr>sq_model := Some ''qwen3.6:27b'', sq_base_url := Some ''http://h''\<rparr>"
  obtain spec where spec: "to_model_spec ?q = Some spec" by (simp add: to_model_spec_def)
  from model_target_reaches_the_container [OF spec, of "\<lambda>_. []" "\<lambda>_. Inl (ValueError [])"] spec show ?thesis
    by (simp add: default_sandbox_def)
qed

end
