(* ===== verification/Control_Service.thy ===== *)
theory Control_Service
  imports Session_Frame Task_Request Job_Queue Plugins
begin

text \<open>
  \<open>service/control_service.py\<close> and \<open>service/task_index.py\<close>: the standing service that keeps a control
  plane and a store per task, runs tasks through the job queue and reads results back, on a root
  directory, with a restart. The index file of a task holds the request's dictionary. A submitted run is
  pending until its body runs; bodies run one at a time, in the order submitted, and a submission or a
  read may come between. Building a task's control plane is one step. What the catalog's builders do to
  the plane is theirs.
\<close>

section \<open>State\<close>

text \<open>A builder configures a plane under the given settings and returns the task's id in it.\<close>

type_synonym ('x, 'v) builder = "settings \<Rightarrow> task_request \<Rightarrow> ('x, 'v, string) cp_op"

record ('x, 'v) service_setup =
  sp_catalog :: "('x, 'v) builder task_catalog"
  sp_settings :: settings
  sp_new_store :: store
  sp_task_ids :: "nat \<Rightarrow> string"
  sp_run_ids :: "nat \<Rightarrow> string"
  sp_job_ids :: "nat \<Rightarrow> string"

record ('x, 'v) resident =
  rt_request :: task_request
  rt_cp :: "('x, 'v) control_plane"
  rt_task :: string
  rt_cell :: string

record pending_run =
  pr_run_id :: string
  pr_job_id :: string
  pr_task_id :: string
  pr_goal :: "string option"

record ('x, 'v) service =
  sv_records :: run_records
  sv_queue :: in_process_queue
  sv_index :: "(string \<times> json) list"
  sv_resident :: "(string \<times> ('x, 'v) resident) list"
  sv_stores :: "(string \<times> store) list"
  sv_run_jobs :: "(string \<times> string) list"
  sv_run_tasks :: "(string \<times> string) list"
  sv_pending :: "pending_run list"
  sv_outcomes :: "(string \<times> (exc + unit)) list"
  sv_tasks_minted :: nat
  sv_runs_minted :: nat
  sv_jobs_minted :: nat

type_synonym ('x, 'v, 'a) service_op = "(('x, 'v) service, exc, 'a) st"

section \<open>The index and the stores\<close>

definition index_put :: "string \<Rightarrow> task_request \<Rightarrow> ('x, 'v, unit) service_op" where
  "index_put i q = modify (sv_index_update (dict_put i (task_request_to_dict q)))"

definition index_get :: "string \<Rightarrow> ('x, 'v) service \<Rightarrow> exc + task_request option" where
  "index_get i sv = (case map_of (sv_index sv) i of
      None \<Rightarrow> Inr None
    | Some j \<Rightarrow> bindS (task_request_from_dict j) (\<lambda>q. Inr (Some q)))"

definition list_tasks :: "('x, 'v) service \<Rightarrow> string list" where
  "list_tasks sv = sort (map fst (sv_index sv))"

text \<open>Get or open a task's store.\<close>

definition open_task_store :: "('x, 'v) service_setup \<Rightarrow> string \<Rightarrow> ('x, 'v, unit) service_op" where
  "open_task_store su i = modify (\<lambda>sv. if i \<in> fst ` set (sv_stores sv) then sv
     else sv\<lparr>sv_stores := dict_put i (sp_new_store su) (sv_stores sv)\<rparr>)"

definition store_of :: "string \<Rightarrow> ('x, 'v) service_setup \<Rightarrow> ('x, 'v) service \<Rightarrow> store" where
  "store_of i su sv = (case map_of (sv_stores sv) i of Some s \<Rightarrow> s | None \<Rightarrow> sp_new_store su)"

definition in_task_store :: "('x, 'v) service_setup \<Rightarrow> string \<Rightarrow> 'a store_op \<Rightarrow> ('x, 'v, 'a) service_op" where
  "in_task_store su i m sv = (case m (store_of i su sv) of
      (r, s) \<Rightarrow> (r, sv\<lparr>sv_stores := dict_put i s (sv_stores sv)\<rparr>))"

text \<open>The published contracts of the catalog, as dictionaries.\<close>

definition catalog_describe :: "('x, 'v) service_setup \<Rightarrow> string option \<Rightarrow> exc + json list" where
  "catalog_describe su ty = (case ty of
      Some t \<Rightarrow> bindS (describe (sp_catalog su) t) (\<lambda>d. Inr [task_description_to_dict d])
    | None \<Rightarrow> bindS (describe_all (sp_catalog su)) (\<lambda>ds. Inr (map task_description_to_dict ds)))"

section \<open>Creating a task\<close>

definition ingest_file :: "('x, 'v) service_setup \<Rightarrow> string \<Rightarrow> task_request \<Rightarrow> string \<times> string \<times> bytes \<Rightarrow>
    ('x, 'v, task_request) service_op" where
  "ingest_file su i q = (\<lambda>(role, n, blob).
     bindE (in_task_store su i (put_object blob)) (\<lambda>ref. ret (with_role_file role n (content_hash ref) q)))"

fun ingest :: "('x, 'v) service_setup \<Rightarrow> string \<Rightarrow> task_request \<Rightarrow> (string \<times> string \<times> bytes) list \<Rightarrow>
    ('x, 'v, task_request) service_op" where
  "ingest su i q [] = ret q"
| "ingest su i q (f # fs) = bindE (ingest_file su i q f) (\<lambda>q'. ingest su i q' fs)"

definition create_task :: "('x, 'v) service_setup \<Rightarrow> task_request \<Rightarrow> contents \<Rightarrow> ('x, 'v, string) service_op" where
  "create_task su q files =
     (if \<not> cat_has (sp_catalog su) (tq_type_name q)
      then raise (KeyError (''unknown task type '' @ py_repr (tq_type_name q) @ ''; known: '' @
        py_list_repr (cat_types (sp_catalog su))))
      else bindE (\<lambda>sv. (Inr (sp_task_ids su (sv_tasks_minted sv)), sv\<lparr>sv_tasks_minted := Suc (sv_tasks_minted sv)\<rparr>)) (\<lambda>i.
        bindE (open_task_store su i) (\<lambda>_.
        bindE (ingest su i q (concat (map (\<lambda>(role, named). map (\<lambda>(n, blob). (role, n, blob)) named) files))) (\<lambda>q'.
        bindE (index_put i q') (\<lambda>_. ret i)))))"

section \<open>The control plane of a task\<close>

text \<open>The plane shares the task's store and the service's run records.\<close>

definition new_plane :: "store \<Rightarrow> run_records \<Rightarrow> ('x, 'v) control_plane" where
  "new_plane s rs = \<lparr>cp_store = s, cp_timer_reads = 0, cp_runs_minted = 0, cp_records = rs, cp_sandboxes = [],
     cp_verifiers = [], cp_tasks = []\<rparr>"

definition task_settings :: "('x, 'v) service_setup \<Rightarrow> task_request \<Rightarrow> string \<Rightarrow> settings" where
  "task_settings su q cell = (sp_settings su)\<lparr>st_policy := to_orchestration_policy (tq_policy q), st_run_ids := (\<lambda>_. cell)\<rparr>"

definition unknown_task :: "string \<Rightarrow> exc" where
  "unknown_task i = KeyError (''unknown task: '' @ i)"

definition resident_cp :: "('x, 'v) service_setup \<Rightarrow> string \<Rightarrow> ('x, 'v, ('x, 'v) resident) service_op" where
  "resident_cp su i =
     bindE (gets (\<lambda>sv. map_of (sv_resident sv) i)) (\<lambda>found. case found of
       Some rt \<Rightarrow> ret rt
     | None \<Rightarrow>
         bindE (reads (index_get i)) (\<lambda>q. case q of
           None \<Rightarrow> raise (unknown_task i)
         | Some q \<Rightarrow>
             bindE (open_task_store su i) (\<lambda>_.
             bindE (reads (\<lambda>_. cat_builder (sp_catalog su) (tq_type_name q))) (\<lambda>build sv.
               case build (task_settings su q '''') q (new_plane (store_of i su sv) (sv_records sv)) of
                 (r, cp) \<Rightarrow>
                   let sv' = sv\<lparr>sv_stores := dict_put i (cp_store cp) (sv_stores sv), sv_records := cp_records cp\<rparr>
                   in (case r of
                         Inl e \<Rightarrow> (Inl e, sv')
                       | Inr t \<Rightarrow>
                           let rt = \<lparr>rt_request = q, rt_cp = cp, rt_task = t, rt_cell = ''''\<rparr>
                           in (Inr rt, sv'\<lparr>sv_resident := dict_put i rt (sv_resident sv')\<rparr>))))))"

text \<open>An operation of a resident task's control plane.\<close>

definition on_plane :: "('x, 'v) service_setup \<Rightarrow> string \<Rightarrow> (settings \<Rightarrow> string \<Rightarrow> ('x, 'v, 'a) cp_op) \<Rightarrow>
    ('x, 'v, 'a) service_op" where
  "on_plane su i m sv =
     (case map_of (sv_resident sv) i of
        None \<Rightarrow> (Inl (unknown_task i), sv)
      | Some rt \<Rightarrow>
          (case m (task_settings su (rt_request rt) (rt_cell rt)) (rt_task rt)
                ((rt_cp rt)\<lparr>cp_store := store_of i su sv, cp_records := sv_records sv\<rparr>) of
             (r, cp) \<Rightarrow> (r, sv\<lparr>sv_stores := dict_put i (cp_store cp) (sv_stores sv), sv_records := cp_records cp,
               sv_resident := dict_put i (rt\<lparr>rt_cp := cp\<rparr>) (sv_resident sv)\<rparr>)))"

section \<open>Runs\<close>

definition with_queue :: "'a queue_op \<Rightarrow> ('x, 'v, 'a) service_op" where
  "with_queue m sv = (case m (sv_queue sv) of (r, q) \<Rightarrow> (r, sv\<lparr>sv_queue := q\<rparr>))"

definition submit_run :: "('x, 'v) service_setup \<Rightarrow> string \<Rightarrow> string option \<Rightarrow> ('x, 'v, string) service_op" where
  "submit_run su i goal =
     bindE (resident_cp su i) (\<lambda>rt.
     bindE (\<lambda>sv. (Inr (sp_run_ids su (sv_runs_minted sv)), sv\<lparr>sv_runs_minted := Suc (sv_runs_minted sv)\<rparr>)) (\<lambda>run_id.
     bindE (modify (sv_resident_update (dict_put i (rt\<lparr>rt_cell := run_id\<rparr>)))) (\<lambda>_.
     bindE (\<lambda>sv. (Inr (sp_job_ids su (sv_jobs_minted sv)), sv\<lparr>sv_jobs_minted := Suc (sv_jobs_minted sv)\<rparr>)) (\<lambda>job.
     bindE (with_queue (enqueue \<lparr>job_id = job, job_tenant_id = tq_tenant_id (rt_request rt), job_run_id = run_id,
       job_payload = [(''task_id'', JStr i)]\<rparr>)) (\<lambda>_.
     bindE (with_queue claim) (\<lambda>_.
     bindE (modify (\<lambda>sv. sv\<lparr>sv_run_jobs := dict_put run_id job (sv_run_jobs sv),
       sv_run_tasks := dict_put run_id i (sv_run_tasks sv),
       sv_pending := sv_pending sv @ [\<lparr>pr_run_id = run_id, pr_job_id = job, pr_task_id = i, pr_goal = goal\<rparr>]\<rparr>)) (\<lambda>_.
     ret run_id)))))))"

text \<open>\<open>goal or request.goal\<close>\<close>

definition goal_of :: "string option \<Rightarrow> task_request \<Rightarrow> string" where
  "goal_of goal q = (case goal of Some g \<Rightarrow> if g \<noteq> [] then g else tq_goal q | None \<Rightarrow> tq_goal q)"

definition put_record :: "run_record \<Rightarrow> ('x, 'v, unit) service_op" where
  "put_record r = modify (sv_records_update (records_put r))"

definition execute_run :: "('x, 'v) service_setup \<Rightarrow> pending_run \<Rightarrow> ('x, 'v, unit) service_op" where
  "execute_run su p =
     bindE (reads (\<lambda>sv. case map_of (sv_resident sv) (pr_task_id p) of
         Some rt \<Rightarrow> Inr (rt_request rt) | None \<Rightarrow> Inl (unknown_task (pr_task_id p)))) (\<lambda>q.
     bindE (attempt (on_plane su (pr_task_id p) (\<lambda>cs t. cp_run cs t (goal_of (pr_goal p) q)))) (\<lambda>outcome. case outcome of
       Inr _ \<Rightarrow> with_queue (complete (pr_job_id p) [(''run_id'', JStr (pr_run_id p))])
     | Inl e \<Rightarrow>
         bindE (gets (\<lambda>sv. records_get (sv_records sv) (tq_tenant_id q) (pr_run_id p))) (\<lambda>recorded.
         bindE (case recorded of
             Some _ \<Rightarrow> ret ()
           | None \<Rightarrow> bindE (on_plane su (pr_task_id p) cp_run_report) (\<lambda>report.
               put_record (record_from_report report (pr_run_id p) ''aborted''))) (\<lambda>_.
         with_queue (fail (pr_job_id p) (exc_str e))))))"

text \<open>The next body in line runs; what it escapes with is kept for whoever awaits it.\<close>

definition run_next :: "('x, 'v) service_setup \<Rightarrow> ('x, 'v, unit) service_op" where
  "run_next su sv =
     (case sv_pending sv of
        [] \<Rightarrow> (Inr (), sv)
      | p # ps \<Rightarrow> (case execute_run su p (sv\<lparr>sv_pending := ps\<rparr>) of
          (r, sv') \<Rightarrow> (Inr (), sv'\<lparr>sv_outcomes := dict_put (pr_run_id p) r (sv_outcomes sv')\<rparr>)))"

fun drain :: "nat \<Rightarrow> ('x, 'v) service_setup \<Rightarrow> string \<Rightarrow> ('x, 'v, unit) service_op" where
  "drain 0 su run_id = ret ()"
| "drain (Suc n) su run_id =
     bindE (gets (\<lambda>sv. run_id \<in> pr_run_id ` set (sv_pending sv))) (\<lambda>waiting.
     if waiting then bindE (run_next su) (\<lambda>_. drain n su run_id) else ret ())"

definition await_run :: "('x, 'v) service_setup \<Rightarrow> string \<Rightarrow> ('x, 'v, unit) service_op" where
  "await_run su run_id =
     bindE (gets (\<lambda>sv. length (sv_pending sv))) (\<lambda>n.
     bindE (drain n su run_id) (\<lambda>_.
     reads (\<lambda>sv. case map_of (sv_outcomes sv) run_id of Some r \<Rightarrow> r | None \<Rightarrow> Inr ())))"

definition service_run :: "('x, 'v) service_setup \<Rightarrow> string \<Rightarrow> string option \<Rightarrow> ('x, 'v, string) service_op" where
  "service_run su i goal =
     bindE (submit_run su i goal) (\<lambda>run_id. bindE (await_run su run_id) (\<lambda>_. ret run_id))"

section \<open>Reading back\<close>

definition run_status :: "string \<Rightarrow> ('x, 'v) service \<Rightarrow> exc + job_status" where
  "run_status run_id sv = (case map_of (sv_run_jobs sv) run_id of
      None \<Rightarrow> Inl (KeyError (''unknown run: '' @ run_id))
    | Some j \<Rightarrow> fst (job_status_of j (sv_queue sv)))"

definition results :: "string \<Rightarrow> string \<Rightarrow> ('x, 'v) service \<Rightarrow> run_record option" where
  "results run_id tenant sv = records_get (sv_records sv) tenant run_id"

definition task_for_run :: "string \<Rightarrow> ('x, 'v) service \<Rightarrow> string option" where
  "task_for_run run_id sv = map_of (sv_run_tasks sv) run_id"

definition service_report :: "('x, 'v) service_setup \<Rightarrow> string \<Rightarrow> ('x, 'v, run_report) service_op" where
  "service_report su i = bindE (resident_cp su i) (\<lambda>_. on_plane su i cp_run_report)"

definition service_accepted :: "('x, 'v) service_setup \<Rightarrow> string \<Rightarrow> string option \<Rightarrow> ('x, 'v, artifact list) service_op" where
  "service_accepted su i ty = bindE (resident_cp su i) (\<lambda>_.
     reads (\<lambda>sv. query_artifacts ty (Some ACCEPTED) (store_of i su sv)))"

definition service_object :: "('x, 'v) service_setup \<Rightarrow> string \<Rightarrow> string \<Rightarrow> ('x, 'v, bytes) service_op" where
  "service_object su i h = bindE (open_task_store su i) (\<lambda>_. reads (\<lambda>sv. get_object h (store_of i su sv)))"

text \<open>A new process on the same root.\<close>

definition new_service :: "('x, 'v) service" where
  "new_service = \<lparr>sv_records = [], sv_queue = empty_queue, sv_index = [], sv_resident = [], sv_stores = [], sv_run_jobs = [],
     sv_run_tasks = [], sv_pending = [], sv_outcomes = [], sv_tasks_minted = 0, sv_runs_minted = 0, sv_jobs_minted = 0\<rparr>"

definition restart :: "('x, 'v) service \<Rightarrow> ('x, 'v) service" where
  "restart sv = new_service\<lparr>sv_index := sv_index sv, sv_stores := map (\<lambda>(i, s). (i, reopen s)) (sv_stores sv),
     sv_tasks_minted := sv_tasks_minted sv, sv_runs_minted := sv_runs_minted sv, sv_jobs_minted := sv_jobs_minted sv\<rparr>"

end
