(* ===== verification/Service_Claims.thy ===== *)
theory Service_Claims
  imports Control_Service Control_Claims
begin

text \<open>
  What the control service promises about runs: what a run leaves among the run records, and from it
  how a run of the service is accounted for, under its own identity and under another's.
\<close>

section \<open>What a run books\<close>

text \<open>The records, the run's identity and the configuration a session works under.\<close>

definition booked :: "run_records \<Rightarrow> string \<Rightarrow> task_config \<Rightarrow> ('x, 'v) session \<Rightarrow> bool" where
  "booked X rid tc s \<longleftrightarrow> ss_records s = X \<and> ctx_run_id (ss_run s) = rid \<and> ss_config s = tc"

interpretation books: cycle_frame "booked X rid tc"
  by unfold_locales (auto simp: booked_def)

text \<open>A run adds one record under its identity, or, when it fails, one of an abort or none.\<close>

definition booking :: "string \<Rightarrow> string \<Rightarrow> bool \<Rightarrow> run_records \<Rightarrow> run_records \<Rightarrow> bool" where
  "booking tenant rid failed X X' \<longleftrightarrow> failed \<and> X' = X \<or>
     (\<exists>r. X' = records_put r X \<and> rc_tenant_id r = tenant \<and> rc_run_id r = rid \<and>
        rc_status r = (if failed then ''aborted'' else ''complete''))"

lemma report_books:
  assumes "session_report cs s = (Inr rep, s')"
  shows "rp_tenant_id rep = tc_tenant_id (ss_config s)"
  using assms
  by (auto simp: session_report_def bindE_def reads_def with_store_def build_run_report_def bindS_def
      split: prod.splits sum.splits)

lemma record_run_books:
  assumes "booked X rid tc s" "record_run cs st s = (r, s')"
  shows "ss_config s' = tc \<and> (case r of Inl e \<Rightarrow> ss_records s' = X
    | Inr rec \<Rightarrow> ss_records s' = records_put rec X \<and> rc_tenant_id rec = tc_tenant_id tc \<and> rc_run_id rec = rid \<and>
        rc_status rec = st)"
proof -
  obtain q s1 where q: "session_report cs s = (q, s1)" by fastforce
  have b: "booked X rid tc s1" using keepsD [OF books.keeps_session_report assms(1) q] .
  show ?thesis
  proof (cases q)
    case (Inl e)
    then show ?thesis using q assms(2) b by (auto simp: record_run_def bindE_def booked_def)
  next
    case (Inr rep)
    have "rp_tenant_id rep = tc_tenant_id tc" using report_books [of cs s rep s1] q Inr assms(1) by (simp add: booked_def)
    then show ?thesis using q Inr assms(2) b
      by (auto simp: record_run_def bindE_def gets_def modify_def ret_def booked_def record_from_report_def)
  qed
qed

lemma run_loop_books:
  assumes "run_loop cs goal feedback cycles failures rs s = (out, s')" "booked X rid tc s"
  shows "ss_config s' = tc \<and> (if isl out then booking (tc_tenant_id tc) rid True X (ss_records s') else booked X rid tc s')"
  using assms
proof (induction cs goal feedback cycles failures rs arbitrary: s out s' rule: run_loop.induct)
  case (1 cs goal feedback cycles failures rs)
  note step = "1.prems"(1) [unfolded run_loop.simps [of cs goal feedback cycles failures rs]]
  show ?case
  proof (cases "should_continue (st_policy cs) cycles")
    case False
    then show ?thesis using step "1.prems"(2) by (auto simp: ret_eq booked_def)
  next
    case True
    obtain q s1 where q: "run_cycle cs goal feedback s = (q, s1)" by fastforce
    have s1: "booked X rid tc s1" using keepsD [OF books.keeps_run_cycle "1.prems"(2) q] .
    show ?thesis
    proof (cases q)
      case (Inl e)
      then show ?thesis using step True q s1 by (auto simp: bindE_def booked_def booking_def)
    next
      case (Inr x)
      show ?thesis
      proof (cases "cycle_failure_text x")
        case None
        show ?thesis
        proof (cases "stop_on_accept (st_policy cs) \<and> accepted_result x")
          case True
          then show ?thesis using step \<open>should_continue _ _\<close> q Inr None s1
            by (auto simp: bindE_def Let_def ret_eq booked_def)
        next
          case False
          then have "run_loop cs goal (feedback_from x) (cycles + 1) 0 (rs @ [x]) s1 = (out, s')"
            using step True q Inr None by (auto simp: bindE_def Let_def)
          from "1.IH"(1) [OF _ refl refl None _ this s1] True False show ?thesis by simp
        qed
      next
        case (Some m)
        show ?thesis
        proof (cases "max_consecutive (st_policy cs) \<noteq> 0 \<and> failures + 1 \<ge> max_consecutive (st_policy cs)")
          case abort: True
          obtain w s2 where w: "record_run cs ''aborted'' s1 = (w, s2)" by fastforce
          show ?thesis using step True q Inr Some abort w record_run_books [OF s1 w]
            by (cases w) (auto simp: bindE_def Let_def raise_eq booking_def)
        next
          case False
          then have "run_loop cs goal (feedback_from x) (cycles + 1) (failures + 1) (rs @ [x]) s1 = (out, s')"
            using step True q Inr Some by (auto simp: bindE_def Let_def)
          from "1.IH"(2) [OF _ refl refl Some refl refl _ this s1] True False show ?thesis by simp
        qed
      qed
    qed
  qed
qed

lemma run_books:
  assumes "run cs goal s = (out, s')"
  shows "ss_config s' = ss_config s \<and>
    booking (tc_tenant_id (ss_config s)) (st_run_ids cs (ss_runs_minted s)) (isl out) (ss_records s) (ss_records s')"
proof -
  let ?rid = "st_run_ids cs (ss_runs_minted s)" and ?tc = "ss_config s" and ?X = "ss_records s"
  let ?s0 = "s\<lparr>ss_run := (ss_run s)\<lparr>ctx_run_id := ?rid, ctx_cycle := 0\<rparr>, ss_runs_minted := Suc (ss_runs_minted s)\<rparr>"
  have s0: "booked ?X ?rid ?tc ?s0" by (simp add: booked_def)
  obtain b s1 where b: "run_body cs goal ?s0 = (b, s1)" by fastforce
  have s1: "ss_config s1 = ?tc \<and> booking (tc_tenant_id ?tc) ?rid (isl b) ?X (ss_records s1)"
  proof -
    obtain p s2 where p: "with_verifier vp_provision ?s0 = (p, s2)" by fastforce
    have s2: "booked ?X ?rid ?tc s2" using keepsD [OF books.keeps_verifier s0 p] .
    obtain l s3 where l: "run_loop cs goal '''' 0 0 [] s2 = (l, s3)" by fastforce
    note loop = run_loop_books [OF l s2]
    obtain w s4 where w: "record_run cs ''complete'' s3 = (w, s4)" by fastforce
    show ?thesis
      using b p s2 l loop w record_run_books [of ?X ?rid ?tc s3 cs _ w s4]
      by (cases p; cases l; cases w) (auto simp: run_body_def bindE_def ret_eq booked_def booking_def)
  qed
  obtain t s2 where t: "with_verifier vp_teardown s1 = (t, s2)" by fastforce
  have "ss_config s2 = ss_config s1 \<and> ss_records s2 = ss_records s1"
    using t by (auto simp: with_verifier_def split: prod.splits)
  moreover have "out = b" "s' = s2"
    using assms b t by (auto simp: run_def bindE_def attempt_def raise_eq ret_eq split: sum.splits)
  ultimately show ?thesis using s1 by simp
qed

section \<open>What a body does\<close>

text \<open>A live task: it is resident, its plane has the task, configured for the request's tenant.\<close>

definition live :: "string \<Rightarrow> ('x, 'v) resident \<Rightarrow> ('x, 'v) service \<Rightarrow> bool" where
  "live i rt sv \<longleftrightarrow> map_of (sv_resident sv) i = Some rt \<and>
     (case map_of (cp_tasks (rt_cp rt)) (rt_task rt) of
        Some t \<Rightarrow> tc_tenant_id (ts_config t) = tq_tenant_id (rt_request rt) | None \<Rightarrow> False)"

text \<open>What a body leaves of the service: the queue, the jobs of the runs and their tasks, the waiting
  bodies, and the request and run-id cell of the task.\<close>

definition same_service :: "string \<Rightarrow> ('x, 'v) resident \<Rightarrow> ('x, 'v) service \<Rightarrow> ('x, 'v) service \<Rightarrow> bool" where
  "same_service i rt sv sv' \<longleftrightarrow> sv_run_jobs sv' = sv_run_jobs sv \<and> sv_run_tasks sv' = sv_run_tasks sv \<and>
     sv_pending sv' = sv_pending sv \<and> sv_outcomes sv' = sv_outcomes sv \<and>
     (\<exists>rt'. live i rt' sv' \<and> rt_request rt' = rt_request rt \<and> rt_cell rt' = rt_cell rt)"

lemma on_plane_frame:
  assumes "live i rt sv" "on_plane su i (\<lambda>cs k. on_task k (m cs)) sv = (out, sv')"
    "\<forall>cs s r s'. m cs s = (r, s') \<longrightarrow> ss_config s' = ss_config s"
  obtains s s' where "same_service i rt sv sv'" "sv_queue sv' = sv_queue sv"
    "m (task_settings su (rt_request rt) (rt_cell rt)) s = (out, s')"
    "tc_tenant_id (ss_config s) = tq_tenant_id (rt_request rt)"
    "ss_records s = sv_records sv" "sv_records sv' = ss_records s'"
proof -
  obtain t where t: "map_of (sv_resident sv) i = Some rt" "map_of (cp_tasks (rt_cp rt)) (rt_task rt) = Some t"
    "tc_tenant_id (ts_config t) = tq_tenant_id (rt_request rt)"
    using assms(1) by (auto simp: live_def split: option.splits)
  let ?cp = "(rt_cp rt)\<lparr>cp_store := store_of i su sv, cp_records := sv_records sv\<rparr>"
  let ?s = "open_session ?cp t"
  obtain r s' where r: "m (task_settings su (rt_request rt) (rt_cell rt)) ?s = (r, s')" by fastforce
  have s: "tc_tenant_id (ss_config ?s) = tq_tenant_id (rt_request rt)" "ss_records ?s = sv_records sv"
    using t by (simp_all add: open_session_def)
  have out: "out = r" and sv': "sv' = sv\<lparr>sv_stores := dict_put i (ss_store s') (sv_stores sv), sv_records := ss_records s',
      sv_resident := dict_put i (rt\<lparr>rt_cp := close_session (rt_task rt) ?cp s'\<rparr>) (sv_resident sv)\<rparr>"
    using assms(2) t r by (auto simp: on_plane_def on_task_def cp_task_def close_session_def)
  have "live i (rt\<lparr>rt_cp := close_session (rt_task rt) ?cp s'\<rparr>) sv'"
    using assms(3) r t by (simp add: live_def sv' close_session_def open_session_def)
  then have "same_service i rt sv sv'" by (auto simp: same_service_def sv')
  then show thesis using r s out by (intro that [of ?s s']) (auto simp: sv')
qed

lemma run_config: "\<forall>cs s r s'. run cs goal s = (r, s') \<longrightarrow> ss_config s' = ss_config s"
  using run_books by blast

lemma on_plane_run:
  fixes sv :: "('x, 'v) service"
  assumes "live i rt sv" "on_plane su i (\<lambda>cs k. cp_run cs k goal) sv = (out, sv')"
  shows "same_service i rt sv sv' \<and> sv_queue sv' = sv_queue sv \<and>
    booking (tq_tenant_id (rt_request rt)) (rt_cell rt) (isl out) (sv_records sv) (sv_records sv')"
proof -
  obtain s s' :: "('x, 'v) session" where s: "same_service i rt sv sv'" "sv_queue sv' = sv_queue sv"
    "run (task_settings su (rt_request rt) (rt_cell rt)) goal s = (out, s')"
    "tc_tenant_id (ss_config s) = tq_tenant_id (rt_request rt)"
    "ss_records s = sv_records sv" "sv_records sv' = ss_records s'"
    using on_plane_frame [OF assms(1) assms(2) [unfolded cp_run_def] run_config] .
  from run_books [OF s(3)] s show ?thesis by (simp add: task_settings_def)
qed

lemma report_keeps:
  assumes "session_report cs s = (r, s')"
  shows "ss_config s' = ss_config s" "ss_records s' = ss_records s"
  using keepsD [OF books.keeps_session_report _ assms, of "ss_records s" "ctx_run_id (ss_run s)" "ss_config s"]
  by (simp_all add: booked_def)

lemma report_config: "\<forall>cs s r s'. session_report cs s = (r, s') \<longrightarrow> ss_config s' = ss_config s"
  using report_keeps(1) by blast

lemma on_plane_report:
  fixes sv :: "('x, 'v) service"
  assumes "live i rt sv" "on_plane su i cp_run_report sv = (out, sv')"
  shows "same_service i rt sv sv' \<and> sv_queue sv' = sv_queue sv \<and> sv_records sv' = sv_records sv \<and>
    (\<forall>rep. out = Inr rep \<longrightarrow> rp_tenant_id rep = tq_tenant_id (rt_request rt))"
proof -
  have c: "cp_run_report = (\<lambda>cs k. on_task k (session_report cs))" by (simp add: fun_eq_iff cp_run_report_def)
  obtain s s' :: "('x, 'v) session" where s: "same_service i rt sv sv'" "sv_queue sv' = sv_queue sv"
    "session_report (task_settings su (rt_request rt) (rt_cell rt)) s = (out, s')"
    "tc_tenant_id (ss_config s) = tq_tenant_id (rt_request rt)"
    "ss_records s = sv_records sv" "sv_records sv' = ss_records s'"
    using on_plane_frame [OF assms(1) assms(2) [unfolded c] report_config] .
  then show ?thesis using report_keeps [OF s(3)] report_books [of _ s _ s'] by auto
qed

lemma same_service_trans:
  assumes "same_service i rt sv sv1"
    "\<And>rt1. live i rt1 sv1 \<Longrightarrow> rt_request rt1 = rt_request rt \<Longrightarrow> rt_cell rt1 = rt_cell rt \<Longrightarrow> same_service i rt1 sv1 sv2"
  shows "same_service i rt sv sv2"
  using assms unfolding same_service_def by metis

text \<open>A body that fails books an abort under its own identity unless the run already has a record there.\<close>

definition aborted :: "string \<Rightarrow> string \<Rightarrow> run_records \<Rightarrow> run_records \<Rightarrow> bool" where
  "aborted tenant rid X X' \<longleftrightarrow> (if records_get X tenant rid \<noteq> None then X' = X
     else \<exists>r. X' = records_put r X \<and> rc_tenant_id r = tenant \<and> rc_run_id r = rid \<and> rc_status r = ''aborted'')"

lemma aborted_put [simp]:
  "records_get X tenant rid = None \<Longrightarrow> rc_tenant_id r = tenant \<Longrightarrow> rc_run_id r = rid \<Longrightarrow> rc_status r = ''aborted'' \<Longrightarrow>
   aborted tenant rid X (records_put r X)"
  by (auto simp: aborted_def)

lemma aborted_already [simp]: "records_get X tenant rid = Some r \<Longrightarrow> aborted tenant rid X X' \<longleftrightarrow> X' = X"
  by (simp add: aborted_def)

text \<open>Settling one job of the queue.\<close>

definition settled :: "string \<Rightarrow> job_status \<Rightarrow> in_process_queue \<Rightarrow> in_process_queue \<Rightarrow> bool" where
  "settled j st q q' \<longleftrightarrow> (\<exists>js. js_status js = st \<and> q' = jq_states_update (dict_put j js) q)"

lemma settled_put [simp]: "js_status js = st \<Longrightarrow> settled j st q (jq_states_update (dict_put j js) q)"
  by (auto simp: settled_def)

lemmas queue_step_simps = with_queue_def complete_def fail_def reads_def require_job_def put_state_def modify_def

text \<open>A report that cannot be built cannot be built afterwards either: asking for it only reads the clock.\<close>

lemma report_clock: "build_run_report cs (s\<lparr>ticks := n\<rparr>) i p now rat tn = Inl e \<longleftrightarrow> build_run_report cs s i p now' rat tn = Inl e"
proof -
  have clockless: "get_artifact j (s\<lparr>ticks := n\<rparr>) = get_artifact j s"
    "operations_into j (s\<lparr>ticks := n\<rparr>) = operations_into j s"
    "query_artifacts ty st (s\<lparr>ticks := n\<rparr>) = query_artifacts ty st s"
    "superseded_log ty (s\<lparr>ticks := n\<rparr>) = superseded_log ty s" "rejected_log ty (s\<lparr>ticks := n\<rparr>) = rejected_log ty s"
    for j ty st
    by (simp_all add: get_artifact_def operations_into_def query_artifacts_def superseded_log_def rejected_log_def)
  have "cycle_report_of (s\<lparr>ticks := n\<rparr>) = cycle_report_of s"
    unfolding cycle_report_of_def proposal_of_def commit_of_def clockless ..
  moreover have "summary_of (s\<lparr>ticks := n\<rparr>) = summary_of s"
    unfolding fun_eq_iff summary_of_def clockless by blast
  ultimately show ?thesis by (auto simp: build_run_report_def bindS_def split: sum.splits)
qed
lemma session_report_repeats:
  assumes "session_report cs s = (Inl e, s')"
  shows "fst (session_report cs s') = Inl e \<and> s' = s\<lparr>ss_store := (ss_store s)\<lparr>ticks := Suc (ticks (ss_store s))\<rparr>\<rparr>"
proof -
  let ?build = "\<lambda>n now. build_run_report (ss_history s) ((ss_store s)\<lparr>ticks := n\<rparr>) (tc_task_id (ss_config s))
    (policy_json (st_policy cs)) now (ss_rationale s) (tc_tenant_id (ss_config s))"
  let ?st = "ss_store s"
  have same: "?build n now = Inl e \<longleftrightarrow> ?build m now' = Inl e" for n m now now'
    unfolding report_clock [where now' = now] ..
  have one: "?build (Suc (ticks ?st)) (clock ?st (ticks ?st)) = Inl e" "s' = s\<lparr>ss_store := ?st\<lparr>ticks := Suc (ticks ?st)\<rparr>\<rparr>"
    using assms by (auto simp: session_report_def bindE_def with_store_def tick_def reads_def)
  from one(1) have "?build (Suc (Suc (ticks ?st))) (clock ?st (Suc (ticks ?st))) = Inl e" by (rule same [THEN iffD1])
  then show ?thesis by (simp add: one(2) session_report_def bindE_def with_store_def tick_def reads_def)
qed

lemma report_repeats:
  assumes "on_plane su i cp_run_report sv = (Inl e, sv')"
  shows "fst (on_plane su i cp_run_report sv') = Inl e"
proof (cases "map_of (sv_resident sv) i")
  case None
  then show ?thesis using assms by (simp add: on_plane_def)
next
  case (Some rt)
  let ?cp = "(rt_cp rt)\<lparr>cp_store := store_of i su sv, cp_records := sv_records sv\<rparr>"
  show ?thesis
  proof (cases "map_of (cp_tasks (rt_cp rt)) (rt_task rt)")
    case None
    then show ?thesis using assms Some
      by (auto simp: on_plane_def cp_run_report_def on_task_def cp_task_def store_of_def)
  next
    case t: (Some t)
    obtain r s' where r: "session_report (task_settings su (rt_request rt) (rt_cell rt)) (open_session ?cp t) = (r, s')"
      by fastforce
    then have "r = Inl e" using assms Some t
      by (auto simp: on_plane_def cp_run_report_def on_task_def cp_task_def)
    note again = session_report_repeats [OF r [unfolded this]]
    show ?thesis using assms Some t r again
      by (auto simp: on_plane_def cp_run_report_def on_task_def cp_task_def store_of_def close_session_def open_session_def
          split: prod.splits)
  qed
qed

lemma abort_step:
  fixes sv :: "('x, 'v) service"
  assumes "live i rt sv" "bindE (case records_get (sv_records sv) (tq_tenant_id (rt_request rt)) rid of
             Some _ \<Rightarrow> ret ()
           | None \<Rightarrow> bindE (on_plane su i cp_run_report) (\<lambda>report.
               put_record (record_from_report report rid ''aborted''))) (\<lambda>_. with_queue (fail j e)) sv = (r, sv')"
    "map_of (jq_states (sv_queue sv)) j = Some js"
  shows "same_service i rt sv sv' \<and> (case r of
      Inr _ \<Rightarrow> settled j JOB_FAILED (sv_queue sv) (sv_queue sv') \<and>
        aborted (tq_tenant_id (rt_request rt)) rid (sv_records sv) (sv_records sv')
    | Inl x \<Rightarrow> sv_queue sv' = sv_queue sv \<and> sv_records sv' = sv_records sv \<and>
        records_get (sv_records sv) (tq_tenant_id (rt_request rt)) rid = None \<and>
        fst (on_plane su i cp_run_report sv') = Inl x)"
proof (cases "records_get (sv_records sv) (tq_tenant_id (rt_request rt)) rid")
  case (Some rec)
  then show ?thesis using assms
    by (auto simp: bindE_def ret_def queue_step_simps same_service_def live_def intro!: exI [of _ rt])
next
  case None
  obtain q sv1 where q: "on_plane su i cp_run_report sv = (q, sv1)" by fastforce
  note report = on_plane_report [OF assms(1) q]
  show ?thesis
  proof (cases q)
    case (Inl e')
    then show ?thesis using assms(2) None q report report_repeats [of su i sv e' sv1] by (auto simp: bindE_def)
  next
    case (Inr rep)
    have "same_service i rt sv sv'"
      by (rule same_service_trans [of i rt sv sv1])
        (use report assms(2,3) None q Inr in \<open>auto simp: bindE_def put_record_def queue_step_simps same_service_def live_def intro!: exI [of _ "_ :: ('x, 'v) resident"]\<close>)
    then show ?thesis using assms(2,3) None q Inr report
      by (auto simp: bindE_def put_record_def queue_step_simps
          record_from_report_def)
  qed
qed

lemma execute_run_ends:
  fixes sv :: "('x, 'v) service"
  defines "tenant rt \<equiv> tq_tenant_id (rt_request rt)"
  assumes "live (pr_task_id p) rt sv" "map_of (jq_states (sv_queue sv)) (pr_job_id p) = Some js"
    "execute_run su p sv = (r, sv')"
  shows "same_service (pr_task_id p) rt sv sv' \<and> (case r of
      Inr _ \<Rightarrow> settled (pr_job_id p) DONE (sv_queue sv) (sv_queue sv') \<and>
          booking (tenant rt) (rt_cell rt) False (sv_records sv) (sv_records sv') \<or>
        settled (pr_job_id p) JOB_FAILED (sv_queue sv) (sv_queue sv') \<and> (\<exists>X. booking (tenant rt) (rt_cell rt) True (sv_records sv) X \<and>
           aborted (tenant rt) (pr_run_id p) X (sv_records sv'))
    | Inl x \<Rightarrow> sv_queue sv' = sv_queue sv \<and> booking (tenant rt) (rt_cell rt) True (sv_records sv) (sv_records sv') \<and>
        records_get (sv_records sv') (tenant rt) (pr_run_id p) = None \<and>
        fst (on_plane su (pr_task_id p) cp_run_report sv') = Inl x)"
proof -
  have rt: "map_of (sv_resident sv) (pr_task_id p) = Some rt" using assms(2) by (simp add: live_def)
  let ?goal = "goal_of (pr_goal p) (rt_request rt)"
  obtain q sv1 where q: "on_plane su (pr_task_id p) (\<lambda>cs t. cp_run cs t ?goal) sv = (q, sv1)" by fastforce
  note ran = on_plane_run [OF assms(2) q]
  then obtain rt1 where rt1: "live (pr_task_id p) rt1 sv1" "rt_request rt1 = rt_request rt" "rt_cell rt1 = rt_cell rt"
    by (auto simp: same_service_def)
  show ?thesis
  proof (cases q)
    case (Inr res)
    have "same_service (pr_task_id p) rt sv sv'"
      using ran assms(3,4) q Inr rt by (auto simp: execute_run_def bindE_def attempt_def queue_step_simps same_service_def live_def)
    then show ?thesis using ran assms(3,4) q Inr rt
      by (auto simp: execute_run_def bindE_def attempt_def queue_step_simps tenant_def)
  next
    case (Inl e)
    have step: "bindE (case records_get (sv_records sv1) (tq_tenant_id (rt_request rt1)) (pr_run_id p) of
             Some _ \<Rightarrow> ret ()
           | None \<Rightarrow> bindE (on_plane su (pr_task_id p) cp_run_report) (\<lambda>report.
               put_record (record_from_report report (pr_run_id p) ''aborted'')))
           (\<lambda>_. with_queue (fail (pr_job_id p) (exc_str e))) sv1 = (r, sv')"
      using assms(4) q Inl rt rt1 by (simp add: execute_run_def bindE_def reads_def attempt_def gets_def)
    have js: "map_of (jq_states (sv_queue sv1)) (pr_job_id p) = Some js" using ran assms(3) by simp
    note ab = abort_step [OF rt1(1) step js]
    have "same_service (pr_task_id p) rt sv sv'"
      by (rule same_service_trans [of _ rt sv sv1]) (use ran ab rt1 in \<open>auto simp: same_service_def\<close>)
    then show ?thesis using ab ran Inl rt1
      by (cases r) (auto simp: tenant_def intro!: exI [of _ "sv_records sv1"])
  qed
qed

section \<open>Submitting and awaiting\<close>

definition statuses :: "('x, 'v) service \<Rightarrow> string \<rightharpoonup> job_status" where
  "statuses sv = map_option js_status \<circ> map_of (jq_states (sv_queue sv))"

lemma settled_status:
  "settled j st (sv_queue sv) (sv_queue sv') \<Longrightarrow> statuses sv' = (statuses sv)(j \<mapsto> st)"
  by (auto simp: settled_def statuses_def fun_eq_iff)

lemma status_of_run:
  "map_of (sv_run_jobs sv) rid = Some j \<Longrightarrow> statuses sv j = Some st \<Longrightarrow> run_status rid sv = Inr st"
  by (auto simp: statuses_def run_status_def job_status_of_def reads_def require_job_def bindS_def split: option.splits)

lemma submit_live:
  fixes sv :: "('x, 'v) service" and su :: "('x, 'v) service_setup"
  defines "rid \<equiv> sp_run_ids su (sv_runs_minted sv)" and "job \<equiv> sp_job_ids su (sv_jobs_minted sv)"
  assumes "live i rt sv" "jq_pending (sv_queue sv) = []"
  obtains sv1 where "submit_run su i goal sv = (Inr rid, sv1)" "live i (rt\<lparr>rt_cell := rid\<rparr>) sv1"
    "sv_records sv1 = sv_records sv" "jq_pending (sv_queue sv1) = []" "statuses sv1 = (statuses sv)(job \<mapsto> CLAIMED)"
    "map_of (sv_run_jobs sv1) = (map_of (sv_run_jobs sv))(rid \<mapsto> job)"
    "map_of (sv_run_tasks sv1) = (map_of (sv_run_tasks sv))(rid \<mapsto> i)"
    "sv_pending sv1 = sv_pending sv @ [\<lparr>pr_run_id = rid, pr_job_id = job, pr_task_id = i, pr_goal = goal\<rparr>]"
    "sv_runs_minted sv1 = Suc (sv_runs_minted sv)" "sv_jobs_minted sv1 = Suc (sv_jobs_minted sv)"
proof -
  have rt: "map_of (sv_resident sv) i = Some rt" using assms(3) by (simp add: live_def)
  obtain r sv1 where s: "submit_run su i goal sv = (r, sv1)" by fastforce
  note run = s [unfolded submit_run_def resident_cp_def bindE_def gets_def ret_def modify_def with_queue_def enqueue_def
      put_state_def claim_def, simplified rt assms(4), simplified]
  show thesis
    by (rule that [of sv1])
      (use run s assms in \<open>auto simp: live_def statuses_def fun_eq_iff rid_def job_def split: option.splits\<close>)
qed

text \<open>Awaiting the first body in line: how its job ends, and what it books, under the identity in the
  task's cell.\<close>

lemma await_live:
  fixes sv :: "('x, 'v) service" and rt :: "('x, 'v) resident"
  defines "t \<equiv> tq_tenant_id (rt_request rt)"
  assumes "live (pr_task_id p) rt sv" "sv_pending sv = p # ps" "pr_run_id p \<notin> pr_run_id ` set ps"
    "statuses sv (pr_job_id p) \<noteq> None"
  obtains r sv' where "await_run su (pr_run_id p) sv = (r, sv')" "sv_pending sv' = ps"
    "sv_run_jobs sv' = sv_run_jobs sv" "sv_run_tasks sv' = sv_run_tasks sv"
    "\<exists>rt'. live (pr_task_id p) rt' sv'"
    "(\<exists>e. r = Inl e \<and> fst (on_plane su (pr_task_id p) cp_run_report sv') = Inl e) \<and>
       statuses sv' = statuses sv \<and> booking t (rt_cell rt) True (sv_records sv) (sv_records sv') \<and>
       records_get (sv_records sv') t (pr_run_id p) = None \<or>
     r = Inr () \<and> statuses sv' = (statuses sv)(pr_job_id p \<mapsto> DONE) \<and>
       booking t (rt_cell rt) False (sv_records sv) (sv_records sv') \<or>
     r = Inr () \<and> statuses sv' = (statuses sv)(pr_job_id p \<mapsto> JOB_FAILED) \<and>
       (\<exists>X. booking t (rt_cell rt) True (sv_records sv) X \<and> aborted t (pr_run_id p) X (sv_records sv'))"
proof -
  let ?sv = "sv\<lparr>sv_pending := ps\<rparr>"
  have live: "live (pr_task_id p) rt ?sv" using assms(2) by (simp add: live_def)
  obtain js where js: "map_of (jq_states (sv_queue ?sv)) (pr_job_id p) = Some js"
    using assms(5) by (auto simp: statuses_def)
  obtain r sv1 where e: "execute_run su p ?sv = (r, sv1)" by fastforce
  note ends = execute_run_ends [OF live js e]
  have same: "same_service (pr_task_id p) rt ?sv sv1" using ends by simp
  let ?sv' = "sv1\<lparr>sv_outcomes := dict_put (pr_run_id p) r (sv_outcomes sv1)\<rparr>"
  have same_report: "fst (on_plane su (pr_task_id p) cp_run_report ?sv') = fst (on_plane su (pr_task_id p) cp_run_report sv1)"
    by (simp add: on_plane_def store_of_def split: option.split prod.split)
  have d: "drain (Suc (length ps)) su (pr_run_id p) sv = (Inr (), ?sv')"
    using assms(3,4) e same by (cases ps) (simp_all add: bindE_def gets_def run_next_def ret_def same_service_def)
  have "statuses ?sv' = statuses sv1" "statuses ?sv = statuses sv" by (simp_all add: statuses_def)
  then have st: "settled j st (sv_queue ?sv) (sv_queue sv1) \<Longrightarrow> statuses ?sv' = (statuses sv)(j \<mapsto> st)" for j st
    using settled_status [of j st ?sv sv1] by simp
  show thesis
  proof (rule that [of r ?sv'])
    show "await_run su (pr_run_id p) sv = (r, ?sv')"
      using d assms(3) by (simp add: await_run_def bindE_def gets_def reads_def)
    show "\<exists>rt'. live (pr_task_id p) rt' ?sv'"
      using same by (auto simp: same_service_def live_def)
  qed (use same ends st same_report in \<open>auto simp: same_service_def t_def statuses_def split: sum.splits\<close>)
qed

section \<open>Claims\<close>

lemma booking_get:
  assumes "booking tenant rid failed X X'"
  shows "(t, i) \<noteq> (tenant, rid) \<Longrightarrow> records_get X' t i = records_get X t i"
    "failed \<Longrightarrow> X' = X \<or> (\<exists>rec. records_get X' tenant rid = Some rec \<and> rc_status rec = ''aborted'')"
  using assms by (auto simp: booking_def records_get_def records_put_def)

lemma booking_complete:
  "booking tenant rid False X X' \<Longrightarrow> \<exists>rec. records_get X' tenant rid = Some rec \<and> rc_status rec = ''complete''"
  by (auto simp: booking_def records_get_def records_put_def)

lemma aborted_get:
  assumes "aborted tenant rid X X'"
  shows "(t, i) \<noteq> (tenant, rid) \<Longrightarrow> records_get X' t i = records_get X t i"
    "records_get X tenant rid = None \<Longrightarrow> \<exists>rec. records_get X' tenant rid = Some rec \<and> rc_status rec = ''aborted''"
    "records_get X tenant rid \<noteq> None \<Longrightarrow> records_get X' tenant rid = records_get X tenant rid"
  using assms by (auto simp: aborted_def records_get_def records_put_def split: if_splits)

text \<open>C22. A run of the service is accounted for. When no other run is waiting, neither its body nor a job in
  the queue, and the fresh run identity has no record yet, running a resident task, configured for its tenant, gives that identity;
  when the call returns, the run's job is done or failed, and under the run's own identity and the
  request's tenant there is a record, complete when the job is done and aborted when it failed; no other
  record changes. Whatever the run itself raised is never passed on: the call raises only what asking
  for the task's report raises, then and afterwards; then the job stays claimed and there is no record.\<close>

theorem service_run_is_accounted:
  fixes sv :: "('x, 'v) service" and su :: "('x, 'v) service_setup" and rt :: "('x, 'v) resident"
  defines "rid \<equiv> sp_run_ids su (sv_runs_minted sv)" and "tenant \<equiv> tq_tenant_id (rt_request rt)"
  assumes "live i rt sv" "sv_pending sv = []" "jq_pending (sv_queue sv) = []"
    "results rid tenant sv = None" "service_run su i goal sv = (out, sv')"
  shows "(case out of
      Inr r \<Rightarrow> r = rid \<and> (\<exists>rec. results r tenant sv' = Some rec \<and>
        (run_status r sv' = Inr DONE \<and> rc_status rec = ''complete'' \<or>
         run_status r sv' = Inr JOB_FAILED \<and> rc_status rec = ''aborted''))
    | Inl e \<Rightarrow> run_status rid sv' = Inr CLAIMED \<and> results rid tenant sv' = None \<and>
        fst (service_report su i sv') = Inl e) \<and>
    task_for_run rid sv' = Some i \<and> sv_pending sv' = [] \<and>
    (\<forall>r t. (t, r) \<noteq> (tenant, rid) \<longrightarrow> results r t sv' = results r t sv)"proof -
  let ?job = "sp_job_ids su (sv_jobs_minted sv)"
  let ?p = "\<lparr>pr_run_id = rid, pr_job_id = ?job, pr_task_id = i, pr_goal = goal\<rparr>"
  obtain sv1 where sv1: "submit_run su i goal sv = (Inr rid, sv1)" "live i (rt\<lparr>rt_cell := rid\<rparr>) sv1"
    "sv_records sv1 = sv_records sv" "statuses sv1 = (statuses sv)(?job \<mapsto> CLAIMED)"
    "map_of (sv_run_jobs sv1) = (map_of (sv_run_jobs sv))(rid \<mapsto> ?job)"
    "map_of (sv_run_tasks sv1) = (map_of (sv_run_tasks sv))(rid \<mapsto> i)" "sv_pending sv1 = [?p]"
    using submit_live [OF assms(3,5), of su goal] assms(4) unfolding rid_def by (metis append_Nil)
  have live: "live (pr_task_id ?p) (rt\<lparr>rt_cell := rid\<rparr>) sv1" using sv1(2) by simp
  have known: "statuses sv1 (pr_job_id ?p) \<noteq> None" "pr_run_id ?p \<notin> pr_run_id ` set []" using sv1(4) by simp_all
  obtain r sv2 where a: "await_run su (pr_run_id ?p) sv1 = (r, sv2)" "sv_pending sv2 = []"
    "sv_run_jobs sv2 = sv_run_jobs sv1" "sv_run_tasks sv2 = sv_run_tasks sv1"
    "\<exists>rt'. live i rt' sv2"
    "(\<exists>e. r = Inl e \<and> fst (on_plane su i cp_run_report sv2) = Inl e) \<and> statuses sv2 = statuses sv1 \<and> booking tenant rid True (sv_records sv1) (sv_records sv2) \<and>
       records_get (sv_records sv2) tenant rid = None \<or>
     r = Inr () \<and> statuses sv2 = (statuses sv1)(?job \<mapsto> DONE) \<and> booking tenant rid False (sv_records sv1) (sv_records sv2) \<or>
     r = Inr () \<and> statuses sv2 = (statuses sv1)(?job \<mapsto> JOB_FAILED) \<and>
       (\<exists>X. booking tenant rid True (sv_records sv1) X \<and> aborted tenant rid X (sv_records sv2))"
    by (rule await_live [OF live sv1(7) known(2,1), of su]) (erule that, simp_all add: tenant_def)
  have report: "fst (service_report su i sv2) = fst (on_plane su i cp_run_report sv2)"
    using a(5) by (auto simp: service_report_def resident_cp_def bindE_def gets_def ret_def live_def split: prod.split sum.split)
  have out: "out = (case r of Inl e \<Rightarrow> Inl e | Inr _ \<Rightarrow> Inr rid)" "sv' = sv2"
    using assms(7) sv1(1) a(1) by (auto simp: service_run_def bindE_def ret_def split: sum.splits)
  have job: "map_of (sv_run_jobs sv') rid = Some ?job" using sv1(5) a(3) by (simp add: out)
  have fresh: "records_get (sv_records sv1) tenant rid = None" using assms(6) sv1(3) by (simp add: results_def)
  have other: "\<forall>r t. (t, r) \<noteq> (tenant, rid) \<longrightarrow> results r t sv' = results r t sv"
    using a(6) booking_get(1) aborted_get(1) unfolding out(2) results_def sv1(3) by metis
  have "case out of
      Inr r \<Rightarrow> r = rid \<and> (\<exists>rec. results r tenant sv' = Some rec \<and>
        (run_status r sv' = Inr DONE \<and> rc_status rec = ''complete'' \<or>
         run_status r sv' = Inr JOB_FAILED \<and> rc_status rec = ''aborted''))
    | Inl e \<Rightarrow> run_status rid sv' = Inr CLAIMED \<and> results rid tenant sv' = None \<and> fst (service_report su i sv') = Inl e"
    using a(6)
  proof (elim disjE conjE exE)
    fix X assume X: "r = Inr ()" "statuses sv2 = (statuses sv1)(?job \<mapsto> JOB_FAILED)"
      "booking tenant rid True (sv_records sv1) X" "aborted tenant rid X (sv_records sv2)"
    have "\<exists>rec. records_get (sv_records sv2) tenant rid = Some rec \<and> rc_status rec = ''aborted''"
      using booking_get(2) [OF X(3)] aborted_get(2,3) [OF X(4)] fresh by (metis option.distinct(1))
    then show ?thesis using X status_of_run [OF job, of JOB_FAILED] by (simp add: out results_def)
  qed (use status_of_run [OF job] booking_complete sv1(4) report in \<open>auto simp: out results_def\<close>)
  then show ?thesis using other sv1(6) a(2,4) by (simp add: out task_for_run_def)
qed

text \<open>C40. Overlapping runs of one task share an identity: if a task is submitted again before the body of
  its first run starts, the first run, when it completes, leaves no record under its own identity. Its
  record is filed under the second one's, whose body has not run and whose job is still claimed.\<close>

theorem overlapping_runs_share_a_record:
  assumes "live i rt sv" "sv_pending sv = []" "jq_pending (sv_queue sv) = []"
    "submit_run su i g1 sv = (Inr r1, sv1)" "submit_run su i g2 sv1 = (Inr r2, sv2)" "r1 \<noteq> r2"
    "sp_job_ids su (sv_jobs_minted sv) \<noteq> sp_job_ids su (Suc (sv_jobs_minted sv))"
    "await_run su r1 sv2 = (Inr (), sv3)" "run_status r1 sv3 = Inr DONE"
  shows "(\<forall>t. results r1 t sv3 = results r1 t sv) \<and> run_status r2 sv3 = Inr CLAIMED \<and>
    (\<exists>rec. results r2 (tq_tenant_id (rt_request rt)) sv3 = Some rec \<and> rc_status rec = ''complete'') \<and>
    pr_run_id ` set (sv_pending sv3) = {r2}"
proof -
  let ?j1 = "sp_job_ids su (sv_jobs_minted sv)" and ?j2 = "sp_job_ids su (Suc (sv_jobs_minted sv))"
  let ?p1 = "\<lparr>pr_run_id = r1, pr_job_id = ?j1, pr_task_id = i, pr_goal = g1\<rparr>"
  let ?p2 = "\<lparr>pr_run_id = r2, pr_job_id = ?j2, pr_task_id = i, pr_goal = g2\<rparr>"
  let ?t = "tq_tenant_id (rt_request rt)"
  have one: "live i (rt\<lparr>rt_cell := r1\<rparr>) sv1" "sv_records sv1 = sv_records sv" "jq_pending (sv_queue sv1) = []"
    "statuses sv1 = (statuses sv)(?j1 \<mapsto> CLAIMED)" "map_of (sv_run_jobs sv1) = (map_of (sv_run_jobs sv))(r1 \<mapsto> ?j1)"
    "sv_pending sv1 = [?p1]" "sv_jobs_minted sv1 = Suc (sv_jobs_minted sv)"
    using submit_live [OF assms(1,3), of su g1] assms(2,4) by auto
  have two: "live i (rt\<lparr>rt_cell := r1, rt_cell := r2\<rparr>) sv2" "sv_records sv2 = sv_records sv1"
    "statuses sv2 = (statuses sv1)(?j2 \<mapsto> CLAIMED)" "map_of (sv_run_jobs sv2) = (map_of (sv_run_jobs sv1))(r2 \<mapsto> ?j2)"
    "sv_pending sv2 = [?p1, ?p2]"
    using submit_live [OF one(1,3), of su g2] one(6,7) assms(5) by auto
  have live: "live (pr_task_id ?p1) (rt\<lparr>rt_cell := r2\<rparr>) sv2" using two(1) by simp
  have known: "statuses sv2 (pr_job_id ?p1) \<noteq> None" "pr_run_id ?p1 \<notin> pr_run_id ` set [?p2]"
    using one(4) two(3) assms(6) by simp_all
  have a: "sv_pending sv3 = [?p2]" "sv_run_jobs sv3 = sv_run_jobs sv2"
    "statuses sv3 = (statuses sv2)(?j1 \<mapsto> DONE) \<and> booking ?t r2 False (sv_records sv2) (sv_records sv3) \<or>
     statuses sv3 = (statuses sv2)(?j1 \<mapsto> JOB_FAILED)"
    using await_live [OF live two(5) known(2,1), of su] assms(8) by auto
  have jobs: "map_of (sv_run_jobs sv3) r1 = Some ?j1" "map_of (sv_run_jobs sv3) r2 = Some ?j2"
    using a(2) one(5) two(4) assms(6) by simp_all
  have b: "statuses sv3 = (statuses sv2)(?j1 \<mapsto> DONE)" "booking ?t r2 False (sv_records sv2) (sv_records sv3)"
    using a(3) status_of_run [OF jobs(1), of JOB_FAILED] assms(9) by auto
  have "run_status r2 sv3 = Inr CLAIMED"
    using status_of_run [OF jobs(2), of CLAIMED] b(1) two(3) assms(7) by simp
  then show ?thesis
    using booking_complete [OF b(2)] booking_get(1) [OF b(2)] assms(6) a(1) one(2) two(2) by (simp add: results_def)
qed

section \<open>A small service\<close>

definition demo_setup :: "(unit, unit) service_setup" where
  "demo_setup = \<lparr>sp_catalog = empty_catalog, sp_settings = demo_settings, sp_new_store = demo_store,
     sp_task_ids = nat_str, sp_run_ids = nat_str, sp_job_ids = nat_str\<rparr>"

definition demo_task :: task_request where
  "demo_task = \<lparr>tq_type_name = ''code'', tq_goal = ''g'', tq_sandbox = default_sandbox,
     tq_verifier = \<lparr>vq_approach = ''code'', vq_knobs = []\<rparr>, tq_policy = default_policy_request\<lparr>pq_max_cycles := 1\<rparr>,
     tq_data = \<lparr>dq_roles = []\<rparr>, tq_tenant_id = ''me''\<rparr>"

definition demo_resident :: "(unit, unit) resident" where
  "demo_resident = \<lparr>rt_request = demo_task, rt_cp = close_session ''t'' demo_plane (demo_session demo_bundle),
     rt_task = ''t'', rt_cell = ''''\<rparr>"

definition demo_sv :: "(unit, unit) service" where
  "demo_sv = new_service\<lparr>sv_resident := [(''i'', demo_resident)], sv_stores := [(''i'', demo_store)]\<rparr>"

lemma demo_live: "live ''i'' demo_resident demo_sv" "sv_pending demo_sv = []" "jq_pending (sv_queue demo_sv) = []"
  "tq_tenant_id (rt_request demo_resident) = ''me''"
  by (simp_all add: live_def demo_sv_def demo_resident_def demo_task_def close_session_def demo_session_def
      demo_config_def demo_plane_def new_service_def empty_queue_def)

theorem service_run_is_accounted_witness:
  "\<exists>sv' rec. service_run demo_setup ''i'' None demo_sv = (Inr ''0'', sv') \<and> run_status ''0'' sv' = Inr DONE \<and>
     results ''0'' ''me'' sv' = Some rec \<and> rc_status rec = ''complete''"
proof -
  obtain out sv' where r: "service_run demo_setup ''i'' None demo_sv = (out, sv')" by fastforce
  have "case service_run demo_setup ''i'' None demo_sv of (out, sv') \<Rightarrow> run_status ''0'' sv' = Inr DONE" by code_simp
  moreover have id: "sp_run_ids demo_setup (sv_runs_minted demo_sv) = ''0''" by code_simp
  moreover have "results ''0'' ''me'' demo_sv = None" by code_simp
  ultimately show ?thesis
    using service_run_is_accounted [OF demo_live(1-3) _ r] r by (auto simp: demo_live(4) split: sum.splits)
qed

theorem overlapping_runs_share_a_record_witness:
  "case submit_run demo_setup ''i'' None demo_sv of (_, sv1) \<Rightarrow>
   case submit_run demo_setup ''i'' None sv1 of (_, sv2) \<Rightarrow>
   case await_run demo_setup ''0'' sv2 of (_, sv3) \<Rightarrow>
     run_status ''0'' sv3 = Inr DONE \<and> results ''0'' ''me'' sv3 = None \<and> results ''1'' ''me'' sv3 \<noteq> None"
proof -
  obtain x1 sv1 where 1: "submit_run demo_setup ''i'' None demo_sv = (x1, sv1)" by fastforce
  obtain x2 sv2 where 2: "submit_run demo_setup ''i'' None sv1 = (x2, sv2)" by fastforce
  obtain x3 sv3 where 3: "await_run demo_setup ''0'' sv2 = (x3, sv3)" by fastforce
  have "case submit_run demo_setup ''i'' None demo_sv of (x1, sv1) \<Rightarrow>
    case submit_run demo_setup ''i'' None sv1 of (x2, sv2) \<Rightarrow> case await_run demo_setup ''0'' sv2 of (x3, sv3) \<Rightarrow>
      x1 = Inr ''0'' \<and> x2 = Inr ''1'' \<and> x3 = Inr () \<and> run_status ''0'' sv3 = Inr DONE"
    by code_simp
  then have x: "x1 = Inr ''0''" "x2 = Inr ''1''" "x3 = Inr ()" "run_status ''0'' sv3 = Inr DONE"
    using 1 2 3 by simp_all
  have j: "sp_job_ids demo_setup (sv_jobs_minted demo_sv) \<noteq> sp_job_ids demo_setup (Suc (sv_jobs_minted demo_sv))"
    "results ''0'' ''me'' demo_sv = None" by code_simp+
  have "''0'' \<noteq> ''1''" by simp
  from overlapping_runs_share_a_record [OF demo_live(1-3) 1 [unfolded x] 2 [unfolded x] this j(1) 3 [unfolded x] x(4)] j(2)
  show ?thesis using 1 2 3 x(4) by (auto simp: demo_live(4))
qed

section \<open>A created task and a restart\<close>

lemma in_task_store_put:
  assumes "in_task_store su i (put_object b) sv = (r, sv')" "map_of (sv_stores sv) i = Some s" "object_dir s"
  shows "sv_index sv' = sv_index sv \<and> (\<forall>ref. r = Inr ref \<longrightarrow> content_hash ref = sha256 s b \<and>
    map_of (sv_stores sv') i = Some (s\<lparr>dir_objects := dict_put (sha256 s b) b (dir_objects s)\<rparr>))"
  using assms
  by (auto simp: in_task_store_def store_of_def put_object_def Let_def raise_def ret_def split: prod.splits option.splits)

lemma ingest_Inr:
  assumes "ingest su i q fs sv = (Inr q', sv')" "map_of (sv_stores sv) i = Some s" "object_dir s"
  shows "sv_index sv' = sv_index sv \<and> q' = fold (\<lambda>(role, n, b). with_role_file role n (sha256 s b)) fs q \<and>
    (\<exists>s'. map_of (sv_stores sv') i = Some s' \<and> object_dir s' \<and>
       dir_objects s' = fold (\<lambda>(_, _, b). dict_put (sha256 s b) b) fs (dir_objects s))"
  using assms
proof (induction fs arbitrary: q sv s)
  case Nil
  then show ?case by (simp add: ret_eq)
next
  case (Cons f fs)
  obtain role n b where f: "f = (role, n, b)" using prod_cases3 by blast
  obtain r sv1 where r: "in_task_store su i (put_object b) sv = (r, sv1)" by fastforce
  note put = in_task_store_put [OF r Cons.prems(2,3)]
  obtain ref where ref: "r = Inr ref" "ingest su i (with_role_file role n (content_hash ref) q) fs sv1 = (Inr q', sv')"
    using Cons.prems(1) r by (auto simp: f ingest_file_def bindE_def ret_eq split: prod.splits sum.splits)
  from Cons.IH [OF ref(2), of "s\<lparr>dir_objects := dict_put (sha256 s b) b (dir_objects s)\<rparr>"] put ref(1) Cons.prems(3)
  show ?case by (simp add: f)
qed

lemma files_for_with_role_file:
  "map_of (files_for role' (tq_data (with_role_file role n h q))) n' =
     (if role' = role \<and> n' = n then Some h else map_of (files_for role' (tq_data q)) n')"
  by (auto simp: with_role_file_def data_with_role_file_def files_for_def split: option.split)

lemma files_for_fold:
  "map_of (files_for role (tq_data (fold (\<lambda>(role, n, b). with_role_file role n (h b)) fs q))) k =
     (map_of (files_for role (tq_data q)) ++ (\<lambda>n. map_of (rev (map (\<lambda>(role, n, b). ((role, n), h b)) fs)) (role, n))) k"
  by (induction fs arbitrary: q) (auto simp: files_for_with_role_file map_add_def split: option.splits)

lemma with_role_files_rest:
  "(fold (\<lambda>(role, n, b). with_role_file role n (h b)) fs q)\<lparr>tq_data := d\<rparr> = q\<lparr>tq_data := d\<rparr>"
  by (induction fs arbitrary: q) (auto simp: with_role_file_def)

lemma objects_fold:
  assumes "inj_on h ((\<lambda>(_, _, b). b) ` set fs)" "(role, n, b) \<in> set fs"
  shows "map_of (fold (\<lambda>(_, _, b). dict_put (h b) b) fs d) (h b) = Some b"
proof -
  have "map_of (fold (\<lambda>(_, _, b). dict_put (h b) b) fs d) = map_of d ++ map_of (rev (map (\<lambda>(_, _, b). (h b, b)) fs))" for d
    by (induction fs arbitrary: d) (auto simp: fun_eq_iff map_add_def split: option.splits)
  moreover have "map_of (rev (map (\<lambda>(_, _, b). (h b, b)) fs)) (h b) = Some b"
  proof -
    have "h b \<in> fst ` set (rev (map (\<lambda>(_, _, b). (h b, b)) fs))" using assms(2) by force
    then obtain b' where b': "map_of (rev (map (\<lambda>(_, _, b). (h b, b)) fs)) (h b) = Some b'"
      by (metis (no_types) map_of_eq_None_iff not_None_eq)
    then have "(h b, b') \<in> set (map (\<lambda>(_, _, b). (h b, b)) fs)" using map_of_SomeD by fastforce
    then show ?thesis using b' assms by (force dest: inj_onD)
  qed
  ultimately show ?thesis by (simp add: map_add_def)
qed

definition named_files :: "contents \<Rightarrow> (string \<times> string \<times> bytes) list" where
  "named_files files = concat (map (\<lambda>(role, named). map (\<lambda>(n, blob). (role, n, blob)) named) files)"

text \<open>C39. A created task survives the process: after a restart on the same root the task is still listed, its
  request reads back as it was given, save for the files ingested with it; each of those is recorded
  under its role and name with a hash under which its bytes are read back from the task's store, as
  long as no two of them collide.\<close>

theorem created_task_survives_restart:
  assumes "create_task su q files sv = (Inr i, sv')" "i \<notin> fst ` set (sv_stores sv)" "object_dir (sp_new_store su)"
    "inj_on (sha256 (sp_new_store su)) ((\<lambda>(_, _, b). b) ` set (named_files files))"
    "distinct (map (\<lambda>(role, n, b). (role, n)) (named_files files))"
  shows "i \<in> set (list_tasks (restart sv')) \<and> (\<exists>q'. index_get i (restart sv') = Inr (Some q') \<and>
    q'\<lparr>tq_data := tq_data q\<rparr> = q \<and>
    (\<forall>(role, n, b) \<in> set (named_files files). \<exists>h. map_of (files_for role (tq_data q')) n = Some h \<and>
       fst (service_object su i h (restart sv')) = Inr b) \<and>
    (\<forall>role n. (role, n) \<notin> (\<lambda>(role, n, b). (role, n)) ` set (named_files files) \<longrightarrow>
       map_of (files_for role (tq_data q')) n = map_of (files_for role (tq_data q)) n))"
proof -
  let ?h = "sha256 (sp_new_store su)" and ?fs = "named_files files"
  let ?sv = "sv\<lparr>sv_tasks_minted := Suc (sv_tasks_minted sv)\<rparr>"
  let ?sv1 = "?sv\<lparr>sv_stores := dict_put i (sp_new_store su) (sv_stores sv)\<rparr>"
  obtain q' sv2 where q': "ingest su i q ?fs ?sv1 = (Inr q', sv2)"
    "sv' = sv2\<lparr>sv_index := dict_put i (task_request_to_dict q') (sv_index sv2)\<rparr>"
    using assms(1,2)
    by (auto simp: create_task_def bindE_def raise_def open_task_store_def modify_def index_put_def ret_def named_files_def
        split: if_splits prod.splits sum.splits)
  have new: "map_of (sv_stores ?sv1) i = Some (sp_new_store su)" by simp
  from ingest_Inr [OF q'(1) new assms(3)] obtain s' where s':
    "q' = fold (\<lambda>(role, n, b). with_role_file role n (?h b)) ?fs q" "map_of (sv_stores sv2) i = Some s'" "object_dir s'"
    "dir_objects s' = fold (\<lambda>(_, _, b). dict_put (?h b) b) ?fs (dir_objects (sp_new_store su))"
    by auto
  have st: "map_of (sv_stores (restart sv')) i = Some (reopen s')"
    using s'(2) by (simp add: restart_def q'(2) map_of_map)
  have obj: "fst (service_object su i h (restart sv')) = get_object h (reopen s')" for h
    using map_of_SomeD [OF st] st
    by (force simp: service_object_def open_task_store_def bindE_def modify_def reads_def store_of_def)
  have ix: "index_get i (restart sv') = Inr (Some q')"
    using task_request_survives [of q'] by (simp add: index_get_def restart_def new_service_def q'(2) bindS_def)
  have "q'\<lparr>tq_data := tq_data q\<rparr> = q"
    by (simp add: s'(1) with_role_files_rest)
  moreover have "\<exists>h. map_of (files_for role (tq_data q')) n = Some h \<and> fst (service_object su i h (restart sv')) = Inr b"
    if f: "(role, n, b) \<in> set ?fs" for role n b
  proof (intro exI conjI)
    have "distinct (map fst (rev (map (\<lambda>(role, n, b). ((role, n), ?h b)) ?fs)))"
    proof -
      have "map fst (rev (map (\<lambda>(role, n, b). ((role, n), ?h b)) ?fs)) = rev (map (\<lambda>(role, n, b). (role, n)) ?fs)"
        by (simp add: rev_map comp_def case_prod_unfold)
      then show ?thesis using assms(5) by simp
    qed
    then have "map_of (rev (map (\<lambda>(role, n, b). ((role, n), ?h b)) ?fs)) (role, n) = Some (?h b)"
      using f by (force intro!: map_of_is_SomeI)
    then show "map_of (files_for role (tq_data q')) n = Some (?h b)" by (simp add: s'(1) files_for_fold map_add_def)
    show "fst (service_object su i (?h b) (restart sv')) = Inr b"
      using objects_fold [OF assms(4) f] s'(3,4) by (simp add: obj get_object_def reopen_def open_store_def)
  qed
  moreover have "map_of (files_for role (tq_data q')) n = map_of (files_for role (tq_data q)) n"
    if "(role, n) \<notin> (\<lambda>(role, n, b). (role, n)) ` set ?fs" for role n
  proof -
    have "map_of (rev (map (\<lambda>(role, n, b). ((role, n), ?h b)) ?fs)) (role, n) = None"
      using that by (force simp: map_of_eq_None_iff)
    then show ?thesis by (simp add: s'(1) files_for_fold map_add_def)
  qed
  ultimately show ?thesis
    using ix by (fastforce simp: list_tasks_def restart_def new_service_def q'(2) dom_map_of_conv_image_fst [symmetric])
qed

definition demo_disk :: "(nat, nat) service_setup" where
  "demo_disk = \<lparr>sp_catalog = cat_register (''code'', \<lambda>_ _. raise (KeyError ''-''), None) empty_catalog,
     sp_settings = demo_settings, sp_new_store = demo_store\<lparr>object_dir := True, sha256 := map (\<lambda>w. char_of (unat w))\<rparr>,
     sp_task_ids = nat_str, sp_run_ids = nat_str, sp_job_ids = nat_str\<rparr>"

theorem created_task_survives_restart_witness:
  "case create_task demo_disk demo_task [(''train'', [(''a.csv'', [1, 2])])] new_service of (out, sv') \<Rightarrow>
     out = Inr ''0'' \<and> list_tasks (restart sv') = [''0''] \<and> (\<exists>q' h. index_get ''0'' (restart sv') = Inr (Some q') \<and>
       map_of (files_for ''train'' (tq_data q')) ''a.csv'' = Some h \<and>
       fst (service_object demo_disk ''0'' h (restart sv')) = Inr [1, 2])"
proof -
  let ?fs = "[(''train'', [(''a.csv'', [1, 2])])]"
  have fs: "named_files ?fs = [(''train'', ''a.csv'', [1, 2])]" by (simp add: named_files_def)
  obtain out sv' where c: "create_task demo_disk demo_task ?fs new_service = (out, sv')" by fastforce
  have "case create_task demo_disk demo_task ?fs new_service of (out, sv') \<Rightarrow>
      out = Inr ''0'' \<and> list_tasks (restart sv') = [''0'']" by code_simp
  then have out: "out = Inr ''0''" "list_tasks (restart sv') = [''0'']" using c by simp_all
  have d: "''0'' \<notin> fst ` set (sv_stores new_service)" "object_dir (sp_new_store demo_disk)"
    "inj_on (sha256 (sp_new_store demo_disk)) ((\<lambda>(_, _, b). b) ` set (named_files ?fs))"
    "distinct (map (\<lambda>(role, n, b). (role, n)) (named_files ?fs))"
    by (simp_all add: new_service_def demo_disk_def fs)
  from created_task_survives_restart [OF c [unfolded out] d] show ?thesis
    unfolding c fs by (auto simp: out)
qed

end
