(* ===== verification/Kaggle_Gates.thy ===== *)
theory Kaggle_Gates
  imports Feature_Gates
begin

text \<open>
  \<open>domains/feature_engineering_kaggle.py\<close> and the scorer seam of \<open>verifier/kaggle.py\<close>: the gates that
  climb towards the leaderboard and spend a submission only on an attempt believed competitive. The
  code runner and the scorer are parameters with a state of their own, the measurement ledgers and the
  run cache are the gates' state, times and scores are exact fractions. Waiting for the daily budget is
  a loop that need not end: it is a partial function, and \<open>None\<close> is waiting for ever.
\<close>

section \<open>The leaderboard\<close>

definition DAILY_SUBMISSION_LIMIT :: int where "DAILY_SUBMISSION_LIMIT = 5"

text \<open>A competition of the listing: its slug and its daily cap, \<open>None\<close> where that is no integer.\<close>

fun daily_limit_from :: "(string \<times> int option) list \<Rightarrow> string \<Rightarrow> int \<Rightarrow> int" where
  "daily_limit_from [] competition fallback = fallback"
| "daily_limit_from ((slug, limit) # cs) competition fallback =
     (if slug = competition
      then (case limit of Some n \<Rightarrow> if 0 < n then n else fallback | None \<Rightarrow> fallback)
      else daily_limit_from cs competition fallback)"

definition top_fraction_threshold :: "rat list \<Rightarrow> rat \<Rightarrow> rat option" where
  "top_fraction_threshold scores fraction =
     (let vals = rev (sort scores); n = length vals in
      if n = 0 then None
      else let k = max 1 (min (int n) \<lceil>fraction * of_nat n\<rceil>) in Some (vals ! nat (k - 1)))"

record 'k kaggle_scorer =
  ks_budget :: "('k, exc, int) st"
  ks_leaderboard :: "('k, exc, rat list) st"
  ks_submit :: "bytes \<Rightarrow> string \<Rightarrow> rat \<Rightarrow> ('k, exc, rat) st"

section \<open>The gates' settings and state\<close>

definition KAGGLE_VERIFIER_IDENTITY :: string where
  "KAGGLE_VERIFIER_IDENTITY = ''feature-engineering-kaggle-verifier''"

record ('w, 'k) kaggle_setup =
  kg_runner :: "'w code_runner"
  kg_scorer :: "'k kaggle_scorer"
  kg_agent_train :: bytes
  kg_reserved_test :: bytes
  kg_labels :: "(string \<times> string) list"
  kg_full_train :: bytes
  kg_real_test :: bytes
  kg_timeout :: rat
  kg_deadline :: rat
  kg_poll :: rat
  kg_message :: string
  kg_fraction :: rat
  kg_margin :: rat
  kg_min_points :: int
  kg_pessimism :: rat
  kg_sha256 :: "bytes \<Rightarrow> string"
  kg_decode :: "bytes \<Rightarrow> string option"
  kg_show_float :: "rat \<Rightarrow> string"

record ('w, 'k) kaggle_gates =
  kg_run_cache :: "(string \<times> run_result) list"
  kg_proxy :: "(string \<times> rat) list"
  kg_real :: "(string \<times> rat) list"
  kg_world :: 'w
  kg_scorer_state :: 'k

type_synonym ('w, 'k, 'a) kaggle_op = "(('w, 'k) kaggle_gates, exc, 'a) st"

definition with_runner :: "('w, exc, 'a) st \<Rightarrow> ('w, 'k, 'a) kaggle_op" where
  "with_runner m g = (case m (kg_world g) of (r, w) \<Rightarrow> (r, g\<lparr>kg_world := w\<rparr>))"

definition with_scorer :: "('k, exc, 'a) st \<Rightarrow> ('w, 'k, 'a) kaggle_op" where
  "with_scorer m g = (case m (kg_scorer_state g) of (r, k) \<Rightarrow> (r, g\<lparr>kg_scorer_state := k\<rparr>))"

section \<open>Running the script\<close>

definition cached_run :: "('w, 'k) kaggle_setup \<Rightarrow> bytes \<Rightarrow> (string \<times> bytes) list \<Rightarrow> bytes option \<Rightarrow> string \<Rightarrow>
    ('w, 'k, run_result) kaggle_op" where
  "cached_run su code inputs reqs key =
     bindE (gets (\<lambda>g. map_of (kg_run_cache g) key)) (\<lambda>cached. case cached of
       Some result \<Rightarrow> ret result
     | None \<Rightarrow>
         bindE (with_runner (kg_runner su \<lparr>rq_code = code, rq_entrypoint = ENTRYPOINT, rq_inputs = inputs,
             rq_output_name = PREDICTIONS_OUTPUT, rq_timeout = kg_timeout su, rq_requirements = reqs,
             rq_network = True, rq_env = RUN_ENV\<rparr>)) (\<lambda>result.
         bindE (modify (kg_run_cache_update (dict_put key result))) (\<lambda>_.
         ret result)))"

definition proxy_key :: "('w, 'k) kaggle_setup \<Rightarrow> bytes \<Rightarrow> string" where
  "proxy_key su code = kg_sha256 su code @ '':proxy''"

definition kaggle_key :: "('w, 'k) kaggle_setup \<Rightarrow> bytes \<Rightarrow> string" where
  "kaggle_key su code = kg_sha256 su code @ '':kaggle''"

definition proxy_run :: "('w, 'k) kaggle_setup \<Rightarrow> verifier_request \<Rightarrow> ('w, 'k, run_result option) kaggle_op" where
  "proxy_run su request = (case map_of (vr_objects request) ENTRYPOINT of
      None \<Rightarrow> ret None
    | Some code \<Rightarrow> bindE (cached_run su code [(TRAIN_INPUT, kg_agent_train su), (TEST_INPUT, kg_reserved_test su)]
        (map_of (vr_objects request) REQUIREMENTS) (proxy_key su code)) (\<lambda>result. ret (Some result)))"

text \<open>\<open>_best\<close>: the first of the best accepted artifacts of the slice, by the gate's own ledger or by the
  score recorded for the gate.\<close>

definition gate_score :: "(string \<times> rat) list \<Rightarrow> verifier_request \<Rightarrow> string \<Rightarrow> artifact \<Rightarrow> rat option" where
  "gate_score ledger request gate a =
     (if art_status a \<noteq> ACCEPTED then None
      else case map_of ledger (art_id a) of
        Some x \<Rightarrow> Some x
      | None \<Rightarrow> (case map_of (vr_scores request) (art_id a) of Some recorded \<Rightarrow> map_of recorded gate | None \<Rightarrow> None))"

definition best_accepted :: "(string \<times> rat) list \<Rightarrow> verifier_request \<Rightarrow> string \<Rightarrow> string option \<times> rat" where
  "best_accepted ledger request gate =
     (case List.map_filter (\<lambda>a. map_option (\<lambda>x. (art_id a, x)) (gate_score ledger request gate a)) (vr_slice request) of
        [] \<Rightarrow> (None, 0)
      | p # ps \<Rightarrow> (case max_pair p ps of (i, x) \<Rightarrow> (Some i, x)))"

section \<open>The cheap gates\<close>

definition uncovered :: "('w, 'k) kaggle_setup \<Rightarrow> predictions \<Rightarrow> string list" where
  "uncovered su preds = filter (\<lambda>i. i \<notin> fst ` set preds) (map fst (kg_labels su))"

definition holdout_verdict :: "('w, 'k) kaggle_setup \<Rightarrow> run_result option \<Rightarrow> gate_verdict" where
  "holdout_verdict su r =
     (case r of
        None \<Rightarrow> verdict REJECT (''no '' @ py_repr ENTRYPOINT @ '' attachment to run'')
      | Some result \<Rightarrow>
          if rr_timed_out result then verdict REJECT ''submission timed out before completing''
          else if rr_exit_code result \<noteq> 0
          then verdict REJECT (''submission exited '' @ int_str (rr_exit_code result) @ '': '' @ stderr_tail (rr_stderr result))
          else (case parse_predictions (kg_decode su) (rr_output result) of
              None \<Rightarrow> verdict REJECT (''no well-formed '' @ PREDICTIONS_OUTPUT @ '' produced'')
            | Some preds \<Rightarrow>
                if uncovered su preds \<noteq> []
                then verdict REJECT (''predictions cover '' @ nat_str (length preds) @ '' of '' @
                  nat_str (length (kg_labels su)) @ '' reserved rows'')
                else verdict ACCEPT ''runs clean on the hold-out''))"

definition kaggle_runnable :: "('w, 'k) kaggle_setup \<Rightarrow> verifier_request \<Rightarrow> ('w, 'k, gate_verdict) kaggle_op" where
  "kaggle_runnable su request = bindE (proxy_run su request) (\<lambda>r. ret (holdout_verdict su r))"

definition holdout_predictions :: "('w, 'k) kaggle_setup \<Rightarrow> run_result option \<Rightarrow> predictions option" where
  "holdout_predictions su r = (case r of
      None \<Rightarrow> None | Some result \<Rightarrow> parse_predictions (kg_decode su) (rr_output result))"

definition scored :: "rat \<Rightarrow> gate_verdict \<Rightarrow> gate_verdict" where
  "scored x v = v\<lparr>gv_score := Some x\<rparr>"

definition note_proxy :: "verifier_request \<Rightarrow> rat \<Rightarrow> ('w, 'k, unit) kaggle_op" where
  "note_proxy request x = modify (kg_proxy_update (dict_put (art_id (vr_proposal request)) x))"

definition proxy_verdict :: "('w, 'k) kaggle_setup \<Rightarrow> rat \<Rightarrow> rat \<Rightarrow> gate_verdict" where
  "proxy_verdict su net best =
     (let detail = ''local proxy balanced-accuracy '' @ fmt4 net @ '' vs best accepted '' @ fmt4 best @
        '' (margin '' @ fmt4 (kg_margin su) @ '')''
      in scored net (if net \<le> best + kg_margin su
           then verdict REJECT (''no local improvement: '' @ detail)
           else verdict ACCEPT (''local improvement: '' @ detail)))"

definition proxy_improves :: "('w, 'k) kaggle_setup \<Rightarrow> verifier_request \<Rightarrow> ('w, 'k, gate_verdict) kaggle_op" where
  "proxy_improves su request =
     bindE (proxy_run su request) (\<lambda>r. case holdout_predictions su r of
       None \<Rightarrow> ret (verdict REJECT ''no scorable hold-out predictions'')
     | Some preds \<Rightarrow>
         let net = balanced_accuracy (kg_labels su) preds in
         bindE (note_proxy request net) (\<lambda>_.
         bindE (gets (\<lambda>g. snd (best_accepted (kg_proxy g) request ''proxy-improves''))) (\<lambda>best.
         ret (proxy_verdict su net best))))"

text \<open>The proxy scores of the artifacts that also have a real one.\<close>

definition calibration_pairs :: "(string \<times> rat) list \<Rightarrow> (string \<times> rat) list \<Rightarrow> (rat \<times> rat) list" where
  "calibration_pairs proxies reals =
     List.map_filter (\<lambda>(i, public). map_option (\<lambda>p. (p, public)) (map_of proxies i)) reals"

definition clamp01 :: "rat \<Rightarrow> rat" where
  "clamp01 x = max 0 (min 1 x)"

definition calibrated_estimate :: "('w, 'k) kaggle_setup \<Rightarrow> (string \<times> rat) list \<Rightarrow> (string \<times> rat) list \<Rightarrow> rat \<Rightarrow> exc + rat" where
  "calibrated_estimate su proxies reals proxy =
     (let pairs = calibration_pairs proxies reals in
      if kg_min_points su \<le> int (length pairs)
      then if pairs = [] then Inl (OtherError ''division by zero'')
        else Inr (clamp01 (proxy + (\<Sum>(p, public)\<leftarrow>pairs. public - p) / of_nat (length pairs)))
      else Inr (clamp01 (proxy - kg_pessimism su)))"

text \<open>\<open>{x:.0%}\<close> and \<open>{x:.5f}\<close>\<close>

definition percent0 :: "rat \<Rightarrow> string" where
  "percent0 x = (if x < 0 then ''-'' else '''') @ nat_str (nat (round_half_even (\<bar>x\<bar> * 100))) @ ''%''"

definition fmt5 :: "rat \<Rightarrow> string" where
  "fmt5 x = (let n = nat (round_half_even (\<bar>x\<bar> * 100000)); fr = nat_str (n mod 100000) in
     (if x < 0 then ''-'' else '''') @ nat_str (n div 100000) @ ''.'' @ replicate (5 - length fr) (CHR ''0'') @ fr)"

definition competitive_verdict :: "('w, 'k) kaggle_setup \<Rightarrow> rat \<Rightarrow> rat \<Rightarrow> gate_verdict" where
  "competitive_verdict su estimate t =
       (let line = ''top-'' @ percent0 (kg_fraction su) @ '' bar'' in
        if estimate < t
        then let msg = ''below the '' @ line @ '': estimated public score '' @ fmt4 estimate @ '' vs target '' @ fmt4 t @
               '' (gap '' @ fmt4 (t - estimate) @ ''); keep improving the held-out score before we spend a submission''
             in \<lparr>gv_kind = REFINE, gv_rationale = msg, gv_defects = Some [msg], gv_score = Some estimate, gv_supersedes = None\<rparr>
        else scored estimate (verdict ACCEPT (''clears the '' @ line @ '': estimated public score '' @ fmt4 estimate @
               '' >= target '' @ fmt4 t)))"

definition proxy_score :: "('w, 'k) kaggle_setup \<Rightarrow> verifier_request \<Rightarrow> ('w, 'k, rat option) kaggle_op" where
  "proxy_score su request =
     bindE (gets (\<lambda>g. map_of (kg_proxy g) (art_id (vr_proposal request)))) (\<lambda>known. case known of
       Some x \<Rightarrow> ret (Some x)
     | None \<Rightarrow> bindE (proxy_run su request) (\<lambda>r. case holdout_predictions su r of
           None \<Rightarrow> ret None
         | Some preds \<Rightarrow>
             let x = balanced_accuracy (kg_labels su) preds in
             bindE (note_proxy request x) (\<lambda>_. ret (Some x))))"

definition competitive :: "('w, 'k) kaggle_setup \<Rightarrow> verifier_request \<Rightarrow> ('w, 'k, gate_verdict) kaggle_op" where
  "competitive su request =
     bindE (proxy_score su request) (\<lambda>proxy. case proxy of
       None \<Rightarrow> ret (verdict REJECT ''no scorable hold-out predictions'')
     | Some x \<Rightarrow>
         bindE (with_scorer (ks_leaderboard (kg_scorer su))) (\<lambda>scores.
         case top_fraction_threshold scores (kg_fraction su) of
           None \<Rightarrow> ret (verdict ACCEPT ''leaderboard unavailable; competitive bar skipped'')
         | Some target \<Rightarrow>
             bindE (reads (\<lambda>g. calibrated_estimate su (kg_proxy g) (kg_real g) x)) (\<lambda>estimate.
             ret (competitive_verdict su estimate target))))"

section \<open>The leaderboard gate\<close>

definition no_budget :: "('w, 'k) kaggle_setup \<Rightarrow> exc" where
  "no_budget su = GateUnavailable (''no Kaggle submission budget within '' @ kg_show_float su (kg_deadline su) @ ''s (daily cap)'')"

partial_function (option) await_loop :: "('w, 'k) kaggle_setup \<Rightarrow> rat \<Rightarrow> 'k \<Rightarrow> ((exc + unit) \<times> 'k) option" where
  "await_loop su waited k =
     (case ks_budget (kg_scorer su) k of
        (Inl e, k') \<Rightarrow> Some (Inl e, k')
      | (Inr n, k') \<Rightarrow>
          if 0 < n then Some (Inr (), k')
          else if kg_deadline su \<le> waited then Some (Inl (no_budget su), k')
          else await_loop su (waited + kg_poll su) k')"

definition await_budget :: "('w, 'k) kaggle_setup \<Rightarrow> ('k, exc, unit) st" where
  "await_budget su k = the (await_loop su 0 k)"

definition submission_verdict :: "rat \<Rightarrow> string option \<times> rat \<Rightarrow> gate_verdict" where
  "submission_verdict public = (\<lambda>(best_id, best).
     let detail = ''Kaggle public score '' @ fmt5 public @ '' vs best accepted '' @ fmt5 best in
     if best < public
     then \<lparr>gv_kind = ACCEPT, gv_rationale = ''improves on the leaderboard: '' @ detail, gv_defects = None,
            gv_score = Some public, gv_supersedes = best_id\<rparr>
     else scored public (verdict REJECT (''no leaderboard improvement: '' @ detail)))"

definition kaggle :: "('w, 'k) kaggle_setup \<Rightarrow> verifier_request \<Rightarrow> ('w, 'k, gate_verdict) kaggle_op" where
  "kaggle su request = (case map_of (vr_objects request) ENTRYPOINT of
      None \<Rightarrow> ret (verdict REJECT (''no '' @ py_repr ENTRYPOINT @ '' attachment to submit''))
    | Some code \<Rightarrow>
        bindE (cached_run su code [(TRAIN_INPUT, kg_full_train su), (TEST_INPUT, kg_real_test su)]
          (map_of (vr_objects request) REQUIREMENTS) (kaggle_key su code)) (\<lambda>result.
        case (if rr_timed_out result \<or> rr_exit_code result \<noteq> 0 \<or>
                parse_predictions (kg_decode su) (rr_output result) = None then None else rr_output result) of
          None \<Rightarrow> ret (verdict REJECT ''submission did not regenerate a valid file on the real test'')
        | Some output \<Rightarrow>
            bindE (with_scorer (await_budget su)) (\<lambda>_.
            bindE (with_scorer (ks_submit (kg_scorer su) output (kg_message su) (kg_deadline su))) (\<lambda>public.
            bindE (modify (kg_real_update (dict_put (art_id (vr_proposal request)) public))) (\<lambda>_.
            bindE (gets (\<lambda>g. best_accepted (kg_real g) request ''kaggle'')) (\<lambda>best.
            ret (submission_verdict public best)))))))"

text \<open>\<open>build_feature_engineering_kaggle_verifier\<close>: every gate always rules.\<close>

definition ruling :: "('w, 'k, gate_verdict) kaggle_op \<Rightarrow> ('w, 'k, gate_verdict option) kaggle_op" where
  "ruling m = bindE m (\<lambda>v. ret (Some v))"

definition ruling_step :: "string \<Rightarrow> (verifier_request \<Rightarrow> ('w, 'k, gate_verdict) kaggle_op) \<Rightarrow> bool \<Rightarrow>
    ('w, 'k) kaggle_gates gate_step" where
  "ruling_step n gate hard =
     \<lparr>gs_gate = n, gs_plugin = ruling \<circ> gate, gs_is_hard = hard, gs_requires_human = False\<rparr>"

definition kaggle_steps :: "('w, 'k) kaggle_setup \<Rightarrow> ('w, 'k) kaggle_gates gate_step list" where
  "kaggle_steps su =
     [ruling_step ''runs-clean'' (kaggle_runnable su) False, ruling_step ''proxy-improves'' (proxy_improves su) False,
      ruling_step ''competitive'' (competitive su) False, ruling_step ''kaggle'' (kaggle su) True]"

definition build_kaggle_verifier :: "('w, 'k) kaggle_setup \<Rightarrow> exc + ('w, 'k) kaggle_gates pipelines" where
  "build_kaggle_verifier su =
     bindS (check_pipelines [(SUBMISSION, kaggle_steps su)]) (\<lambda>_. Inr [(SUBMISSION, kaggle_steps su)])"

section \<open>Waiting for the budget\<close>

text \<open>The scorer after some readings of the budget.\<close>

definition after_reads :: "('w, 'k) kaggle_setup \<Rightarrow> nat \<Rightarrow> 'k \<Rightarrow> 'k" where
  "after_reads su n = ((snd \<circ> ks_budget (kg_scorer su)) ^^ n)"

definition reading :: "('w, 'k) kaggle_setup \<Rightarrow> nat \<Rightarrow> 'k \<Rightarrow> exc + int" where
  "reading su n k = fst (ks_budget (kg_scorer su) (after_reads su n k))"

lemma after_reads_simps [simp]:
  "after_reads su 0 k = k"
  "after_reads su (Suc n) k = after_reads su n (snd (ks_budget (kg_scorer su) k))"
  "reading su 0 k = fst (ks_budget (kg_scorer su) k)"
  "reading su (Suc n) k = reading su n (snd (ks_budget (kg_scorer su) k))"
  by (simp_all add: after_reads_def reading_def funpow_Suc_right del: funpow.simps)

lemma await_loop_returns:
  assumes "0 < kg_poll su"
  shows "\<exists>n r. await_loop su waited k = Some (r, after_reads su (Suc n) k) \<and>
    n \<le> nat \<lceil>(kg_deadline su - waited) / kg_poll su\<rceil> \<and>
    (\<forall>m < n. \<exists>b \<le> 0. reading su m k = Inr b) \<and>
    (case reading su n k of
       Inl e \<Rightarrow> r = Inl e
     | Inr b \<Rightarrow> if 0 < b then r = Inr () else r = Inl (no_budget su) \<and> kg_deadline su \<le> waited + of_nat n * kg_poll su)"
proof (induction "nat \<lceil>(kg_deadline su - waited) / kg_poll su\<rceil>" arbitrary: waited k rule: less_induct)
  case less
  obtain r k' where b: "ks_budget (kg_scorer su) k = (r, k')" by fastforce
  note step = await_loop.simps [of su waited k, unfolded b prod.case]
  show ?case
  proof (cases "\<exists>n. r = Inr n \<and> n \<le> 0 \<and> waited < kg_deadline su")
    case False
    then show ?thesis using step b by (intro exI [of _ 0]) (cases r; auto)
  next
    case True
    then obtain n where n: "r = Inr n" "n \<le> 0" "waited < kg_deadline su" by blast
    let ?w = "waited + kg_poll su"
    have frac: "(kg_deadline su - ?w) / kg_poll su = (kg_deadline su - waited) / kg_poll su - 1"
      using assms by (simp add: field_simps)
    have pos: "0 < (kg_deadline su - waited) / kg_poll su" using n(3) assms by simp
    have dec: "nat \<lceil>(kg_deadline su - waited) / kg_poll su\<rceil> = Suc (nat \<lceil>(kg_deadline su - ?w) / kg_poll su\<rceil>)"
      using pos unfolding frac by (simp add: ceiling_diff_one Suc_nat_eq_nat_zadd1)
    have "nat \<lceil>(kg_deadline su - ?w) / kg_poll su\<rceil> < nat \<lceil>(kg_deadline su - waited) / kg_poll su\<rceil>" using dec by simp
    from less [OF this, of k'] obtain m q where m: "await_loop su ?w k' = Some (q, after_reads su (Suc m) k')"
      "m \<le> nat \<lceil>(kg_deadline su - ?w) / kg_poll su\<rceil>" "\<forall>j < m. \<exists>b \<le> 0. reading su j k' = Inr b"
      "case reading su m k' of Inl e \<Rightarrow> q = Inl e
       | Inr b \<Rightarrow> if 0 < b then q = Inr () else q = Inl (no_budget su) \<and> kg_deadline su \<le> ?w + of_nat m * kg_poll su"
      by blast
    show ?thesis
    proof (intro exI [of _ "Suc m"] exI [of _ q] conjI)
      show "await_loop su waited k = Some (q, after_reads su (Suc (Suc m)) k)" using step n m(1) b by simp
      show "Suc m \<le> nat \<lceil>(kg_deadline su - waited) / kg_poll su\<rceil>" using m(2) dec by simp
      show "\<forall>j < Suc m. \<exists>b \<le> 0. reading su j k = Inr b" using m(3) n b by (auto simp: less_Suc_eq_0_disj)
    qed (use m(4) b in \<open>auto simp: field_simps split: sum.splits if_splits\<close>)
  qed
qed

lemma await_budget_Inr:
  assumes "0 < kg_poll su" "await_budget su k = (r, k')" "P k" "\<And>k. P k \<Longrightarrow> P (snd (ks_budget (kg_scorer su) k))"
  shows "P k' \<and> (r = Inr () \<longrightarrow> (\<exists>k0 n. ks_budget (kg_scorer su) k0 = (Inr n, k') \<and> 0 < n))"
proof -
  have P: "P (after_reads su n k)" for n using assms(3) by (induction n arbitrary: k) (auto intro: assms(4))
  obtain n q where q: "await_loop su 0 k = Some (q, after_reads su (Suc n) k)"
    "case reading su n k of Inl e \<Rightarrow> q = Inl e
     | Inr b \<Rightarrow> if 0 < b then q = Inr () else q = Inl (no_budget su) \<and> kg_deadline su \<le> 0 + of_nat n * kg_poll su"
    using await_loop_returns [OF assms(1), of 0 k] by blast
  then have n: "q = r" "k' = after_reads su (Suc n) k" using assms(2) by (simp_all add: await_budget_def)
  have suc: "after_reads su (Suc n) k = snd (ks_budget (kg_scorer su) (after_reads su n k))"
    by (simp add: after_reads_def del: after_reads_simps)
  have "\<exists>k0 n. ks_budget (kg_scorer su) k0 = (Inr n, k') \<and> 0 < n" if "r = Inr ()"
    using q(2) that suc n
    by (intro exI [of _ "after_reads su n k"])
      (cases "ks_budget (kg_scorer su) (after_reads su n k)"; auto simp: reading_def split: sum.splits if_splits)
  then show ?thesis using P [of "Suc n"] n(2) by simp
qed

section \<open>What a place at the threshold is worth\<close>

lemma count_above_nth:
  assumes "sorted (rev vals)" "j < length vals"
  shows "length (filter (\<lambda>s. vals ! j < s) vals) \<le> j"
proof -
  have "\<not> vals ! j < vals ! i" if "j \<le> i" "i < length vals" for i
    using sorted_rev_nth_mono [OF assms(1) that] by simp
  then have "filter (\<lambda>s. vals ! j < s) (drop j vals) = []"
    by (auto simp: filter_empty_conv in_set_conv_nth)
  then have "filter (\<lambda>s. vals ! j < s) vals = filter (\<lambda>s. vals ! j < s) (take j vals)"
    by (metis append_Nil2 append_take_drop_id filter_append)
  then show ?thesis using length_filter_le [of "\<lambda>s. vals ! j < s" "take j vals"] by simp
qed

lemma top_fraction_threshold_place:
  assumes "top_fraction_threshold scores fraction = Some t" "0 < fraction" "t \<le> e"
  shows "of_nat (length (filter (\<lambda>s. e < s) scores)) < fraction * of_nat (length scores)"
proof -
  let ?vals = "rev (sort scores)" and ?n = "length scores"
  define k where "k = max 1 (min (int ?n) \<lceil>fraction * of_nat ?n\<rceil>)"
  have n: "0 < ?n" and t: "t = ?vals ! nat (k - 1)"
    using assms(1) by (auto simp: top_fraction_threshold_def Let_def k_def split: if_splits)
  have pos: "0 < fraction * of_nat ?n" using n assms(2) by simp
  have k: "1 \<le> k" "k \<le> int ?n" "k \<le> \<lceil>fraction * of_nat ?n\<rceil>"
    using n pos by (auto simp: k_def Suc_le_eq)
  have "length (filter (\<lambda>s. e < s) scores) \<le> length (filter (\<lambda>s. t < s) scores)"
    using assms(3) by (induction scores) auto
  also have "\<dots> = length (filter (\<lambda>s. t < s) ?vals)"
    by (metis (no_types) filter_sort length_rev length_sort rev_filter)
  also have "\<dots> \<le> nat (k - 1)" unfolding t using k n by (intro count_above_nth) auto
  finally have "rat_of_nat (length (filter (\<lambda>s. e < s) scores)) \<le> of_int (k - 1)"
    using k(1) by (simp add: of_nat_le_iff [where 'a = rat, symmetric] del: of_nat_le_iff)
  also have "\<dots> < fraction * of_nat ?n" using k(3) by linarith
  finally show ?thesis .
qed

section \<open>What each gate establishes\<close>

text \<open>The script passed on the hold-out: its run there is in the cache, clean and covering.\<close>

definition proven_locally :: "('w, 'k) kaggle_setup \<Rightarrow> verifier_request \<Rightarrow> ('w, 'k) kaggle_gates \<Rightarrow> predictions \<Rightarrow> bool" where
  "proven_locally su request g preds \<longleftrightarrow>
     (\<exists>code run. map_of (vr_objects request) ENTRYPOINT = Some code \<and>
        map_of (kg_run_cache g) (proxy_key su code) = Some run \<and> \<not> rr_timed_out run \<and> rr_exit_code run = 0 \<and>
        parse_predictions (kg_decode su) (rr_output run) = Some preds \<and> fst ` set (kg_labels su) \<subseteq> fst ` set preds)"

text \<open>Its output on the real data.\<close>

definition regenerated :: "('w, 'k) kaggle_setup \<Rightarrow> verifier_request \<Rightarrow> ('w, 'k) kaggle_gates \<Rightarrow> bytes \<Rightarrow> bool" where
  "regenerated su request g output \<longleftrightarrow>
     (\<exists>code run. map_of (vr_objects request) ENTRYPOINT = Some code \<and>
        map_of (kg_run_cache g) (kaggle_key su code) = Some run \<and> \<not> rr_timed_out run \<and> rr_exit_code run = 0 \<and>
        rr_output run = Some output \<and> parse_predictions (kg_decode su) (Some output) \<noteq> None)"

text \<open>The estimate leaves fewer than the fraction of the leaderboard above it, if there is one.\<close>

definition believed_competitive :: "('w, 'k) kaggle_setup \<Rightarrow> (string \<times> rat) list \<Rightarrow> (string \<times> rat) list \<Rightarrow> rat \<Rightarrow>
    rat list \<Rightarrow> bool" where
  "believed_competitive su proxies reals net scores \<longleftrightarrow> scores = [] \<or>
     (\<exists>e. calibrated_estimate su proxies reals net = Inr e \<and>
        of_nat (length (filter (\<lambda>s. e < s) scores)) < kg_fraction su * of_nat (length scores))"

lemma kind_simps [simp]:
  "gv_kind (verdict kd m) = kd" "gv_kind (scored x v) = gv_kind v"
  "gv_kind (competitive_verdict su e t) = (if e < t then REFINE else ACCEPT)"
  "gv_kind (submission_verdict x best) = (if snd best < x then ACCEPT else REJECT)"
  "gv_kind (proxy_verdict su x y) = (if x \<le> y + kg_margin su then REJECT else ACCEPT)"
  by (simp_all add: verdict_def scored_def proxy_verdict_def competitive_verdict_def submission_verdict_def Let_def split: prod.split)

lemma cached_run_Inr:
  assumes "cached_run su code inputs reqs key g = (Inr run, g')"
  shows "map_of (kg_run_cache g') key = Some run \<and> map_of (kg_run_cache g) \<subseteq>\<^sub>m map_of (kg_run_cache g') \<and>
    kg_proxy g' = kg_proxy g \<and> kg_real g' = kg_real g \<and> kg_scorer_state g' = kg_scorer_state g \<and>
    (map_of (kg_run_cache g) key \<noteq> None \<longrightarrow> g' = g)"
proof (cases "map_of (kg_run_cache g) key")
  case None
  then show ?thesis using assms
    by (auto simp: cached_run_def bindE_def gets_def ret_def modify_def with_runner_def map_le_def split: prod.splits sum.splits)
next
  case (Some r)
  then show ?thesis using assms by (auto simp: cached_run_def bindE_def gets_def ret_def)
qed

lemma cached_run_hit:
  "map_of (kg_run_cache g) key = Some run \<Longrightarrow> cached_run su code inputs reqs key g = (Inr run, g)"
  by (simp add: cached_run_def bindE_def gets_def ret_def)

lemma keeps_scorer:
  "keeps (\<lambda>g. P (kg_scorer_state g)) (with_runner m)"
  "keeps (\<lambda>g. P (kg_scorer_state g)) (modify (kg_run_cache_update f))"
  "keeps (\<lambda>g. P (kg_scorer_state g)) (modify (kg_proxy_update f2))"
  by (auto simp: keeps_def with_runner_def modify_def split: prod.split)

lemma keeps_cached_run: "keeps (\<lambda>g. P (kg_scorer_state g)) (cached_run su code inputs reqs key)"
  unfolding cached_run_def by (intro keeps_bindE keeps_gets keeps_option keeps_ret keeps_scorer)

lemma keeps_proxy_run: "keeps (\<lambda>g. P (kg_scorer_state g)) (proxy_run su request)"
  unfolding proxy_run_def by (intro keeps_bindE keeps_option keeps_ret keeps_cached_run)

lemma kaggle_runnable_Inr:
  assumes "kaggle_runnable su request g = (Inr v, g')"
  shows "kg_real g' = kg_real g \<and> (gv_kind v = REJECT \<or> gv_kind v = ACCEPT \<and> (\<exists>preds. proven_locally su request g' preds))"
proof (cases "map_of (vr_objects request) ENTRYPOINT")
  case None
  then show ?thesis using assms by (auto simp: kaggle_runnable_def proxy_run_def bindE_def ret_def holdout_verdict_def)
next
  case (Some code)
  then obtain run where run: "cached_run su code [(TRAIN_INPUT, kg_agent_train su), (TEST_INPUT, kg_reserved_test su)]
      (map_of (vr_objects request) REQUIREMENTS) (proxy_key su code) g = (Inr run, g')" "v = holdout_verdict su (Some run)"
    using assms by (auto simp: kaggle_runnable_def proxy_run_def bindE_def ret_def split: prod.splits sum.splits)
  show ?thesis using cached_run_Inr [OF run(1)] Some run(2)
    by (auto simp: holdout_verdict_def proven_locally_def uncovered_def filter_empty_conv split: option.splits)
qed

lemma proven_proxy_run:
  assumes "proven_locally su request g preds"
  shows "\<exists>r. proxy_run su request g = (Inr r, g) \<and> holdout_predictions su r = Some preds"
  using assms by (auto simp: proven_locally_def proxy_run_def cached_run_hit bindE_def ret_def holdout_predictions_def)

lemma proxy_improves_Inr:
  assumes "proven_locally su request g preds" "proxy_improves su request g = (Inr v, g')"
  shows "g' = g\<lparr>kg_proxy := dict_put (art_id (vr_proposal request)) (balanced_accuracy (kg_labels su) preds) (kg_proxy g)\<rparr> \<and>
    (gv_kind v = REJECT \<or> gv_kind v = ACCEPT \<and>
       snd (best_accepted (kg_proxy g') request ''proxy-improves'') + kg_margin su < balanced_accuracy (kg_labels su) preds)"
proof -
  obtain r where r: "proxy_run su request g = (Inr r, g)" "holdout_predictions su r = Some preds"
    using proven_proxy_run [OF assms(1)] by blast
  show ?thesis using assms(2) r
    by (auto simp: proxy_improves_def bindE_def ret_def note_proxy_def modify_def gets_def Let_def not_le split: if_splits)
qed

lemma competitive_Inr:
  assumes "map_of (kg_proxy g) (art_id (vr_proposal request)) = Some net" "competitive su request g = (Inr v, g')"
    "0 < kg_fraction su"
  shows "\<exists>scores k. ks_leaderboard (kg_scorer su) (kg_scorer_state g) = (Inr scores, k) \<and> g' = g\<lparr>kg_scorer_state := k\<rparr> \<and>
    (gv_kind v = REFINE \<or> gv_kind v = ACCEPT \<and> believed_competitive su (kg_proxy g') (kg_real g') net scores)"
proof -
  have pr: "proxy_score su request g = (Inr (Some net), g)"
    using assms(1) by (simp add: proxy_score_def bindE_def gets_def ret_def)
  obtain scores k where k: "ks_leaderboard (kg_scorer su) (kg_scorer_state g) = (Inr scores, k)"
    using assms(2) pr by (auto simp: competitive_def bindE_def with_scorer_def split: prod.splits sum.splits)
  let ?g = "g\<lparr>kg_scorer_state := k\<rparr>"
  have step: "(case top_fraction_threshold scores (kg_fraction su) of
           None \<Rightarrow> ret (verdict ACCEPT ''leaderboard unavailable; competitive bar skipped'')
         | Some target \<Rightarrow>
             bindE (reads (\<lambda>g. calibrated_estimate su (kg_proxy g) (kg_real g) net)) (\<lambda>estimate.
             ret (competitive_verdict su estimate target))) ?g = (Inr v, g')"
    using assms(2) pr k by (simp add: competitive_def bindE_def with_scorer_def)
  show ?thesis
  proof (cases "top_fraction_threshold scores (kg_fraction su)")
    case None
    then have "scores = []" by (auto simp: top_fraction_threshold_def Let_def split: if_splits)
    then show ?thesis using step None k by (auto simp: ret_def believed_competitive_def)
  next
    case (Some t)
    then obtain e where e: "calibrated_estimate su (kg_proxy g) (kg_real g) net = Inr e" "v = competitive_verdict su e t" "g' = ?g"
      using step by (auto simp: bindE_def reads_def ret_def split: sum.splits)
    show ?thesis
    proof (cases "e < t")
      case True
      then show ?thesis using e k by auto
    next
      case False
      then show ?thesis using e k top_fraction_threshold_place [OF Some assms(3), of e]
        by (auto simp: believed_competitive_def)
    qed
  qed
qed

section \<open>The pipeline\<close>

definition kaggle_decision :: "string \<Rightarrow> gate_verdict \<Rightarrow> gate_decision" where
  "kaggle_decision n v = \<lparr>gd_gate = n, gd_kind = gv_kind v, gd_rationale = gv_rationale v,
     gd_defects = gv_defects v, gd_score = gv_score v\<rparr>"

text \<open>One gate of the pipeline: a rejection or a refinement ends it.\<close>

definition ruled :: "gate_decision list \<Rightarrow> string \<Rightarrow> ('w, 'k, gate_verdict) kaggle_op \<Rightarrow>
    (gate_decision list \<Rightarrow> gate_verdict \<Rightarrow> ('w, 'k, verdict_bundle) kaggle_op) \<Rightarrow> ('w, 'k, verdict_bundle) kaggle_op" where
  "ruled ds n m next_gate = bindE m (\<lambda>v. let ds' = ds @ [kaggle_decision n v] in
     if gv_kind v = REJECT then ret (mk_bundle REJECTED ds' None)
     else if gv_kind v = REFINE then ret (mk_bundle REVISED ds' None)
     else next_gate ds' v)"

lemma stage_ruled:
  "bindE (run_stage (ruling_step n f h # rest) request (ds, sby, k)) (or_return F) =
     ruled ds n (f request) (\<lambda>ds' v. bindE (run_stage rest request (ds',
       (case gv_supersedes v of Some j \<Rightarrow> if h then List.insert j sby else sby | None \<Rightarrow> sby), Suc k)) (or_return F))"
proof
  fix g
  obtain r g1 where m: "f request g = (r, g1)" by fastforce
  show "bindE (run_stage (ruling_step n f h # rest) request (ds, sby, k)) (or_return F) g =
     ruled ds n (f request) (\<lambda>ds' v. bindE (run_stage rest request (ds',
       (case gv_supersedes v of Some j \<Rightarrow> if h then List.insert j sby else sby | None \<Rightarrow> sby), Suc k)) (or_return F)) g"
  proof (cases r)
    case (Inl e)
    then show ?thesis using m by (simp add: ruling_step_def ruling_def ruled_def bindE_def)
  next
    case (Inr v)
    then show ?thesis using m
      by (cases "gv_supersedes v")
        (simp_all add: ruling_step_def ruling_def ruled_def bindE_def ret_def or_return_def step_decision_def kaggle_decision_def Let_def)
  qed
qed

lemma stage_end: "bindE (run_stage [] request acc) (or_return F) = F acc"
  by (simp add: fun_eq_iff bindE_def ret_def or_return_def)

lemma kaggle_pipeline:
  "run_pipeline (kaggle_steps su) request =
     ruled [] ''runs-clean'' (kaggle_runnable su request) (\<lambda>ds _.
     ruled ds ''proxy-improves'' (proxy_improves su request) (\<lambda>ds _.
     ruled ds ''competitive'' (competitive su request) (\<lambda>ds _.
     ruled ds ''kaggle'' (kaggle su request) (\<lambda>ds v. ret (mk_bundle ACCEPTED ds (gv_supersedes v))))))"
proof -
  have sel: "gs_is_hard (ruling_step n f h) = h" for n h and f :: "verifier_request \<Rightarrow> ('w, 'k, gate_verdict) kaggle_op"
    by (simp add: ruling_step_def)
  have same: "(case x of Some j \<Rightarrow> sby | None \<Rightarrow> sby) = sby" for x :: "string option" and sby
    by (cases x) simp_all
  have fin: "conclude (kaggle_steps su) request (ds, (case x of Some j \<Rightarrow> List.insert j [] | None \<Rightarrow> []), Suc 0) =
      ret (mk_bundle ACCEPTED ds x)" for ds x
    by (cases x) (simp_all add: conclude_def hard_steps_def kaggle_steps_def sel)
  show ?thesis
    unfolding run_pipeline_def
    by (simp only: kaggle_steps_def [of su] cheap_steps_def hard_steps_def filter.simps sel if_True if_False not_True_eq_False
        not_False_eq_True stage_ruled stage_end prod.case same fin [unfolded kaggle_steps_def])
qed

text \<open>Either the pipeline ends before the leaderboard gate, or that gate is asked last.\<close>

definition untouched :: "('k \<Rightarrow> bool) \<Rightarrow> exc + verdict_bundle \<Rightarrow> ('w, 'k) kaggle_gates \<Rightarrow> bool" where
  "untouched P out g \<longleftrightarrow> P (kg_scorer_state g) \<and> (\<forall>b. out = Inr b \<longrightarrow> vb_status b \<in> {REJECTED, REVISED})"

lemma ruled_cases:
  assumes "ruled ds n m next_gate g = (out, g')" "m g = (r, g1)"
  shows "(g' = g1 \<and> (\<forall>b. out = Inr b \<longrightarrow> vb_status b \<in> {REJECTED, REVISED})) \<or>
    (\<exists>v. r = Inr v \<and> gv_kind v \<noteq> REJECT \<and> gv_kind v \<noteq> REFINE \<and> next_gate (ds @ [kaggle_decision n v]) v g1 = (out, g'))"
  using assms by (cases r) (auto simp: ruled_def bindE_def ret_def mk_bundle_def Let_def split: if_splits)

lemma keeps_kaggle_runnable: "keeps (\<lambda>g. P (kg_scorer_state g)) (kaggle_runnable su request)"
  unfolding kaggle_runnable_def by (intro keeps_bindE keeps_proxy_run keeps_ret)

lemma keeps_proxy_improves: "keeps (\<lambda>g. P (kg_scorer_state g)) (proxy_improves su request)"
  unfolding proxy_improves_def note_proxy_def Let_def
  by (intro keeps_bindE keeps_proxy_run keeps_option keeps_ret keeps_scorer keeps_gets)

lemma keeps_competitive:
  assumes "\<And>k. P k \<Longrightarrow> P (snd (ks_leaderboard (kg_scorer su) k))"
  shows "keeps (\<lambda>g. P (kg_scorer_state g)) (competitive su request)"
proof -
  have l: "keeps (\<lambda>g. P (kg_scorer_state g)) (with_scorer (ks_leaderboard (kg_scorer su)))"
    using assms by (fastforce simp: keeps_def with_scorer_def split: prod.split)
  show ?thesis unfolding competitive_def proxy_score_def note_proxy_def Let_def
    by (intro keeps_bindE keeps_proxy_run keeps_option keeps_ret keeps_scorer keeps_gets keeps_reads l)
qed

text \<open>What holds when the leaderboard gate is asked.\<close>

definition worth_submitting :: "('w, 'k) kaggle_setup \<Rightarrow> verifier_request \<Rightarrow> ('w, 'k) kaggle_gates \<Rightarrow>
    (string \<times> rat) list \<Rightarrow> ('k \<Rightarrow> bool) \<Rightarrow> bool" where
  "worth_submitting su request g reals P \<longleftrightarrow> (\<exists>preds scores k0.
     let net = balanced_accuracy (kg_labels su) preds in
     proven_locally su request g preds \<and>
     snd (best_accepted (kg_proxy g) request ''proxy-improves'') + kg_margin su < net \<and>
     P k0 \<and> fst (ks_leaderboard (kg_scorer su) k0) = Inr scores \<and>
     believed_competitive su (kg_proxy g) reals net scores)"

lemma kaggle_pipeline_cases:
  fixes su :: "('w, 'k) kaggle_setup"
  assumes "run_pipeline (kaggle_steps su) request g = (out, g')" "P (kg_scorer_state g)" "0 < kg_fraction su"
    "\<And>k. P k \<Longrightarrow> P (snd (ks_leaderboard (kg_scorer su) k))"
  shows "untouched P out g' \<or>
    (\<exists>g3 ds. worth_submitting su request g3 (kg_real g) P \<and> kg_real g3 = kg_real g \<and> P (kg_scorer_state g3) \<and>
      ruled ds ''kaggle'' (kaggle su request) (\<lambda>ds v. ret (mk_bundle ACCEPTED ds (gv_supersedes v))) g3 = (out, g'))"
proof -
  obtain r1 g1 where 1: "kaggle_runnable su request g = (r1, g1)" by fastforce
  have P1: "P (kg_scorer_state g1)" using keepsD [OF keeps_kaggle_runnable [of P] assms(2) 1] .
  obtain r2 g2 where 2: "proxy_improves su request g1 = (r2, g2)" by fastforce
  have P2: "P (kg_scorer_state g2)" using keepsD [OF keeps_proxy_improves [of P] P1 2] .
  obtain r3 g3 where 3: "competitive su request g2 = (r3, g3)" by fastforce
  have P3: "P (kg_scorer_state g3)" using keepsD [OF keeps_competitive [of P] P2 3] assms(4) .
  note run = assms(1) [unfolded kaggle_pipeline]
  show ?thesis
  proof (cases "untouched P out g'")
    case False
    let ?last = "\<lambda>ds. ruled ds ''kaggle'' (kaggle su request) (\<lambda>ds v. ret (mk_bundle ACCEPTED ds (gv_supersedes v)))"
    obtain v1 ds1 where v1: "r1 = Inr v1" "gv_kind v1 \<noteq> REJECT"
      and run1: "ruled ds1 ''proxy-improves'' (proxy_improves su request) (\<lambda>ds _.
        ruled ds ''competitive'' (competitive su request) (\<lambda>ds _. ?last ds)) g1 = (out, g')"
      using ruled_cases [OF run 1] False P1 by (auto simp: untouched_def)
    obtain v2 ds2 where v2: "r2 = Inr v2" "gv_kind v2 \<noteq> REJECT"
      and run2: "ruled ds2 ''competitive'' (competitive su request) (\<lambda>ds _. ?last ds) g2 = (out, g')"
      using ruled_cases [OF run1 2] False P2 by (auto simp: untouched_def)
    obtain v3 ds3 where v3: "r3 = Inr v3" "gv_kind v3 \<noteq> REFINE" and run3: "?last ds3 g3 = (out, g')"
      using ruled_cases [OF run2 3] False P3 by (auto simp: untouched_def)
    obtain preds where proven: "proven_locally su request g1 preds" "kg_real g1 = kg_real g"
      using kaggle_runnable_Inr [of su request g v1 g1] 1 v1 by auto
    let ?net = "balanced_accuracy (kg_labels su) preds"
    have g2: "g2 = g1\<lparr>kg_proxy := dict_put (art_id (vr_proposal request)) ?net (kg_proxy g1)\<rparr>"
      "snd (best_accepted (kg_proxy g2) request ''proxy-improves'') + kg_margin su < ?net"
      using proxy_improves_Inr [OF proven(1), of v2 g2] 2 v2 by auto
    have "map_of (kg_proxy g2) (art_id (vr_proposal request)) = Some ?net" by (simp add: g2(1))
    from competitive_Inr [OF this _ assms(3), of v3 g3] 3 v3 obtain scores k where
      k: "ks_leaderboard (kg_scorer su) (kg_scorer_state g2) = (Inr scores, k)" "g3 = g2\<lparr>kg_scorer_state := k\<rparr>"
        "believed_competitive su (kg_proxy g3) (kg_real g3) ?net scores" by auto
    have "proven_locally su request g3 preds" using proven(1) by (simp add: proven_locally_def g2(1) k(2))
    moreover have same: "kg_real g3 = kg_real g" by (simp add: k(2) g2(1) proven(2))
    ultimately have "worth_submitting su request g3 (kg_real g) P"
      unfolding worth_submitting_def Let_def
      using g2(2) k P2 by (intro exI [of _ preds] exI [of _ scores] exI [of _ "kg_scorer_state g2"]) simp
    then show ?thesis using P3 run3 same by blast
  qed simp
qed

text \<open>The leaderboard gate submits at most once, with the budget just read as free.\<close>

definition submitted :: "('w, 'k) kaggle_setup \<Rightarrow> verifier_request \<Rightarrow> ('w, 'k) kaggle_gates \<Rightarrow> ('k \<Rightarrow> bool) \<Rightarrow>
    exc + rat \<Rightarrow> bool" where
  "submitted su request g P answer \<longleftrightarrow> (\<exists>output k k0 n. regenerated su request g output \<and> P k \<and>
     ks_budget (kg_scorer su) k0 = (Inr n, k) \<and> 0 < n \<and>
     ks_submit (kg_scorer su) output (kg_message su) (kg_deadline su) k = (answer, kg_scorer_state g))"

lemma kaggle_gate_cases:
  assumes "kaggle su request g = (r, g')" "0 < kg_poll su" "P (kg_scorer_state g)"
    "\<And>k. P k \<Longrightarrow> P (snd (ks_budget (kg_scorer su) k))"
  shows "map_of (kg_run_cache g) \<subseteq>\<^sub>m map_of (kg_run_cache g') \<and> kg_proxy g' = kg_proxy g \<and>
    (P (kg_scorer_state g') \<and> (\<forall>v. r = Inr v \<longrightarrow> gv_kind v = REJECT) \<or>
     (\<exists>answer. submitted su request g' P answer \<and> (case answer of
        Inl e \<Rightarrow> r = Inl e
      | Inr public \<Rightarrow> kg_real g' = dict_put (art_id (vr_proposal request)) public (kg_real g) \<and>
          r = Inr (submission_verdict public (best_accepted (kg_real g') request ''kaggle'')))))"
proof (cases "map_of (vr_objects request) ENTRYPOINT")
  case None
  then show ?thesis using assms(1,3) by (auto simp: kaggle_def ret_def)
next
  case (Some code)
  let ?run = "cached_run su code [(TRAIN_INPUT, kg_full_train su), (TEST_INPUT, kg_real_test su)]
    (map_of (vr_objects request) REQUIREMENTS) (kaggle_key su code)"
  obtain q g1 where q: "?run g = (q, g1)" by fastforce
  have P1: "P (kg_scorer_state g1)" using keepsD [OF keeps_cached_run [of P] assms(3) q] .
  have frame: "map_of (kg_run_cache g) \<subseteq>\<^sub>m map_of (kg_run_cache g1) \<and> kg_proxy g1 = kg_proxy g \<and> kg_real g1 = kg_real g"
    using q by (auto simp: cached_run_def bindE_def gets_def ret_def modify_def with_runner_def map_le_def
        split: prod.splits sum.splits option.splits)
  show ?thesis
  proof (cases "\<exists>run out_b. q = Inr run \<and> \<not> rr_timed_out run \<and> rr_exit_code run = 0 \<and> rr_output run = Some out_b \<and>
      parse_predictions (kg_decode su) (Some out_b) \<noteq> None")
    case False
    then have "g' = g1 \<and> (\<forall>v. r = Inr v \<longrightarrow> gv_kind v = REJECT)"
      using assms(1) Some q
      by (cases q) (auto simp: kaggle_def bindE_def ret_def parse_predictions_def split: option.splits if_splits)
    then show ?thesis using frame P1 by simp
  next
    case True
    then obtain run out_b where run: "q = Inr run" "\<not> rr_timed_out run" "rr_exit_code run = 0" "rr_output run = Some out_b"
      "parse_predictions (kg_decode su) (Some out_b) \<noteq> None" by blast
    obtain b k where b: "await_budget su (kg_scorer_state g1) = (b, k)" by fastforce
    have k: "P k" "b = Inr () \<Longrightarrow> \<exists>k0 n. ks_budget (kg_scorer su) k0 = (Inr n, k) \<and> 0 < n"
      using await_budget_Inr [OF assms(2) b, of P] P1 assms(4) by auto
    obtain a k' where a: "ks_submit (kg_scorer su) out_b (kg_message su) (kg_deadline su) k = (a, k')" by fastforce
    note step = assms(1) [unfolded kaggle_def, simplified Some option.case bindE_def q run prod.case sum.case if_False, simplified]
    show ?thesis
    proof (cases b)
      case (Inl e)
      then show ?thesis using assms(1) Some q run b k(1) frame by (auto simp: kaggle_def bindE_def with_scorer_def)
    next
      case (Inr u)
      have cache: "map_of (kg_run_cache g1) (kaggle_key su code) = Some run" using cached_run_Inr q run(1) by blast
      let ?g2 = "g1\<lparr>kg_scorer_state := k'\<rparr>"
      have g': "case a of Inl e \<Rightarrow> r = Inl e \<and> g' = ?g2
        | Inr public \<Rightarrow> g' = ?g2\<lparr>kg_real := dict_put (art_id (vr_proposal request)) public (kg_real g1)\<rparr> \<and>
            r = Inr (submission_verdict public (best_accepted (kg_real g') request ''kaggle''))"
        using assms(1) Some q run b Inr a
        by (cases a) (auto simp: kaggle_def bindE_def with_scorer_def modify_def gets_def ret_def)
      then have "regenerated su request g' out_b" "kg_scorer_state g' = k'"
        using Some cache run by (auto simp: regenerated_def split: sum.splits)
      then have "submitted su request g' P a" using k Inr a unfolding submitted_def by auto
      then show ?thesis using g' frame by (auto split: sum.splits)
    qed
  qed
qed

lemma worth_submitting_mono:
  assumes "worth_submitting su request g reals P" "map_of (kg_run_cache g) \<subseteq>\<^sub>m map_of (kg_run_cache g')" "kg_proxy g' = kg_proxy g"
  shows "worth_submitting su request g' reals P"
proof -
  have "proven_locally su request g' preds" if "proven_locally su request g preds" for preds
    using that assms(2) unfolding proven_locally_def map_le_def by (metis domI)
  then show ?thesis using assms(1,3) unfolding worth_submitting_def Let_def by metis
qed

lemma kaggle_dispatch:
  assumes "build_kaggle_verifier su = Inr ps" "art_type (vr_proposal request) = SUBMISSION"
    "sdk_dispatch ps request v = (out, v')"
  shows "run_pipeline (kaggle_steps su) request (sdk_world v) = (out, sdk_world v')"
  using assms
  by (auto simp: build_kaggle_verifier_def bindS_def sdk_dispatch_def in_world_def bindE_def modify_def split: prod.splits sum.splits)

section \<open>Properties\<close>

text \<open>C6. A leaderboard submission is earned, made once and decides: a dispatch either leaves the scorer
  unsubmitted (it only reads the budget and the standings) and then its verdict, if it returns one, is
  a rejection or a refinement; or the script had run clean on the hold-out and predicted every reserved
  row, its score beat the best accepted one by more than the margin, the standings were empty or the
  calibrated estimate had less than the target fraction of them above it, the script's own output on the real
  data was regenerated, and that output was submitted exactly once, on a budget just read as free. An answer
  of the leaderboard is recorded and accepts exactly when it beats the best accepted public score,
  which is the artifact retired; a failing submission is the failure of the dispatch.\<close>

theorem kaggle_submissions_are_earned:
  assumes "build_kaggle_verifier su = Inr ps" "art_type (vr_proposal request) = SUBMISSION"
    "sdk_dispatch ps request v = (out, v')" "0 < kg_poll su" "0 < kg_fraction su"
    "P (kg_scorer_state (sdk_world v))"
    "\<And>k. P k \<Longrightarrow> P (snd (ks_budget (kg_scorer su) k))" "\<And>k. P k \<Longrightarrow> P (snd (ks_leaderboard (kg_scorer su) k))"
  shows "P (kg_scorer_state (sdk_world v')) \<and> (\<forall>b. out = Inr b \<longrightarrow> vb_status b \<in> {REJECTED, REVISED}) \<or>
    (\<exists>answer. worth_submitting su request (sdk_world v') (kg_real (sdk_world v)) P \<and>
       submitted su request (sdk_world v') P answer \<and>
       (case answer of
          Inl e \<Rightarrow> out = Inl e
        | Inr public \<Rightarrow> map_of (kg_real (sdk_world v')) (art_id (vr_proposal request)) = Some public \<and>
            (\<exists>b. out = Inr b \<and>
              (let best = best_accepted (kg_real (sdk_world v')) request ''kaggle'' in
               if snd best < public then vb_status b = ACCEPTED \<and> vb_supersedes b = fst best
               else vb_status b = REJECTED \<and> vb_supersedes b = None))))"
proof (cases "untouched P out (sdk_world v')")
  case True
  then show ?thesis by (simp add: untouched_def)
next
  case False
  have run: "run_pipeline (kaggle_steps su) request (sdk_world v) = (out, sdk_world v')"
    by (rule kaggle_dispatch [OF assms(1-3)])
  obtain g3 ds where g3: "worth_submitting su request g3 (kg_real (sdk_world v)) P" "kg_real g3 = kg_real (sdk_world v)"
      "P (kg_scorer_state g3)"
    and last: "ruled ds ''kaggle'' (kaggle su request) (\<lambda>ds v. ret (mk_bundle ACCEPTED ds (gv_supersedes v))) g3 =
      (out, sdk_world v')"
    using kaggle_pipeline_cases [where P = P, OF run assms(6,5,8)] False by blast
  obtain r g4 where k: "kaggle su request g3 = (r, g4)" by fastforce
  have g4: "g4 = sdk_world v'" using last k by (auto simp: ruled_def bindE_def ret_def Let_def split: sum.splits if_splits)
  note out = last [unfolded ruled_def bindE_def k g4 prod.case]
  from kaggle_gate_cases [where P = P, OF k assms(4) g3(3) assms(7)] consider
    (early) "P (kg_scorer_state g4)" "\<forall>v. r = Inr v \<longrightarrow> gv_kind v = REJECT"
  | (sent) answer where "submitted su request g4 P answer" "case answer of
        Inl e \<Rightarrow> r = Inl e
      | Inr public \<Rightarrow> kg_real g4 = dict_put (art_id (vr_proposal request)) public (kg_real g3) \<and>
          r = Inr (submission_verdict public (best_accepted (kg_real g4) request ''kaggle''))" by blast
  then show ?thesis
  proof cases
    case early
    then show ?thesis using out g4 by (cases r) (auto simp: ret_def mk_bundle_def Let_def)
  next
    case sent
    have worth: "worth_submitting su request g4 (kg_real (sdk_world v)) P"
      using worth_submitting_mono [OF g3(1)] kaggle_gate_cases [where P = P, OF k assms(4) g3(3) assms(7)] by blast
    show ?thesis
    proof (intro disjI2 exI [of _ answer] conjI)
      show "case answer of
          Inl e \<Rightarrow> out = Inl e
        | Inr public \<Rightarrow> map_of (kg_real (sdk_world v')) (art_id (vr_proposal request)) = Some public \<and>
            (\<exists>b. out = Inr b \<and>
              (let best = best_accepted (kg_real (sdk_world v')) request ''kaggle'' in
               if snd best < public then vb_status b = ACCEPTED \<and> vb_supersedes b = fst best
               else vb_status b = REJECTED \<and> vb_supersedes b = None))"
        using sent(2) out g4
        by (cases answer) (auto simp: ret_def mk_bundle_def Let_def submission_verdict_def scored_def verdict_def split: prod.splits if_splits)
    qed (use worth sent(1) g4 in simp_all)
  qed
qed

text \<open>A scorer whose state is what was submitted, with a budget that frees after three readings.\<close>

definition demo_scorer :: "(nat \<times> bytes list) kaggle_scorer" where
  "demo_scorer = \<lparr>ks_budget = (\<lambda>(n, sent). (Inr (if n < 3 then 0 else 1), (Suc n, sent))),
     ks_leaderboard = (\<lambda>k. (Inr [9 / 10, 1 / 2, 1 / 4], k)),
     ks_submit = (\<lambda>out_b message deadline (n, sent). (Inr (4 / 5), (n, sent @ [out_b])))\<rparr>"

definition demo_kaggle :: "(nat, nat \<times> bytes list) kaggle_setup" where
  "demo_kaggle = \<lparr>kg_runner = demo_runner, kg_scorer = demo_scorer, kg_agent_train = [], kg_reserved_test = [],
     kg_labels = [(''1'', ''a''), (''2'', ''b'')], kg_full_train = [], kg_real_test = [], kg_timeout = 900,
     kg_deadline = 86400, kg_poll = 60, kg_message = ''verity'', kg_fraction = 1 / 10, kg_margin = 0,
     kg_min_points = 2, kg_pessimism = 0, kg_sha256 = map (\<lambda>x. char_of (unat x)), kg_decode = ascii,
     kg_show_float = (\<lambda>_. ''86400.0'')\<rparr>"

definition demo_kaggle_gates :: "(nat, nat \<times> bytes list) kaggle_gates" where
  "demo_kaggle_gates = \<lparr>kg_run_cache = [], kg_proxy = [], kg_real = [], kg_world = 0, kg_scorer_state = (0, [])\<rparr>"

definition demo_script :: bytes where
  "demo_script = utf8 (csv_text [[''id'', ''class''], [''1'', ''a''], [''2'', ''b'']])"

definition demo_kaggle_result :: run_result where
  "demo_kaggle_result = demo_result\<lparr>rr_output := Some demo_script\<rparr>"

lemma demo_cached_run:
  "proxy_run demo_kaggle (demo_submission (Some [])) demo_kaggle_gates =
     (Inr (Some demo_kaggle_result), demo_kaggle_gates\<lparr>kg_run_cache := [(proxy_key demo_kaggle demo_script, demo_kaggle_result)], kg_world := 1\<rparr>)"
  by code_simp

lemma demo_budget: "await_budget demo_kaggle (0, sent) = (Inr (), (4, sent))"
proof -
  have b: "ks_budget (kg_scorer demo_kaggle) (n, sent) = (Inr (if n < 3 then 0 else 1), (Suc n, sent))" for n
    by (simp add: demo_kaggle_def demo_scorer_def)
  have d: "kg_deadline demo_kaggle = 86400" "kg_poll demo_kaggle = 60" by (simp_all add: demo_kaggle_def)
  show ?thesis unfolding await_budget_def by (simp add: await_loop.simps b d numeral_eq_Suc)
qed

lemma demo_threshold: "top_fraction_threshold [9 / 10, 1 / 2, 1 / 4] (1 / 10) = Some (9 / 10)"
  by code_simp

lemma demo_kaggle_run:
  "case run_pipeline (kaggle_steps demo_kaggle) (demo_submission (Some [])) demo_kaggle_gates of
     (Inl e, g) \<Rightarrow> False
   | (Inr b, g) \<Rightarrow> vb_status b = ACCEPTED \<and> kg_scorer_state g = (4, [demo_script])"
proof -
  let ?rq = "demo_submission (Some [])" and ?su = demo_kaggle
  let ?preds = "[(''1'', Some ''a''), (''2'', Some ''b'')]"
  have parse: "parse_predictions (kg_decode ?su) (Some demo_script) = Some ?preds"
    using demo_scored by (simp add: demo_kaggle_def demo_script_def)
  have code: "map_of (vr_objects ?rq) ENTRYPOINT = Some demo_script" by (simp add: demo_submission_def demo_script_def)
  define g1 where "g1 = demo_kaggle_gates\<lparr>kg_run_cache := [(proxy_key ?su demo_script, demo_kaggle_result)], kg_world := 1\<rparr>"
  have res: "\<not> rr_timed_out demo_kaggle_result" "rr_exit_code demo_kaggle_result = 0" "rr_output demo_kaggle_result = Some demo_script"
    by (simp_all add: demo_kaggle_result_def demo_result_def)
  have 1: "kaggle_runnable ?su ?rq demo_kaggle_gates = (Inr (verdict ACCEPT ''runs clean on the hold-out''), g1)"
    using demo_cached_run res parse
    by (simp add: kaggle_runnable_def bindE_def ret_def holdout_verdict_def g1_def uncovered_def) (simp add: demo_kaggle_def)
  have proven: "proven_locally ?su ?rq g1 ?preds"
    using code res parse by (simp add: proven_locally_def g1_def) (simp add: demo_kaggle_def)
  have net: "balanced_accuracy (kg_labels ?su) ?preds = 1"
    by (simp add: balanced_accuracy_mean demo_kaggle_def recall_def hits_def rows_of_class_def)
  define g2 where "g2 = g1\<lparr>kg_proxy := [(art_id (vr_proposal ?rq), 1)]\<rparr>"
  have best: "snd (best_accepted ledger ?rq gate) = 0" if "ledger = [(art_id (vr_proposal ?rq), x)]" "gate \<noteq> ''selection''" for ledger gate x
    using that by (auto simp: best_accepted_def demo_submission_def demo_artifact_def gate_score_def List.map_filter_simps)
  obtain r where r: "proxy_run ?su ?rq g1 = (Inr r, g1)" "holdout_predictions ?su r = Some ?preds"
    using proven_proxy_run [OF proven] by blast
  have 2: "proxy_improves ?su ?rq g1 = (Inr (proxy_verdict ?su 1 0), g2)"
    using r net best [where x = 1 and gate = "''proxy-improves''"]
    by (simp add: proxy_improves_def bindE_def ret_def note_proxy_def modify_def gets_def g2_def g1_def demo_kaggle_gates_def)
  have standings: "ks_leaderboard (kg_scorer ?su) k = (Inr [9 / 10, 1 / 2, 1 / 4], k)" for k
    by (simp add: demo_kaggle_def demo_scorer_def)
  have cal: "calibrated_estimate ?su proxies [] 1 = Inr 1" for proxies
    by (simp add: calibrated_estimate_def calibration_pairs_def clamp01_def List.map_filter_simps) (simp add: demo_kaggle_def)
  have frac: "kg_fraction ?su = 1 / 10" and margin: "kg_margin ?su = 0" by (simp_all add: demo_kaggle_def)
  have 3: "competitive ?su ?rq g2 = (Inr (competitive_verdict ?su 1 (9 / 10)), g2)"
    by (simp add: competitive_def proxy_score_def bindE_def ret_def gets_def reads_def with_scorer_def standings frac
        demo_threshold g2_def g1_def demo_kaggle_gates_def cal)
  have 4: "\<exists>g. kaggle ?su ?rq g2 = (Inr (submission_verdict (4 / 5) (None, 0)), g) \<and> kg_scorer_state g = (4, [demo_script])"
  proof -
    have key: "kaggle_key ?su demo_script \<noteq> proxy_key ?su demo_script" by (simp add: kaggle_key_def proxy_key_def)
    have reqs: "map_of (vr_objects ?rq) REQUIREMENTS = Some []" by (simp add: demo_submission_def ENTRYPOINT_def REQUIREMENTS_def)
    have rn: "kg_runner ?su \<lparr>rq_code = demo_script, rq_entrypoint = e, rq_inputs = i, rq_output_name = m, rq_timeout = t,
        rq_requirements = Some [], rq_network = w, rq_env = v\<rparr> n = (Inr demo_kaggle_result, Suc n)" for e i m t w v n
      by (simp add: demo_kaggle_def demo_runner_def demo_kaggle_result_def demo_result_def)
    define g3 where "g3 = g2\<lparr>kg_world := 2, kg_run_cache := dict_put (kaggle_key ?su demo_script) demo_kaggle_result (kg_run_cache g2)\<rparr>"
    have run: "cached_run ?su demo_script [(TRAIN_INPUT, kg_full_train ?su), (TEST_INPUT, kg_real_test ?su)] (Some [])
        (kaggle_key ?su demo_script) g2 = (Inr demo_kaggle_result, g3)"
      using key
      by (simp add: cached_run_def bindE_def gets_def ret_def modify_def with_runner_def g3_def g2_def g1_def rn)
    have k: "kg_scorer_state g3 = (0, [])" "kg_real g3 = []" by (simp_all add: g3_def g2_def g1_def demo_kaggle_gates_def)
    have send: "ks_submit (kg_scorer ?su) x (kg_message ?su) (kg_deadline ?su) (4, []) = (Inr (4 / 5), (4, [x]))" for x
      by (simp add: demo_kaggle_def demo_scorer_def)
    have none: "best_accepted [(art_id (vr_proposal ?rq), x)] ?rq ''kaggle'' = (None, 0)" for x
      by (simp add: best_accepted_def demo_submission_def demo_artifact_def gate_score_def List.map_filter_simps)
    show ?thesis
      by (simp add: kaggle_def code reqs run bindE_def res parse with_scorer_def k demo_budget send modify_def gets_def ret_def
          none)
  qed
  show ?thesis
    unfolding kaggle_pipeline ruled_def bindE_def 1
    using 2 3 4 margin by (auto simp: ret_def mk_bundle_def Let_def)
qed

theorem kaggle_submissions_are_earned_witness:
  "\<exists>ps b v'. build_kaggle_verifier demo_kaggle = Inr ps \<and>
     sdk_dispatch ps (demo_submission (Some [])) \<lparr>sdk_requests = [], sdk_provisioned = True, sdk_world = demo_kaggle_gates\<rparr> = (Inr b, v') \<and>
     vb_status b = ACCEPTED \<and> snd (kg_scorer_state (sdk_world v')) = [demo_script] \<and>
     worth_submitting demo_kaggle (demo_submission (Some [])) (sdk_world v') [] (\<lambda>k. snd k = [])"
proof -
  let ?rq = "demo_submission (Some [])"
    and ?v = "\<lparr>sdk_requests = [], sdk_provisioned = True, sdk_world = demo_kaggle_gates\<rparr>"
  have ty: "art_type (vr_proposal ?rq) = SUBMISSION" by (simp add: demo_submission_def)
  obtain b g where g: "run_pipeline (kaggle_steps demo_kaggle) ?rq demo_kaggle_gates = (Inr b, g)"
    "vb_status b = ACCEPTED" "kg_scorer_state g = (4, [demo_script])"
    using demo_kaggle_run by (auto split: prod.splits sum.splits)
  obtain ps where ps: "build_kaggle_verifier demo_kaggle = Inr ps" "map_of ps SUBMISSION = Some (kaggle_steps demo_kaggle)"
    by (auto simp: build_kaggle_verifier_def check_pipelines_def bindS_def kaggle_steps_def ruling_step_def)
  obtain v' where d: "sdk_dispatch ps ?rq ?v = (Inr b, v')" "sdk_world v' = g"
    using g ps ty by (auto simp: sdk_dispatch_def bindE_def modify_def in_world_def)
  have pos: "0 < kg_poll demo_kaggle" "0 < kg_fraction demo_kaggle" by (simp_all add: demo_kaggle_def)
  have reads: "snd (kg_scorer_state (sdk_world ?v)) = []"
    "snd (snd (ks_budget (kg_scorer demo_kaggle) k)) = snd k" "snd (snd (ks_leaderboard (kg_scorer demo_kaggle) k)) = snd k" for k
    by (simp_all add: demo_kaggle_gates_def demo_kaggle_def demo_scorer_def split: prod.split)
  have "worth_submitting demo_kaggle ?rq g [] (\<lambda>k. snd k = [])"
    using kaggle_submissions_are_earned [where P = "\<lambda>k. snd k = []", OF ps(1) ty d(1) pos] reads g d(2)
    by (auto simp: demo_kaggle_gates_def)
  then show ?thesis using ps d g by auto
qed

text \<open>C19. Waiting for the leaderboard's budget ends: with a positive polling interval the wait returns after at
  most one reading more than the deadline holds intervals, every reading but the last saw a spent budget,
  and the last one decides: an error of the reading is the outcome, a free budget lets the gate go on,
  and otherwise the deadline has passed and the gate is unavailable.\<close>

theorem kaggle_wait_is_bounded:
  assumes "0 < kg_poll su"
  shows "\<exists>n r. await_loop su 0 k = Some (r, after_reads su (Suc n) k) \<and>
    await_budget su k = (r, after_reads su (Suc n) k) \<and>
    n \<le> nat \<lceil>kg_deadline su / kg_poll su\<rceil> \<and>
    (\<forall>m < n. \<exists>b \<le> 0. reading su m k = Inr b) \<and>
    (case reading su n k of
       Inl e \<Rightarrow> r = Inl e
     | Inr b \<Rightarrow> if 0 < b then r = Inr () else r = Inl (no_budget su) \<and> kg_deadline su \<le> of_nat n * kg_poll su)"
proof -
  obtain n r where "await_loop su 0 k = Some (r, after_reads su (Suc n) k)" "n \<le> nat \<lceil>(kg_deadline su - 0) / kg_poll su\<rceil>"
    "\<forall>m < n. \<exists>b \<le> 0. reading su m k = Inr b"
    "case reading su n k of
       Inl e \<Rightarrow> r = Inl e
     | Inr b \<Rightarrow> if 0 < b then r = Inr () else r = Inl (no_budget su) \<and> kg_deadline su \<le> 0 + of_nat n * kg_poll su"
    using await_loop_returns [OF assms, of 0 k] by blast
  then show ?thesis by (intro exI [of _ n] exI [of _ r]) (auto simp: await_budget_def split: sum.splits if_splits)
qed

theorem kaggle_wait_is_bounded_witness:
  "\<exists>r k. await_loop (demo_kaggle\<lparr>kg_deadline := 100\<rparr>) 0 (0, []) = Some (r, k) \<and> fst k \<le> 3"
proof -
  have pos: "0 < kg_poll (demo_kaggle\<lparr>kg_deadline := 100\<rparr>)" by (simp add: demo_kaggle_def)
  have count: "fst (after_reads (demo_kaggle\<lparr>kg_deadline := 100\<rparr>) n k) = n + fst k" for n k
    by (induction n arbitrary: k) (auto simp: demo_kaggle_def demo_scorer_def split: prod.split)
  have two: "nat \<lceil>kg_deadline (demo_kaggle\<lparr>kg_deadline := 100\<rparr>) / kg_poll (demo_kaggle\<lparr>kg_deadline := 100\<rparr>)\<rceil> = 2"
    by (simp add: demo_kaggle_def ceiling_unique [of 1] ceiling_unique [of 2])
  from kaggle_wait_is_bounded [OF pos, of "(0, [])"] obtain n r where
    "await_loop (demo_kaggle\<lparr>kg_deadline := 100\<rparr>) 0 (0, []) = Some (r, after_reads (demo_kaggle\<lparr>kg_deadline := 100\<rparr>) (Suc n) (0, []))"
    "n \<le> 2" unfolding two by blast
  moreover have "fst (after_reads (demo_kaggle\<lparr>kg_deadline := 100\<rparr>) (Suc n) (0, [])) \<le> 3"
    unfolding count using \<open>n \<le> 2\<close> by simp
  ultimately show ?thesis by blast
qed

end
