(* ===== verification/Transport.thy ===== *)
theory Transport
  imports Wire Verifier "HOL-Library.Countable"
begin

text \<open>
  \<open>transport/envelope.py\<close>, \<open>transport/server.py\<close>, \<open>transport/client.py\<close>, \<open>transport/loopback.py\<close>
  and \<open>transport/http.py\<close>: the ports carried over a byte transport. A transport is an operation on the
  state of the peer. The text of \<open>json.dumps\<close> and \<open>json.loads\<close>, \<open>str\<close> of a JSON value and the syntax of
  \<open>float\<close> are the fields of a codec; the \<open>httpx\<close> call and the routing of the web framework are parameters.
\<close>

section \<open>The envelope\<close>

record wire_codec =
  wc_dumps :: "json \<Rightarrow> bytes"
  wc_loads :: "bytes \<Rightarrow> string + json"
  wc_str :: "json \<Rightarrow> string"
  wc_float :: "string \<Rightarrow> rat option"

definition WIRE_VERSION :: int where "WIRE_VERSION = 1"

definition ERROR_KINDS :: "(string \<times> (string \<Rightarrow> exc)) list" where
  "ERROR_KINDS = [(''GateUnavailable'', GateUnavailable), (''SandboxError'', \<lambda>m. SandboxError m None None),
     (''VerifierError'', VerifierError), (''ProviderError'', ProviderError)]"

definition RECOVERABLE_KINDS :: "string list" where
  "RECOVERABLE_KINDS = [''GateUnavailable'', ''SandboxError'']"

text \<open>\<open>type(exc).__name__\<close>; the classes gathered as \<open>OtherError\<close> have names of their own, none of them in the map.\<close>

fun exc_name :: "exc \<Rightarrow> string" where
  "exc_name (StoreError _) = ''StoreError''"
| "exc_name (CommitError _) = ''CommitError''"
| "exc_name (NoImplicitAccept _) = ''NoImplicitAccept''"
| "exc_name (ProposerIsGate _) = ''ProposerIsGate''"
| "exc_name (BundleInconsistent _) = ''BundleInconsistent''"
| "exc_name (IllegalTransition _ _) = ''IllegalTransition''"
| "exc_name (IndependenceViolation _) = ''IndependenceViolation''"
| "exc_name (RegistryError _) = ''RegistryError''"
| "exc_name (ProviderError _) = ''ProviderError''"
| "exc_name (WorkspaceError _) = ''WorkspaceError''"
| "exc_name (UnknownTask _) = ''UnknownTask''"
| "exc_name (OrchestrationError _) = ''OrchestrationError''"
| "exc_name (GateUnavailable _) = ''GateUnavailable''"
| "exc_name (VerifierError _) = ''VerifierError''"
| "exc_name (SandboxError _ _ _) = ''SandboxError''"
| "exc_name (WireError _) = ''WireError''"
| "exc_name (IntegrityError _) = ''IntegrityError''"
| "exc_name (KeyError _) = ''KeyError''"
| "exc_name (ValueError _) = ''ValueError''"
| "exc_name (TypeError _) = ''TypeError''"
| "exc_name (AttributeError _) = ''AttributeError''"
| "exc_name (TransportError _) = ''TransportError''"
| "exc_name (TransportUnavailable _) = ''TransportUnavailable''"
| "exc_name (ProvisioningError _) = ''ProvisioningError''"
| "exc_name (OtherError _) = ''Exception''"

definition ok_document :: "json \<Rightarrow> json" where
  "ok_document result = JObj [(''v'', JInt WIRE_VERSION), (''ok'', JBool True), (''result'', result)]"

definition ok_envelope :: "wire_codec \<Rightarrow> json \<Rightarrow> bytes" where
  "ok_envelope cd result = wc_dumps cd (ok_document result)"

definition err_document :: "exc \<Rightarrow> json" where
  "err_document e = JObj [(''v'', JInt WIRE_VERSION), (''ok'', JBool False),
     (''error'', JObj [(''kind'', JStr (exc_name e)), (''message'', JStr (exc_str e))])]"

definition err_envelope :: "wire_codec \<Rightarrow> exc \<Rightarrow> bytes" where
  "err_envelope cd e = wc_dumps cd (err_document e)"

text \<open>\<open>str\<close> of a decoded value, and the class an error kind stands for: a list or object is not hashable.\<close>

definition json_text :: "wire_codec \<Rightarrow> json \<Rightarrow> string" where
  "json_text cd j = (case j of JStr s \<Rightarrow> s | _ \<Rightarrow> wc_str cd j)"

definition error_type :: "json \<Rightarrow> exc + (string \<Rightarrow> exc)" where
  "error_type kind = (case kind of
      JStr k \<Rightarrow> Inr (case map_of ERROR_KINDS k of Some mk \<Rightarrow> mk | None \<Rightarrow> TransportError)
    | JList _ \<Rightarrow> Inl (TypeError ''unhashable type'')
    | JObj _ \<Rightarrow> Inl (TypeError ''unhashable type'')
    | _ \<Rightarrow> Inr TransportError)"

definition parse_result :: "wire_codec \<Rightarrow> bytes \<Rightarrow> exc + json" where
  "parse_result cd raw = (case wc_loads cd raw of
      Inl m \<Rightarrow> Inl (TransportError (''malformed envelope: '' @ m))
    | Inr obj \<Rightarrow>
        bindS (json_get_or JNull obj ''ok'') (\<lambda>ok.
        if json_truthy ok then json_get_or JNull obj ''result''
        else
          bindS (json_get_or JNull obj ''error'') (\<lambda>raw_error.
          let error = if json_truthy raw_error then raw_error else JObj [] in
          bindS (json_get_or (JStr []) error ''kind'') (\<lambda>kind.
          bindS (json_get_or (JStr []) error ''message'') (\<lambda>message.
          bindS (error_type kind) (\<lambda>exc_type.
          Inl (exc_type (json_text cd message))))))))"

section \<open>The servers\<close>

type_synonym 't transport = "string \<Rightarrow> bytes \<Rightarrow> ('t, exc, bytes) st"

definition call_args :: "wire_codec \<Rightarrow> bytes \<Rightarrow> exc + json" where
  "call_args cd body = (if body = [] then Inr (JObj []) else case wc_loads cd body of Inl m \<Rightarrow> Inl (ValueError m) | Inr j \<Rightarrow> Inr j)"

record 'v verifier_impl = "'v verifier_service" +
  vp_health :: "('v, exc, bool) st"

text \<open>What a \<open>VerifierServer\<close> holds: an implementation with its state, or none yet.\<close>

type_synonym 'v hosted = "('v verifier_impl \<times> 'v) option"

type_synonym 'v verifier_builder = "verifier_setup \<Rightarrow> exc + 'v verifier_impl \<times> 'v"

definition new_verifier_server :: "'v hosted \<Rightarrow> 'v verifier_builder option \<Rightarrow> exc + 'v hosted" where
  "new_verifier_server impl builder =
     (if Option.is_none impl \<and> Option.is_none builder then Inl (ValueError ''VerifierServer needs an impl or a builder'') else Inr impl)"

definition with_impl :: "('v verifier_impl \<Rightarrow> ('v, exc, 'a) st) \<Rightarrow> ('v hosted, exc, 'a) st" where
  "with_impl m h = (case h of
      None \<Rightarrow> (Inl (TransportError ''verifier not set up yet: send `setup` before `provision`''), None)
    | Some (impl, v) \<Rightarrow> (case m impl v of (r, v') \<Rightarrow> (r, Some (impl, v'))))"

definition verifier_dispatch :: "wire_codec \<Rightarrow> 'v verifier_builder option \<Rightarrow> 'v hosted transport" where
  "verifier_dispatch cd builder method body =
     (if method = ''setup'' then
        (case builder of
           None \<Rightarrow> raise (TransportError ''this verifier takes no setup (built with a fixed impl)'')
         | Some build \<Rightarrow>
             bindE (reads (\<lambda>_. bindS (bindS (call_args cd body) verifier_setup_from_dict) build)) (\<lambda>built.
             bindE (modify (\<lambda>_. Some built)) (\<lambda>_. ret (ok_envelope cd JNull))))
      else if method = ''dispatch'' then
        with_impl (\<lambda>impl.
          bindE (reads (\<lambda>_. bindS (call_args cd body) (verifier_request_from_dict (wc_float cd)))) (\<lambda>request.
          bindE (vp_dispatch impl request) (\<lambda>bundle. ret (ok_envelope cd (verdict_bundle_to_dict bundle)))))
      else if method = ''provision'' then
        with_impl (\<lambda>impl. bindE (vp_provision impl) (\<lambda>_. ret (ok_envelope cd (JObj [(''identity'', JStr (vp_identity impl))]))))
      else if method = ''teardown'' then
        bindE (gets Option.is_none) (\<lambda>idle. if idle then ret (ok_envelope cd JNull) else
          bindE (with_impl vp_teardown) (\<lambda>_.
          bindE (modify (\<lambda>h. if Option.is_none builder then h else None)) (\<lambda>_. ret (ok_envelope cd JNull))))
      else if method = ''health'' then
        bindE (gets Option.is_none) (\<lambda>idle. if idle then ret (ok_envelope cd (JBool True)) else
          with_impl (\<lambda>impl. bindE (vp_health impl) (\<lambda>b. ret (ok_envelope cd (JBool b)))))
      else raise (TransportError (''unknown verifier method: '' @ py_repr method)))"

definition verifier_handle :: "wire_codec \<Rightarrow> 'v verifier_builder option \<Rightarrow> 'v hosted transport" where
  "verifier_handle cd builder method body =
     try_catch (verifier_dispatch cd builder method body) (\<lambda>e. ret (err_envelope cd e))"

record 'x sandbox_impl = "'x sandbox_port" +
  sb_health :: "('x, exc, bool) st"

definition sandbox_dispatch :: "wire_codec \<Rightarrow> 'x sandbox_impl \<Rightarrow> 'x transport" where
  "sandbox_dispatch cd impl method body =
     (if method = ''serve_context'' then
        bindE (reads (\<lambda>_. bindS (call_args cd body) served_context_from_dict)) (\<lambda>context.
        bindE (sb_serve impl context) (\<lambda>_. ret (ok_envelope cd JNull)))
      else if method = ''collect_proposal'' then
        bindE (sb_collect impl) (\<lambda>envelope. ret (ok_envelope cd (proposal_envelope_to_dict envelope)))
      else if method = ''regenerate'' then bindE (sb_regenerate impl) (\<lambda>_. ret (ok_envelope cd JNull))
      else if method = ''provision'' then bindE (sb_provision impl) (\<lambda>_. ret (ok_envelope cd JNull))
      else if method = ''teardown'' then bindE (sb_teardown impl) (\<lambda>_. ret (ok_envelope cd JNull))
      else if method = ''health'' then bindE (sb_health impl) (\<lambda>b. ret (ok_envelope cd (JBool b)))
      else raise (TransportError (''unknown sandbox method: '' @ py_repr method)))"

definition sandbox_handle :: "wire_codec \<Rightarrow> 'x sandbox_impl \<Rightarrow> 'x transport" where
  "sandbox_handle cd impl method body = try_catch (sandbox_dispatch cd impl method body) (\<lambda>e. ret (err_envelope cd e))"

section \<open>The transports\<close>

definition loopback :: "'t transport \<Rightarrow> 't transport" where
  "loopback handler method body = handler method body"

text \<open>A failed \<open>httpx\<close> call is the name of its class and its text.\<close>

definition http_request :: "(string \<Rightarrow> bytes \<Rightarrow> ('t, string \<times> string, bytes) st) \<Rightarrow> string \<Rightarrow> 't transport" where
  "http_request post base_url method body t = (case post (base_url @ ''/'' @ method) body t of
      (Inl (cls, m), t') \<Rightarrow> (Inl (TransportUnavailable (cls @ '': '' @ m)), t')
    | (Inr content, t') \<Rightarrow> (Inr content, t'))"

definition rstrip_slash :: "string \<Rightarrow> string" where
  "rstrip_slash s = rev (dropWhile (\<lambda>c. c = CHR ''/'') (rev s))"

definition status_for_envelope :: "wire_codec \<Rightarrow> bytes \<Rightarrow> exc + int" where
  "status_for_envelope cd reply = (case wc_loads cd reply of
      Inl _ \<Rightarrow> Inr 422
    | Inr obj \<Rightarrow>
        bindS (json_get_or JNull obj ''ok'') (\<lambda>ok.
        if json_truthy ok then Inr 200
        else
          bindS (json_get_or JNull obj ''error'') (\<lambda>raw_error.
          bindS (json_get_or (JStr []) (if json_truthy raw_error then raw_error else JObj []) ''kind'') (\<lambda>kind.
          case kind of
            JStr k \<Rightarrow> Inr (if k \<in> set RECOVERABLE_KINDS then 503 else 422)
          | JList _ \<Rightarrow> Inl (TypeError ''unhashable type'')
          | JObj _ \<Rightarrow> Inl (TypeError ''unhashable type'')
          | _ \<Rightarrow> Inr 422))))"

text \<open>The route of the web application: the status and the content of its response.\<close>

definition asgi_handle :: "wire_codec \<Rightarrow> 't transport \<Rightarrow> string \<Rightarrow> bytes \<Rightarrow> ('t, exc, int \<times> bytes) st" where
  "asgi_handle cd handler method body =
     bindE (handler method body) (\<lambda>reply.
     bindE (reads (\<lambda>_. status_for_envelope cd reply)) (\<lambda>status.
     ret (status, reply)))"

section \<open>The clients\<close>

definition call :: "wire_codec \<Rightarrow> 't transport \<Rightarrow> string \<Rightarrow> bytes \<Rightarrow> ('t, exc, json) st" where
  "call cd request method body = bindE (request method body) (\<lambda>raw. reads (\<lambda>_. parse_result cd raw))"

text \<open>A \<open>RemoteVerifier\<close>: what it is built from, and its state, the identity learned and the peer.\<close>

record 't remote_config =
  rc_request :: "'t transport"
  rc_setup :: "verifier_setup option"
  rc_on_teardown :: "('t, exc, unit) st option"

record 't remote_verifier =
  rv_identity :: string
  rv_peer :: 't

definition on_peer :: "('t, exc, 'a) st \<Rightarrow> ('t remote_verifier, exc, 'a) st" where
  "on_peer m r = (case m (rv_peer r) of (x, t) \<Rightarrow> (x, r\<lparr>rv_peer := t\<rparr>))"

definition unreachable :: "exc \<Rightarrow> exc" where
  "unreachable e = GateUnavailable (''verifier unreachable or misbehaving: '' @ exc_str e)"

definition unreadable :: "exc \<Rightarrow> exc" where
  "unreadable e = GateUnavailable (''verifier returned an unreadable verdict: '' @ exc_str e)"

definition dispatch_failure :: "exc \<Rightarrow> exc" where
  "dispatch_failure e = (case e of
      TransportError _ \<Rightarrow> unreachable e | TransportUnavailable _ \<Rightarrow> unreachable e
    | ValueError _ \<Rightarrow> unreadable e | WireError _ \<Rightarrow> unreadable e
    | KeyError _ \<Rightarrow> unreadable e | TypeError _ \<Rightarrow> unreadable e
    | _ \<Rightarrow> e)"

definition provision_failure :: "exc \<Rightarrow> exc" where
  "provision_failure e = (case e of
      TransportError _ \<Rightarrow> unreachable e | TransportUnavailable _ \<Rightarrow> unreachable e | _ \<Rightarrow> e)"

definition remote_dispatch :: "wire_codec \<Rightarrow> 't remote_config \<Rightarrow> verifier_request \<Rightarrow> ('t remote_verifier, exc, verdict_bundle) st" where
  "remote_dispatch cd rc request = on_peer (try_catch
     (bindE (call cd (rc_request rc) ''dispatch'' (wc_dumps cd (verifier_request_to_dict request))) (\<lambda>result.
        reads (\<lambda>_. verdict_bundle_from_dict result)))
     (\<lambda>e. raise (dispatch_failure e)))"

definition remote_provision :: "wire_codec \<Rightarrow> 't remote_config \<Rightarrow> ('t remote_verifier, exc, unit) st" where
  "remote_provision cd rc =
     bindE (on_peer (try_catch
       (bindE (case rc_setup rc of
            None \<Rightarrow> ret JNull
          | Some p \<Rightarrow> call cd (rc_request rc) ''setup'' (wc_dumps cd (verifier_setup_to_dict p))) (\<lambda>_.
        bindE (call cd (rc_request rc) ''provision'' []) (\<lambda>result.
        reads (\<lambda>_. json_get result ''identity''))))
       (\<lambda>e. raise (provision_failure e)))) (\<lambda>identity.
     modify (\<lambda>r. r\<lparr>rv_identity := json_text cd identity\<rparr>))"

text \<open>\<open>try ... except TransportUnavailable: pass, finally\<close>: a callback that raises replaces the outcome.\<close>

definition remote_teardown :: "wire_codec \<Rightarrow> 't remote_config \<Rightarrow> ('t remote_verifier, exc, unit) st" where
  "remote_teardown cd rc = on_peer (
     bindE (attempt (try_catch (bindE (call cd (rc_request rc) ''teardown'' []) (\<lambda>_. ret ()))
       (\<lambda>e. case e of TransportUnavailable _ \<Rightarrow> ret () | _ \<Rightarrow> raise e))) (\<lambda>outcome.
     bindE (case rc_on_teardown rc of None \<Rightarrow> ret () | Some destroy \<Rightarrow> destroy) (\<lambda>_.
     reads (\<lambda>_. outcome))))"

definition remote_health :: "wire_codec \<Rightarrow> 't transport \<Rightarrow> ('t, exc, bool) st" where
  "remote_health cd request = bindE (call cd request ''health'' []) (\<lambda>result. ret (json_truthy result))"

definition build_remote_verifier :: "(string \<Rightarrow> bytes \<Rightarrow> ('t, string \<times> string, bytes) st) \<Rightarrow> string \<Rightarrow> verifier_setup option \<Rightarrow> 't remote_config" where
  "build_remote_verifier post base_url setup_payload =
     \<lparr>rc_request = http_request post (rstrip_slash base_url), rc_setup = setup_payload, rc_on_teardown = None\<rparr>"

definition remote_call :: "wire_codec \<Rightarrow> 't transport \<Rightarrow> string \<Rightarrow> bytes \<Rightarrow> ('t, exc, json) st" where
  "remote_call cd request method body = try_catch (call cd request method body) (\<lambda>e. case e of
      TransportUnavailable _ \<Rightarrow> raise (SandboxError (''sandbox unreachable: '' @ exc_str e) None None)
    | _ \<Rightarrow> raise e)"

definition ignore :: "('t, exc, 'a) st \<Rightarrow> ('t, exc, unit) st" where
  "ignore m = bindE m (\<lambda>_. ret ())"

definition remote_sandbox :: "wire_codec \<Rightarrow> 't transport \<Rightarrow> 't sandbox_impl" where
  "remote_sandbox cd request =
     \<lparr>sb_serve = (\<lambda>context. ignore (remote_call cd request ''serve_context'' (wc_dumps cd (served_context_to_dict context)))),
      sb_collect = bindE (remote_call cd request ''collect_proposal'' []) (\<lambda>result. reads (\<lambda>_. proposal_envelope_from_dict result)),
      sb_regenerate = ignore (remote_call cd request ''regenerate'' []),
      sb_provision = ignore (call cd request ''provision'' []),
      sb_teardown = ignore (call cd request ''teardown'' []),
      sb_health = remote_health cd request\<rparr>"

section \<open>What crosses the envelope\<close>

text \<open>A document the codec reads back, and the error that arrives when one is sent.\<close>

definition reads_back :: "wire_codec \<Rightarrow> json \<Rightarrow> bool" where
  "reads_back cd j \<longleftrightarrow> wc_dumps cd j \<noteq> [] \<and> wc_loads cd (wc_dumps cd j) = Inr j"

definition delivered :: "exc \<Rightarrow> exc" where
  "delivered e = (case e of
      GateUnavailable m \<Rightarrow> e | VerifierError m \<Rightarrow> e | ProviderError m \<Rightarrow> e
    | SandboxError m _ _ \<Rightarrow> SandboxError m None None
    | _ \<Rightarrow> TransportError (exc_str e))"

lemma parse_ok: "reads_back cd (ok_document result) \<Longrightarrow> parse_result cd (ok_envelope cd result) = Inr result"
  by (simp add: reads_back_def parse_result_def ok_envelope_def ok_document_def json_get_or_def json_truthy_def)

lemma error_class: "(case map_of ERROR_KINDS (exc_name e) of Some mk \<Rightarrow> mk | None \<Rightarrow> TransportError) (exc_str e) = delivered e"
  by (cases e) (simp_all add: ERROR_KINDS_def delivered_def)

lemma parse_err: "reads_back cd (err_document e) \<Longrightarrow> parse_result cd (err_envelope cd e) = Inl (delivered e)"
  by (simp add: reads_back_def parse_result_def err_envelope_def err_document_def json_get_or_def json_truthy_def
      json_text_def error_type_def error_class Let_def)

lemma call_args_document: "reads_back cd j \<Longrightarrow> call_args cd (wc_dumps cd j) = Inr j"
  by (simp add: reads_back_def call_args_def)

lemma delivered_failure:
  "dispatch_failure (delivered e) = (case e of
      GateUnavailable m \<Rightarrow> e | VerifierError m \<Rightarrow> e | ProviderError m \<Rightarrow> e
    | SandboxError m _ _ \<Rightarrow> SandboxError m None None
    | _ \<Rightarrow> GateUnavailable (''verifier unreachable or misbehaving: '' @ exc_str e))"
  "provision_failure (delivered e) = dispatch_failure (delivered e)"
  by (cases e; simp add: delivered_def dispatch_failure_def provision_failure_def unreachable_def)+

text \<open>
  The peer behind a transport: a request is answered by the operation that serves it, an exception of
  that operation by its error envelope.
\<close>

locale peer =
  fixes cd :: wire_codec and request :: "'t transport" and serve :: "'t transport"
  assumes answers: "request method body = try_catch (serve method body) (\<lambda>e. ret (err_envelope cd e))"
begin

lemma call_peer:
  assumes "\<And>e. reads_back cd (err_document e)"
  shows "call cd request method body t = (case serve method body t of
      (Inl e, t') \<Rightarrow> (Inl (delivered e), t')
    | (Inr raw, t') \<Rightarrow> (parse_result cd raw, t'))"
  by (auto simp: call_def answers try_catch_def bindE_def ret_def reads_def parse_err [OF assms] split: prod.splits sum.splits)

lemma remote_call_peer:
  assumes "\<And>e. reads_back cd (err_document e)" "\<And>m. fst (serve method body t) = Inr m \<Longrightarrow> \<exists>j. parse_result cd m = Inr j"
  shows "remote_call cd request method body t = (case serve method body t of
      (Inl e, t') \<Rightarrow> (Inl (delivered e), t')
    | (Inr raw, t') \<Rightarrow> (parse_result cd raw, t'))"
  using assms(2)
  by (auto simp: remote_call_def call_peer [OF assms(1)] try_catch_def raise_def delivered_def split: prod.splits sum.splits exc.splits)

end

interpretation hosted: peer cd "loopback (verifier_handle cd builder)" "verifier_dispatch cd builder" for cd builder
  by unfold_locales (simp add: loopback_def [abs_def] verifier_handle_def)

interpretation sandboxed: peer cd "loopback (sandbox_handle cd impl)" "sandbox_dispatch cd impl" for cd impl
  by unfold_locales (simp add: loopback_def [abs_def] sandbox_handle_def)

text \<open>Over HTTP the body of the response is all that counts, whatever its status.\<close>

lemma http_is_loopback:
  assumes "\<And>method body t. post (base_url @ ''/'' @ method) body t = (case asgi_handle cd handler method body t of
      (Inr (status, content), t') \<Rightarrow> (Inr content, t') | (Inl e, t') \<Rightarrow> (Inl (failure e), t'))"
    "\<And>method body t. \<exists>reply status. fst (handler method body t) = Inr reply \<and> status_for_envelope cd reply = Inr status"
  shows "http_request post base_url = loopback handler"
proof (intro ext)
  fix verb body t
  obtain reply status where "fst (handler verb body t) = Inr reply" "status_for_envelope cd reply = Inr status"
    using assms(2) by blast
  then show "http_request post base_url verb body t = loopback handler verb body t"
    by (cases "handler verb body t")
      (simp add: http_request_def loopback_def assms(1) [simplified] asgi_handle_def bindE_def reads_def ret_def)
qed

section \<open>Well-formed documents\<close>

text \<open>The keys of every object are different, as in every decoded document: \<open>json\<close> reads those back.\<close>

fun well_keyed :: "json \<Rightarrow> bool" where
  "well_keyed (JList xs) = (\<forall>x \<in> set xs. well_keyed x)"
| "well_keyed (JObj kvs) = (distinct (map fst kvs) \<and> (\<forall>v \<in> snd ` set kvs. well_keyed v))"
| "well_keyed _ = True"

definition faithful_codec :: "wire_codec \<Rightarrow> bool" where
  "faithful_codec cd \<longleftrightarrow> (\<forall>j. well_keyed j \<longrightarrow> reads_back cd j)"

lemma well_keyed_opt [simp]: "well_keyed (opt_json f x) \<longleftrightarrow> (case x of None \<Rightarrow> True | Some y \<Rightarrow> well_keyed (f y))"
  by (cases x) (simp_all add: opt_json_def)

lemma well_keyed_documents [simp]:
  "well_keyed (err_document e)" "well_keyed (ok_document j) \<longleftrightarrow> well_keyed j"
  "well_keyed (verdict_bundle_to_dict b)"
  by (auto simp: err_document_def ok_document_def verdict_bundle_to_dict_def gate_decision_to_dict_def split: option.split)

lemma faithful_reads_back:
  "faithful_codec cd \<Longrightarrow> reads_back cd (err_document e)"
  "faithful_codec cd \<Longrightarrow> well_keyed j \<Longrightarrow> reads_back cd j"
  "faithful_codec cd \<Longrightarrow> well_keyed j \<Longrightarrow> parse_result cd (ok_envelope cd j) = Inr j"
  by (simp_all add: faithful_codec_def parse_ok)

section \<open>Replies nobody promised\<close>


text \<open>The errors that reading a document raises on purpose, and a reply whose parts are not objects where the
  reader takes them for such.\<close>

definition reading_error :: "exc \<Rightarrow> bool" where
  "reading_error e \<longleftrightarrow> (\<exists>m. e = ValueError m \<or> e = KeyError m \<or> e = TypeError m)"


lemma reading_errors [simp]: "reading_error (ValueError m)" "reading_error (KeyError m)" "reading_error (TypeError m)"
  "\<not> reading_error (AttributeError m)"
  by (simp_all add: reading_error_def)









section \<open>Properties\<close>

lemma served_dispatch:
  assumes "faithful_codec cd" "well_keyed (verifier_request_to_dict request)"
    "\<forall>a \<in> insert (vr_proposal request) (set (vr_slice request)). plain_payload (art_payload a)"
  shows "verifier_dispatch cd builder ''dispatch'' (wc_dumps cd (verifier_request_to_dict request)) (Some (impl, v)) =
    (case vp_dispatch impl request v of
       (Inl e, v') \<Rightarrow> (Inl e, Some (impl, v'))
     | (Inr b, v') \<Rightarrow> (Inr (ok_envelope cd (verdict_bundle_to_dict b)), Some (impl, v')))"
  using request_roundtrip [OF assms(3)] call_args_document [OF faithful_reads_back(2) [OF assms(1,2)]]
  by (auto simp: verifier_dispatch_def with_impl_def bindE_def reads_def ret_def split: prod.splits sum.splits)

text \<open>C37. A remote verifier is the local one: over a transport that delivers, a dispatch returns the same verdict
  bundle and leaves the service in the same state as a dispatch in the process, and an exception of the
  service arrives as itself where the control plane tells it apart (a gate unavailable, a
  misconfigured verifier, an unknown provider; a sandbox error keeps its message only) and as an
  unavailable gate otherwise. Provisioning with a setup builds the service from that setup at the other
  end, provisions it and learns its identity, and before that a dispatch is refused as unavailable.\<close>

theorem remote_verifier_is_local:
  fixes impl :: "'v verifier_impl"
  assumes "rc_request rc = loopback (verifier_handle cd builder)" "faithful_codec cd"
    "well_keyed (verifier_request_to_dict request)"
    "\<forall>a \<in> insert (vr_proposal request) (set (vr_slice request)). plain_payload (art_payload a)"
  shows "remote_dispatch cd rc request (r\<lparr>rv_peer := Some (impl, v)\<rparr>) =
      (case vp_dispatch impl request v of (out, v') \<Rightarrow>
        (case out of
           Inr b \<Rightarrow> Inr b
         | Inl e \<Rightarrow> Inl (case e of
             GateUnavailable m \<Rightarrow> e | VerifierError m \<Rightarrow> e | ProviderError m \<Rightarrow> e
           | SandboxError m _ _ \<Rightarrow> SandboxError m None None
           | _ \<Rightarrow> GateUnavailable (''verifier unreachable or misbehaving: '' @ exc_str e)),
         r\<lparr>rv_peer := Some (impl, v')\<rparr>)) \<and>
    (\<exists>m. fst (remote_dispatch cd rc request (r\<lparr>rv_peer := None\<rparr>)) = Inl (GateUnavailable m)) \<and>
    (\<forall>build p. builder = Some build \<and> rc_setup rc = Some p \<and> well_keyed (verifier_setup_to_dict p) \<longrightarrow>
      remote_provision cd rc r =
        (case build p of
           Inl e \<Rightarrow> (Inl (dispatch_failure (delivered e)), r)
         | Inr (made, w) \<Rightarrow> (case vp_provision made w of
             (Inl e, w') \<Rightarrow> (Inl (dispatch_failure (delivered e)), r\<lparr>rv_peer := Some (made, w')\<rparr>)
           | (Inr u, w') \<Rightarrow> (Inr (), r\<lparr>rv_identity := vp_identity made, rv_peer := Some (made, w')\<rparr>))))"
proof (intro conjI allI impI)
  note cd = faithful_reads_back [OF assms(2)]
  note call = hosted.call_peer [OF cd(1)]
  let ?body = "wc_dumps cd (verifier_request_to_dict request)"
  show "remote_dispatch cd rc request (r\<lparr>rv_peer := Some (impl, v)\<rparr>) =
      (case vp_dispatch impl request v of (out, v') \<Rightarrow>
        (case out of
           Inr b \<Rightarrow> Inr b
         | Inl e \<Rightarrow> Inl (case e of
             GateUnavailable m \<Rightarrow> e | VerifierError m \<Rightarrow> e | ProviderError m \<Rightarrow> e
           | SandboxError m _ _ \<Rightarrow> SandboxError m None None
           | _ \<Rightarrow> GateUnavailable (''verifier unreachable or misbehaving: '' @ exc_str e)),
         r\<lparr>rv_peer := Some (impl, v')\<rparr>))"
    by (auto simp: remote_dispatch_def on_peer_def assms(1) try_catch_def bindE_def call served_dispatch [OF assms(2-4)]
        raise_def reads_def cd(3) delivered_failure unreachable_def split: prod.splits sum.splits)
  show "\<exists>m. fst (remote_dispatch cd rc request (r\<lparr>rv_peer := None\<rparr>)) = Inl (GateUnavailable m)"
    by (simp add: remote_dispatch_def on_peer_def assms(1) try_catch_def bindE_def call verifier_dispatch_def with_impl_def
        raise_def delivered_failure unreachable_def)
  fix build p
  assume "builder = Some build \<and> rc_setup rc = Some p \<and> well_keyed (verifier_setup_to_dict p)"
  then have b: "builder = Some build" "rc_setup rc = Some p"
    and args: "call_args cd (wc_dumps cd (verifier_setup_to_dict p)) = Inr (verifier_setup_to_dict p)"
    using call_args_document [OF cd(2)] by simp_all
  have null: "parse_result cd (ok_envelope cd JNull) = Inr JNull" by (rule cd(3)) simp
  have ident: "parse_result cd (ok_envelope cd (JObj [(''identity'', JStr i)])) = Inr (JObj [(''identity'', JStr i)])" for i
    by (rule cd(3)) simp
  show "remote_provision cd rc r =
        (case build p of
           Inl e \<Rightarrow> (Inl (dispatch_failure (delivered e)), r)
         | Inr (made, w) \<Rightarrow> (case vp_provision made w of
             (Inl e, w') \<Rightarrow> (Inl (dispatch_failure (delivered e)), r\<lparr>rv_peer := Some (made, w')\<rparr>)
           | (Inr u, w') \<Rightarrow> (Inr (), r\<lparr>rv_identity := vp_identity made, rv_peer := Some (made, w')\<rparr>)))"
    by (auto simp: remote_provision_def on_peer_def assms(1) b try_catch_def bindE_def call verifier_dispatch_def with_impl_def
        args raise_def reads_def modify_def ret_def null ident json_get_def json_text_def delivered_failure(2)
        split: prod.splits sum.splits)
qed

text \<open>A codec: the documents are countable, and a document is written as that many bytes.\<close>

instance json :: countable by countable_datatype

definition unary_codec :: wire_codec where
  "unary_codec = \<lparr>wc_dumps = (\<lambda>j. replicate (Suc (to_nat j)) 0), wc_loads = (\<lambda>b. Inr (from_nat (length b - 1))),
     wc_str = (\<lambda>_. ''''), wc_float = (\<lambda>_. None)\<rparr>"

lemma unary_codec: "faithful_codec unary_codec"
  by (simp add: faithful_codec_def reads_back_def unary_codec_def)

definition far_verifier :: "nat verifier_impl" where
  "far_verifier = \<lparr>vp_identity = ''far'',
     vp_dispatch = (\<lambda>request n. (if n = 0 then Inr \<lparr>vb_status = REJECTED, vb_decisions = [\<lparr>gd_gate = ''g'', gd_kind = REJECT,
         gd_rationale = ''no'', gd_defects = None, gd_score = Some (1 / 2)\<rparr>], vb_supersedes = None\<rparr>
       else Inl (StoreError ''disk full''), Suc n)),
     vp_late = (\<lambda>_ _ _. None), vp_provision = ret (), vp_teardown = ret (), vp_health = ret True\<rparr>"

definition far_config :: "nat hosted remote_config" where
  "far_config = \<lparr>rc_request = loopback (verifier_handle unary_codec (Some (\<lambda>p. Inr (far_verifier, 0)))),
     rc_setup = Some \<lparr>vs_objects = [(''train.csv'', [1])], vs_params = []\<rparr>, rc_on_teardown = None\<rparr>"

definition far_request :: verifier_request where
  "far_request = \<lparr>vr_proposal = wire_artifact, vr_slice = [], vr_objects = [(''f'', [1, 2])], vr_scores = []\<rparr>"

theorem remote_verifier_is_local_witness:
  "\<exists>b. vb_status b = REJECTED \<and>
     remote_dispatch unary_codec far_config far_request \<lparr>rv_identity = ''far'', rv_peer = Some (far_verifier, 0)\<rparr> =
       (Inr b, \<lparr>rv_identity = ''far'', rv_peer = Some (far_verifier, 1)\<rparr>) \<and>
     fst (remote_dispatch unary_codec far_config far_request \<lparr>rv_identity = ''far'', rv_peer = Some (far_verifier, 1)\<rparr>) =
       Inl (GateUnavailable ''verifier unreachable or misbehaving: disk full'') \<and>
     remote_provision unary_codec far_config \<lparr>rv_identity = [], rv_peer = None\<rparr> =
       (Inr (), \<lparr>rv_identity = ''far'', rv_peer = Some (far_verifier, 0)\<rparr>)"
proof -
  let ?cd = unary_codec
  have rc: "rc_request far_config = loopback (verifier_handle ?cd (Some (\<lambda>p. Inr (far_verifier, 0))))"
    by (simp add: far_config_def)
  have keyed: "well_keyed (verifier_request_to_dict far_request)"
    by (simp add: verifier_request_to_dict_def far_request_def artifact_to_dict_def wire_artifact_def payload_to_json_def
        object_ref_to_dict_def objects_to_wire_def object_to_wire_def split: option.split)
  have plain: "\<forall>a \<in> insert (vr_proposal far_request) (set (vr_slice far_request)). plain_payload (art_payload a)"
    by (simp add: far_request_def wire_artifact_def plain_payload_def OBJECT_REF_MARKER_def)
  have shipped: "well_keyed (verifier_setup_to_dict \<lparr>vs_objects = [(''train.csv'', [1])], vs_params = []\<rparr>)"
    by (simp add: verifier_setup_to_dict_def objects_to_wire_def object_to_wire_def)
  note there = remote_verifier_is_local [OF rc unary_codec keyed plain]
  have first: "vp_dispatch far_verifier far_request 0 = (Inr \<lparr>vb_status = REJECTED, vb_decisions = [\<lparr>gd_gate = ''g'', gd_kind = REJECT,
         gd_rationale = ''no'', gd_defects = None, gd_score = Some (1 / 2)\<rparr>], vb_supersedes = None\<rparr>, 1)"
    by (simp add: far_verifier_def)
  have second: "vp_dispatch far_verifier far_request 1 = (Inl (StoreError ''disk full''), 2)" by (simp add: far_verifier_def)
  have prov: "vp_provision far_verifier 0 = (Inr (), 0)" "vp_identity far_verifier = ''far''"
    by (simp_all add: far_verifier_def ret_def)
  show ?thesis
  proof (intro exI conjI)
    show "remote_dispatch ?cd far_config far_request \<lparr>rv_identity = ''far'', rv_peer = Some (far_verifier, 0)\<rparr> =
       (Inr \<lparr>vb_status = REJECTED, vb_decisions = [\<lparr>gd_gate = ''g'', gd_kind = REJECT,
         gd_rationale = ''no'', gd_defects = None, gd_score = Some (1 / 2)\<rparr>], vb_supersedes = None\<rparr>,
        \<lparr>rv_identity = ''far'', rv_peer = Some (far_verifier, 1)\<rparr>)"
      using there [where r = "\<lparr>rv_identity = ''far'', rv_peer = None\<rparr>" and impl = far_verifier and v = 0] first by simp
    show "fst (remote_dispatch ?cd far_config far_request \<lparr>rv_identity = ''far'', rv_peer = Some (far_verifier, 1)\<rparr>) =
       Inl (GateUnavailable ''verifier unreachable or misbehaving: disk full'')"
      using there [where r = "\<lparr>rv_identity = ''far'', rv_peer = None\<rparr>" and impl = far_verifier and v = 1] second by simp
    show "remote_provision ?cd far_config \<lparr>rv_identity = [], rv_peer = None\<rparr> =
       (Inr (), \<lparr>rv_identity = ''far'', rv_peer = Some (far_verifier, 0)\<rparr>)"
      using there [where r = "\<lparr>rv_identity = [], rv_peer = None\<rparr>" and impl = far_verifier and v = 0] shipped prov by (simp add: far_config_def)
  qed simp
qed

text \<open>A remote sandbox is the local one except for a failed cycle's trace: over a transport that delivers it
  serves the same context, hands out the same envelope and leaves the sandbox in the same state, but a
  sandbox error arrives without the transcript and the telemetry it carried, and an error of any other
  class than the four of the envelope as a transport error.\<close>

lemma remote_sandbox_is_local:
  assumes "faithful_codec cd" "well_keyed (served_context_to_dict c)"
    "\<And>e. fst (sb_collect impl x) = Inr e \<Longrightarrow>
       plain_payload (art_payload (pe_artifact e)) \<and> well_keyed (proposal_envelope_to_dict e)"
  shows "let far = remote_sandbox cd (loopback (sandbox_handle cd impl)) in
    sb_serve far c x = (case sb_serve impl c x of (r, y) \<Rightarrow> (case r of Inl e \<Rightarrow> Inl (delivered e) | Inr u \<Rightarrow> Inr u, y)) \<and>
    sb_collect far x = (case sb_collect impl x of (r, y) \<Rightarrow> (case r of Inl e \<Rightarrow> Inl (delivered e) | Inr p \<Rightarrow> Inr p, y)) \<and>
    sb_regenerate far x = (case sb_regenerate impl x of (r, y) \<Rightarrow> (case r of Inl e \<Rightarrow> Inl (delivered e) | Inr u \<Rightarrow> Inr u, y)) \<and>
    (\<forall>m transcript telemetry. delivered (SandboxError m transcript telemetry) = SandboxError m None None)"
proof -
  note cd = faithful_reads_back [OF assms(1)]
  have null: "parse_result cd (ok_envelope cd JNull) = Inr JNull" by (rule cd(3)) simp
  have args: "call_args cd (wc_dumps cd (served_context_to_dict c)) = Inr (served_context_to_dict c)"
    by (rule call_args_document [OF cd(2) [OF assms(2)]])
  have env: "parse_result cd (ok_envelope cd (proposal_envelope_to_dict e)) = Inr (proposal_envelope_to_dict e)"
    "proposal_envelope_from_dict (proposal_envelope_to_dict e) = Inr e" if "sb_collect impl x = (Inr e, y)" for e y
    using assms(3) [of e] that cd(3) envelope_roundtrip by simp_all
  have serve: "sandbox_dispatch cd impl ''serve_context'' (wc_dumps cd (served_context_to_dict c)) x =
      (case sb_serve impl c x of (Inl e, y) \<Rightarrow> (Inl e, y) | (Inr u, y) \<Rightarrow> (Inr (ok_envelope cd JNull), y))"
    by (simp add: sandbox_dispatch_def args bindE_def reads_def ret_def split: prod.split sum.split)
  have collect: "sandbox_dispatch cd impl ''collect_proposal'' [] x =
      (case sb_collect impl x of (Inl e, y) \<Rightarrow> (Inl e, y) | (Inr p, y) \<Rightarrow> (Inr (ok_envelope cd (proposal_envelope_to_dict p)), y))"
    by (simp add: sandbox_dispatch_def bindE_def ret_def split: prod.split sum.split)
  have regen: "sandbox_dispatch cd impl ''regenerate'' [] x =
      (case sb_regenerate impl x of (Inl e, y) \<Rightarrow> (Inl e, y) | (Inr u, y) \<Rightarrow> (Inr (ok_envelope cd JNull), y))"
    by (simp add: sandbox_dispatch_def bindE_def ret_def split: prod.split sum.split)
  note step = sandboxed.remote_call_peer [OF cd(1)]
  have calls:
    "remote_call cd (loopback (sandbox_handle cd impl)) ''serve_context'' (wc_dumps cd (served_context_to_dict c)) x =
      (case sb_serve impl c x of (Inl e, y) \<Rightarrow> (Inl (delivered e), y) | (Inr u, y) \<Rightarrow> (Inr JNull, y))"
    "remote_call cd (loopback (sandbox_handle cd impl)) ''collect_proposal'' [] x =
      (case sb_collect impl x of (Inl e, y) \<Rightarrow> (Inl (delivered e), y) | (Inr p, y) \<Rightarrow> (Inr (proposal_envelope_to_dict p), y))"
    "remote_call cd (loopback (sandbox_handle cd impl)) ''regenerate'' [] x =
      (case sb_regenerate impl x of (Inl e, y) \<Rightarrow> (Inl (delivered e), y) | (Inr u, y) \<Rightarrow> (Inr JNull, y))"
    by (subst step; auto simp: serve collect regen null env split: prod.splits sum.splits)+
  show ?thesis
    unfolding Let_def
  proof (intro conjI)
    show "sb_serve (remote_sandbox cd (loopback (sandbox_handle cd impl))) c x =
        (case sb_serve impl c x of (r, y) \<Rightarrow> (case r of Inl e \<Rightarrow> Inl (delivered e) | Inr u \<Rightarrow> Inr u, y))"
      by (auto simp: remote_sandbox_def ignore_def bindE_def ret_def calls split: prod.splits sum.splits)
    show "sb_collect (remote_sandbox cd (loopback (sandbox_handle cd impl))) x =
        (case sb_collect impl x of (r, y) \<Rightarrow> (case r of Inl e \<Rightarrow> Inl (delivered e) | Inr p \<Rightarrow> Inr p, y))"
      by (auto simp: remote_sandbox_def bindE_def reads_def calls env split: prod.splits sum.splits)
    show "sb_regenerate (remote_sandbox cd (loopback (sandbox_handle cd impl))) x =
        (case sb_regenerate impl x of (r, y) \<Rightarrow> (case r of Inl e \<Rightarrow> Inl (delivered e) | Inr u \<Rightarrow> Inr u, y))"
      by (auto simp: remote_sandbox_def ignore_def bindE_def ret_def calls split: prod.splits sum.splits)
  qed (simp add: delivered_def)
qed

definition far_sandbox :: "nat sandbox_impl" where
  "far_sandbox = \<lparr>sb_serve = (\<lambda>c n. (Inr (), n + 10)),
     sb_collect = (\<lambda>n. if n < 10 then (Inl (SandboxError ''step limit'' (Some [1, 2]) (Some [3])), n) else (Inr wire_envelope, n)),
     sb_regenerate = ret (), sb_provision = ret (), sb_teardown = ret (), sb_health = ret True\<rparr>"

lemma remote_sandbox_is_local_witness:
  "let far = remote_sandbox unary_codec (loopback (sandbox_handle unary_codec far_sandbox)) in
     sb_collect far_sandbox 0 = (Inl (SandboxError ''step limit'' (Some [1, 2]) (Some [3])), 0) \<and>
     sb_collect far 0 = (Inl (SandboxError ''step limit'' None None), 0) \<and>
     sb_collect far 10 = (Inr wire_envelope, 10)"
proof -
  let ?c = "\<lparr>sc_system_prompt = '''', sc_tail = '''', sc_feedback = '''', sc_workspace_objects = []\<rparr>"
  have c: "well_keyed (served_context_to_dict ?c)" by (simp add: served_context_to_dict_def)
  have e: "plain_payload (art_payload (pe_artifact wire_envelope)) \<and> well_keyed (proposal_envelope_to_dict wire_envelope)"
    by (simp add: proposal_envelope_to_dict_def wire_envelope_def artifact_to_dict_def wire_artifact_def payload_to_json_def
        object_ref_to_dict_def objects_to_wire_def object_to_wire_def operation_to_dict_def plain_payload_def OBJECT_REF_MARKER_def
        split: option.split)
  have first: "sb_collect far_sandbox 0 = (Inl (SandboxError ''step limit'' (Some [1, 2]) (Some [3])), 0)"
    and second: "sb_collect far_sandbox 10 = (Inr wire_envelope, 10)" by (simp_all add: far_sandbox_def)
  have envs: "\<And>e. fst (sb_collect far_sandbox n) = Inr e \<Longrightarrow> plain_payload (art_payload (pe_artifact e)) \<and> well_keyed (proposal_envelope_to_dict e)" for n
    using e by (simp add: far_sandbox_def split: if_splits)
  show ?thesis
    using remote_sandbox_is_local [where impl = far_sandbox and x = 0, OF unary_codec c envs [of 0]] remote_sandbox_is_local [where impl = far_sandbox and x = 10, OF unary_codec c envs [of 10]]
    by (simp add: Let_def first second delivered_def)
qed




end
