(* ===== verification/Worker_Backend.thy ===== *)
theory Worker_Backend
  imports Workspace
begin

text \<open>
  \<open>provisioning/backend.py\<close>, \<open>provisioning/docker.py\<close>, \<open>provisioning/reaper.py\<close> and
  \<open>provisioning/fake.py\<close>: what a worker is launched with, the \<open>docker run\<close> command lines, the transfer of
  files into and out of a worker, and the fleet by label. The host's files are a list of nodes, symbolic
  links among them; starting a process and reading what it prints are parameters that act on the files
  and on the daemon, as are the fresh names.
\<close>

section \<open>Workers\<close>

definition WORKER_UID :: int where "WORKER_UID = 65534"

definition WORKER_GID :: int where "WORKER_GID = 65534"

record labels =
  lb_role :: string
  lb_tenant :: string
  lb_job :: string
  lb_run :: string
  lb_cycle :: string
  lb_config :: string
  lb_harness :: string

definition labels_of :: "string \<Rightarrow> labels" where
  "labels_of role = \<lparr>lb_role = role, lb_tenant = ''default'', lb_job = '''', lb_run = '''', lb_cycle = '''',
     lb_config = '''', lb_harness = ''verity''\<rparr>"

definition labels_dict :: "labels \<Rightarrow> (string \<times> string) list" where
  "labels_dict l = filter (\<lambda>(k, v). v \<noteq> '''')
     [(''harness'', lb_harness l), (''tenant'', lb_tenant l), (''job'', lb_job l), (''run'', lb_run l),
      (''cycle'', lb_cycle l), (''role'', lb_role l), (''config'', lb_config l)]"

type_synonym selector = "(string \<times> string) list"

definition matches :: "labels \<Rightarrow> selector \<Rightarrow> bool" where
  "matches l sel \<longleftrightarrow> (\<forall>(k, v) \<in> set sel. map_of (labels_dict l) k = Some v)"

record resource_limits =
  rl_memory :: string
  rl_cpus :: string
  rl_pids :: int

record tmpfs =
  tf_size :: string
  tf_allow_exec :: bool

record worker_spec =
  ws_image :: string
  ws_command :: "string list"
  ws_labels :: labels
  ws_readonly :: "(string \<times> bytes) list"
  ws_writable :: "string list"
  ws_globs :: "string list"
  ws_env :: "(string \<times> string) list"
  ws_passthrough :: "string list"
  ws_network :: bool
  ws_limits :: resource_limits
  ws_scratch :: tmpfs
  ws_extra_hosts :: "(string \<times> string) list"
  ws_workdir :: string
  ws_runtime :: "string option"
  ws_timeout :: rat
  ws_output_cap :: int
  ws_service_name :: "string option"
  ws_network_name :: "string option"
  ws_docker_socket :: bool
  ws_host_mounts :: "(string \<times> string \<times> string) list"

record worker_handle =
  wh_id :: string
  wh_labels :: labels

datatype worker_status = PENDING | RUNNING | SUCCEEDED | FAILED | TIMED_OUT | GONE

record completed_worker =
  cw_exit_code :: int
  cw_stdout :: string
  cw_stderr :: string
  cw_outputs :: "(string \<times> bytes) list"
  cw_timed_out :: bool

section \<open>The host's files\<close>

datatype node = Directory | File bytes | Link path

type_synonym host_fs = "(path \<times> node) list"

text \<open>Following a path: a link starts again at its target, at most as often as the system allows.\<close>

definition MAX_LINKS :: nat where "MAX_LINKS = 40"

function resolve :: "host_fs \<Rightarrow> nat \<Rightarrow> path \<Rightarrow> path \<Rightarrow> path option" where
  "resolve fs n cur [] = Some cur"
| "resolve fs n cur (c # cs) =
     (if c = ''..'' then resolve fs n (butlast cur) cs
      else case map_of fs (cur @ [c]) of
        Some (Link target) \<Rightarrow> (case n of 0 \<Rightarrow> None | Suc m \<Rightarrow> resolve fs m [] (target @ cs))
      | _ \<Rightarrow> resolve fs n (cur @ [c]) cs)"
  by pat_completeness auto
termination by (relation "measures [\<lambda>(fs, n, cur, cs). n, \<lambda>(fs, n, cur, cs). length cs]") auto

text \<open>\<open>is_file\<close> and \<open>read_bytes\<close> follow links.\<close>

definition file_at :: "host_fs \<Rightarrow> path \<Rightarrow> bytes option" where
  "file_at fs p = (case resolve fs MAX_LINKS [] p of
      None \<Rightarrow> None
    | Some q \<Rightarrow> (case map_of fs q of Some (File data) \<Rightarrow> Some data | _ \<Rightarrow> None))"

fun make_dirs :: "path \<Rightarrow> path \<Rightarrow> host_fs \<Rightarrow> exc + host_fs" where
  "make_dirs cur [] fs = Inr fs"
| "make_dirs cur (c # cs) fs =
     (if c = ''..'' then make_dirs (butlast cur) cs fs
      else case map_of fs (cur @ [c]) of
        None \<Rightarrow> make_dirs (cur @ [c]) cs (dict_put (cur @ [c]) Directory fs)
      | Some (File _) \<Rightarrow> Inl (OtherError ''File exists'')
      | Some _ \<Rightarrow> make_dirs (cur @ [c]) cs fs)"

text \<open>Where a path through directories that exist leads, in a tree without links.\<close>

fun normal :: "path \<Rightarrow> path \<Rightarrow> path" where
  "normal cur [] = cur"
| "normal cur (c # cs) = normal (if c = ''..'' then butlast cur else cur @ [c]) cs"

definition put_file :: "path \<Rightarrow> bytes \<Rightarrow> host_fs \<Rightarrow> exc + host_fs" where
  "put_file p data fs =
     (if map_of fs p = Some Directory then Inl (OtherError ''Is a directory'') else Inr (dict_put p (File data) fs))"

definition remove_tree :: "path \<Rightarrow> host_fs \<Rightarrow> host_fs" where
  "remove_tree d fs = filter (\<lambda>(p, _). take (length d) p \<noteq> d) fs"

definition path_str :: "path \<Rightarrow> string" where
  "path_str p = ''/'' @ join ''/'' p"

text \<open>The components of a path written as text, and \<open>rstrip\<close> and \<open>lstrip\<close> of its slashes.\<close>

definition path_parts :: "string \<Rightarrow> path" where
  "path_parts s = filter (\<lambda>c. c \<noteq> '''' \<and> c \<noteq> ''.'') (split_slash [] s)"

definition rstrip_slashes :: "string \<Rightarrow> string" where
  "rstrip_slashes s = rev (dropWhile (\<lambda>c. c = CHR ''/'') (rev s))"

section \<open>The command line of an untrusted worker\<close>

record mount =
  mt_host :: path
  mt_target :: string
  mt_mode :: string

definition mount_arg :: "mount \<Rightarrow> string" where
  "mount_arg m = path_str (mt_host m) @ '':'' @ mt_target m @ '':'' @ mt_mode m"

definition env_set :: "(string \<Rightarrow> string option) \<Rightarrow> string \<Rightarrow> bool" where
  "env_set environ v \<longleftrightarrow> (case environ v of Some x \<Rightarrow> x \<noteq> '''' | None \<Rightarrow> False)"

definition pairs_args :: "string \<Rightarrow> (string \<times> string) list \<Rightarrow> string list" where
  "pairs_args flag d = concat (map (\<lambda>(k, v). [flag, k @ ''='' @ v]) d)"

definition build_argv :: "string \<Rightarrow> (string \<Rightarrow> string option) \<Rightarrow> worker_spec \<Rightarrow> string \<Rightarrow> mount list \<Rightarrow> string list" where
  "build_argv docker_bin environ spec n mounts =
     [docker_bin, ''run'', ''--rm'', ''--name'', n] @
     (case ws_runtime spec of Some r \<Rightarrow> [''--runtime='' @ r] | None \<Rightarrow> []) @
     [''--read-only'',
      ''--tmpfs=/tmp:rw,size='' @ tf_size (ws_scratch spec) @ '',mode=1777'' @ (if tf_allow_exec (ws_scratch spec) then '',exec'' else ''''),
      ''--memory='' @ rl_memory (ws_limits spec), ''--memory-swap='' @ rl_memory (ws_limits spec),
      ''--cpus='' @ rl_cpus (ws_limits spec), ''--pids-limit='' @ int_str (rl_pids (ws_limits spec)),
      ''--cap-drop=ALL'', ''--security-opt=no-new-privileges'',
      ''--user='' @ int_str WORKER_UID @ '':'' @ int_str WORKER_GID] @
     (if ws_network spec then [] else [''--network=none'']) @
     concat (map (\<lambda>m. [''-v'', mount_arg m]) mounts) @
     pairs_args ''--label'' (labels_dict (ws_labels spec)) @
     pairs_args ''-e'' (ws_env spec) @
     concat (map (\<lambda>v. if env_set environ v then [''-e'', v] else []) (ws_passthrough spec)) @
     map (\<lambda>(h, ip). ''--add-host='' @ h @ '':'' @ ip) (ws_extra_hosts spec) @
     [''-e'', ''HOME=/tmp'', ''-e'', ''PYTHONDONTWRITEBYTECODE=1'', ''-w'', ws_workdir spec] @
     [ws_image spec] @ ws_command spec"

section \<open>Files in, files out\<close>

text \<open>\<open>_enclosing_writable\<close>: the first writable directory the path is under.\<close>

definition enclosing_writable :: "string \<Rightarrow> (string \<times> path) list \<Rightarrow> (string \<times> path) option" where
  "enclosing_writable p writable_hosts =
     List.find (\<lambda>(cdir, _). prefix (rstrip_slashes cdir @ ''/'') p) writable_hosts"

type_synonym staged = "mount list \<times> (string \<times> path) list"

definition stage_writable :: "path \<Rightarrow> string \<Rightarrow> staged \<times> host_fs \<Rightarrow> exc + staged \<times> host_fs" where
  "stage_writable staging cdir = (\<lambda>((mounts, hosts), fs).
     let host = staging @ [''rw''] @ path_parts cdir in
     bindS (make_dirs [] host fs) (\<lambda>fs'.
     Inr ((mounts @ [\<lparr>mt_host = host, mt_target = cdir, mt_mode = ''rw''\<rparr>], dict_put cdir host hosts), fs')))"

definition stage_input :: "path \<Rightarrow> string \<times> bytes \<Rightarrow> staged \<times> host_fs \<Rightarrow> exc + staged \<times> host_fs" where
  "stage_input staging = (\<lambda>(p, data) ((mounts, hosts), fs).
     case enclosing_writable p hosts of
       Some (cdir, host_root) \<Rightarrow>
         let dest = path_join host_root (drop (length (rstrip_slashes cdir) + 1) p) in
         bindS (make_dirs [] (butlast dest) fs) (\<lambda>fs'. bindS (put_file (normal [] dest) data fs') (\<lambda>fs''.
         Inr ((mounts, hosts), fs'')))
     | None \<Rightarrow>
         let host = staging @ [''ro''] @ path_parts p in
         bindS (make_dirs [] (butlast host) fs) (\<lambda>fs'. bindS (put_file (normal [] host) data fs') (\<lambda>fs''.
         Inr ((mounts @ [\<lparr>mt_host = host, mt_target = p, mt_mode = ''ro''\<rparr>], hosts), fs''))))"

fun stages :: "('a \<Rightarrow> 's \<Rightarrow> exc + 's) \<Rightarrow> 'a list \<Rightarrow> 's \<Rightarrow> exc + 's" where
  "stages f [] s = Inr s"
| "stages f (x # xs) s = bindS (f x s) (stages f xs)"

definition stage_files :: "worker_spec \<Rightarrow> path \<Rightarrow> host_fs \<Rightarrow> exc + staged \<times> host_fs" where
  "stage_files spec staging fs =
     bindS (stages (stage_writable staging) (ws_writable spec) (([], []), fs)) (stages (stage_input staging) (ws_readonly spec))"

section \<open>What is collected\<close>

fun fnmatch :: "string \<Rightarrow> string \<Rightarrow> bool" where
  "fnmatch [] s \<longleftrightarrow> s = []"
| "fnmatch (p # ps) [] \<longleftrightarrow> p = CHR ''*'' \<and> fnmatch ps []"
| "fnmatch (p # ps) (c # cs) \<longleftrightarrow>
     (if p = CHR ''*'' then fnmatch ps (c # cs) \<or> fnmatch (p # ps) cs else (p = CHR ''?'' \<or> p = c) \<and> fnmatch ps cs)"

text \<open>The names in a directory, and \<open>Path.glob\<close> for patterns of names and stars; a linked directory is entered.\<close>

definition names_in :: "host_fs \<Rightarrow> path \<Rightarrow> string list" where
  "names_in fs d = map last (filter (\<lambda>p. p \<noteq> [] \<and> butlast p = d) (map fst fs))"

fun glob_from :: "host_fs \<Rightarrow> path \<Rightarrow> string list \<Rightarrow> path list" where
  "glob_from fs cur [] = [cur]"
| "glob_from fs cur (pat # pats) = (case resolve fs MAX_LINKS [] cur of
      None \<Rightarrow> []
    | Some d \<Rightarrow> concat (map (\<lambda>c. glob_from fs (cur @ [c]) pats) (filter (fnmatch pat) (names_in fs d))))"

definition glob :: "host_fs \<Rightarrow> path \<Rightarrow> string \<Rightarrow> exc + path list" where
  "glob fs d rel = (if rel = [] then Inl (ValueError ''Unacceptable pattern: '') else Inr (sort (glob_from fs d (path_parts rel))))"

definition pattern_home :: "string \<Rightarrow> (string \<times> path) list \<Rightarrow> (string \<times> path) option" where
  "pattern_home pattern hosts =
     List.find (\<lambda>(cdir, _). pattern = rstrip_slashes cdir \<or> prefix (rstrip_slashes cdir @ ''/'') pattern) hosts"

text \<open>One file found: it is read, through whatever link it is, if it is a file.\<close>

definition collect_file :: "host_fs \<Rightarrow> string \<Rightarrow> path \<Rightarrow> path \<Rightarrow> (string \<times> bytes) list \<Rightarrow> (string \<times> bytes) list" where
  "collect_file fs base host found outputs = (case file_at fs found of
      Some data \<Rightarrow> dict_put (base @ ''/'' @ join ''/'' (drop (length host) found)) data outputs
    | None \<Rightarrow> outputs)"

definition collect_pattern :: "host_fs \<Rightarrow> (string \<times> path) list \<Rightarrow> string \<Rightarrow> (string \<times> bytes) list \<Rightarrow> exc + (string \<times> bytes) list" where
  "collect_pattern fs hosts pattern outputs = (case pattern_home pattern hosts of
      None \<Rightarrow> Inr outputs
    | Some (cdir, host) \<Rightarrow>
        let base = rstrip_slashes cdir in
        bindS (glob fs host (drop (length base + 1) pattern)) (\<lambda>found.
        Inr (fold (collect_file fs base host) found outputs)))"

definition collect :: "worker_spec \<Rightarrow> (string \<times> path) list \<Rightarrow> host_fs \<Rightarrow> exc + (string \<times> bytes) list" where
  "collect spec hosts fs = stages (collect_pattern fs hosts) (ws_globs spec) []"

section \<open>Captured output\<close>

definition DEFAULT_OUTPUT_CAP :: int where "DEFAULT_OUTPUT_CAP = 1000000"

text \<open>\<open>drain_capped\<close> over the chunks the pipe delivers; an empty chunk is its end.\<close>

fun drain_loop :: "int \<Rightarrow> bytes \<Rightarrow> bool \<Rightarrow> bytes list \<Rightarrow> bytes \<times> bool" where
  "drain_loop cap buf truncated [] = (buf, truncated)"
| "drain_loop cap buf truncated (chunk # chunks) =
     (if chunk = [] then (buf, truncated)
      else let room = cap - int (length buf) in
        drain_loop cap (if 0 < room then buf @ take (nat room) chunk else buf)
          (truncated \<or> max room 0 < int (length chunk)) chunks)"

definition drain_capped :: "bytes list option \<Rightarrow> int \<Rightarrow> bytes \<times> bool" where
  "drain_capped stream cap = (case stream of None \<Rightarrow> ([], False) | Some chunks \<Rightarrow> drain_loop cap [] False chunks)"

definition truncation_marked :: "string \<Rightarrow> int \<Rightarrow> bytes \<times> bool \<Rightarrow> bytes" where
  "truncation_marked stream cap = (\<lambda>(buf, truncated).
     if truncated then buf @ utf8 (nl @ ''...['' @ stream @ '' truncated at '' @ int_str cap @ '' bytes]'') else buf)"

definition communicate_capped :: "bytes list option \<Rightarrow> bytes list option \<Rightarrow> int \<Rightarrow> bytes \<times> bytes" where
  "communicate_capped out_pipe err_pipe cap =
     (truncation_marked ''stdout'' cap (drain_capped out_pipe cap), truncation_marked ''stderr'' cap (drain_capped err_pipe cap))"

section \<open>The Docker backend\<close>

text \<open>How a started process ends: its code, whether the clock ran out, whether both pipes were drained, and what they held.\<close>

record proc_end =
  pe_code :: "int option"
  pe_timed_out :: bool
  pe_drained :: bool
  pe_out :: "bytes list"
  pe_err :: "bytes list"

record 'd docker_world =
  dw_fs :: host_fs
  dw_daemon :: 'd

text \<open>The backend's settings, then what it is given: the environment, fresh names, processes.\<close>

record 'd docker_backend =
  dk_bin :: string
  dk_staging_root :: "path option"
  dk_temp_dir :: path
  dk_environ :: "string \<Rightarrow> string option"
  dk_fresh_dir :: "'d docker_world \<Rightarrow> string"
  dk_uuid :: "'d docker_world \<Rightarrow> string"
  dk_spawn :: "string list \<Rightarrow> rat \<Rightarrow> ('d docker_world, string, proc_end) st"
  dk_capture :: "string list \<Rightarrow> ('d docker_world, exc, string) st"
  dk_decode :: "bytes \<Rightarrow> string"

definition worker_name :: "'d docker_backend \<Rightarrow> labels \<Rightarrow> 'd docker_world \<Rightarrow> string" where
  "worker_name dk l w = ''verity-'' @ (if lb_role l \<noteq> '''' then lb_role l else ''worker'') @ ''-'' @ take 10 (dk_uuid dk w)"

definition run_argv :: "'d docker_backend \<Rightarrow> string list \<Rightarrow> rat \<Rightarrow> int \<Rightarrow> ('d docker_world, exc, completed_worker) st" where
  "run_argv dk argv timeout cap w = (case dk_spawn dk argv timeout w of
      (Inl oserror, w') \<Rightarrow> (Inl (ProvisioningError (''could not launch worker via '' @ py_repr (dk_bin dk) @ '': '' @ oserror)), w')
    | (Inr e, w') \<Rightarrow>
        let out_b = (if pe_drained e then fst (drain_capped (Some (pe_out e)) cap) else []);
            err_b = (if pe_drained e then fst (drain_capped (Some (pe_err e)) cap) else []) in
        (Inr \<lparr>cw_exit_code = (if pe_timed_out e then -1 else case pe_code e of Some c \<Rightarrow> c | None \<Rightarrow> -1),
           cw_stdout = dk_decode dk out_b, cw_stderr = dk_decode dk err_b, cw_outputs = [],
           cw_timed_out = pe_timed_out e\<rparr>, w'))"

definition make_staging :: "'d docker_backend \<Rightarrow> ('d docker_world, exc, path) st" where
  "make_staging dk w =
     (case (case dk_staging_root dk of None \<Rightarrow> Inr (dw_fs w) | Some d \<Rightarrow> make_dirs [] d (dw_fs w)) of
        Inl e \<Rightarrow> (Inl e, w)
      | Inr fs \<Rightarrow>
          let staging = (case dk_staging_root dk of None \<Rightarrow> dk_temp_dir dk | Some d \<Rightarrow> d) @ [''verity-worker-'' @ dk_fresh_dir dk w] in
          (Inr staging, w\<lparr>dw_fs := dict_put staging Directory fs\<rparr>))"

definition run_to_completion :: "'d docker_backend \<Rightarrow> worker_spec \<Rightarrow> ('d docker_world, exc, completed_worker) st" where
  "run_to_completion dk spec =
     bindE (gets (worker_name dk (ws_labels spec))) (\<lambda>n.
     bindE (make_staging dk) (\<lambda>staging.
     bindE (attempt
       (bindE (reads (\<lambda>w. stage_files spec staging (dw_fs w))) (\<lambda>((mounts, hosts), fs).
        bindE (modify (\<lambda>w. w\<lparr>dw_fs := fs\<rparr>)) (\<lambda>_.
        bindE (run_argv dk (build_argv (dk_bin dk) (dk_environ dk) spec n mounts) (ws_timeout spec) (ws_output_cap spec)) (\<lambda>result.
        bindE (reads (\<lambda>w. collect spec hosts (dw_fs w))) (\<lambda>outputs.
        ret (result\<lparr>cw_outputs := outputs\<rparr>))))))) (\<lambda>outcome.
     bindE (modify (\<lambda>w. w\<lparr>dw_fs := remove_tree staging (dw_fs w)\<rparr>)) (\<lambda>_.
     reads (\<lambda>_. outcome)))))"

section \<open>The fleet\<close>

text \<open>\<open>out.split()\<close>\<close>

definition is_blank :: "char \<Rightarrow> bool" where
  "is_blank c \<longleftrightarrow> (of_char c :: nat) \<in> {9, 10, 11, 12, 13, 28, 29, 30, 31, 32, 133, 160}"

fun blank_split :: "string \<Rightarrow> string \<Rightarrow> string list" where
  "blank_split acc [] = (if acc = [] then [] else [rev acc])"
| "blank_split acc (c # cs) =
     (if is_blank c then (if acc = [] then [] else [rev acc]) @ blank_split [] cs else blank_split (c # acc) cs)"

definition list_args :: "string \<Rightarrow> selector \<Rightarrow> string list" where
  "list_args docker_bin sel =
     [docker_bin, ''ps'', ''--quiet'', ''--no-trunc''] @
     concat (map (\<lambda>(k, v). [''--filter'', ''label='' @ k @ ''='' @ v]) sel) @ [''--filter'', ''label=harness=verity'']"

definition list_workers :: "'d docker_backend \<Rightarrow> selector \<Rightarrow> ('d docker_world, exc, worker_handle list) st" where
  "list_workers dk sel = bindE (dk_capture dk (list_args (dk_bin dk) sel)) (\<lambda>out_s.
     ret (map (\<lambda>cid. \<lparr>wh_id = cid, wh_labels = labels_of ''''\<rparr>) (blank_split [] out_s)))"

definition destroy :: "'d docker_backend \<Rightarrow> worker_handle \<Rightarrow> ('d docker_world, exc, unit) st" where
  "destroy dk h = bindE (attempt (dk_capture dk [dk_bin dk, ''rm'', ''-f'', wh_id h])) (\<lambda>_. ret ())"

definition reap_workers :: "'d docker_backend \<Rightarrow> selector \<Rightarrow> ('d docker_world, exc, nat) st" where
  "reap_workers dk sel = bindE (list_workers dk sel) (\<lambda>handles. bindE (mapM (destroy dk) handles) (\<lambda>_. ret (length handles)))"

definition worker_status_of :: "'d docker_backend \<Rightarrow> worker_handle \<Rightarrow> ('d docker_world, exc, worker_status) st" where
  "worker_status_of dk h = bindE (dk_capture dk [dk_bin dk, ''inspect'', ''-f'', ''{{.State.Status}}'', wh_id h]) (\<lambda>out_s.
     let state = rev (dropWhile is_blank (rev (dropWhile is_blank out_s))) in
     ret (if state = '''' then GONE else if state = ''exited'' then SUCCEEDED else RUNNING))"

text \<open>The trusted service worker.\<close>

definition build_service_argv :: "string \<Rightarrow> (string \<Rightarrow> string option) \<Rightarrow> worker_spec \<Rightarrow> string \<Rightarrow> string list" where
  "build_service_argv docker_bin environ spec n =
     [docker_bin, ''run'', ''-d'', ''--rm'', ''--name'', n] @
     (case ws_runtime spec of Some r \<Rightarrow> [''--runtime='' @ r] | None \<Rightarrow> []) @
     [''--memory='' @ rl_memory (ws_limits spec), ''--memory-swap='' @ rl_memory (ws_limits spec),
      ''--cpus='' @ rl_cpus (ws_limits spec), ''--pids-limit='' @ int_str (rl_pids (ws_limits spec))] @
     (case ws_network_name spec of Some net \<Rightarrow> [''--network'', net] | None \<Rightarrow> []) @
     (if ws_docker_socket spec then [''-v'', ''/var/run/docker.sock:/var/run/docker.sock''] else []) @
     concat (map (\<lambda>(h, t, m). [''-v'', h @ '':'' @ t @ '':'' @ m]) (ws_host_mounts spec)) @
     pairs_args ''--label'' (labels_dict (ws_labels spec)) @
     pairs_args ''-e'' (ws_env spec) @
     concat (map (\<lambda>v. if env_set environ v then [''-e'', v] else []) (ws_passthrough spec)) @
     [''-w'', ws_workdir spec, ws_image spec] @ ws_command spec"

definition launch :: "'d docker_backend \<Rightarrow> worker_spec \<Rightarrow> ('d docker_world, exc, worker_handle) st" where
  "launch dk spec =
     bindE (gets (worker_name dk (ws_labels spec))) (\<lambda>fresh.
     let n = (case ws_service_name spec of Some s \<Rightarrow> if s \<noteq> '''' then s else fresh | None \<Rightarrow> fresh) in
     bindE (dk_capture dk (build_service_argv (dk_bin dk) (dk_environ dk) spec n)) (\<lambda>_.
     ret \<lparr>wh_id = n, wh_labels = ws_labels spec\<rparr>))"

text \<open>The reaper.\<close>

definition facet :: "string \<Rightarrow> string option \<Rightarrow> selector \<Rightarrow> selector" where
  "facet k v sel = (case v of Some x \<Rightarrow> if x \<noteq> '''' then dict_put k x sel else sel | None \<Rightarrow> sel)"

definition build_selector :: "string option \<Rightarrow> string option \<Rightarrow> string option \<Rightarrow> string \<Rightarrow> selector" where
  "build_selector tenant run role harness = facet ''role'' role (facet ''run'' run (facet ''tenant'' tenant [(''harness'', harness)]))"

definition reaper_main :: "'d docker_backend \<Rightarrow> string option \<Rightarrow> string option \<Rightarrow> string option \<Rightarrow> string \<Rightarrow> ('d docker_world, exc, int) st" where
  "reaper_main dk tenant run role harness =
     try_catch (bindE (reap_workers dk (build_selector tenant run role harness)) (\<lambda>_. ret 0))
       (\<lambda>e. case e of ProvisioningError _ \<Rightarrow> ret 1 | _ \<Rightarrow> raise e)"

section \<open>The in-memory backend\<close>

record fake_backend =
  fk_launched :: "worker_spec list"
  fk_live :: "(string \<times> worker_spec) list"
  fk_counter :: nat

definition fake_launch :: "worker_spec \<Rightarrow> (fake_backend, exc, worker_handle) st" where
  "fake_launch spec b =
     (let i = ''fake-'' @ nat_str (Suc (fk_counter b)) in
      (Inr \<lparr>wh_id = i, wh_labels = ws_labels spec\<rparr>,
       b\<lparr>fk_launched := fk_launched b @ [spec], fk_counter := Suc (fk_counter b), fk_live := dict_put i spec (fk_live b)\<rparr>))"

definition fake_wait :: "(worker_spec \<Rightarrow> exc + completed_worker) \<Rightarrow> worker_handle \<Rightarrow> (fake_backend, exc, completed_worker) st" where
  "fake_wait script h = reads (\<lambda>b. case map_of (fk_live b) (wh_id h) of
      None \<Rightarrow> Inr \<lparr>cw_exit_code = -1, cw_stdout = '''', cw_stderr = ''no such worker'', cw_outputs = [], cw_timed_out = False\<rparr>
    | Some spec \<Rightarrow> script spec)"

definition fake_status :: "worker_handle \<Rightarrow> (fake_backend, exc, worker_status) st" where
  "fake_status h = gets (\<lambda>b. if map_of (fk_live b) (wh_id h) \<noteq> None then RUNNING else GONE)"

definition fake_destroy :: "worker_handle \<Rightarrow> (fake_backend, exc, unit) st" where
  "fake_destroy h = modify (fk_live_update (AList.delete (wh_id h)))"

definition fake_run :: "(worker_spec \<Rightarrow> exc + completed_worker) \<Rightarrow> worker_spec \<Rightarrow> (fake_backend, exc, completed_worker) st" where
  "fake_run script spec =
     bindE (fake_launch spec) (\<lambda>h.
     bindE (attempt (fake_wait script h)) (\<lambda>outcome.
     bindE (fake_destroy h) (\<lambda>_. reads (\<lambda>_. outcome))))"

definition fake_list :: "selector \<Rightarrow> (fake_backend, exc, worker_handle list) st" where
  "fake_list sel = gets (\<lambda>b. map (\<lambda>(i, spec). \<lparr>wh_id = i, wh_labels = ws_labels spec\<rparr>)
     (filter (\<lambda>(_, spec). matches (ws_labels spec) sel) (fk_live b)))"

definition fake_reap :: "selector \<Rightarrow> (fake_backend, exc, nat) st" where
  "fake_reap sel =
     bindE (gets (\<lambda>b. map fst (filter (\<lambda>(_, spec). matches (ws_labels spec) sel) (fk_live b)))) (\<lambda>matching.
     bindE (modify (fk_live_update (\<lambda>live. fold AList.delete matching live))) (\<lambda>_.
     ret (length matching)))"

section \<open>How docker reads its arguments\<close>

text \<open>The options before the image: a flag with its value, or a word of its own that starts with a dash.\<close>

definition VALUE_FLAGS :: "string list" where
  "VALUE_FLAGS = [''--name'', ''-v'', ''--label'', ''-e'', ''-w'', ''--network'']"

fun docker_options :: "string list \<Rightarrow> (string \<times> string) list \<times> string list" where
  "docker_options [] = ([], [])"
| "docker_options [a] = (if prefix ''-'' a then ([(a, '''')], []) else ([], [a]))"
| "docker_options (a # v # rest) =
     (if a \<in> set VALUE_FLAGS then apfst ((#) (a, v)) (docker_options rest)
      else if prefix ''-'' a then apfst ((#) (a, '''')) (docker_options (v # rest))
      else ([], a # v # rest))"

lemma docker_options_flag: "prefix ''-'' a \<Longrightarrow> a \<notin> set VALUE_FLAGS \<Longrightarrow> docker_options (a # rest) = apfst ((#) (a, '''')) (docker_options rest)"
  by (cases rest) auto

lemma docker_options_value: "a \<in> set VALUE_FLAGS \<Longrightarrow> docker_options (a # v # rest) = apfst ((#) (a, v)) (docker_options rest)"
  by simp

lemma docker_options_image: "\<not> prefix ''-'' a \<Longrightarrow> docker_options (a # rest) = ([], a # rest)"
  by (cases rest) (auto simp: VALUE_FLAGS_def)

text \<open>A block of arguments that docker reads as options.\<close>

definition reads_as :: "string list \<Rightarrow> (string \<times> string) list \<Rightarrow> bool" where
  "reads_as xs os \<longleftrightarrow> (\<forall>rest. docker_options (xs @ rest) = apfst ((@) os) (docker_options rest))"

lemma reads_as_append: "reads_as xs os \<Longrightarrow> reads_as ys ps \<Longrightarrow> reads_as (xs @ ys) (os @ ps)"
  by (simp add: reads_as_def apfst_def map_prod_def split: prod.split)

lemma reads_as_nil: "reads_as [] []"
  by (simp add: reads_as_def apfst_def map_prod_def split: prod.split)

lemma reads_as_concat: "(\<And>x. x \<in> set xs \<Longrightarrow> reads_as (f x) (g x)) \<Longrightarrow> reads_as (concat (map f xs)) (concat (map g xs))"
  by (induction xs) (simp_all add: reads_as_nil reads_as_append)

lemma reads_as_flag: "prefix ''-'' a \<Longrightarrow> a \<notin> set VALUE_FLAGS \<Longrightarrow> reads_as [a] [(a, '''')]"
  by (simp add: reads_as_def docker_options_flag apfst_def map_prod_def)

lemma reads_as_value: "f \<in> set VALUE_FLAGS \<Longrightarrow> reads_as [f, v] [(f, v)]"
  by (simp add: reads_as_def docker_options_value apfst_def map_prod_def)

lemma reads_as_values: "f \<in> set VALUE_FLAGS \<Longrightarrow> reads_as (concat (map (\<lambda>x. [f, g x]) xs)) (map (\<lambda>x. (f, g x)) xs)"
  using reads_as_concat [of xs "\<lambda>x. [f, g x]" "\<lambda>x. [(f, g x)]"] by (simp add: reads_as_value)

lemma reads_as_pairs: "f \<in> set VALUE_FLAGS \<Longrightarrow> reads_as (pairs_args f d) (map (\<lambda>(k, v). (f, k @ ''='' @ v)) d)"
  using reads_as_values [of f "\<lambda>(k, v). k @ ''='' @ v" d] by (simp add: pairs_args_def case_prod_unfold)

lemma reads_as_some: "f \<in> set VALUE_FLAGS \<Longrightarrow>
    reads_as (concat (map (\<lambda>v. if P v then [f, v] else []) xs)) (map (\<lambda>v. (f, v)) (filter P xs))"
  by (induction xs) (simp_all add: reads_as_nil reads_as_append [OF reads_as_value, simplified])

lemma reads_as_flags: "(\<And>x. x \<in> set xs \<Longrightarrow> prefix ''-'' (g x) \<and> g x \<notin> set VALUE_FLAGS) \<Longrightarrow> reads_as (map g xs) (map (\<lambda>x. (g x, '''')) xs)"
  using reads_as_concat [of xs "\<lambda>x. [g x]" "\<lambda>x. [(g x, '''')]"] by (simp add: reads_as_flag)

lemma value_flags [simp]:
  "''--name'' \<in> set VALUE_FLAGS" "''-v'' \<in> set VALUE_FLAGS" "''--label'' \<in> set VALUE_FLAGS" "''-e'' \<in> set VALUE_FLAGS"
  "''-w'' \<in> set VALUE_FLAGS"
  by (simp_all add: VALUE_FLAGS_def)

text \<open>The options of an untrusted worker.\<close>

definition worker_options :: "(string \<Rightarrow> string option) \<Rightarrow> worker_spec \<Rightarrow> string \<Rightarrow> mount list \<Rightarrow> (string \<times> string) list" where
  "worker_options environ spec n mounts =
     [(''--rm'', ''''), (''--name'', n)] @
     (case ws_runtime spec of Some r \<Rightarrow> [(''--runtime='' @ r, '''')] | None \<Rightarrow> []) @
     map (\<lambda>f. (f, ''''))
     [''--read-only'',
      ''--tmpfs=/tmp:rw,size='' @ tf_size (ws_scratch spec) @ '',mode=1777'' @ (if tf_allow_exec (ws_scratch spec) then '',exec'' else ''''),
      ''--memory='' @ rl_memory (ws_limits spec), ''--memory-swap='' @ rl_memory (ws_limits spec),
      ''--cpus='' @ rl_cpus (ws_limits spec), ''--pids-limit='' @ int_str (rl_pids (ws_limits spec)),
      ''--cap-drop=ALL'', ''--security-opt=no-new-privileges'',
      ''--user='' @ int_str WORKER_UID @ '':'' @ int_str WORKER_GID] @
     (if ws_network spec then [] else [(''--network=none'', '''')]) @
     map (\<lambda>m. (''-v'', mount_arg m)) mounts @
     map (\<lambda>(k, v). (''--label'', k @ ''='' @ v)) (labels_dict (ws_labels spec)) @
     map (\<lambda>(k, v). (''-e'', k @ ''='' @ v)) (ws_env spec) @
     map (\<lambda>v. (''-e'', v)) (filter (env_set environ) (ws_passthrough spec)) @
     map (\<lambda>(h, ip). (''--add-host='' @ h @ '':'' @ ip, '''')) (ws_extra_hosts spec) @
     [(''-e'', ''HOME=/tmp''), (''-e'', ''PYTHONDONTWRITEBYTECODE=1''), (''-w'', ws_workdir spec)]"

lemma build_argv_options:
  assumes "\<not> prefix ''-'' (ws_image spec)"
  shows "docker_options (drop 2 (build_argv docker_bin environ spec n mounts)) =
    (worker_options environ spec n mounts, ws_image spec # ws_command spec)"
proof -
  let ?fixed = "[''--read-only'',
      ''--tmpfs=/tmp:rw,size='' @ tf_size (ws_scratch spec) @ '',mode=1777'' @ (if tf_allow_exec (ws_scratch spec) then '',exec'' else ''''),
      ''--memory='' @ rl_memory (ws_limits spec), ''--memory-swap='' @ rl_memory (ws_limits spec),
      ''--cpus='' @ rl_cpus (ws_limits spec), ''--pids-limit='' @ int_str (rl_pids (ws_limits spec)),
      ''--cap-drop=ALL'', ''--security-opt=no-new-privileges'',
      ''--user='' @ int_str WORKER_UID @ '':'' @ int_str WORKER_GID]"
  define opts where "opts = ([''--rm''] @ [''--name'', n]) @
     (case ws_runtime spec of Some r \<Rightarrow> [''--runtime='' @ r] | None \<Rightarrow> []) @ map (\<lambda>x. x) ?fixed @
     (if ws_network spec then [] else [''--network=none'']) @
     concat (map (\<lambda>m. [''-v'', mount_arg m]) mounts) @
     pairs_args ''--label'' (labels_dict (ws_labels spec)) @
     pairs_args ''-e'' (ws_env spec) @
     concat (map (\<lambda>v. if env_set environ v then [''-e'', v] else []) (ws_passthrough spec)) @
     map (\<lambda>p. ''--add-host='' @ fst p @ '':'' @ snd p) (ws_extra_hosts spec) @
     [''-e'', ''HOME=/tmp''] @ [''-e'', ''PYTHONDONTWRITEBYTECODE=1''] @ [''-w'', ws_workdir spec]"
  have argv: "build_argv docker_bin environ spec n mounts = docker_bin # ''run'' # opts @ ws_image spec # ws_command spec"
    by (simp add: build_argv_def opts_def case_prod_unfold)
  have runtime: "reads_as (case ws_runtime spec of Some r \<Rightarrow> [''--runtime='' @ r] | None \<Rightarrow> [])
      (case ws_runtime spec of Some r \<Rightarrow> [(''--runtime='' @ r, '''')] | None \<Rightarrow> [])"
    by (cases "ws_runtime spec") (simp_all add: reads_as_nil reads_as_flag VALUE_FLAGS_def)
  have network: "reads_as (if ws_network spec then [] else [''--network=none'']) (if ws_network spec then [] else [(''--network=none'', '''')])"
    by (simp add: reads_as_nil reads_as_flag VALUE_FLAGS_def)
  have fixed: "prefix ''-'' x \<and> x \<notin> set VALUE_FLAGS" if "x \<in> set ?fixed" for x
    using that by (auto simp: VALUE_FLAGS_def)
  have hosts: "prefix ''-'' (''--add-host='' @ h) \<and> ''--add-host='' @ h \<notin> set VALUE_FLAGS" for h by (simp add: VALUE_FLAGS_def)
  have rm: "prefix ''-'' ''--rm''" "''--rm'' \<notin> set VALUE_FLAGS" by (simp_all add: VALUE_FLAGS_def)
  have "reads_as opts (([(''--rm'', '''')] @ [(''--name'', n)]) @
     (case ws_runtime spec of Some r \<Rightarrow> [(''--runtime='' @ r, '''')] | None \<Rightarrow> []) @ map (\<lambda>f. (f, '''')) ?fixed @
     (if ws_network spec then [] else [(''--network=none'', '''')]) @
     map (\<lambda>m. (''-v'', mount_arg m)) mounts @
     map (\<lambda>(k, v). (''--label'', k @ ''='' @ v)) (labels_dict (ws_labels spec)) @
     map (\<lambda>(k, v). (''-e'', k @ ''='' @ v)) (ws_env spec) @
     map (\<lambda>v. (''-e'', v)) (filter (env_set environ) (ws_passthrough spec)) @
     map (\<lambda>p. (''--add-host='' @ fst p @ '':'' @ snd p, '''')) (ws_extra_hosts spec) @
     [(''-e'', ''HOME=/tmp'')] @ [(''-e'', ''PYTHONDONTWRITEBYTECODE=1'')] @ [(''-w'', ws_workdir spec)])"
    unfolding opts_def
    by (intro reads_as_append runtime network reads_as_flag [OF rm] reads_as_value reads_as_values reads_as_pairs reads_as_some
        reads_as_flags value_flags) (use fixed hosts in blast)+
  then show ?thesis
    by (simp add: argv reads_as_def docker_options_image [OF assms] worker_options_def case_prod_unfold)
qed

section \<open>What is staged\<close>

lemma stages_Inr_cons: "stages f (x # xs) s = Inr t \<longleftrightarrow> (\<exists>u. f x s = Inr u \<and> stages f xs u = Inr t)"
  by (auto simp: bindS_eq_Inr)

lemma stages_induct:
  assumes "stages f xs s = Inr t" "P [] s" "\<And>done x s u. set done \<union> {x} \<subseteq> set xs \<Longrightarrow> P done s \<Longrightarrow> f x s = Inr u \<Longrightarrow> P (done @ [x]) u"
  shows "P xs t"
proof -
  have "P (pre @ ys) t" if "stages f ys s' = Inr t" "P pre s'" "set pre \<union> set ys \<subseteq> set xs" for ys pre s'
    using that
  proof (induction ys arbitrary: pre s')
    case Nil
    then show ?case by simp
  next
    case (Cons y ys)
    obtain u where "f y s' = Inr u" "stages f ys u = Inr t" using Cons.prems(1) unfolding stages_Inr_cons by blast
    then show ?case using Cons.IH [of u "pre @ [y]"] Cons.prems assms(3) [of pre y s' u] by auto
  qed
  from this [of xs s "[]"] assms(1,2) show ?thesis by simp
qed

text \<open>Making directories and writing a file keep every other file.\<close>

lemma make_dirs_keeps: "make_dirs cur cs fs = Inr fs' \<Longrightarrow> map_of fs p = Some x \<Longrightarrow> map_of fs' p = Some x"
  by (induction cur cs fs rule: make_dirs.induct)
    (fastforce simp: update_conv' split: if_splits option.splits node.splits)+

lemma put_file_Inr: "put_file p data fs = Inr fs' \<Longrightarrow> map_of fs' q = (if q = p then Some (File data) else map_of fs q)"
  by (auto simp: put_file_def update_conv' split: if_splits)

definition rw_mount :: "path \<Rightarrow> string \<Rightarrow> mount" where
  "rw_mount staging cdir = \<lparr>mt_host = staging @ [''rw''] @ path_parts cdir, mt_target = cdir, mt_mode = ''rw''\<rparr>"

definition ro_mount :: "path \<Rightarrow> string \<Rightarrow> mount" where
  "ro_mount staging p = \<lparr>mt_host = staging @ [''ro''] @ path_parts p, mt_target = p, mt_mode = ''ro''\<rparr>"

definition writable_hosts :: "path \<Rightarrow> string list \<Rightarrow> (string \<times> path) list" where
  "writable_hosts staging cdirs = fold (\<lambda>c. dict_put c (mt_host (rw_mount staging c))) cdirs []"

text \<open>Where an input lies on the host.\<close>

definition input_home :: "path \<Rightarrow> (string \<times> path) list \<Rightarrow> string \<Rightarrow> path" where
  "input_home staging hosts p = normal [] (case enclosing_writable p hosts of
      Some (cdir, host) \<Rightarrow> path_join host (drop (length (rstrip_slashes cdir) + 1) p)
    | None \<Rightarrow> mt_host (ro_mount staging p))"

lemma stage_writable_step:
  "stage_writable staging c ((ms, hs), fs) = Inr u \<Longrightarrow>
     \<exists>fs1. u = ((ms @ [rw_mount staging c], dict_put c (mt_host (rw_mount staging c)) hs), fs1)"
  by (auto simp: bindS_eq_Inr stage_writable_def rw_mount_def Let_def)

lemma stage_writable_Inr:
  "stages (stage_writable staging) cs ((ms, hs), fs) = Inr (s, fs') \<Longrightarrow>
   s = (ms @ map (rw_mount staging) cs, fold (\<lambda>c. dict_put c (mt_host (rw_mount staging c))) cs hs)"
proof (induction cs arbitrary: ms hs fs)
  case (Cons c cs)
  obtain u where u: "stage_writable staging c ((ms, hs), fs) = Inr u" "stages (stage_writable staging) cs u = Inr (s, fs')"
    using Cons.prems by (auto simp: bindS_eq_Inr)
  from stage_writable_step [OF u(1)] Cons.IH u(2) show ?case by fastforce
qed simp

lemma stage_input_step:
  assumes "stage_input staging (p, data) ((ms, hs), fs) = Inr (s, fs')"
  shows "s = (ms @ (if enclosing_writable p hs = None then [ro_mount staging p] else []), hs) \<and>
    map_of fs' (input_home staging hs p) = Some (File data) \<and>
    (\<forall>q x. q \<noteq> input_home staging hs p \<and> map_of fs q = Some x \<longrightarrow> map_of fs' q = Some x)"
proof -
  define dest where "dest = (case enclosing_writable p hs of
      Some (cdir, host) \<Rightarrow> path_join host (drop (length (rstrip_slashes cdir) + 1) p)
    | None \<Rightarrow> mt_host (ro_mount staging p))"
  obtain fs1 where fs1: "make_dirs [] (butlast dest) fs = Inr fs1" "put_file (normal [] dest) data fs1 = Inr fs'"
    "s = (ms @ (if enclosing_writable p hs = None then [ro_mount staging p] else []), hs)"
    using assms by (auto simp: stage_input_def bindS_eq_Inr ro_mount_def dest_def Let_def split: option.splits)
  have "input_home staging hs p = normal [] dest" by (simp add: input_home_def dest_def)
  then show ?thesis using fs1(3) put_file_Inr [OF fs1(2)] make_dirs_keeps [OF fs1(1)] by simp
qed

lemma stage_input_Inr:
  assumes "stages (stage_input staging) ins ((ms, hs), fs) = Inr (s, fs')"
  shows "s = (ms @ map (ro_mount staging) (filter (\<lambda>p. enclosing_writable p hs = None) (map fst ins)), hs) \<and>
    (\<forall>q x. q \<notin> input_home staging hs ` fst ` set ins \<and> map_of fs q = Some x \<longrightarrow> map_of fs' q = Some x) \<and>
    (distinct (map (input_home staging hs) (map fst ins)) \<longrightarrow>
      (\<forall>(p, data) \<in> set ins. map_of fs' (input_home staging hs p) = Some (File data)))"
  using assms
proof (induction ins arbitrary: ms fs)
  case (Cons i ins)
  obtain p data where i: "i = (p, data)" by fastforce
  obtain s1 fs1 where one: "stage_input staging (p, data) ((ms, hs), fs) = Inr (s1, fs1)"
    and rest: "stages (stage_input staging) ins (s1, fs1) = Inr (s, fs')"
    using Cons.prems by (auto simp: i bindS_eq_Inr)
  note step = stage_input_step [OF one]
  obtain ms1 where s1: "s1 = (ms1, hs)" "ms1 = ms @ (if enclosing_writable p hs = None then [ro_mount staging p] else [])"
    using step by blast
  note IH = Cons.IH [OF rest [unfolded s1(1)]]
  show ?case
  proof (intro conjI)
    show "s = (ms @ map (ro_mount staging) (filter (\<lambda>p. enclosing_writable p hs = None) (map fst (i # ins))), hs)"
      using IH s1(2) by (auto simp: i)
    show "\<forall>q x. q \<notin> input_home staging hs ` fst ` set (i # ins) \<and> map_of fs q = Some x \<longrightarrow> map_of fs' q = Some x"
      using IH step by (simp add: i)
    show "distinct (map (input_home staging hs) (map fst (i # ins))) \<longrightarrow>
      (\<forall>(p, data) \<in> set (i # ins). map_of fs' (input_home staging hs p) = Some (File data))"
    proof
      assume d: "distinct (map (input_home staging hs) (map fst (i # ins)))"
      then have "input_home staging hs p \<notin> input_home staging hs ` fst ` set ins" by (auto simp: i)
      then have "map_of fs' (input_home staging hs p) = Some (File data)" using IH step by blast
      moreover have "\<forall>(p, data) \<in> set ins. map_of fs' (input_home staging hs p) = Some (File data)" using IH d by simp
      ultimately show "\<forall>(p, data) \<in> set (i # ins). map_of fs' (input_home staging hs p) = Some (File data)" by (simp add: i)
    qed
  qed
qed simp

lemma stage_files_Inr:
  assumes "stage_files spec staging fs = Inr ((mounts, hosts), fs')"
  shows "hosts = writable_hosts staging (ws_writable spec) \<and>
    mounts = map (rw_mount staging) (ws_writable spec) @
      map (ro_mount staging) (filter (\<lambda>p. enclosing_writable p hosts = None) (map fst (ws_readonly spec))) \<and>
    (distinct (map (input_home staging hosts) (map fst (ws_readonly spec))) \<longrightarrow>
      (\<forall>(p, data) \<in> set (ws_readonly spec). map_of fs' (input_home staging hosts p) = Some (File data)))"
proof -
  obtain ms hs fs1 where w: "stages (stage_writable staging) (ws_writable spec) (([], []), fs) = Inr ((ms, hs), fs1)"
    and i: "stages (stage_input staging) (ws_readonly spec) ((ms, hs), fs1) = Inr ((mounts, hosts), fs')"
    using assms by (auto simp: stage_files_def bindS_eq_Inr)
  show ?thesis using stage_writable_Inr [OF w] stage_input_Inr [OF i] by (auto simp: writable_hosts_def)
qed

lemma writable_hosts_mounted:
  "(c, h) \<in> set (writable_hosts staging cdirs) \<Longrightarrow> c \<in> set cdirs \<and> h = mt_host (rw_mount staging c)"
proof -
  have "(c, h) \<in> set (fold (\<lambda>c. dict_put c (mt_host (rw_mount staging c))) cdirs d) \<Longrightarrow>
      (c, h) \<in> set d \<or> c \<in> set cdirs \<and> h = mt_host (rw_mount staging c)" for d
  proof (induction cdirs arbitrary: d)
    case (Cons x cdirs)
    have "(c, h) \<in> set (dict_put x v d) \<Longrightarrow> (c, h) \<in> set d \<or> (c, h) = (x, v)" for v
      by (induction d) (auto split: if_splits)
    then show ?case using Cons by fastforce
  qed simp
  from this [of "[]"] show "(c, h) \<in> set (writable_hosts staging cdirs) \<Longrightarrow> ?thesis" by (simp add: writable_hosts_def)
qed

section \<open>Properties\<close>

text \<open>The words of one option on the command line: a flag and its value, or a single word. The options an
  untrusted worker may be launched with, and no others.\<close>

definition option_words :: "string \<times> string option \<Rightarrow> string list" where
  "option_words = (\<lambda>(f, v). f # (case v of Some x \<Rightarrow> [x] | None \<Rightarrow> []))"

definition confining :: "worker_spec \<Rightarrow> string list" where
  "confining spec = [''--read-only'', ''--cap-drop=ALL'', ''--security-opt=no-new-privileges'', ''--user=65534:65534'',
     ''--memory='' @ rl_memory (ws_limits spec), ''--memory-swap='' @ rl_memory (ws_limits spec),
     ''--cpus='' @ rl_cpus (ws_limits spec), ''--pids-limit='' @ int_str (rl_pids (ws_limits spec))]"

definition permitted :: "worker_spec \<Rightarrow> string \<Rightarrow> string \<times> string option \<Rightarrow> bool" where
  "permitted spec n = (\<lambda>(f, v). case v of
      None \<Rightarrow> f = ''--rm'' \<or> f \<in> set (confining spec) \<or> f = ''--network=none'' \<or>
        f = ''--tmpfs=/tmp:rw,size='' @ tf_size (ws_scratch spec) @ '',mode=1777'' @
          (if tf_allow_exec (ws_scratch spec) then '',exec'' else '''') \<or>
        (\<exists>r. ws_runtime spec = Some r \<and> f = ''--runtime='' @ r) \<or>
        (\<exists>(h, ip) \<in> set (ws_extra_hosts spec). f = ''--add-host='' @ h @ '':'' @ ip)
    | Some x \<Rightarrow> f = ''--name'' \<and> x = n \<or> f = ''-w'' \<and> x = ws_workdir spec \<or> f = ''-v'' \<or> f = ''-e'' \<or>
        f = ''--label'' \<and> (\<exists>(k, l) \<in> set (labels_dict (ws_labels spec)). x = k @ ''='' @ l))"

definition values_of :: "string \<Rightarrow> (string \<times> string option) list \<Rightarrow> string list" where
  "values_of flag os = map (\<lambda>(f, v). the v) (filter (\<lambda>(f, v). f = flag) os)"

lemma values_of_append [simp]: "values_of flag (xs @ ys) = values_of flag xs @ values_of flag ys"
  by (simp add: values_of_def)

definition launch_options :: "(string \<Rightarrow> string option) \<Rightarrow> worker_spec \<Rightarrow> string \<Rightarrow> mount list \<Rightarrow>
    (string \<times> string option) list" where
  "launch_options environ spec n mounts =
     map (\<lambda>(f, v). (f, if f \<in> set VALUE_FLAGS then Some v else None)) (worker_options environ spec n mounts)"

lemma words_of_some: "concat (map (\<lambda>v. if P v then [f, v] else []) xs) = concat (map (\<lambda>v. [f, v]) (filter P xs))"
  by (induction xs) simp_all

lemma build_argv_words:
  "build_argv docker_bin environ spec n mounts = [docker_bin, ''run''] @
     concat (map option_words (launch_options environ spec n mounts)) @ [ws_image spec] @ ws_command spec"
  by (cases "ws_runtime spec")
    (simp_all add: build_argv_def launch_options_def worker_options_def option_words_def pairs_args_def words_of_some
      VALUE_FLAGS_def comp_def case_prod_unfold concat_map_singleton)

lemma user_flag: "''--user='' @ int_str WORKER_UID @ '':'' @ int_str WORKER_GID = ''--user=65534:65534''"
proof -
  have "int_str 65534 = ''65534''" by (simp add: int_str_def nat_str.simps) code_simp
  then show ?thesis by (simp add: WORKER_UID_def WORKER_GID_def)
qed

lemma launch_options_permitted: "list_all (permitted spec n) (launch_options environ spec n mounts)"
  unfolding launch_options_def worker_options_def user_flag
  by (simp add: list_all_iff permitted_def confining_def VALUE_FLAGS_def split: option.split) force

lemma launch_options_confining: "(\<lambda>f. (f, None)) ` set (confining spec) \<subseteq> set (launch_options environ spec n mounts)"
  unfolding launch_options_def worker_options_def user_flag by (simp add: confining_def VALUE_FLAGS_def)

lemma launch_options_values:
  "values_of ''-v'' (launch_options environ spec n mounts) = map mount_arg mounts"
  "values_of ''-e'' (launch_options environ spec n mounts) =
     map (\<lambda>(k, v). k @ ''='' @ v) (ws_env spec) @ filter (env_set environ) (ws_passthrough spec) @
     [''HOME=/tmp'', ''PYTHONDONTWRITEBYTECODE=1'']"
  unfolding launch_options_def worker_options_def
  by (auto simp: values_of_def VALUE_FLAGS_def filter_map comp_def case_prod_unfold split: option.split)

text \<open>C21. An untrusted worker is confined: whatever the specification asks for, its command line is
  \<open>docker run\<close>, options, the image and its command. Every option is one that \<open>permitted\<close> lists, so there
  is no other way in; among them are always those that drop every capability, forbid new privileges,
  mount the root read-only, bound memory, swap, processors and processes and run as nobody, and the one
  that cuts the network unless it was asked for. The directories bound are exactly the staged ones: each
  lies under the worker's own staging directory, writable only for a declared writable directory. The
  environment is exactly the declared pairs, two fixed ones, and the forwarded variables, by name without
  a value and only where the launcher has one. The fields of a trusted service, the docker socket among
  them, change nothing.\<close>

theorem untrusted_worker_is_confined:
  assumes "stage_files spec staging fs = Inr ((mounts, hosts), fs')"
    "\<forall>p \<in> set (ws_writable spec) \<union> fst ` set (ws_readonly spec). ''..'' \<notin> set (path_parts p)"
  shows "\<exists>options. build_argv docker_bin environ spec n mounts =
      [docker_bin, ''run''] @ concat (map option_words options) @ [ws_image spec] @ ws_command spec \<and>
    list_all (permitted spec n) options \<and>
    (\<lambda>f. (f, None)) ` {''--read-only'', ''--cap-drop=ALL'', ''--security-opt=no-new-privileges'', ''--user=65534:65534'',
      ''--memory='' @ rl_memory (ws_limits spec), ''--memory-swap='' @ rl_memory (ws_limits spec),
      ''--cpus='' @ rl_cpus (ws_limits spec), ''--pids-limit='' @ int_str (rl_pids (ws_limits spec))} \<subseteq> set options \<and>
    (ws_network spec \<or> (''--network=none'', None) \<in> set options) \<and>
    values_of ''-v'' options = map mount_arg mounts \<and>
    (\<forall>m \<in> set mounts. (\<exists>below. mt_host m = staging @ below \<and> below \<noteq> [] \<and> ''..'' \<notin> set below) \<and>
       (mt_mode m = ''rw'' \<and> mt_target m \<in> set (ws_writable spec) \<or>
        mt_mode m = ''ro'' \<and> mt_target m \<in> fst ` set (ws_readonly spec))) \<and>
    values_of ''-e'' options = map (\<lambda>(k, v). k @ ''='' @ v) (ws_env spec) @
      filter (env_set environ) (ws_passthrough spec) @ [''HOME=/tmp'', ''PYTHONDONTWRITEBYTECODE=1''] \<and>
    build_argv docker_bin environ (spec\<lparr>ws_service_name := service, ws_network_name := net, ws_docker_socket := socket,
      ws_host_mounts := host_mounts\<rparr>) n mounts = build_argv docker_bin environ spec n mounts"
proof (intro exI conjI)
  let ?os = "launch_options environ spec n mounts"
  show "build_argv docker_bin environ spec n mounts =
      [docker_bin, ''run''] @ concat (map option_words ?os) @ [ws_image spec] @ ws_command spec"
    by (rule build_argv_words)
  show "list_all (permitted spec n) ?os" by (rule launch_options_permitted)
  show "(\<lambda>f. (f, None)) ` {''--read-only'', ''--cap-drop=ALL'', ''--security-opt=no-new-privileges'', ''--user=65534:65534'',
      ''--memory='' @ rl_memory (ws_limits spec), ''--memory-swap='' @ rl_memory (ws_limits spec),
      ''--cpus='' @ rl_cpus (ws_limits spec), ''--pids-limit='' @ int_str (rl_pids (ws_limits spec))} \<subseteq> set ?os"
    using launch_options_confining [of spec environ n mounts] by (simp add: confining_def)
  show "ws_network spec \<or> (''--network=none'', None) \<in> set ?os"
    by (simp add: launch_options_def worker_options_def VALUE_FLAGS_def)
  show "values_of ''-v'' ?os = map mount_arg mounts"
    "values_of ''-e'' ?os = map (\<lambda>(k, v). k @ ''='' @ v) (ws_env spec) @
      filter (env_set environ) (ws_passthrough spec) @ [''HOME=/tmp'', ''PYTHONDONTWRITEBYTECODE=1'']"
    by (rule launch_options_values)+
  show "\<forall>m \<in> set mounts. (\<exists>below. mt_host m = staging @ below \<and> below \<noteq> [] \<and> ''..'' \<notin> set below) \<and>
       (mt_mode m = ''rw'' \<and> mt_target m \<in> set (ws_writable spec) \<or>
        mt_mode m = ''ro'' \<and> mt_target m \<in> fst ` set (ws_readonly spec))"
    using stage_files_Inr [OF assms(1)] assms(2) by (force simp: rw_mount_def ro_mount_def)
qed (simp add: build_argv_def)
text \<open>A code runner's worker: a script and a data file to read, a directory to write.\<close>

definition demo_worker :: worker_spec where
  "demo_worker = \<lparr>ws_image = ''python:3.12-slim'', ws_command = [''python'', ''/work/s.py''], ws_labels = labels_of ''code-runner'',
     ws_readonly = [(''/work/s.py'', [1]), (''/out/hint'', [2])], ws_writable = [''/out''], ws_globs = [''/out/*''],
     ws_env = [], ws_passthrough = [], ws_network = False, ws_limits = \<lparr>rl_memory = ''512m'', rl_cpus = ''1'', rl_pids = 128\<rparr>,
     ws_scratch = \<lparr>tf_size = ''64m'', tf_allow_exec = False\<rparr>, ws_extra_hosts = [], ws_workdir = ''/tmp'', ws_runtime = None,
     ws_timeout = 30, ws_output_cap = DEFAULT_OUTPUT_CAP, ws_service_name = None, ws_network_name = None,
     ws_docker_socket = True, ws_host_mounts = []\<rparr>"

definition demo_staging :: path where "demo_staging = [''tmp'', ''verity-worker-1'']"

definition demo_mounts :: "mount list" where
  "demo_mounts = [rw_mount demo_staging ''/out'', ro_mount demo_staging ''/work/s.py'']"

lemma demo_staged:
  "\<exists>fs. stage_files demo_worker demo_staging [] = Inr ((demo_mounts, [(''/out'', mt_host (rw_mount demo_staging ''/out''))]), fs)"
proof -
  have "case stage_files demo_worker demo_staging [] of Inl e \<Rightarrow> False
      | Inr (s, fs) \<Rightarrow> s = (demo_mounts, [(''/out'', mt_host (rw_mount demo_staging ''/out''))])"
    by code_simp
  then show ?thesis by (auto split: sum.splits prod.splits)
qed

theorem untrusted_worker_is_confined_witness:
  "\<exists>options. build_argv ''docker'' (\<lambda>_. None) demo_worker ''w'' demo_mounts =
      [''docker'', ''run''] @ concat (map option_words options) @ [''python:3.12-slim'', ''python'', ''/work/s.py''] \<and>
    (''--network=none'', None) \<in> set options \<and>
    values_of ''-v'' options =
        [''/tmp/verity-worker-1/rw/out:/out:rw'', ''/tmp/verity-worker-1/ro/work/s.py:/work/s.py:ro''] \<and>
    values_of ''-e'' options = [''HOME=/tmp'', ''PYTHONDONTWRITEBYTECODE=1'']"
proof -
  obtain fs where fs: "stage_files demo_worker demo_staging [] = Inr ((demo_mounts, [(''/out'', mt_host (rw_mount demo_staging ''/out''))]), fs)"
    using demo_staged by blast
  have fields: "[ws_image demo_worker] @ ws_command demo_worker = [''python:3.12-slim'', ''python'', ''/work/s.py'']"
    "\<not> ws_network demo_worker" "ws_env demo_worker = []" "ws_passthrough demo_worker = []"
    by (simp_all add: demo_worker_def)
  have dots: "\<forall>p \<in> set (ws_writable demo_worker) \<union> fst ` set (ws_readonly demo_worker). ''..'' \<notin> set (path_parts p)"
    by code_simp
  have args: "map mount_arg demo_mounts = [''/tmp/verity-worker-1/rw/out:/out:rw'', ''/tmp/verity-worker-1/ro/work/s.py:/work/s.py:ro'']"
    by code_simp
  from untrusted_worker_is_confined [OF fs dots, of "''docker''" "\<lambda>_. None" "''w''"] obtain options where
    o: "build_argv ''docker'' (\<lambda>_. None) demo_worker ''w'' demo_mounts =
        [''docker'', ''run''] @ concat (map option_words options) @ [ws_image demo_worker] @ ws_command demo_worker"
      "ws_network demo_worker \<or> (''--network=none'', None) \<in> set options"
      "values_of ''-v'' options = map mount_arg demo_mounts"
      "values_of ''-e'' options = map (\<lambda>(k, v). k @ ''='' @ v) (ws_env demo_worker) @
        filter (env_set (\<lambda>_. None)) (ws_passthrough demo_worker) @ [''HOME=/tmp'', ''PYTHONDONTWRITEBYTECODE=1'']"
    by blast
  show ?thesis
    by (intro exI [of _ options] conjI o(1) [unfolded fields(1)] o(3) [unfolded args])
      (use o(2,4) fields(2-4) in simp_all)
qed
text \<open>Paths inside a container, written in full: absolute, one slash between components, none of them
  \<open>.\<close> or \<open>..\<close>. Their text and their components say the same.\<close>

definition container_path :: "string \<Rightarrow> bool" where
  "container_path p \<longleftrightarrow> path_parts p \<noteq> [] \<and> ''..'' \<notin> set (path_parts p) \<and> p = path_str (path_parts p)"

definition slashed :: "path \<Rightarrow> string" where
  "slashed cs = concat (map ((#) (CHR ''/'')) cs)"

definition component :: "string \<Rightarrow> bool" where
  "component c \<longleftrightarrow> c \<noteq> '''' \<and> c \<noteq> ''.'' \<and> CHR ''/'' \<notin> set c"

lemma slashed_simps [simp]: "slashed [] = []" "slashed (c # cs) = CHR ''/'' # c @ slashed cs"
  "slashed (cs @ ds) = slashed cs @ slashed ds"
  by (simp_all add: slashed_def)

lemma path_str_slashed: "cs \<noteq> [] \<Longrightarrow> path_str cs = slashed cs"
proof -
  have "''/'' @ join ''/'' cs = slashed cs" if "cs \<noteq> []" for cs
    using that by (induction cs rule: induct_list012) simp_all
  then show "cs \<noteq> [] \<Longrightarrow> path_str cs = slashed cs" by (simp add: path_str_def)
qed

lemma split_slash_word: "CHR ''/'' \<notin> set c \<Longrightarrow> split_slash acc (c @ CHR ''/'' # rest) = (rev acc @ c) # split_slash [] rest"
  by (induction c arbitrary: acc) auto

lemma split_slash_components: "c \<in> set (split_slash acc s) \<Longrightarrow> CHR ''/'' \<notin> set acc \<Longrightarrow> CHR ''/'' \<notin> set c"
  by (induction acc s rule: split_slash.induct) (auto split: if_splits)

lemma path_parts_components: "c \<in> set (path_parts s) \<Longrightarrow> component c"
  using split_slash_components [of c "[]" s] by (auto simp: path_parts_def component_def)

lemma path_parts_slashed: "\<forall>c \<in> set cs. component c \<Longrightarrow> component c \<Longrightarrow> path_parts (c @ slashed cs) = c # cs"
proof (induction cs arbitrary: c)
  case Nil
  then show ?case by (simp add: path_parts_def component_def split_slash_plain)
next
  case (Cons d cs)
  have "path_parts (c @ slashed (d # cs)) = c # path_parts (d @ slashed cs)"
    using Cons.prems by (simp add: path_parts_def component_def split_slash_word)
  then show ?case using Cons by simp
qed

lemma prefix_word:
  assumes "CHR ''/'' \<notin> set c" "CHR ''/'' \<notin> set d"
  shows "prefix (c @ CHR ''/'' # xs) (d @ slashed ds) \<longleftrightarrow> c = d \<and> prefix (CHR ''/'' # xs) (slashed ds)"
  using assms
proof (induction c arbitrary: d)
  case Nil
  then show ?case by (cases d) (auto simp: prefix_Cons)
next
  case (Cons x c)
  then show ?case by (cases d; cases ds) auto
qed

lemma prefix_slashed:
  assumes "\<forall>c \<in> set cs \<union> set ds. component c"
  shows "prefix (slashed cs @ ''/'') (slashed ds) \<longleftrightarrow> strict_prefix cs ds"
  using assms
proof (induction cs arbitrary: ds)
  case Nil
  then show ?case by (cases ds) auto
next
  case (Cons c cs)
  show ?case
  proof (cases ds)
    case Nil
    then show ?thesis by simp
  next
    case (Cons d ds')
    have rest: "\<exists>xs. slashed cs @ ''/'' = CHR ''/'' # xs" by (cases cs) simp_all
    then have "prefix (slashed (c # cs) @ ''/'') (slashed ds) \<longleftrightarrow> c = d \<and> prefix (slashed cs @ ''/'') (slashed ds')"
      using Cons.prems prefix_word [of c d _ ds'] by (fastforce simp: Cons component_def)
    then show ?thesis using Cons.IH [of ds'] Cons.prems by (auto simp: Cons)
  qed
qed

lemma rstrip_slashed: "cs \<noteq> [] \<Longrightarrow> \<forall>c \<in> set cs. component c \<Longrightarrow> rstrip_slashes (slashed cs) = slashed cs"
proof (induction cs rule: rev_induct)
  case (snoc c cs)
  obtain d x where "c = d @ [x]" using snoc.prems by (cases c rule: rev_cases) (auto simp: component_def)
  then show ?case using snoc.prems by (auto simp: rstrip_slashes_def component_def)
qed simp

lemma container_path_slashed:
  assumes "container_path p"
  shows "p = slashed (path_parts p)" "rstrip_slashes p = slashed (path_parts p)"
proof -
  have eq: "path_parts p \<noteq> []" "p = path_str (path_parts p)" using assms unfolding container_path_def by blast+
  show p: "p = slashed (path_parts p)" using eq(2) unfolding path_str_slashed [OF eq(1)] .
  show "rstrip_slashes p = slashed (path_parts p)"
    using rstrip_slashed [of "path_parts p"] path_parts_components [of _ p] assms p by (simp add: container_path_def)
qed

lemma nested_iff:
  assumes "container_path cdir" "container_path p"
  shows "prefix (rstrip_slashes cdir @ ''/'') p \<longleftrightarrow> strict_prefix (path_parts cdir) (path_parts p)"
  using prefix_slashed [of "path_parts cdir" "path_parts p"] path_parts_components
    container_path_slashed(2) [OF assms(1)] container_path_slashed(1) [OF assms(2)] by auto

lemma nested_join:
  assumes "container_path cdir" "container_path p" "strict_prefix (path_parts cdir) (path_parts p)"
  shows "path_join host (drop (length (rstrip_slashes cdir) + 1) p) = host @ drop (length (path_parts cdir)) (path_parts p)"
proof -
  obtain c cs where cs: "path_parts p = path_parts cdir @ c # cs"
    using assms(3) by (auto simp: strict_prefix_def prefix_def neq_Nil_conv)
  have comp: "component d" if "d \<in> set (c # cs)" for d by (rule path_parts_components [of d p]) (use that cs in auto)
  have "p = slashed (path_parts cdir) @ CHR ''/'' # c @ slashed cs"
    using container_path_slashed(1) [OF assms(2)] by (simp add: cs)
  then have rest: "drop (length (rstrip_slashes cdir) + 1) p = c @ slashed cs"
    by (simp add: container_path_slashed(2) [OF assms(1)])
  have "c @ slashed cs \<noteq> [] \<and> hd (c @ slashed cs) \<noteq> CHR ''/''"
    using comp [of c] by (cases c) (auto simp: component_def)
  then have "path_join host (c @ slashed cs) = host @ path_parts (c @ slashed cs)"
    unfolding path_join_def Let_def path_parts_def by (simp only: if_False simp_thms)
  then show ?thesis unfolding rest using path_parts_slashed [of cs c] comp by (simp add: cs)
qed

lemma writable_hosts_fst: "fst ` set (writable_hosts staging cdirs) = set cdirs"
proof -
  have put: "fst ` set (dict_put x v d) = insert x (fst ` set d)" for x :: string and v :: path and d
    by (induction d) auto
  have "fst ` set (fold (\<lambda>c. dict_put c (mt_host (rw_mount staging c))) cdirs d) = fst ` set d \<union> set cdirs" for d
    by (induction cdirs arbitrary: d) (auto simp: put)
  then show ?thesis by (simp add: writable_hosts_def)
qed

lemma normal_plain: "''..'' \<notin> set p \<Longrightarrow> normal cur p = cur @ p"
  by (induction p arbitrary: cur) auto

text \<open>Where staging puts an input whose path, like those of the writable directories, is written in full.\<close>

lemma input_home_eq:
  assumes "hosts = writable_hosts staging cdirs" "\<forall>c \<in> set cdirs. container_path c" "container_path p" "''..'' \<notin> set staging"
  shows "input_home staging hosts p = staging @
      [if \<exists>c \<in> set cdirs. strict_prefix (path_parts c) (path_parts p) then ''rw'' else ''ro''] @ path_parts p \<and>
    (enclosing_writable p hosts = None \<longleftrightarrow> \<not> (\<exists>c \<in> set cdirs. strict_prefix (path_parts c) (path_parts p)))"
proof -
  have dots: "''..'' \<notin> set (path_parts p)" using assms(3) by (simp add: container_path_def)
  have iff: "(\<exists>x \<in> set hosts. prefix (rstrip_slashes (fst x) @ ''/'') p) \<longleftrightarrow> (\<exists>c \<in> set cdirs. strict_prefix (path_parts c) (path_parts p))"
    using nested_iff [OF _ assms(3)] assms(2) writable_hosts_fst [of staging cdirs, folded assms(1)] by (metis (no_types, lifting) imageE imageI)
  show ?thesis
  proof (cases "enclosing_writable p hosts")
    case None
    then have "\<not> (\<exists>x \<in> set hosts. prefix (rstrip_slashes (fst x) @ ''/'') p)"
      by (auto simp: enclosing_writable_def find_None_iff)
    then show ?thesis using None iff dots assms(4) by (simp add: input_home_def ro_mount_def normal_plain)
  next
    case (Some e)
    obtain cdir host where e: "e = (cdir, host)" by fastforce
    have h: "(cdir, host) \<in> set hosts" "prefix (rstrip_slashes cdir @ ''/'') p"
      using Some by (auto simp: enclosing_writable_def e find_Some_iff in_set_conv_nth)
    have c: "cdir \<in> set cdirs" "host = mt_host (rw_mount staging cdir)"
      using writable_hosts_mounted [of cdir host staging cdirs] h(1) assms(1) by simp_all
    have s: "strict_prefix (path_parts cdir) (path_parts p)" using nested_iff [of cdir p] assms(2,3) c(1) h(2) by simp
    then have "path_parts cdir @ drop (length (path_parts cdir)) (path_parts p) = path_parts p"
      by (auto simp: strict_prefix_def prefix_def)
    then have "path_join host (drop (length (rstrip_slashes cdir) + 1) p) = staging @ [''rw''] @ path_parts p"
      using nested_join [OF _ assms(3) s, of host] assms(2) c by (simp add: rw_mount_def)
    then show ?thesis using Some s c(1) dots assms(4) by (auto simp: input_home_def e normal_plain)
  qed
qed

text \<open>What a container shows at a path: the rest of the path under the host side of the mount with the
  deepest target above it.\<close>

definition shows_at :: "mount list \<Rightarrow> string \<Rightarrow> mount \<Rightarrow> path \<Rightarrow> bool" where
  "shows_at mounts p m below \<longleftrightarrow> m \<in> set mounts \<and> path_parts p = path_parts (mt_target m) @ below \<and>
     (\<forall>m' \<in> set mounts. prefix (path_parts (mt_target m')) (path_parts p) \<longrightarrow>
        length (path_parts (mt_target m')) \<le> length (path_parts (mt_target m)))"

lemma deepest_writable:
  assumes "\<exists>c \<in> set cdirs. strict_prefix (path_parts c) (path_parts p)"
  obtains c where "c \<in> set cdirs" "strict_prefix (path_parts c) (path_parts p)"
    "\<And>c'. c' \<in> set cdirs \<Longrightarrow> strict_prefix (path_parts c') (path_parts p) \<Longrightarrow> length (path_parts c') \<le> length (path_parts c)"
proof -
  let ?cs = "filter (\<lambda>c. strict_prefix (path_parts c) (path_parts p)) cdirs"
  have ne: "(\<lambda>c. length (path_parts c)) ` set ?cs \<noteq> {}" using assms by auto
  have fin: "finite ((\<lambda>c. length (path_parts c)) ` set ?cs)" by simp
  obtain c where "c \<in> set ?cs" "length (path_parts c) = Max ((\<lambda>c. length (path_parts c)) ` set ?cs)"
    using Max_in [OF fin ne] by (metis (no_types, lifting) imageE)
  moreover have "length (path_parts c') \<le> Max ((\<lambda>c. length (path_parts c)) ` set ?cs)"
    if "c' \<in> set cdirs" "strict_prefix (path_parts c') (path_parts p)" for c'
    using that by (intro Max_ge [OF fin]) auto
  ultimately show thesis using that [of c] by auto
qed

text \<open>C26. Every input reaches the worker whole: when staging succeeds, then at the path of every input the
  worker sees, through the mounts it is launched with, a file with exactly the input's bytes. The mount
  is read-only unless the input lies in a writable directory, which is bound writable as a whole, so the
  worker may change that input. Paths are written in full, and no two inputs, and no input and writable
  directory, have the same.\<close>

theorem inputs_reach_the_worker:
  assumes "stage_files spec staging fs = Inr ((mounts, hosts), fs')" "''..'' \<notin> set staging"
    "\<forall>p \<in> set (ws_writable spec) \<union> fst ` set (ws_readonly spec). container_path p"
    "distinct (map fst (ws_readonly spec))" "set (ws_writable spec) \<inter> fst ` set (ws_readonly spec) = {}"
  shows "\<forall>(p, data) \<in> set (ws_readonly spec). \<exists>m below. shows_at mounts p m below \<and>
    map_of fs' (mt_host m @ below) = Some (File data) \<and>
    mt_mode m = (if \<exists>c \<in> set (ws_writable spec). strict_prefix (path_parts c) (path_parts p) then ''rw'' else ''ro'')"
proof clarify
  fix p data
  assume p: "(p, data) \<in> set (ws_readonly spec)"
  let ?cs = "ws_writable spec" and ?ps = "map fst (ws_readonly spec)"
  note staged = stage_files_Inr [OF assms(1)]
  have parts: "q = slashed (path_parts q)" if "q \<in> set ?cs \<union> set ?ps" for q
    using container_path_slashed(1) assms(3) that by auto
  have home: "input_home staging hosts q = staging @
      [if \<exists>c \<in> set ?cs. strict_prefix (path_parts c) (path_parts q) then ''rw'' else ''ro''] @ path_parts q"
    "enclosing_writable q hosts = None \<longleftrightarrow> \<not> (\<exists>c \<in> set ?cs. strict_prefix (path_parts c) (path_parts q))"
    if "q \<in> set ?ps" for q
    using input_home_eq [of hosts staging ?cs q] staged assms(2,3) that by auto
  have "inj_on (input_home staging hosts) (set ?ps)"
    by (rule inj_onI) (metis (no_types, lifting) home(1) append_Cons append_Nil list.inject parts same_append_eq UnI2)
  then have "distinct (map (input_home staging hosts) ?ps)" using assms(4) by (simp only: distinct_map [of _ ?ps])
  then have bytes: "map_of fs' (input_home staging hosts p) = Some (File data)" using staged p by blast
  have pin: "p \<in> set ?ps" using p by force
  have mounts: "m \<in> set mounts \<longleftrightarrow> (\<exists>c \<in> set ?cs. m = rw_mount staging c) \<or>
      (\<exists>q \<in> set ?ps. \<not> (\<exists>c \<in> set ?cs. strict_prefix (path_parts c) (path_parts q)) \<and> m = ro_mount staging q)" for m
  proof -
    have "mounts = map (rw_mount staging) ?cs @ map (ro_mount staging) (filter (\<lambda>q. enclosing_writable q hosts = None) ?ps)"
      using staged by (elim conjE)
    then have "m \<in> set mounts \<longleftrightarrow> m \<in> rw_mount staging ` set ?cs \<or> m \<in> ro_mount staging ` {q \<in> set ?ps. enclosing_writable q hosts = None}"
      by (simp only: set_append set_map set_filter Un_iff)
    then show ?thesis using home(2) by blast
  qed
  show "\<exists>m below. shows_at mounts p m below \<and> map_of fs' (mt_host m @ below) = Some (File data) \<and>
    mt_mode m = (if \<exists>c \<in> set ?cs. strict_prefix (path_parts c) (path_parts p) then ''rw'' else ''ro'')"
  proof (cases "\<exists>c \<in> set ?cs. strict_prefix (path_parts c) (path_parts p)")
    case False
    have "shows_at mounts p (ro_mount staging p) []"
      using False pin mounts [of "ro_mount staging p"] by (auto simp: shows_at_def ro_mount_def dest: prefix_length_le)
    then show ?thesis using False bytes home(1) [OF pin] by (intro exI [of _ "ro_mount staging p"] exI [of _ "[]"]) (simp add: ro_mount_def)
  next
    case True
    obtain c where c: "c \<in> set ?cs" "strict_prefix (path_parts c) (path_parts p)"
      "\<And>c'. c' \<in> set ?cs \<Longrightarrow> strict_prefix (path_parts c') (path_parts p) \<Longrightarrow> length (path_parts c') \<le> length (path_parts c)"
      using deepest_writable [OF True] by blast
    obtain below where below: "path_parts p = path_parts c @ below" using c(2) by (auto simp: strict_prefix_def prefix_def)
    have "length (path_parts (mt_target m)) \<le> length (path_parts c)"
      if m: "m \<in> set mounts" "prefix (path_parts (mt_target m)) (path_parts p)" for m
    proof -
      consider c' where "c' \<in> set ?cs" "m = rw_mount staging c'" |
        q where "q \<in> set ?ps" "\<not> (\<exists>c \<in> set ?cs. strict_prefix (path_parts c) (path_parts q))" "m = ro_mount staging q"
        using m(1) mounts by blast
      then show ?thesis
      proof cases
        case 1
        have "path_parts c' \<noteq> path_parts p" using assms(5) 1(1) pin parts [of c'] parts [of p] by (metis UnI1 UnI2 disjoint_iff set_map)
        then show ?thesis using c(3) [of c'] 1 m(2) by (simp add: rw_mount_def strict_prefix_def)
      next
        case 2
        then have "\<not> strict_prefix (path_parts c) (path_parts q)" using c(1) by blast
        then show ?thesis using m(2) c(2) 2(3) prefix_same_cases [of "path_parts q" "path_parts p" "path_parts c"]
          by (auto simp: ro_mount_def strict_prefix_def dest: prefix_length_le)
      qed
    qed
    moreover have "rw_mount staging c \<in> set mounts" using mounts [of "rw_mount staging c"] c(1) by blast
    moreover have "mt_target (rw_mount staging c) = c" by (simp add: rw_mount_def)
    ultimately have "shows_at mounts p (rw_mount staging c) below" using below by (simp add: shows_at_def)
    then show ?thesis using True bytes home(1) [OF pin] below
      by (intro exI [of _ "rw_mount staging c"] exI [of _ below]) (simp add: rw_mount_def)
  qed
qed

theorem inputs_reach_the_worker_witness:
  "\<exists>fs m below. stage_files demo_worker demo_staging [] = Inr ((demo_mounts, [(''/out'', mt_host (rw_mount demo_staging ''/out''))]), fs) \<and>
     shows_at demo_mounts ''/out/hint'' m below \<and> map_of fs (mt_host m @ below) = Some (File [2]) \<and> mt_mode m = ''rw''"
proof -
  obtain fs where fs: "stage_files demo_worker demo_staging [] = Inr ((demo_mounts, [(''/out'', mt_host (rw_mount demo_staging ''/out''))]), fs)"
    using demo_staged by blast
  have ok: "''..'' \<notin> set demo_staging"
    "\<forall>p \<in> set (ws_writable demo_worker) \<union> fst ` set (ws_readonly demo_worker). container_path p"
    "distinct (map fst (ws_readonly demo_worker))" "set (ws_writable demo_worker) \<inter> fst ` set (ws_readonly demo_worker) = {}"
    "\<exists>c \<in> set (ws_writable demo_worker). strict_prefix (path_parts c) (path_parts ''/out/hint'')"
    by code_simp+
  have "(''/out/hint'', [2]) \<in> set (ws_readonly demo_worker)" by (simp add: demo_worker_def)
  then show ?thesis using inputs_reach_the_worker [OF fs ok(1-4)] fs ok(5) by fastforce
qed
section \<open>Output\<close>

lemma drain_loop_take:
  "[] \<notin> set chunks \<Longrightarrow> 0 \<le> cap \<Longrightarrow> int (length buf) \<le> cap \<Longrightarrow>
   drain_loop cap buf truncated chunks =
     (take (nat cap) (buf @ concat chunks), truncated \<or> cap < int (length buf + length (concat chunks)))"
proof (induction chunks arbitrary: buf truncated)
  case (Cons c chunks)
  let ?buf = "if 0 < cap - int (length buf) then buf @ take (nat (cap - int (length buf))) c else buf"
  have b: "?buf = take (nat cap) (buf @ c)" using Cons.prems by (auto simp: nat_diff_distrib)
  have len: "int (length ?buf) \<le> cap" unfolding b using Cons.prems by simp
  have t: "max (cap - int (length buf)) 0 < int (length c) \<longleftrightarrow> cap < int (length buf + length c)" using Cons.prems by auto
  have "take (nat cap) (take (nat cap) (buf @ c) @ concat chunks) = take (nat cap) (buf @ c @ concat chunks)"
    by (cases "nat cap \<le> length (buf @ c)") (simp_all add: min_def)
  then show ?case using Cons.IH [OF _ _ len] Cons.prems t by (auto simp: b Let_def min_def split: if_splits)
qed auto

text \<open>C32. What a worker prints cannot exhaust the host: however much its pipes deliver, the captured output is the
  first bytes up to the cap and the flag says exactly whether some were dropped; the run reports those first
  bytes, so what is lost is the tail. A killed run keeps what it had printed, and a process that could
  not be started is a provisioning error.\<close>

theorem captured_output_is_bounded:
  assumes "[] \<notin> set (pe_out e)" "[] \<notin> set (pe_err e)" "0 \<le> cap"
    "dk_spawn dk argv timeout w = (Inr e, w')"
  shows "drain_capped (Some (pe_out e)) cap = (take (nat cap) (concat (pe_out e)), cap < int (length (concat (pe_out e)))) \<and>
    length (fst (communicate_capped (Some (pe_out e)) (Some (pe_err e)) cap)) \<le> nat cap + length (utf8 (nl @ ''...[stdout truncated at '' @ int_str cap @ '' bytes]'')) \<and>
    (\<exists>r. run_argv dk argv timeout cap w = (Inr r, w') \<and> cw_timed_out r = pe_timed_out e \<and>
      (pe_timed_out e \<longrightarrow> cw_exit_code r = -1) \<and>
      (pe_drained e \<longrightarrow> cw_stdout r = dk_decode dk (take (nat cap) (concat (pe_out e))) \<and>
         cw_stderr r = dk_decode dk (take (nat cap) (concat (pe_err e)))))"
proof -
  have d: "drain_capped (Some (pe_out e)) cap = (take (nat cap) (concat (pe_out e)), cap < int (length (concat (pe_out e))))"
    "drain_capped (Some (pe_err e)) cap = (take (nat cap) (concat (pe_err e)), cap < int (length (concat (pe_err e))))"
    using assms(1-3) by (simp_all add: drain_capped_def drain_loop_take)
  have eq: "nl @ ''...['' @ ''stdout'' @ '' truncated at '' @ s = nl @ ''...[stdout truncated at '' @ s" for s by simp
  have "length (fst (communicate_capped (Some (pe_out e)) (Some (pe_err e)) cap)) \<le>
      nat cap + length (utf8 (nl @ ''...[stdout truncated at '' @ int_str cap @ '' bytes]''))"
    unfolding communicate_capped_def truncation_marked_def d
    by (simp only: fst_conv prod.case length_append length_take eq split: if_split) (use assms(3) in \<open>intro conjI impI; linarith\<close>)
  then show ?thesis using d assms(4) by (simp add: run_argv_def Let_def)
qed

text \<open>A daemon that lets every process print five bytes in two chunks and end with code 0.\<close>

definition demo_docker :: "'d docker_backend" where
  "demo_docker = \<lparr>dk_bin = ''docker'', dk_staging_root = None, dk_temp_dir = [''tmp''], dk_environ = (\<lambda>_. None),
     dk_fresh_dir = (\<lambda>_. ''1''), dk_uuid = (\<lambda>_. ''0''),
     dk_spawn = (\<lambda>_ _ w. (Inr \<lparr>pe_code = Some 0, pe_timed_out = False, pe_drained = True, pe_out = [[1, 2, 3], [4, 5]], pe_err = []\<rparr>, w)),
     dk_capture = (\<lambda>_. ret ''''), dk_decode = map (\<lambda>x. char_of (48 + unat x))\<rparr>"

theorem captured_output_is_bounded_witness:
  "\<exists>r w. run_argv (demo_docker :: unit docker_backend) [] 30 4 \<lparr>dw_fs = [], dw_daemon = ()\<rparr> = (Inr r, w) \<and> cw_stdout r = ''1234''"
proof -
  let ?e = "\<lparr>pe_code = Some 0, pe_timed_out = False, pe_drained = True, pe_out = [[1, 2, 3], [4, 5]], pe_err = []\<rparr>"
  let ?w = "\<lparr>dw_fs = [], dw_daemon = ()\<rparr>"
  have s: "dk_spawn (demo_docker :: unit docker_backend) [] 30 ?w = (Inr ?e, ?w)" by (simp add: demo_docker_def)
  have dec: "dk_decode (demo_docker :: unit docker_backend) [1, 2, 3, 4] = ''1234''" by (simp add: demo_docker_def) code_simp
  have "[] \<notin> set (pe_out ?e)" "[] \<notin> set (pe_err ?e)" "(0 :: int) \<le> 4" by simp_all
  from captured_output_is_bounded [OF this s] dec show ?thesis by (auto simp: numeral_eq_Suc)
qed

section \<open>Links\<close>

text \<open>A path on which no component is a link or \<open>..\<close>.\<close>

definition straight :: "host_fs \<Rightarrow> path \<Rightarrow> bool" where
  "straight fs p \<longleftrightarrow> ''..'' \<notin> set p \<and> (\<forall>pre target. prefix pre p \<longrightarrow> map_of fs pre \<noteq> Some (Link target))"

lemma resolve_append: "straight fs (cur @ cs) \<Longrightarrow> resolve fs n cur (cs @ ds) = resolve fs n (cur @ cs) ds"
proof (induction cs arbitrary: cur)
  case (Cons c cs)
  have "straight fs ((cur @ [c]) @ cs)" using Cons.prems by simp
  moreover have "c \<noteq> ''..''" using Cons.prems by (auto simp: straight_def)
  moreover have "prefix (cur @ [c]) (cur @ c # cs)" by (simp add: prefix_def)
  then have "map_of fs (cur @ [c]) \<noteq> Some (Link target)" for target
    using Cons.prems unfolding straight_def by blast
  ultimately show ?case using Cons.IH [of "cur @ [c]"] by (auto split: option.split node.split)
qed simp

lemma resolve_straight: "straight fs p \<Longrightarrow> resolve fs n [] p = Some p"
  using resolve_append [of fs "[]" p n "[]"] by simp

lemma names_in_iff: "c \<in> set (names_in fs d) \<longleftrightarrow> d @ [c] \<in> fst ` set fs"
proof
  assume "c \<in> set (names_in fs d)"
  then obtain p where "p \<in> fst ` set fs" "p \<noteq> []" "butlast p = d" "c = last p" by (auto simp: names_in_def)
  then show "d @ [c] \<in> fst ` set fs" by (metis append_butlast_last_id)
qed (force simp: names_in_def image_iff)

lemma collect_file_outputs:
  "set (fold (collect_file fs base host) founds outputs) \<subseteq> set outputs \<union>
     {(base @ ''/'' @ join ''/'' (drop (length host) found), data) | found data. found \<in> set founds \<and> file_at fs found = Some data}"
proof (induction founds arbitrary: outputs)
  case (Cons f founds)
  have put: "set (dict_put k v d) \<subseteq> insert (k, v) (set d)" for k :: string and v :: bytes and d
    by (induction d) auto
  have "set (collect_file fs base host f outputs) \<subseteq> set outputs \<union>
     {(base @ ''/'' @ join ''/'' (drop (length host) f), data) | data. file_at fs f = Some data}"
    using put by (auto simp: collect_file_def split: option.splits)
  then show ?case using Cons.IH [of "collect_file fs base host f outputs"] by fastforce
qed simp

lemma collect_file_keys:
  "fst ` set (fold (collect_file fs base host) founds outputs) = fst ` set outputs \<union>
     {base @ ''/'' @ join ''/'' (drop (length host) found) | found. found \<in> set founds \<and> file_at fs found \<noteq> None}"
proof (induction founds arbitrary: outputs)
  case (Cons f founds)
  have put: "fst ` set (dict_put k v d) = insert k (fst ` set d)" for k :: string and v :: bytes and d
    by (induction d) auto
  have "fst ` set (collect_file fs base host f outputs) = fst ` set outputs \<union>
     (if file_at fs f \<noteq> None then {base @ ''/'' @ join ''/'' (drop (length host) f)} else {})"
    by (auto simp: collect_file_def put split: option.split)
  then show ?case using Cons.IH [of "collect_file fs base host f outputs"] by auto
qed simp

text \<open>What a pattern finds under a directory: a path with a component for each of the pattern's, which it
  matches, and which is a name in the directory that the path so far leads to.\<close>

definition finds :: "host_fs \<Rightarrow> path \<Rightarrow> string list \<Rightarrow> path \<Rightarrow> bool" where
  "finds fs host pats below \<longleftrightarrow> list_all2 fnmatch pats below \<and>
     (\<forall>i < length below. \<exists>d. resolve fs MAX_LINKS [] (host @ take i below) = Some d \<and> d @ [below ! i] \<in> fst ` set fs)"

lemma finds_simps [simp]:
  "finds fs host [] below \<longleftrightarrow> below = []"
  "finds fs host (pat # pats) below \<longleftrightarrow> (\<exists>c cs d. below = c # cs \<and> fnmatch pat c \<and>
     resolve fs MAX_LINKS [] host = Some d \<and> d @ [c] \<in> fst ` set fs \<and> finds fs (host @ [c]) pats cs)"
proof -
  show "finds fs host [] below \<longleftrightarrow> below = []" by (auto simp: finds_def)
  show "finds fs host (pat # pats) below \<longleftrightarrow> (\<exists>c cs d. below = c # cs \<and> fnmatch pat c \<and>
     resolve fs MAX_LINKS [] host = Some d \<and> d @ [c] \<in> fst ` set fs \<and> finds fs (host @ [c]) pats cs)"
    by (cases below) (auto simp: finds_def All_less_Suc2)
qed

lemma glob_from_iff: "found \<in> set (glob_from fs cur pats) \<longleftrightarrow> (\<exists>below. found = cur @ below \<and> finds fs cur pats below)"
proof (induction pats arbitrary: cur)
  case (Cons pat pats)
  show ?case
  proof (cases "resolve fs MAX_LINKS [] cur")
    case (Some d)
    then show ?thesis by (auto simp: Cons.IH names_in_iff)
  qed simp
qed simp

text \<open>The files to be collected and the names they get: for a pattern under a writable directory, the
  files it finds below.\<close>

definition collectable :: "worker_spec \<Rightarrow> (string \<times> path) list \<Rightarrow> host_fs \<Rightarrow> string \<Rightarrow> bytes \<Rightarrow> bool" where
  "collectable spec hosts fs n data \<longleftrightarrow> (\<exists>pattern \<in> set (ws_globs spec). \<exists>cdir host below.
     pattern_home pattern hosts = Some (cdir, host) \<and>
     finds fs host (path_parts (drop (length (rstrip_slashes cdir) + 1) pattern)) below \<and>
     n = rstrip_slashes cdir @ ''/'' @ join ''/'' below \<and> file_at fs (host @ below) = Some data)"

lemma collect_pattern_step:
  assumes "collect_pattern fs hosts pattern outputs = Inr outputs'"
  defines "found n data \<equiv> \<exists>cdir host below. pattern_home pattern hosts = Some (cdir, host) \<and>
     finds fs host (path_parts (drop (length (rstrip_slashes cdir) + 1) pattern)) below \<and>
     n = rstrip_slashes cdir @ ''/'' @ join ''/'' below \<and> file_at fs (host @ below) = Some data"
  shows "set outputs' \<subseteq> set outputs \<union> {(n, data). found n data} \<and>
    fst ` set outputs' = fst ` set outputs \<union> {n. \<exists>data. found n data}"
proof (cases "pattern_home pattern hosts")
  case None
  then show ?thesis using assms by (simp add: collect_pattern_def)
next
  case (Some home)
  obtain cdir host where home: "home = (cdir, host)" by fastforce
  let ?base = "rstrip_slashes cdir" and ?pats = "path_parts (drop (length (rstrip_slashes cdir) + 1) pattern)"
  obtain founds where founds: "glob fs host (drop (length ?base + 1) pattern) = Inr founds"
    "outputs' = fold (collect_file fs ?base host) founds outputs"
    using assms(1) Some by (auto simp: collect_pattern_def home Let_def bindS_eq_Inr)
  have iff: "f \<in> set founds \<longleftrightarrow> (\<exists>below. f = host @ below \<and> finds fs host ?pats below)" for f
    using founds(1) by (auto simp: glob_def glob_from_iff split: if_splits)
  have found: "found n data \<longleftrightarrow> (\<exists>f. f \<in> set founds \<and> n = ?base @ ''/'' @ join ''/'' (drop (length host) f) \<and>
      file_at fs f = Some data)" for n data
    unfolding found_def Some home iff by auto
  have "set outputs' \<subseteq> set outputs \<union> {(n, data). found n data}"
    using collect_file_outputs [of fs ?base host founds outputs] unfolding founds(2) [symmetric] found by blast
  moreover have "{?base @ ''/'' @ join ''/'' (drop (length host) f) | f. f \<in> set founds \<and> file_at fs f \<noteq> None} =
      {n. \<exists>data. found n data}"
    unfolding found by blast
  ultimately show ?thesis using collect_file_keys [of fs ?base host founds outputs] unfolding founds(2) [symmetric] by simp
qed

definition found_by :: "(string \<times> path) list \<Rightarrow> host_fs \<Rightarrow> string set \<Rightarrow> string \<Rightarrow> bytes \<Rightarrow> bool" where
  "found_by hosts fs patterns n data \<longleftrightarrow> (\<exists>pattern \<in> patterns. \<exists>cdir host below.
     pattern_home pattern hosts = Some (cdir, host) \<and>
     finds fs host (path_parts (drop (length (rstrip_slashes cdir) + 1) pattern)) below \<and>
     n = rstrip_slashes cdir @ ''/'' @ join ''/'' below \<and> file_at fs (host @ below) = Some data)"

lemma found_by_insert:
  "found_by hosts fs (set (done @ [p])) n data \<longleftrightarrow> found_by hosts fs (set done) n data \<or> found_by hosts fs {p} n data"
  by (auto simp: found_by_def)

lemma collect_exact:
  assumes "collect spec hosts fs = Inr outputs"
  shows "(\<forall>(n, data) \<in> set outputs. collectable spec hosts fs n data) \<and>
    fst ` set outputs = {n. \<exists>data. collectable spec hosts fs n data}"
proof -
  let ?F = "found_by hosts fs"
  have "set outputs \<subseteq> {(n, data). ?F (set (ws_globs spec)) n data} \<and>
    fst ` set outputs = {n. \<exists>data. ?F (set (ws_globs spec)) n data}"
    using assms unfolding collect_def
  proof (rule stages_induct)
    show "set [] \<subseteq> {(n, data). ?F (set []) n data} \<and> fst ` set [] = {n. \<exists>data. ?F (set []) n data}"
      by (simp add: found_by_def)
  next
    fix "done" pattern outputs outputs'
    assume IH: "set outputs \<subseteq> {(n, data). ?F (set done) n data} \<and> fst ` set outputs = {n. \<exists>data. ?F (set done) n data}"
      and step: "collect_pattern fs hosts pattern outputs = Inr outputs'"
    have one: "set outputs' \<subseteq> set outputs \<union> {(n, data). ?F {pattern} n data}"
        "fst ` set outputs' = fst ` set outputs \<union> {n. \<exists>data. ?F {pattern} n data}"
      using collect_pattern_step [OF step] by (simp_all add: found_by_def)
    show "set outputs' \<subseteq> {(n, data). ?F (set (done @ [pattern])) n data} \<and>
        fst ` set outputs' = {n. \<exists>data. ?F (set (done @ [pattern])) n data}"
      unfolding found_by_insert one(2) IH [THEN conjunct2] using one(1) IH [THEN conjunct1] by blast
  qed
  moreover have "collectable spec hosts fs = ?F (set (ws_globs spec))"
    by (simp add: fun_eq_iff collectable_def found_by_def)
  ultimately show ?thesis by auto
qed
lemma collect_file_map:
  assumes "\<And>f. f \<in> set founds \<Longrightarrow> base @ ''/'' @ join ''/'' (drop (length host) f) = k \<Longrightarrow> file_at fs f = Some data"
    "(\<exists>f \<in> set founds. base @ ''/'' @ join ''/'' (drop (length host) f) = k) \<or> map_of outputs k = Some data"
  shows "map_of (fold (collect_file fs base host) founds outputs) k = Some data"
  using assms
proof (induction founds arbitrary: outputs)
  case (Cons f founds)
  have "(\<exists>f \<in> set founds. base @ ''/'' @ join ''/'' (drop (length host) f) = k) \<or>
      map_of (collect_file fs base host f outputs) k = Some data"
    using Cons.prems(1) [of f] Cons.prems(2) by (auto simp: collect_file_def update_conv' split: option.splits)
  then show ?case using Cons.IH [of "collect_file fs base host f outputs"] Cons.prems(1) by simp
qed simp

lemma fnmatch_star: "fnmatch ''*'' s"
  by (induction s) simp_all

text \<open>Patterns in the forms the model covers: names, \<open>*\<close> and \<open>?\<close>, without \<open>**\<close>, character ranges, \<open>..\<close> or
  a slash at the end. Every caller's are.\<close>

definition plain_pattern :: "string \<Rightarrow> bool" where
  "plain_pattern p \<longleftrightarrow> CHR ''['' \<notin> set p \<and> ''**'' \<notin> set (path_parts p) \<and> ''..'' \<notin> set (path_parts p) \<and>
     p \<noteq> [] \<and> last p \<noteq> CHR ''/''"

text \<open>C34. What is collected, and what is not checked: the outputs are exactly the files that the patterns
  find below their writable directories: nothing else is returned, none of them is left out, each is
  named after its place under the directory, and its bytes are those of the file found there, the
  worker's own file if there is no link on the way. But links are followed on the host: a link that the
  worker left in its directory with the path of any host file as its target brings out that file's bytes
  under the link's name.\<close>

theorem collect_follows_links:
  assumes "collect spec hosts fs = Inr outputs" "\<forall>p \<in> set (ws_globs spec). plain_pattern p"
  shows "(\<forall>(n, data) \<in> set outputs. collectable spec hosts fs n data) \<and>
    (\<forall>n data. collectable spec hosts fs n data \<longrightarrow> n \<in> fst ` set outputs) \<and>
    (\<forall>found data. file_at fs found = Some data \<and> straight fs found \<longrightarrow> map_of fs found = Some (File data)) \<and>
    (\<forall>cdir host link target data. ws_globs spec = [rstrip_slashes cdir @ ''/*''] \<and> hosts = [(cdir, host)] \<and> straight fs host \<and>
       map_of fs (host @ [link]) = Some (Link target) \<and> link \<noteq> ''..'' \<and>
       straight fs target \<and> map_of fs target = Some (File data) \<longrightarrow>
       (rstrip_slashes cdir @ ''/'' @ link, data) \<in> set outputs)"
proof (intro conjI allI impI)
  show "\<forall>(n, data) \<in> set outputs. collectable spec hosts fs n data" using collect_exact [OF assms(1)] by blast
next
  fix n data
  assume "collectable spec hosts fs n data"
  then show "n \<in> fst ` set outputs" using collect_exact [OF assms(1)] by blast
next
  fix found data
  assume "file_at fs found = Some data \<and> straight fs found"
  then show "map_of fs found = Some (File data)"
    by (auto simp: file_at_def resolve_straight split: option.splits node.splits)next
  fix cdir host link target data
  assume a: "ws_globs spec = [rstrip_slashes cdir @ ''/*''] \<and> hosts = [(cdir, host)] \<and> straight fs host \<and>
       map_of fs (host @ [link]) = Some (Link target) \<and> link \<noteq> ''..'' \<and> straight fs target \<and> map_of fs target = Some (File data)"
  let ?base = "rstrip_slashes cdir"
  have home: "pattern_home (?base @ ''/*'') hosts = Some (cdir, host)" using a by (simp add: pattern_home_def prefix_def)
  have star: "path_parts ''*'' = [''*'']" by (simp add: path_parts_def)
  have "glob fs host ''*'' = Inr (sort (map (\<lambda>c. host @ [c]) (names_in fs host)))"
    using a by (simp add: glob_def star resolve_straight [of fs host] fnmatch_star concat_map_singleton)
  then have out: "outputs = fold (collect_file fs ?base host) (sort (map (\<lambda>c. host @ [c]) (names_in fs host))) []"
    using assms a home by (simp add: collect_def collect_pattern_def Let_def)
  have "resolve fs MAX_LINKS [] (host @ [link]) = Some target"
    using a resolve_append [of fs "[]" host MAX_LINKS "[link]"] resolve_straight [of fs target 39]
    by (simp add: MAX_LINKS_def numeral_eq_Suc)
  then have bytes_read: "file_at fs (host @ [link]) = Some data" using a by (simp add: file_at_def)
  have "link \<in> set (names_in fs host)" using a by (auto simp: names_in_iff dest: map_of_SomeD intro: rev_image_eqI)
  then have "map_of outputs (?base @ ''/'' @ link) = Some data"
    unfolding out using bytes_read by (intro collect_file_map) auto
  then show "(?base @ ''/'' @ link, data) \<in> set outputs" by (rule map_of_SomeD)
qed

text \<open>The host's password file, and a worker that left its predictions and a link.\<close>

definition demo_host :: host_fs where
  "demo_host = [([''etc''], Directory), ([''etc'', ''passwd''], File [7, 7]), ([''tmp''], Directory), ([''tmp'', ''w''], Directory),
     ([''tmp'', ''w'', ''rw''], Directory), ([''tmp'', ''w'', ''rw'', ''out''], Directory),
     ([''tmp'', ''w'', ''rw'', ''out'', ''a.csv''], File [1]),
     ([''tmp'', ''w'', ''rw'', ''out'', ''b.csv''], Link [''etc'', ''passwd''])]"

theorem collect_follows_links_witness:
  "\<exists>outputs. collect demo_worker [(''/out'', [''tmp'', ''w'', ''rw'', ''out''])] demo_host = Inr outputs \<and>
     (''/out/b.csv'', [7, 7]) \<in> set outputs"
proof -
  let ?out = "[''tmp'', ''w'', ''rw'', ''out'']"
  obtain outputs where c: "collect demo_worker [(''/out'', ?out)] demo_host = Inr outputs"
    by (simp add: collect_def collect_pattern_def demo_worker_def pattern_home_def glob_def path_parts_def rstrip_slashes_def prefix_def)
  have plain: "\<forall>p \<in> set (ws_globs demo_worker). plain_pattern p" by code_simp
  have base: "rstrip_slashes ''/out'' = ''/out''" by code_simp
  have str: "straight demo_host p" if "p \<in> {?out, [''etc'', ''passwd'']}" for p
    using that by (auto simp: straight_def demo_host_def prefix_Cons split: if_splits)
  have "ws_globs demo_worker = [rstrip_slashes ''/out'' @ ''/*''] \<and> [(''/out'', ?out)] = [(''/out'', ?out)] \<and> straight demo_host ?out \<and>
       map_of demo_host (?out @ [''b.csv'']) = Some (Link [''etc'', ''passwd'']) \<and> ''b.csv'' \<noteq> ''..'' \<and>
       straight demo_host [''etc'', ''passwd''] \<and> map_of demo_host [''etc'', ''passwd''] = Some (File [7, 7])"
    using str by (simp add: base) (simp add: demo_worker_def demo_host_def)
  then have "(rstrip_slashes ''/out'' @ ''/'' @ ''b.csv'', [7, 7]) \<in> set outputs"
    using collect_follows_links [OF c plain] by blast
  then show ?thesis using c by (simp add: base)
qed

section \<open>Fleets\<close>

text \<open>
  What a reaper relies on: a backend lists the living workers whose labels match and reaps exactly those.
  \<open>floor\<close> is the condition the backend adds of its own, \<open>plain\<close> says of a selector that the backend can render it.
\<close>

locale worker_fleet =
  fixes ok :: "'b \<Rightarrow> bool" and plain :: "selector \<Rightarrow> bool" and alive :: "'b \<Rightarrow> (string \<times> labels) list" and floor :: "labels \<Rightarrow> bool"
    and listing :: "selector \<Rightarrow> ('b, exc, worker_handle list) st" and reaping :: "selector \<Rightarrow> ('b, exc, nat) st"
  assumes lists: "ok b \<Longrightarrow> plain sel \<Longrightarrow> \<exists>hs. listing sel b = (Inr hs, b) \<and> map wh_id hs = map fst (filter (\<lambda>(i, l). floor l \<and> matches l sel) (alive b))"
    and reaps: "ok b \<Longrightarrow> plain sel \<Longrightarrow> \<exists>b'. reaping sel b = (Inr (length (filter (\<lambda>(i, l). floor l \<and> matches l sel) (alive b))), b') \<and>
      ok b' \<and> alive b' = filter (\<lambda>(i, l). \<not> (floor l \<and> matches l sel)) (alive b)"
begin

lemma reaped_are_gone:
  assumes "ok b" "plain sel" "reaping sel b = (r, b')"
  shows "fst (listing sel b') = Inr [] \<and> fst (reaping sel b') = Inr 0"
proof -
  have b': "ok b'" "alive b' = filter (\<lambda>(i, l). \<not> (floor l \<and> matches l sel)) (alive b)" using reaps [OF assms(1,2)] assms(3) by auto
  have none: "filter (\<lambda>(i, l). floor l \<and> matches l sel) (alive b') = []" unfolding b'(2) by (auto simp: filter_empty_conv)
  show ?thesis using lists [OF b'(1) assms(2)] reaps [OF b'(1) assms(2)] none by auto
qed

lemma reap_spares:
  assumes "ok b" "plain sel" "reaping sel b = (r, b')" "(i, l) \<in> set (alive b)" "\<not> floor l \<or> \<not> matches l sel"
  shows "(i, l) \<in> set (alive b')"
  using reaps [OF assms(1,2)] assms(3-5) by auto

end

definition fake_alive :: "fake_backend \<Rightarrow> (string \<times> labels) list" where
  "fake_alive b = map (\<lambda>(i, spec). (i, ws_labels spec)) (fk_live b)"

lemma delete_matching:
  assumes "distinct (map fst live)"
  shows "fold AList.delete (map fst (filter P live)) live = filter (\<lambda>x. \<not> P x) live"
proof -
  have "fold AList.delete ks live = filter (\<lambda>(k, v). k \<notin> set ks) live" for ks :: "'a list"
  proof (induction ks arbitrary: live)
    case (Cons k ks)
    then show ?case by (auto simp: AList.delete_eq case_prod_unfold intro!: filter_cong)
  qed simp
  moreover have "filter (\<lambda>(k, v). k \<notin> set (map fst (filter P live))) live = filter (\<lambda>x. \<not> P x) live"
    by (intro filter_cong refl) (force simp: image_iff dest: eq_key_imp_eq_value [OF assms])
  ultimately show ?thesis by simp
qed

interpretation fake: worker_fleet "\<lambda>b. distinct (map fst (fk_live b))" "\<lambda>_. True" fake_alive "\<lambda>_. True" fake_list fake_reap
proof
  fix b :: fake_backend and sel
  assume d: "distinct (map fst (fk_live b))"
  show "\<exists>hs. fake_list sel b = (Inr hs, b) \<and> map wh_id hs = map fst (filter (\<lambda>(i, l). True \<and> matches l sel) (fake_alive b))"
    by (simp add: fake_list_def gets_def fake_alive_def filter_map comp_def case_prod_unfold)
  have "distinct (map fst (filter (\<lambda>(_, spec). \<not> matches (ws_labels spec) sel) (fk_live b)))" using d by (rule distinct_map_filter)
  then show "\<exists>b'. fake_reap sel b = (Inr (length (filter (\<lambda>(i, l). True \<and> matches l sel) (fake_alive b))), b') \<and>
      distinct (map fst (fk_live b')) \<and> fake_alive b' = filter (\<lambda>(i, l). \<not> (True \<and> matches l sel)) (fake_alive b)"
    using delete_matching [OF d, of "\<lambda>(_, spec). matches (ws_labels spec) sel"]
    by (simp add: fake_reap_def bindE_def gets_def modify_def ret_def fake_alive_def filter_map comp_def case_prod_unfold)
qed

text \<open>A docker daemon as documented: \<open>ps\<close> prints the ids of the containers that every label filter matches,
  \<open>rm -f\<close> removes the named container and no other.\<close>

definition plain_keys :: "selector \<Rightarrow> bool" where
  "plain_keys sel \<longleftrightarrow> (\<forall>k \<in> fst ` set sel. CHR ''='' \<notin> set k)"

definition documented_daemon :: "'d docker_backend \<Rightarrow> ('d docker_world \<Rightarrow> (string \<times> labels) list) \<Rightarrow> bool" where
  "documented_daemon dk containers \<longleftrightarrow>
     (\<forall>w flt. plain_keys flt \<longrightarrow> (\<exists>text_s. dk_capture dk ([dk_bin dk, ''ps'', ''--quiet'', ''--no-trunc''] @
          concat (map (\<lambda>(k, v). [''--filter'', ''label='' @ k @ ''='' @ v]) flt)) w = (Inr text_s, w) \<and>
        blank_split [] text_s = map fst (filter (\<lambda>(i, l). matches l flt) (containers w)))) \<and>
     (\<forall>w i. \<exists>r w'. dk_capture dk [dk_bin dk, ''rm'', ''-f'', i] w = (r, w') \<and>
        containers w' = filter (\<lambda>(j, l). j \<noteq> i) (containers w))"

lemma harness_label: "map_of (labels_dict l) ''harness'' = (if lb_harness l = '''' then None else Some (lb_harness l))"
proof (cases "lb_harness l = ''''")
  case True
  have "''harness'' \<notin> fst ` set (labels_dict l)" unfolding labels_dict_def using True by (auto simp del: filter.simps)
  then show ?thesis using True by (simp add: map_of_eq_None_iff)
qed (simp add: labels_dict_def del: filter.simps(2) add: filter.simps(2) [of _ "(''harness'', lb_harness l)"])

lemma matches_append: "matches l (sel @ [(''harness'', ''verity'')]) \<longleftrightarrow> matches l sel \<and> lb_harness l = ''verity''"
  by (auto simp: matches_def harness_label split: if_splits)

lemma destroy_all:
  assumes "documented_daemon dk containers"
  shows "\<exists>w'. mapM (destroy dk) hs w = (Inr (map (\<lambda>_. ()) hs), w') \<and>
    containers w' = filter (\<lambda>(j, l). j \<notin> wh_id ` set hs) (containers w)"
proof (induction hs arbitrary: w)
  case Nil
  then show ?case by (simp add: ret_def)
next
  case (Cons h hs)
  obtain r w1 where w1: "dk_capture dk [dk_bin dk, ''rm'', ''-f'', wh_id h] w = (r, w1)"
    "containers w1 = filter (\<lambda>(j, l). j \<noteq> wh_id h) (containers w)"
    using assms unfolding documented_daemon_def by blast
  have d: "destroy dk h w = (Inr (), w1)" using w1(1) by (simp add: destroy_def bindE_def attempt_def ret_def)
  obtain w2 where w2: "mapM (destroy dk) hs w1 = (Inr (map (\<lambda>_. ()) hs), w2)"
    "containers w2 = filter (\<lambda>(j, l). j \<notin> wh_id ` set hs) (containers w1)"
    using Cons.IH [of w1] by blast
  then show ?case using d w1(2) by (auto simp: bindE_def ret_def intro!: filter_cong)
qed

lemma docker_fleet:
  assumes "documented_daemon dk containers"
  shows "worker_fleet (\<lambda>w. distinct (map fst (containers w))) plain_keys containers (\<lambda>l. lb_harness l = ''verity'') (list_workers dk) (reap_workers dk)"
proof
  fix w sel
  assume d: "distinct (map fst (containers w))" and plain: "plain_keys sel"
  then have plain': "plain_keys (sel @ [(''harness'', ''verity'')])" by (simp add: plain_keys_def)
  obtain text_s where t: "dk_capture dk (list_args (dk_bin dk) sel) w = (Inr text_s, w)"
    "blank_split [] text_s = map fst (filter (\<lambda>(i, l). matches l (sel @ [(''harness'', ''verity'')])) (containers w))"
    using assms [unfolded documented_daemon_def, THEN conjunct1, rule_format, OF plain', of w]
    by (auto simp: list_args_def)
  have ids: "blank_split [] text_s = map fst (filter (\<lambda>(i, l). lb_harness l = ''verity'' \<and> matches l sel) (containers w))"
    unfolding t(2) matches_append by (intro arg_cong [where f = "map fst"] filter_cong) auto
  have l: "list_workers dk sel w = (Inr (map (\<lambda>cid. \<lparr>wh_id = cid, wh_labels = labels_of ''''\<rparr>) (blank_split [] text_s)), w)"
    using t(1) by (simp add: list_workers_def bindE_def ret_def)
  then show "\<exists>hs. list_workers dk sel w = (Inr hs, w) \<and>
      map wh_id hs = map fst (filter (\<lambda>(i, l). lb_harness l = ''verity'' \<and> matches l sel) (containers w))"
    using ids by (auto simp: comp_def)
  let ?hs = "map (\<lambda>cid. \<lparr>wh_id = cid, wh_labels = labels_of ''''\<rparr>) (blank_split [] text_s)"
  obtain w' where w': "mapM (destroy dk) ?hs w = (Inr (map (\<lambda>_. ()) ?hs), w')"
    "containers w' = filter (\<lambda>(j, l). j \<notin> wh_id ` set ?hs) (containers w)"
    using destroy_all [OF assms] by blast
  have "containers w' = filter (\<lambda>(i, l). \<not> (lb_harness l = ''verity'' \<and> matches l sel)) (containers w)"
    unfolding w'(2) using d ids by (intro filter_cong refl) (force simp: image_image distinct_map inj_on_def image_iff)
  then show "\<exists>w'. reap_workers dk sel w = (Inr (length (filter (\<lambda>(i, l). lb_harness l = ''verity'' \<and> matches l sel) (containers w))), w') \<and>
      distinct (map fst (containers w')) \<and> containers w' = filter (\<lambda>(i, l). \<not> (lb_harness l = ''verity'' \<and> matches l sel)) (containers w)"
    using l w'(1) d ids by (auto simp: reap_workers_def bindE_def ret_def intro: distinct_map_filter)
qed

text \<open>C27. The reaper spares everyone else's workers: with a daemon that behaves as documented, a reap ends with
  status 0, has destroyed exactly the containers that carry this harness's label and match the given facets, and
  leaves every other container alive; a second reap finds nothing. A harness name other than the
  built-in one therefore reaps nothing at all, and a daemon that cannot be started is no status 1 but the raw error.\<close>

theorem reaper_spares_others:
  assumes "documented_daemon dk containers" "distinct (map fst (containers w))"
  shows "\<exists>w'. reaper_main dk tenant run role harness w = (Inr 0, w') \<and>
    containers w' = filter (\<lambda>(i, l). \<not> (lb_harness l = ''verity'' \<and> matches l (build_selector tenant run role harness))) (containers w) \<and>
    (harness \<noteq> ''verity'' \<longrightarrow> containers w' = containers w) \<and>
    fst (reap_workers dk (build_selector tenant run role harness) w') = Inr 0 \<and>
    (\<forall>m. reaper_main (dk\<lparr>dk_capture := \<lambda>_ v. (Inl (OtherError m), v)\<rparr>) tenant run role harness w = (Inl (OtherError m), w))"
proof -
  let ?sel = "build_selector tenant run role harness"
  note fleet = docker_fleet [OF assms(1)]
  have plain: "plain_keys ?sel" by (auto simp: plain_keys_def build_selector_def facet_def split: option.split)
  obtain w' where w': "reap_workers dk ?sel w = (Inr (length (filter (\<lambda>(i, l). lb_harness l = ''verity'' \<and> matches l ?sel) (containers w))), w')"
    "containers w' = filter (\<lambda>(i, l). \<not> (lb_harness l = ''verity'' \<and> matches l ?sel)) (containers w)"
    using worker_fleet.reaps [OF fleet assms(2) plain] by blast
  have "map_of ?sel ''harness'' = Some harness"
    by (simp add: build_selector_def facet_def split: option.split)
  then have "(''harness'', harness) \<in> set ?sel" by (rule map_of_SomeD)
  then have "\<not> (lb_harness l = ''verity'' \<and> matches l ?sel)" if "harness \<noteq> ''verity''" for l
    using that by (force simp: matches_def harness_label split: if_splits)
  then have "containers w' = containers w" if "harness \<noteq> ''verity''" using that unfolding w'(2) by (simp add: filter_True)
  moreover have "reaper_main dk tenant run role harness w = (Inr 0, w')"
    using w'(1) by (simp add: reaper_main_def try_catch_def bindE_def ret_def)
  moreover have "reaper_main (dk\<lparr>dk_capture := \<lambda>_ v. (Inl (OtherError m), v)\<rparr>) tenant run role harness w = (Inl (OtherError m), w)" for m
    by (simp add: reaper_main_def try_catch_def bindE_def reap_workers_def list_workers_def raise_def)
  ultimately show ?thesis using w'(2) worker_fleet.reaped_are_gone [OF fleet assms(2) plain w'(1)] by blast
qed

text \<open>A daemon whose state is its list of containers.\<close>

fun filters_of :: "string list \<Rightarrow> selector" where
  "filters_of (f # a # rest) = (takeWhile (\<lambda>c. c \<noteq> CHR ''='') (drop 6 a), drop 1 (dropWhile (\<lambda>c. c \<noteq> CHR ''='') (drop 6 a))) # filters_of rest"
| "filters_of _ = []"

definition proper_id :: "string \<Rightarrow> bool" where
  "proper_id i \<longleftrightarrow> i \<noteq> '''' \<and> (\<forall>c \<in> set i. \<not> is_blank c)"

definition demo_containers :: "(string \<times> labels) list docker_world \<Rightarrow> (string \<times> labels) list" where
  "demo_containers w = filter (\<lambda>(i, l). proper_id i) (dw_daemon w)"

definition demo_daemon :: "(string \<times> labels) list docker_backend" where
  "demo_daemon = demo_docker\<lparr>dk_capture := (\<lambda>args w.
     if take 4 args = [''docker'', ''ps'', ''--quiet'', ''--no-trunc'']
     then (Inr (concat (map (\<lambda>i. i @ nl) (map fst (filter (\<lambda>(i, l). matches l (filters_of (drop 4 args))) (demo_containers w))))), w)
     else (Inr '''', w\<lparr>dw_daemon := filter (\<lambda>(j, l). j \<noteq> last args) (dw_daemon w)\<rparr>))\<rparr>"

lemma split_at_eq:
  assumes "CHR ''='' \<notin> set k"
  shows "takeWhile (\<lambda>c. c \<noteq> CHR ''='') (k @ CHR ''='' # v) = k" "dropWhile (\<lambda>c. c \<noteq> CHR ''='') (k @ CHR ''='' # v) = CHR ''='' # v"
  using assms by (induction k) auto

lemma blank_split_word: "(\<forall>c \<in> set i. \<not> is_blank c) \<Longrightarrow> blank_split acc (i @ rest) = blank_split (rev i @ acc) rest"
  by (induction i arbitrary: acc) simp_all

lemma blank_split_lines: "(\<forall>i \<in> set is. proper_id i) \<Longrightarrow> blank_split [] (concat (map (\<lambda>i. i @ nl) is)) = is"
proof (induction "is")
  case (Cons i "is")
  have "is_blank (CHR 0x0A)" by (simp add: is_blank_def)
  then show ?case using Cons by (simp add: blank_split_word proper_id_def nl_def)
qed simp

lemma demo_documented: "documented_daemon demo_daemon demo_containers"
proof -
  have f: "filters_of (concat (map (\<lambda>(k, v). [''--filter'', ''label='' @ k @ ''='' @ v]) flt)) = flt" if "plain_keys flt" for flt
    using that by (induction flt) (auto simp: plain_keys_def split_at_eq numeral_eq_Suc)
  have "dk_bin demo_daemon = ''docker''" by (simp add: demo_daemon_def demo_docker_def)
  moreover have "blank_split [] (concat (map (\<lambda>i. i @ nl) (map fst (filter P (demo_containers w))))) = map fst (filter P (demo_containers w))" for P w
    by (rule blank_split_lines) (auto simp: demo_containers_def)
  ultimately show ?thesis unfolding documented_daemon_def
    by (auto simp: demo_daemon_def f [simplified] demo_containers_def numeral_eq_Suc intro!: filter_cong)
qed


theorem reaper_spares_others_witness:
  "let mine = (labels_of ''sandbox'')\<lparr>lb_run := ''r1''\<rparr>; other = (labels_of ''sandbox'')\<lparr>lb_harness := ''x''\<rparr>;
       w = \<lparr>dw_fs = [], dw_daemon = [(''a'', mine), (''b'', other), (''c'', labels_of ''verifier'')]\<rparr> in
     (\<exists>w'. reaper_main demo_daemon None (Some ''r1'') None ''verity'' w = (Inr 0, w') \<and>
       map fst (demo_containers w') = [''b'', ''c'']) \<and>
     (\<exists>w'. reaper_main demo_daemon None None None ''x'' w = (Inr 0, w') \<and> demo_containers w' = demo_containers w)"
proof -
  define mine where "mine = (labels_of ''sandbox'')\<lparr>lb_run := ''r1''\<rparr>"
  define other where "other = (labels_of ''sandbox'')\<lparr>lb_harness := ''x''\<rparr>"
  define w where "w = \<lparr>dw_fs = [], dw_daemon = [(''a'', mine), (''b'', other), (''c'', labels_of ''verifier'')]\<rparr>"
  have blank: "\<not> is_blank (CHR ''a'')" "\<not> is_blank (CHR ''b'')" "\<not> is_blank (CHR ''c'')" by (simp_all add: is_blank_def)
  have cs: "demo_containers w = [(''a'', mine), (''b'', other), (''c'', labels_of ''verifier'')]"
    by (simp add: demo_containers_def w_def proper_id_def blank)
  have d: "distinct (map fst (demo_containers w))" by (simp add: cs)
  have hits: "lb_harness mine = ''verity'' \<and> matches mine (build_selector None (Some ''r1'') None ''verity'')"
    "\<not> matches other (build_selector None (Some ''r1'') None ''verity'')"
    "\<not> matches (labels_of ''verifier'') (build_selector None (Some ''r1'') None ''verity'')"
    unfolding mine_def other_def by code_simp+
  obtain w1 where w1: "reaper_main demo_daemon None (Some ''r1'') None ''verity'' w = (Inr 0, w1)"
    "demo_containers w1 = filter (\<lambda>(i, l). \<not> (lb_harness l = ''verity'' \<and> matches l (build_selector None (Some ''r1'') None ''verity''))) (demo_containers w)"
    using reaper_spares_others [OF demo_documented d] by blast
  obtain w2 where w2: "reaper_main demo_daemon None None None ''x'' w = (Inr 0, w2)" "''x'' \<noteq> ''verity'' \<longrightarrow> demo_containers w2 = demo_containers w"
    using reaper_spares_others [OF demo_documented d] by blast
  show ?thesis unfolding Let_def mine_def [symmetric] other_def [symmetric] w_def [symmetric]
    using w1 w2 hits by (simp add: cs)
qed

end
