(* ===== verification/Log_Transcript.thy ===== *)
theory Log_Transcript
  imports Agent_Sandbox
begin

text \<open>
  \<open>sandbox/log_transcript.py\<close>: the record of an agent's run as lines of the worker's log, the rendering
  of a message by the worker and the reconstruction of transcript and telemetry by the host. \<open>json.dumps\<close>
  with \<open>default=str\<close> and \<open>json.loads\<close> are the fields of a codec; a message is a record
  of the attributes the rendering asks for.
\<close>

section \<open>Python values\<close>

record log_codec =
  lg_dumps :: "json \<Rightarrow> string"
  lg_loads :: "string \<Rightarrow> exc + json"

definition or_else :: "json \<Rightarrow> json \<Rightarrow> json" where
  "or_else x y = (if json_truthy x then x else y)"

text \<open>\<open>len(x)\<close>\<close>

fun py_len :: "json \<Rightarrow> exc + int" where
  "py_len (JStr s) = Inr (int (length s))"
| "py_len (JList xs) = Inr (int (length xs))"
| "py_len (JObj kvs) = Inr (int (length kvs))"
| "py_len _ = Inl (TypeError ''object has no len()'')"

text \<open>\<open>==\<close> and \<open><\<close> on decoded values; \<open>None\<close> where \<open><\<close> raises a \<open>TypeError\<close>.\<close>

definition num_of :: "json \<Rightarrow> rat option" where
  "num_of j = (case j of JInt i \<Rightarrow> Some (of_int i) | JFloat r \<Rightarrow> Some r | JBool b \<Rightarrow> Some (if b then 1 else 0) | _ \<Rightarrow> None)"

fun py_eq :: "json \<Rightarrow> json \<Rightarrow> bool"
  and eq_items :: "json list \<Rightarrow> json list \<Rightarrow> bool"
  and eq_fields :: "(string \<times> json) list \<Rightarrow> (string \<times> json) list \<Rightarrow> bool" where
  "py_eq (JList xs) y = (case y of JList ys \<Rightarrow> eq_items xs ys | _ \<Rightarrow> False)"
| "py_eq (JObj xs) y = (case y of JObj ys \<Rightarrow> length xs = length ys \<and> eq_fields xs ys | _ \<Rightarrow> False)"
| "py_eq x y = (case (num_of x, num_of y) of (Some a, Some b) \<Rightarrow> a = b | _ \<Rightarrow> x = y)"
| "eq_items [] ys = (ys = [])"
| "eq_items (x # xs) ys = (case ys of [] \<Rightarrow> False | y # ys' \<Rightarrow> py_eq x y \<and> eq_items xs ys')"
| "eq_fields [] ys = True"
| "eq_fields ((k, x) # xs) ys = ((case map_of ys k of Some y \<Rightarrow> py_eq x y | None \<Rightarrow> False) \<and> eq_fields xs ys)"

fun py_less :: "json \<Rightarrow> json \<Rightarrow> bool option"
  and less_items :: "json list \<Rightarrow> json list \<Rightarrow> bool option" where
  "py_less (JList xs) y = (case y of JList ys \<Rightarrow> less_items xs ys | _ \<Rightarrow> None)"
| "py_less (JStr a) y = (case y of JStr b \<Rightarrow> Some (a < b) | _ \<Rightarrow> None)"
| "py_less x y = (case (num_of x, num_of y) of (Some a, Some b) \<Rightarrow> Some (a < b) | _ \<Rightarrow> None)"
| "less_items [] ys = Some (ys \<noteq> [])"
| "less_items (x # xs) ys = (case ys of [] \<Rightarrow> Some False
     | y # ys' \<Rightarrow> if py_eq x y then less_items xs ys' else py_less x y)"

text \<open>\<open>s.splitlines()\<close>\<close>

fun split_lines :: "string \<Rightarrow> string \<Rightarrow> string list" where
  "split_lines acc [] = (if acc = [] then [] else [rev acc])"
| "split_lines acc (c # cs) =
     (if c = CHR 0x0D \<and> take 1 cs = [CHR 0x0A] then rev acc # split_lines [] (drop 1 cs)
      else if c \<in> set line_breaks then rev acc # split_lines [] cs
      else split_lines (c # acc) cs)"

section \<open>Rendering a message\<close>

definition TURN_EVENT :: string where "TURN_EVENT = ''agent_turn''"
definition TELEMETRY_EVENT :: string where "TELEMETRY_EVENT = ''agent_telemetry''"
definition TRANSCRIPT_FIELD_CAP :: nat where "TRANSCRIPT_FIELD_CAP = 20000"

definition LOG_META :: "string list" where
  "LOG_META = [''event'', ''level'', ''timestamp'', ''logger'', ''logger_name'']"

definition ENTRY_FIELDS :: "string list" where
  "ENTRY_FIELDS = [''index'', ''type'', ''content'', ''tool_calls'', ''tool_name'', ''usage'', ''model'']"

definition cap_field :: "log_codec \<Rightarrow> nat \<Rightarrow> json \<Rightarrow> json" where
  "cap_field cd limit v =
     (let t = (case v of JStr s \<Rightarrow> s | _ \<Rightarrow> lg_dumps cd v)
      in if length t \<le> limit then v
         else JStr (take limit t @ ch_ellipsis @ ''[truncated '' @ nat_str (length t - limit) @ '' chars]''))"

text \<open>The attributes of a loop message; an absent one is \<open>None\<close>, here \<^const>\<open>JNull\<close>.\<close>

record loop_message =
  lm_type :: string
  lm_content :: json
  lm_tool_calls :: "json list"
  lm_name :: json
  lm_usage :: json
  lm_response :: json

definition render_call :: "log_codec \<Rightarrow> json \<Rightarrow> exc + json" where
  "render_call cd tc = bindS (json_get_or JNull tc ''name'') (\<lambda>n. bindS (json_get_or JNull tc ''args'') (\<lambda>a.
     Inr (JObj [(''name'', n), (''args'', cap_field cd TRANSCRIPT_FIELD_CAP a)])))"

definition tokens_of :: "json \<Rightarrow> string \<Rightarrow> exc + int" where
  "tokens_of usage k = bindS (json_get_or (JInt 0) usage k) py_int"

definition render_usage :: "loop_message \<Rightarrow> exc + json_dict" where
  "render_usage m =
     (if lm_type m \<noteq> ''AIMessage'' \<or> \<not> json_truthy (lm_usage m) then Inr []
      else bindS (tokens_of (lm_usage m) ''input_tokens'') (\<lambda>i.
           bindS (tokens_of (lm_usage m) ''output_tokens'') (\<lambda>out_n.
           Inr [(''usage'', JObj [(''input_tokens'', JInt i), (''output_tokens'', JInt out_n)])])))"

definition render_model :: "loop_message \<Rightarrow> exc + json_dict" where
  "render_model m =
     (if lm_type m \<noteq> ''AIMessage'' then Inr []
      else let meta = or_else (lm_response m) (JObj []) in
           bindS (json_get_or JNull meta ''model_name'') (\<lambda>n.
           bindS (if \<not> json_truthy n then json_get_or JNull meta ''model'' else Inr n) (\<lambda>model.
           Inr (if json_truthy model then [(''model'', model)] else []))))"

definition message_entry :: "log_codec \<Rightarrow> int \<Rightarrow> loop_message \<Rightarrow> exc + json_dict" where
  "message_entry cd index m =
     bindS (mapE (render_call cd) (lm_tool_calls m)) (\<lambda>calls.
     bindS (render_usage m) (\<lambda>usage.
     bindS (render_model m) (\<lambda>model.
     Inr ([(''index'', JInt index), (''type'', JStr (lm_type m)),
           (''content'', cap_field cd TRANSCRIPT_FIELD_CAP (lm_content m))] @
       (if calls \<noteq> [] then [(''tool_calls'', JList calls)] else []) @
       (if lm_type m = ''ToolMessage'' \<and> lm_name m \<noteq> JNull then [(''tool_name'', lm_name m)] else []) @
       usage @ model))))"

definition render_message :: "log_codec \<Rightarrow> int \<Rightarrow> loop_message \<Rightarrow> exc + json" where
  "render_message cd index m = bindS (message_entry cd index m) (\<lambda>e. lg_loads cd (lg_dumps cd (JObj e)))"

section \<open>Reading the log\<close>

text \<open>The object a line of the log holds, if it holds one. A line that is not JSON is skipped; anything
  but a \<open>ValueError\<close> (too deep a nesting) is not caught.\<close>

definition event_line :: "log_codec \<Rightarrow> string \<Rightarrow> exc + json_dict option" where
  "event_line cd line =
     (let l = strip line
      in if l = [] \<or> hd l \<noteq> CHR ''{'' then Inr None
         else case lg_loads cd l of
           Inr (JObj kvs) \<Rightarrow> Inr (Some kvs)
         | Inr _ \<Rightarrow> Inr None
         | Inl (ValueError _) \<Rightarrow> Inr None
         | Inl e \<Rightarrow> Inl e)"

definition entry_of :: "json_dict \<Rightarrow> json_dict" where
  "entry_of kvs = concat (map (\<lambda>k. case map_of kvs k of Some v \<Rightarrow> [(k, v)] | None \<Rightarrow> []) ENTRY_FIELDS)"

definition take_event :: "json_dict option \<Rightarrow> json_dict list \<times> json_dict option \<Rightarrow> json_dict list \<times> json_dict option" where
  "take_event ev = (\<lambda>(turns, telemetry). case ev of
      None \<Rightarrow> (turns, telemetry)
    | Some kvs \<Rightarrow>
        if map_of kvs ''event'' = Some (JStr TURN_EVENT)
        then if map_of (entry_of kvs) ''index'' \<noteq> None then (turns @ [entry_of kvs], telemetry) else (turns, telemetry)
        else if map_of kvs ''event'' = Some (JStr TELEMETRY_EVENT)
        then (turns, Some (filter (\<lambda>(k, _). k \<notin> set LOG_META) kvs))
        else (turns, telemetry))"

text \<open>The stable sort by index. Two turns whose indices \<open><\<close> refuses to compare make it raise.\<close>

definition turn_index :: "json_dict \<Rightarrow> json" where
  "turn_index entry = (case map_of entry ''index'' of Some v \<Rightarrow> v | None \<Rightarrow> JInt 0)"

fun insert_turn :: "json_dict \<Rightarrow> json_dict list \<Rightarrow> json_dict list" where
  "insert_turn e [] = [e]"
| "insert_turn e (f # fs) =
     (if py_less (turn_index f) (turn_index e) = Some True then f # insert_turn e fs else e # f # fs)"

fun all_comparable :: "json list \<Rightarrow> bool" where
  "all_comparable [] = True"
| "all_comparable (x # xs) = ((\<forall>y \<in> set xs. py_less x y \<noteq> None \<and> py_less y x \<noteq> None) \<and> all_comparable xs)"

definition sort_turns :: "json_dict list \<Rightarrow> exc + json_dict list" where
  "sort_turns ts = (if all_comparable (map turn_index ts) then Inr (foldr insert_turn ts [])
     else Inl (TypeError ''not supported between instances''))"

definition parse_log_events :: "log_codec \<Rightarrow> string \<Rightarrow> exc + json_dict list \<times> json_dict option" where
  "parse_log_events cd stderr =
     bindS (mapE (event_line cd) (split_lines [] stderr)) (\<lambda>events.
     let (turns, telemetry) = fold take_event events ([], None)
     in bindS (sort_turns turns) (\<lambda>ts. Inr (ts, telemetry)))"

section \<open>The aggregate rebuilt from the turns\<close>

record turn_totals =
  tt_input :: int
  tt_output :: int
  tt_steps :: int
  tt_calls :: int
  tt_model :: json

definition entry_get :: "json_dict \<Rightarrow> string \<Rightarrow> json" where
  "entry_get e k = (case map_of e k of Some v \<Rightarrow> v | None \<Rightarrow> JNull)"

definition add_turn :: "json_dict \<Rightarrow> turn_totals \<Rightarrow> exc + turn_totals" where
  "add_turn e t =
     (if \<not> py_eq (entry_get e ''type'') (JStr ''AIMessage'') then Inr t
      else bindS (py_len (or_else (entry_get e ''tool_calls'') (JList []))) (\<lambda>n.
           let usage = or_else (entry_get e ''usage'') (JObj []) in
           bindS (tokens_of usage ''input_tokens'') (\<lambda>i.
           bindS (tokens_of usage ''output_tokens'') (\<lambda>out_n.
           Inr \<lparr>tt_input = tt_input t + i, tt_output = tt_output t + out_n, tt_steps = tt_steps t + 1,
             tt_calls = tt_calls t + n, tt_model = or_else (entry_get e ''model'') (tt_model t)\<rparr>))))"

fun add_turns :: "json_dict list \<Rightarrow> turn_totals \<Rightarrow> exc + turn_totals" where
  "add_turns [] t = Inr t"
| "add_turns (e # es) t = bindS (add_turn e t) (add_turns es)"

definition totals_record :: "turn_totals \<Rightarrow> json_dict" where
  "totals_record t = [(''input_tokens'', JInt (tt_input t)), (''output_tokens'', JInt (tt_output t)),
     (''total_tokens'', JInt (tt_input t + tt_output t)), (''model_steps'', JInt (tt_steps t)),
     (''tool_calls'', JInt (tt_calls t)), (''model'', tt_model t), (''source'', JStr ''reconstructed_from_turns'')]"

definition no_totals :: turn_totals where
  "no_totals = \<lparr>tt_input = 0, tt_output = 0, tt_steps = 0, tt_calls = 0, tt_model = JNull\<rparr>"

definition telemetry_from_turns :: "json_dict list \<Rightarrow> exc + json_dict option" where
  "telemetry_from_turns turns =
     (if turns = [] then Inr None else bindS (add_turns turns no_totals) (\<lambda>t. Inr (Some (totals_record t))))"

definition record_bytes :: "log_codec \<Rightarrow> json_dict \<Rightarrow> bytes" where
  "record_bytes cd rec = utf8 (lg_dumps cd (JObj rec))"

definition transcript_bytes :: "log_codec \<Rightarrow> json_dict list \<Rightarrow> bytes option" where
  "transcript_bytes cd turns = (if turns \<noteq> [] then Some (utf8 (lg_dumps cd (JList (map JObj turns)))) else None)"

definition reconstruct_from_logs :: "log_codec \<Rightarrow> string \<Rightarrow> exc + bytes option \<times> bytes option" where
  "reconstruct_from_logs cd stderr = bindS (parse_log_events cd stderr) (\<lambda>(turns, telemetry).
     Inr (transcript_bytes cd turns, map_option (record_bytes cd) telemetry))"

section \<open>A worker's log\<close>

text \<open>The lines of a worker's log: a turn with its index and the keys the logging framework adds, the
  telemetry, and any other line.\<close>

datatype log_line = Turn int loop_message json_dict | Telemetry json_dict json_dict | Other string

definition entry_at :: "log_codec \<Rightarrow> int \<Rightarrow> loop_message \<Rightarrow> json_dict" where
  "entry_at cd i m = (case render_message cd i m of Inr (JObj e) \<Rightarrow> e | _ \<Rightarrow> [])"

definition event_object :: "json_dict \<Rightarrow> string \<Rightarrow> json_dict \<Rightarrow> json" where
  "event_object kvs ev meta = JObj (kvs @ (''event'', JStr ev) # meta)"

fun line_text :: "log_codec \<Rightarrow> log_line \<Rightarrow> string" where
  "line_text cd (Turn i m meta) = lg_dumps cd (event_object (entry_at cd i m) TURN_EVENT meta)"
| "line_text cd (Telemetry rec meta) = lg_dumps cd (event_object rec TELEMETRY_EVENT meta)"
| "line_text cd (Other s) = s"

definition log_text :: "log_codec \<Rightarrow> log_line list \<Rightarrow> string" where
  "log_text cd ls = concat (map (\<lambda>l. line_text cd l @ nl) ls)"

definition one_line :: "string \<Rightarrow> bool" where
  "one_line s \<longleftrightarrow> (\<forall>c \<in> set s. c \<notin> set line_breaks)"

text \<open>What \<open>json.dumps\<close> and \<open>json.loads\<close> are asked for, on the objects of the log only.\<close>

definition legible :: "log_codec \<Rightarrow> json \<Rightarrow> bool" where
  "legible cd j \<longleftrightarrow> lg_loads cd (lg_dumps cd j) = Inr j \<and> one_line (lg_dumps cd j) \<and>
     prefix ''{'' (lg_dumps cd j) \<and> suffix ''}'' (lg_dumps cd j)"

definition framework_keys :: "json_dict \<Rightarrow> bool" where
  "framework_keys meta \<longleftrightarrow> fst ` set meta \<subseteq> {''level'', ''timestamp'', ''logger'', ''logger_name''}"

definition idle :: "json_dict option \<Rightarrow> bool" where
  "idle ev \<longleftrightarrow> (\<forall>kvs. ev = Some kvs \<longrightarrow> map_of kvs ''event'' \<noteq> Some (JStr TURN_EVENT) \<and> map_of kvs ''event'' \<noteq> Some (JStr TELEMETRY_EVENT))"

fun well_logged :: "log_codec \<Rightarrow> log_line \<Rightarrow> bool" where
  "well_logged cd (Turn i m meta) \<longleftrightarrow> framework_keys meta \<and> legible cd (event_object (entry_at cd i m) TURN_EVENT meta) \<and>
     (\<exists>e. message_entry cd i m = Inr e \<and> lg_loads cd (lg_dumps cd (JObj e)) = Inr (JObj e))"
| "well_logged cd (Telemetry rec meta) \<longleftrightarrow> framework_keys meta \<and> legible cd (event_object rec TELEMETRY_EVENT meta) \<and>
     (\<forall>k \<in> fst ` set rec. k \<notin> set LOG_META)"
| "well_logged cd (Other s) \<longleftrightarrow> one_line s \<and> (\<exists>ev. event_line cd s = Inr ev \<and> idle ev)"

fun logged_turns :: "log_line list \<Rightarrow> (int \<times> loop_message) list" where
  "logged_turns [] = []"
| "logged_turns (Turn i m meta # ls) = (i, m) # logged_turns ls"
| "logged_turns (_ # ls) = logged_turns ls"

fun last_telemetry :: "json_dict option \<Rightarrow> log_line list \<Rightarrow> json_dict option" where
  "last_telemetry t [] = t"
| "last_telemetry t (Telemetry rec meta # ls) = last_telemetry (Some rec) ls"
| "last_telemetry t (_ # ls) = last_telemetry t ls"

lemma split_lines_word: "one_line s \<Longrightarrow> split_lines acc (s @ nl @ rest) = (rev acc @ s) # split_lines [] rest"
proof (induction s arbitrary: acc)
  case Nil
  then show ?case by (simp add: nl_def line_breaks_def)
next
  case (Cons c s)
  then have c: "c \<notin> set line_breaks" and s: "one_line s" by (simp_all add: one_line_def)
  then have "c \<noteq> CHR 0x0D" by (auto simp: line_breaks_def)
  with c Cons.IH [OF s] show ?case by simp
qed

lemma split_lines_log: "(\<forall>l \<in> set ls. one_line l) \<Longrightarrow> split_lines [] (concat (map (\<lambda>l. l @ nl) ls)) = ls"
  by (induction ls) (simp_all add: split_lines_word)

lemma strip_braces:
  assumes "prefix ''{'' s" "suffix ''}'' s"
  shows "strip s = s" "s \<noteq> []" "hd s = CHR ''{''"
proof -
  obtain t where t: "s = CHR ''{'' # t" using assms(1) by (auto simp: prefix_def)
  obtain u where u: "s = u @ ''}''" using assms(2) by (auto simp: suffix_def)
  have "\<not> is_space (CHR ''{'')" "\<not> is_space (CHR ''}'')" by (simp_all add: is_space_def Let_def)
  then have "dropWhile is_space s = s" "dropWhile is_space (rev s) = rev s"
    by (simp add: t) (simp add: u \<open>\<not> is_space (CHR ''}'')\<close>)
  then show "strip s = s" by (simp add: strip_def)
  show "s \<noteq> []" "hd s = CHR ''{''" using t by simp_all
qed

lemma event_line_legible: "legible cd (JObj kvs) \<Longrightarrow> event_line cd (lg_dumps cd (JObj kvs)) = Inr (Some kvs)"
  by (simp add: event_line_def legible_def strip_braces Let_def)

lemma render_usage_shape: "render_usage m = Inr u \<Longrightarrow> u = [] \<or> (\<exists>v. u = [(''usage'', v)])"
  by (auto simp: render_usage_def bindS_eq_Inr split: if_splits)

lemma render_model_shape: "render_model m = Inr u \<Longrightarrow> u = [] \<or> (\<exists>v. u = [(''model'', v)])"
  by (auto simp: render_model_def Let_def bindS_eq_Inr split: if_splits)

lemma entry_of_message:
  assumes "message_entry cd i m = Inr e" "framework_keys meta"
  shows "entry_of (e @ (''event'', JStr ev) # meta) = e" "map_of e ''index'' = Some (JInt i)" "map_of e ''event'' = None"
proof -
  have meta: "map_of meta k = None" if "k \<in> set ENTRY_FIELDS" for k
    using assms(2) that by (auto simp: framework_keys_def ENTRY_FIELDS_def map_of_eq_None_iff)
  obtain calls usage model where p: "render_usage m = Inr usage" "render_model m = Inr model"
    and e: "e = [(''index'', JInt i), (''type'', JStr (lm_type m)),
           (''content'', cap_field cd TRANSCRIPT_FIELD_CAP (lm_content m))] @
       (if calls \<noteq> [] then [(''tool_calls'', JList calls)] else []) @
       (if lm_type m = ''ToolMessage'' \<and> lm_name m \<noteq> JNull then [(''tool_name'', lm_name m)] else []) @ usage @ model"
    using assms(1) by (auto simp: message_entry_def bindS_eq_Inr)
  have ks: "map_of meta ''index'' = None \<and> map_of meta ''type'' = None \<and> map_of meta ''content'' = None \<and>
      map_of meta ''tool_calls'' = None \<and> map_of meta ''tool_name'' = None \<and> map_of meta ''usage'' = None \<and>
      map_of meta ''model'' = None"
    using meta by (simp add: ENTRY_FIELDS_def)
  define c where "c = (if calls \<noteq> [] then [(''tool_calls'', JList calls)] else [])"
  define t where "t = (if lm_type m = ''ToolMessage'' \<and> lm_name m \<noteq> JNull then [(''tool_name'', lm_name m)] else [])"
  have parts_of: "c = [] \<or> (\<exists>v. c = [(''tool_calls'', v)])" "t = [] \<or> (\<exists>v. t = [(''tool_name'', v)])"
    by (auto simp: c_def t_def)
  note e' = e [folded c_def t_def]
  note cases = parts_of render_usage_shape [OF p(1)] render_model_shape [OF p(2)]
  show "map_of e ''index'' = Some (JInt i)" by (simp add: e')
  show "map_of e ''event'' = None" using cases unfolding e' by (elim disjE exE) simp_all
  show "entry_of (e @ (''event'', JStr ev) # meta) = e"
    using cases unfolding e' by (elim disjE exE) (simp_all add: entry_of_def ENTRY_FIELDS_def ks)
qed


lemma entry_at_eq:
  assumes "well_logged cd (Turn i m meta)"
  shows "message_entry cd i m = Inr (entry_at cd i m)" "framework_keys meta"
  using assms by (auto simp: entry_at_def render_message_def)

text \<open>Every line of the lns is one event.\<close>

fun event_of :: "log_codec \<Rightarrow> log_line \<Rightarrow> json_dict option" where
  "event_of cd (Turn i m meta) = Some (entry_at cd i m @ (''event'', JStr TURN_EVENT) # meta)"
| "event_of cd (Telemetry rec meta) = Some (rec @ (''event'', JStr TELEMETRY_EVENT) # meta)"
| "event_of cd (Other s) = (case event_line cd s of Inr ev \<Rightarrow> ev | Inl _ \<Rightarrow> None)"

definition reads_as_event :: "log_codec \<Rightarrow> log_line \<Rightarrow> bool" where
  "reads_as_event cd l \<longleftrightarrow> one_line (line_text cd l) \<and> event_line cd (line_text cd l) = Inr (event_of cd l)"

lemma line_event: "well_logged cd l \<Longrightarrow> reads_as_event cd l"
  unfolding reads_as_event_def by (cases l; fastforce simp: event_object_def legible_def event_line_legible)

lemma line_events:
  assumes "\<forall>l \<in> set lns. reads_as_event cd l"
  shows "mapE (event_line cd) (split_lines [] (log_text cd lns)) = Inr (map (event_of cd) lns)"
proof -
  have one: "one_line (line_text cd l)" "event_line cd (line_text cd l) = Inr (event_of cd l)" if "l \<in> set lns" for l
    using assms that by (simp_all add: reads_as_event_def)
  have "log_text cd lns = concat (map (\<lambda>l. l @ nl) (map (line_text cd) lns))" by (simp add: log_text_def comp_def)
  moreover have "\<forall>l \<in> set (map (line_text cd) lns). one_line l" using one(1) by simp
  ultimately have "split_lines [] (log_text cd lns) = map (line_text cd) lns" by (simp only: split_lines_log)
  moreover have "mapE (event_line cd) (map (line_text cd) ls) = Inr (map (event_of cd) ls)" if "set ls \<subseteq> set lns" for ls
    using that one(2) by (induction ls) simp_all
  ultimately show ?thesis by simp
qed

lemma logged_entries:
  assumes "(i, m) \<in> set (logged_turns lns)" "\<forall>l \<in> set lns. well_logged cd l"
  shows "message_entry cd i m = Inr (entry_at cd i m) \<and> turn_index (entry_at cd i m) = JInt i"
  using assms
proof (induction lns rule: logged_turns.induct)
  case (2 j m' meta ls)
  show ?case
  proof (cases "(i, m) \<in> set (logged_turns ls)")
    case False
    then have "well_logged cd (Turn i m meta)" using 2(2,3) by auto
    note wl = entry_at_eq [OF this]
    from wl entry_of_message(2) [OF wl] show ?thesis by (simp add: turn_index_def)
  qed (use 2 in auto)
qed auto

lemma take_events:
  assumes "\<forall>l \<in> set lns. well_logged cd l"
  shows "fold take_event (map (event_of cd) lns) (turns, telemetry) =
    (turns @ map (\<lambda>(i, m). entry_at cd i m) (logged_turns lns), last_telemetry telemetry lns)"
  using assms
proof (induction lns arbitrary: turns telemetry)
  case (Cons l ls)
  have IH: "fold take_event (map (event_of cd) ls) (turns, telemetry) =
      (turns @ map (\<lambda>(i, m). entry_at cd i m) (logged_turns ls), last_telemetry telemetry ls)" for turns telemetry
    using Cons by simp
  show ?case
  proof (cases l)
    case (Turn i m meta)
    then have wl: "well_logged cd (Turn i m meta)" using Cons.prems by simp
    note e = entry_of_message [OF entry_at_eq [OF wl]]
    have "take_event (event_of cd l) (turns, telemetry) = (turns @ [entry_at cd i m], telemetry)"
      by (simp add: take_event_def Turn e map_add_def)
    then show ?thesis by (simp add: Turn IH)
  next
    case (Telemetry rec meta)
    then have k: "framework_keys meta" "\<forall>k \<in> fst ` set rec. k \<notin> set LOG_META" using Cons.prems by simp_all
    have "map_of rec ''event'' = None" using k(2) by (force simp: map_of_eq_None_iff LOG_META_def)
    moreover have "filter (\<lambda>(k, _). k \<notin> set LOG_META) (rec @ (''event'', JStr TELEMETRY_EVENT) # meta) = rec"
    proof -
      have "filter (\<lambda>(k, _). k \<notin> set LOG_META) rec = rec" using k(2) by (auto simp: filter_id_conv)
      moreover have "filter (\<lambda>(k, _). k \<notin> set LOG_META) meta = []"
        using k(1) by (fastforce simp: framework_keys_def filter_empty_conv LOG_META_def)
      moreover have "''event'' \<in> set LOG_META" by (simp add: LOG_META_def)
      ultimately show ?thesis by (simp only: filter_append filter.simps split if_False not_not simp_thms append_Nil2)
    qed
    ultimately have "take_event (event_of cd l) (turns, telemetry) = (turns, Some rec)"
      by (simp add: take_event_def Telemetry map_add_def TURN_EVENT_def TELEMETRY_EVENT_def)
    then show ?thesis by (simp add: Telemetry IH)
  next
    case (Other s)
    then obtain ev where ev: "event_line cd s = Inr ev" "idle ev" using Cons.prems by auto
    then have "take_event (event_of cd l) (turns, telemetry) = (turns, telemetry)"
      by (auto simp: take_event_def Other idle_def split: option.split)
    then show ?thesis by (simp add: Other IH)
  qed
qed simp

lemma sort_key_map: "(\<And>x. x \<in> set xs \<Longrightarrow> f (g x) = h x) \<Longrightarrow> sort_key f (map g xs) = map g (sort_key h xs)"
proof (induction xs)
  case (Cons x xs)
  have "insort_key f (g x) (map g ys) = map g (insort_key h x ys)" if "set ys \<subseteq> set xs" for ys
    using that Cons.prems by (induction ys) (simp_all add: subset_iff)
  with Cons show ?case by simp
qed simp

lemma sort_turns_index:
  assumes "\<forall>e \<in> set ts. turn_index e = JInt (idx e)"
  shows "sort_turns ts = Inr (sort_key idx ts)"
proof -
  have less: "py_less (turn_index e) (turn_index f) = Some (idx e < idx f)" if "e \<in> set ts" "f \<in> set ts" for e f
    using assms that by (simp add: num_of_def)
  have "all_comparable (map turn_index us)" if "set us \<subseteq> set ts" for us
    using that by (induction us) (simp_all add: less subset_iff)
  moreover have ins: "insert_turn e us = insort_key idx e us" if "set us \<subseteq> set ts" "e \<in> set ts" for e us
    using that by (induction us) (simp_all add: less subset_iff not_le)
  have "foldr insert_turn us [] = sort_key idx us" if "set us \<subseteq> set ts" for us
    using that by (induction us) (simp_all add: ins sort_key_def [symmetric] subset_iff)
  ultimately show ?thesis by (simp add: sort_turns_def)
qed


section \<open>What the host recovers\<close>

definition message_tokens :: "string \<Rightarrow> loop_message \<Rightarrow> int" where
  "message_tokens k m = (if lm_type m = ''AIMessage'' \<and> json_truthy (lm_usage m)
     then (case tokens_of (lm_usage m) k of Inr n \<Rightarrow> n | Inl _ \<Rightarrow> 0) else 0)"

definition message_calls :: "loop_message \<Rightarrow> int" where
  "message_calls m = (if lm_type m = ''AIMessage'' then int (length (lm_tool_calls m)) else 0)"

definition message_steps :: "loop_message \<Rightarrow> int" where
  "message_steps m = (if lm_type m = ''AIMessage'' then 1 else 0)"

definition totals_of :: "loop_message list \<Rightarrow> json \<Rightarrow> turn_totals" where
  "totals_of ms model = \<lparr>tt_input = sum_list (map (message_tokens ''input_tokens'') ms),
     tt_output = sum_list (map (message_tokens ''output_tokens'') ms),
     tt_steps = sum_list (map message_steps ms), tt_calls = sum_list (map message_calls ms), tt_model = model\<rparr>"

lemma mapE_length: "mapE f xs = Inr ys \<Longrightarrow> length ys = length xs"
  by (simp add: mapE_eq_Inr_iff list_all2_lengthD)

lemma py_int_JInt: "py_int (JInt i) = Inr i"
  by (simp add: py_int_def json_truthy_def)

lemma add_turn_message:
  assumes "message_entry cd i m = Inr e"
  shows "\<exists>model. add_turn e t = Inr \<lparr>tt_input = tt_input t + message_tokens ''input_tokens'' m,
    tt_output = tt_output t + message_tokens ''output_tokens'' m, tt_steps = tt_steps t + message_steps m,
    tt_calls = tt_calls t + message_calls m, tt_model = model\<rparr>"
proof -
  obtain calls usage model where p: "mapE (render_call cd) (lm_tool_calls m) = Inr calls" "render_usage m = Inr usage" "render_model m = Inr model"
    and e: "e = [(''index'', JInt i), (''type'', JStr (lm_type m)),
           (''content'', cap_field cd TRANSCRIPT_FIELD_CAP (lm_content m))] @
       (if calls \<noteq> [] then [(''tool_calls'', JList calls)] else []) @
       (if lm_type m = ''ToolMessage'' \<and> lm_name m \<noteq> JNull then [(''tool_name'', lm_name m)] else []) @ usage @ model"
    using assms by (auto simp: message_entry_def bindS_eq_Inr)
  have type: "py_eq (entry_get e ''type'') (JStr ''AIMessage'') \<longleftrightarrow> lm_type m = ''AIMessage''"
    by (simp add: e entry_get_def num_of_def)
  show ?thesis
  proof (cases "lm_type m = ''AIMessage''")
    case False
    then show ?thesis
      by (auto simp: add_turn_def type message_tokens_def message_steps_def message_calls_def intro!: exI [of _ "tt_model t"])
  next
    case True
    have md: "model = [] \<or> (\<exists>v. model = [(''model'', v)])" by (rule render_model_shape [OF p(3)])
    have calls: "py_len (or_else (entry_get e ''tool_calls'') (JList [])) = Inr (int (length (lm_tool_calls m)))"
    proof -
      have "entry_get e ''tool_calls'' = (if calls \<noteq> [] then JList calls else JNull)"
        using md render_usage_shape [OF p(2)] True by (elim disjE exE) (simp_all add: e entry_get_def)
      then show ?thesis using mapE_length [OF p(1)] by (auto simp: or_else_def json_truthy_def)
    qed
    have usage: "tokens_of (or_else (entry_get e ''usage'') (JObj [])) k = Inr (message_tokens k m)"
      if "k = ''input_tokens'' \<or> k = ''output_tokens''" for k
    proof (cases "json_truthy (lm_usage m)")
      case False
      then have "usage = []" using p(2) by (simp add: render_usage_def)
      then have "entry_get e ''usage'' = JNull" using md True by (elim disjE exE) (simp_all add: e entry_get_def)
      then show ?thesis using False by (simp add: or_else_def json_truthy_def tokens_of_def json_get_or_def py_int_JInt message_tokens_def)
    next
      case tr: True
      obtain a b where ab: "tokens_of (lm_usage m) ''input_tokens'' = Inr a" "tokens_of (lm_usage m) ''output_tokens'' = Inr b"
        "usage = [(''usage'', JObj [(''input_tokens'', JInt a), (''output_tokens'', JInt b)])]"
        using p(2) True tr by (auto simp: render_usage_def bindS_eq_Inr)
      then have "entry_get e ''usage'' = JObj [(''input_tokens'', JInt a), (''output_tokens'', JInt b)]"
        using md True by (elim disjE exE) (simp_all add: e entry_get_def)
      then show ?thesis using that ab True tr
        by (auto simp: or_else_def json_truthy_def tokens_of_def json_get_or_def py_int_JInt message_tokens_def)
    qed
    show ?thesis using True
      by (simp add: add_turn_def type calls usage Let_def message_steps_def message_calls_def)
  qed
qed

lemma add_turns_messages:
  assumes "\<forall>(i, m) \<in> set ts. message_entry cd i m = Inr (entry_at cd i m)"
  shows "\<exists>model. add_turns (map (\<lambda>(i, m). entry_at cd i m) ts) t = Inr (case totals_of (map snd ts) model of u \<Rightarrow>
    \<lparr>tt_input = tt_input t + tt_input u, tt_output = tt_output t + tt_output u, tt_steps = tt_steps t + tt_steps u,
      tt_calls = tt_calls t + tt_calls u, tt_model = model\<rparr>)"
  using assms
proof (induction ts arbitrary: t)
  case Nil
  show ?case by (rule exI [of _ "tt_model t"]) (simp add: totals_of_def)
next
  case (Cons x ts)
  obtain i m where x: "x = (i, m)" by (cases x)
  have entry: "message_entry cd i m = Inr (entry_at cd i m)" using Cons.prems x by simp
  obtain md where step: "add_turn (entry_at cd i m) t = Inr \<lparr>tt_input = tt_input t + message_tokens ''input_tokens'' m,
    tt_output = tt_output t + message_tokens ''output_tokens'' m, tt_steps = tt_steps t + message_steps m,
    tt_calls = tt_calls t + message_calls m, tt_model = md\<rparr>"
    using add_turn_message [OF entry] by blast
  have "\<forall>(i, m) \<in> set ts. message_entry cd i m = Inr (entry_at cd i m)" using Cons.prems by simp
  note IH = Cons.IH [OF this, of "\<lparr>tt_input = tt_input t + message_tokens ''input_tokens'' m,
    tt_output = tt_output t + message_tokens ''output_tokens'' m, tt_steps = tt_steps t + message_steps m,
    tt_calls = tt_calls t + message_calls m, tt_model = md\<rparr>"]
  show ?case using IH by (simp add: x step totals_of_def add.assoc)
qed

lemma logged_turns_parsed:
  assumes "\<forall>l \<in> set lns. well_logged cd l"
  shows "parse_log_events cd (log_text cd lns) =
    Inr (map (\<lambda>(i, m). entry_at cd i m) (sort_key fst (logged_turns lns)), last_telemetry None lns)"
proof -
  note entries = logged_entries [OF _ assms]
  let ?es = "map (\<lambda>(i, m). entry_at cd i m)"
  define idx where "idx e = (case turn_index e of JInt i \<Rightarrow> i | _ \<Rightarrow> 0)" for e
  have "\<forall>e \<in> set (?es (logged_turns lns)). turn_index e = JInt (idx e)" using entries by (auto simp: idx_def)
  note sorted = sort_turns_index [OF this]
  have "sort_key idx (?es (logged_turns lns)) = ?es (sort_key fst (logged_turns lns))"
    by (rule sort_key_map) (use entries in \<open>auto simp: idx_def\<close>)
  with sorted show ?thesis
    using assms by (simp add: parse_log_events_def line_events line_event take_events)
qed

lemma logged_turns_counted:
  assumes "\<forall>l \<in> set lns. well_logged cd l"
  shows "\<exists>model. telemetry_from_turns (map (\<lambda>(i, m). entry_at cd i m) (sort_key fst (logged_turns lns))) =
    Inr (if logged_turns lns = [] then None else Some (totals_record (totals_of (map snd (logged_turns lns)) model)))"
proof -
  let ?turns = "sort_key fst (logged_turns lns)"
  have "\<forall>(i, m) \<in> set ?turns. message_entry cd i m = Inr (entry_at cd i m)" using logged_entries [OF _ assms] by auto
  note add_turns_messages [OF this, of no_totals]
  moreover have "sum_list (map f (map snd ?turns)) = sum_list (map f (map snd (logged_turns lns)))" for f :: "loop_message \<Rightarrow> int"
  proof -
    have "mset (map f (map snd ?turns)) = mset (map f (map snd (logged_turns lns)))" by simp
    then show ?thesis by (metis sum_mset_sum_list)
  qed
  then have "totals_of (map snd ?turns) model = totals_of (map snd (logged_turns lns)) model" for model
    by (simp only: totals_of_def)
  ultimately show ?thesis by (auto simp: telemetry_from_turns_def no_totals_def totals_of_def)
qed

text \<open>C29. The record of an agent's run survives its worker: from a log in which each line is a rendered turn,
  the telemetry or anything else that is no such event, whatever their order, the host reads exactly
  the rendered turns by index and the last telemetry. The aggregate it rebuilds from them when there is no
  telemetry counts the tokens, steps and tool calls of the messages themselves.\<close>

theorem logged_turns_are_recovered:
  assumes "\<forall>l \<in> set lns. well_logged cd l"
  defines "turns \<equiv> sort_key fst (logged_turns lns)"
  shows "parse_log_events cd (log_text cd lns) = Inr (map (\<lambda>(i, m). entry_at cd i m) turns, last_telemetry None lns) \<and>
    (\<exists>model. telemetry_from_turns (map (\<lambda>(i, m). entry_at cd i m) turns) =
       Inr (if logged_turns lns = [] then None else Some (totals_record (totals_of (map snd (logged_turns lns)) model))))"
  unfolding turns_def using logged_turns_parsed [OF assms(1)] logged_turns_counted [OF assms(1)] by blast

text \<open>A codec that knows the objects of a table, and a run of two messages logged in reverse.\<close>

definition table_codec :: "json list \<Rightarrow> log_codec" where
  "table_codec js = \<lparr>lg_dumps = (\<lambda>j. ''{'' @ replicate (length (takeWhile (\<lambda>k. k \<noteq> j) js)) (CHR ''x'') @ ''}''),
     lg_loads = (\<lambda>s. if length s - 2 < length js then Inr (js ! (length s - 2)) else Inl (ValueError ''no JSON''))\<rparr>"

definition demo_answer :: loop_message where
  "demo_answer = \<lparr>lm_type = ''AIMessage'', lm_content = JStr ''hi'',
     lm_tool_calls = [JObj [(''name'', JStr ''sh''), (''args'', JStr ''ls'')]], lm_name = JNull,
     lm_usage = JObj [(''input_tokens'', JInt 7)], lm_response = JNull\<rparr>"

definition demo_reply :: loop_message where
  "demo_reply = \<lparr>lm_type = ''ToolMessage'', lm_content = JStr ''ok'', lm_tool_calls = [], lm_name = JStr ''sh'',
     lm_usage = JNull, lm_response = JNull\<rparr>"

definition answer_entry :: json_dict where
  "answer_entry = [(''index'', JInt 0), (''type'', JStr ''AIMessage''), (''content'', JStr ''hi''),
     (''tool_calls'', JList [JObj [(''name'', JStr ''sh''), (''args'', JStr ''ls'')]]),
     (''usage'', JObj [(''input_tokens'', JInt 7), (''output_tokens'', JInt 0)])]"

definition reply_entry :: json_dict where
  "reply_entry = [(''index'', JInt 1), (''type'', JStr ''ToolMessage''), (''content'', JStr ''ok''), (''tool_name'', JStr ''sh'')]"

definition forged_turn :: json_dict where
  "forged_turn = [(''event'', JStr TURN_EVENT), (''index'', JStr ''x'')]"

definition demo_log_codec :: log_codec where
  "demo_log_codec = table_codec [JObj answer_entry, JObj reply_entry, event_object answer_entry TURN_EVENT [],
     event_object reply_entry TURN_EVENT [], JObj forged_turn]"

definition demo_log :: "log_line list" where
  "demo_log = [Other ''Traceback'', Turn 1 demo_reply [], Turn 0 demo_answer []]"

lemma one_line_iff: "one_line s \<longleftrightarrow> filter (\<lambda>c. c \<in> set line_breaks) s = []"
  by (auto simp: one_line_def filter_empty_conv)

lemma demo_entries: "message_entry demo_log_codec 0 demo_answer = Inr answer_entry" "message_entry demo_log_codec 1 demo_reply = Inr reply_entry"
  by (simp_all add: message_entry_def demo_answer_def demo_reply_def answer_entry_def reply_entry_def render_call_def
      json_get_or_def cap_field_def TRANSCRIPT_FIELD_CAP_def render_usage_def render_model_def tokens_of_def
      or_else_def json_truthy_def py_int_def)

lemma demo_reads: "lg_loads demo_log_codec (lg_dumps demo_log_codec (JObj answer_entry)) = Inr (JObj answer_entry)"
  "lg_loads demo_log_codec (lg_dumps demo_log_codec (JObj reply_entry)) = Inr (JObj reply_entry)"
  by code_simp+

lemma demo_entry_at: "entry_at demo_log_codec 0 demo_answer = answer_entry" "entry_at demo_log_codec 1 demo_reply = reply_entry"
  by (simp_all add: entry_at_def render_message_def demo_entries demo_reads)

lemma demo_legible: "legible demo_log_codec (event_object answer_entry TURN_EVENT [])" "legible demo_log_codec (event_object reply_entry TURN_EVENT [])"
  unfolding legible_def one_line_iff by code_simp+

lemma demo_well_logged: "\<forall>l \<in> set demo_log. well_logged demo_log_codec l"
proof -
  have "one_line ''Traceback''" unfolding one_line_iff by code_simp
  moreover have "event_line demo_log_codec ''Traceback'' = Inr None" by code_simp
  ultimately show ?thesis
    by (auto simp: demo_log_def demo_entry_at demo_legible demo_entries demo_reads framework_keys_def idle_def)
qed

theorem logged_turns_are_recovered_witness:
  "parse_log_events demo_log_codec (log_text demo_log_codec demo_log) = Inr ([answer_entry, reply_entry], None) \<and>
   (\<exists>model. telemetry_from_turns [answer_entry, reply_entry] = Inr (Some (totals_record (totals_of [demo_reply, demo_answer] model)))) \<and>
   tt_input (totals_of [demo_reply, demo_answer] JNull) = 7"
proof -
  have turns: "logged_turns demo_log = [(1, demo_reply), (0, demo_answer)]" "last_telemetry None demo_log = None"
    by (simp_all add: demo_log_def)
  have "tt_input (totals_of [demo_reply, demo_answer] JNull) = 7" by code_simp
  then show ?thesis
    using logged_turns_are_recovered [OF demo_well_logged] by (simp add: turns demo_entry_at)
qed


section \<open>A line the agent wrote\<close>

text \<open>The agent can write to the worker's standard error too. One line of it that passes for a turn and has
  a text for its index is enough for the sort to raise.\<close>

definition injected :: "log_codec \<Rightarrow> string \<Rightarrow> bool" where
  "injected cd s \<longleftrightarrow> one_line s \<and>
     (\<exists>kvs t. event_line cd s = Inr (Some kvs) \<and> map_of kvs ''event'' = Some (JStr TURN_EVENT) \<and> map_of kvs ''index'' = Some (JStr t))"

lemma all_comparable_middle: "all_comparable (xs @ y # zs) \<Longrightarrow> x \<in> set xs \<union> set zs \<Longrightarrow> py_less x y \<noteq> None"
  by (induction xs) auto

lemma injected_line_raises:
  assumes "\<forall>l \<in> set (before @ after). well_logged cd l" "logged_turns (before @ after) \<noteq> []" "injected cd s"
  shows "parse_log_events cd (log_text cd (before @ Other s # after)) = Inl (TypeError ''not supported between instances'')"
proof -
  obtain kvs t where kvs: "one_line s" "event_line cd s = Inr (Some kvs)" "map_of kvs ''event'' = Some (JStr TURN_EVENT)"
    "map_of kvs ''index'' = Some (JStr t)"
    using assms(3) by (auto simp: injected_def)
  then have "reads_as_event cd (Other s)" by (simp add: reads_as_event_def)
  then have events: "mapE (event_line cd) (split_lines [] (log_text cd (before @ Other s # after))) =
      Inr (map (event_of cd) before @ Some kvs # map (event_of cd) after)"
    using assms(1) kvs(2) by (subst line_events) (auto intro: line_event)
  have idx: "map_of (entry_of kvs) ''index'' = Some (JStr t)" by (simp add: entry_of_def ENTRY_FIELDS_def kvs(4))
  let ?es = "\<lambda>ls. map (\<lambda>(i, m). entry_at cd i m) (logged_turns ls)"
  have turns: "fst (fold take_event (map (event_of cd) before @ Some kvs # map (event_of cd) after) ([], None)) =
      ?es before @ entry_of kvs # ?es after"
    using assms(1) by (simp add: take_events take_event_def kvs(3) idx)
  have "logged_turns (before @ after) = logged_turns before @ logged_turns after"
    by (induction before rule: logged_turns.induct) simp_all
  then obtain i m where im: "(i, m) \<in> set (logged_turns before) \<union> set (logged_turns after)"
    using assms(2) by (metis last_in_set prod.collapse set_append)
  then have "turn_index (entry_at cd i m) = JInt i"
    using assms(1) logged_entries [of i m before cd] logged_entries [of i m after cd] by auto
  then have "JInt i \<in> turn_index ` set (?es before) \<union> turn_index ` set (?es after)"
    using im by (force simp: image_iff)
  moreover have "py_less (JInt i) (turn_index (entry_of kvs)) = None" by (simp add: turn_index_def idx num_of_def)
  moreover have "\<not> all_comparable (xs @ y # zs)" if "JInt i \<in> set xs \<union> set zs" "py_less (JInt i) y = None" for xs y zs
    using all_comparable_middle that by blast
  ultimately have "\<not> all_comparable (map turn_index (?es before @ entry_of kvs # ?es after))"
    by (simp only: map_append list.map set_map simp_thms)
  then have "sort_turns (?es before @ entry_of kvs # ?es after) = Inl (TypeError ''not supported between instances'')"
    unfolding sort_turns_def by (simp only: if_False simp_thms)
  moreover obtain telemetry where "fold take_event (map (event_of cd) before @ Some kvs # map (event_of cd) after) ([], None) =
      (?es before @ entry_of kvs # ?es after, telemetry)"
    using turns by (metis prod.collapse)
  ultimately show ?thesis by (simp only: parse_log_events_def events bindS_simps Let_def prod.case)
qed


lemma demo_injected: "injected demo_log_codec ''{xxxx}''"
proof -
  have "one_line ''{xxxx}''" unfolding one_line_iff by code_simp
  moreover have "event_line demo_log_codec ''{xxxx}'' = Inr (Some forged_turn)" by code_simp
  ultimately show ?thesis by (simp add: injected_def forged_turn_def)
qed

end
