(* ===== verification/Sandbox_Driver.thy ===== *)
theory Sandbox_Driver
  imports Worker_Backend Log_Transcript Task_Request
begin

text \<open>
  \<open>sandbox/backend_driver.py\<close> and \<open>sandbox/container_io.py\<close>: one cycle of the agent as a worker of a
  backend. The driver turns the workspace into the worker's read-only inputs, carries the worker's outbox
  back into the host's workspace and reads the run's record from the log. It is the \<open>run\<close> of the agent
  sandbox's setup; the backend is the operation that runs a worker to completion.
\<close>

section \<open>The cycle's input\<close>

definition CONTAINER_WORKSPACE :: string where "CONTAINER_WORKSPACE = ''/work''"
definition CONTAINER_OUTBOX :: string where "CONTAINER_OUTBOX = ''/work/outbox''"
definition CONTAINER_INPUT_PATH :: string where "CONTAINER_INPUT_PATH = ''/sandbox/input.json''"
definition DEFAULT_STEP_BUDGET :: int where "DEFAULT_STEP_BUDGET = 80"
definition RECURSION_HEADROOM :: int where "RECURSION_HEADROOM = 8"

definition effective_step_budget :: "int \<Rightarrow> int option \<Rightarrow> int" where
  "effective_step_budget recursion_limit step_budget = (case step_budget of Some b \<Rightarrow> b | None \<Rightarrow> DEFAULT_STEP_BUDGET)"

definition effective_recursion_limit :: "int \<Rightarrow> int option \<Rightarrow> int" where
  "effective_recursion_limit recursion_limit step_budget =
     max recursion_limit (effective_step_budget recursion_limit step_budget * RECURSION_HEADROOM)"

record container_input =
  cn_system_prompt :: string
  cn_user_message :: string
  cn_operations :: "operation_signature list"
  cn_recursion_limit :: int
  cn_deadline :: "rat option"
  cn_tool_names :: "string list"
  cn_step_budget :: "int option"

definition opt_value :: "('a \<Rightarrow> json) \<Rightarrow> 'a option \<Rightarrow> json" where
  "opt_value f v = (case v of Some x \<Rightarrow> f x | None \<Rightarrow> JNull)"

definition signature_value :: "operation_signature \<Rightarrow> json" where
  "signature_value sg = JObj [(''name'', JStr (sig_name sg)), (''inputs'', json_strs (sig_inputs sg)),
     (''output'', JStr (sig_output sg)), (''required_payload_keys'', json_strs (required_payload_keys sg)),
     (''object_payload_keys'', json_strs (object_payload_keys sg))]"

definition input_value :: "container_input \<Rightarrow> json" where
  "input_value c = JObj [(''system_prompt'', JStr (cn_system_prompt c)), (''user_message'', JStr (cn_user_message c)),
     (''operations'', JList (map signature_value (cn_operations c))), (''recursion_limit'', JInt (cn_recursion_limit c)),
     (''deadline_s'', opt_value JFloat (cn_deadline c)), (''tool_names'', json_strs (cn_tool_names c)),
     (''step_budget'', opt_value JInt (cn_step_budget c))]"

definition input_to_json :: "log_codec \<Rightarrow> container_input \<Rightarrow> bytes" where
  "input_to_json cd c = utf8 (lg_dumps cd (input_value c))"

definition strings_of :: "json \<Rightarrow> exc + string list" where
  "strings_of j = bindS (as_list j) (mapE as_str)"

text \<open>\<open>int(x)\<close>\<close>

definition int_value :: "json \<Rightarrow> exc + int" where
  "int_value j = (case j of
      JStr s \<Rightarrow> (case parse_int s of Some i \<Rightarrow> Inr i
        | None \<Rightarrow> Inl (ValueError (''invalid literal for int() with base 10: '' @ py_repr s)))
    | JNull \<Rightarrow> Inl (TypeError ''int() argument must be a string or a real number'')
    | JList _ \<Rightarrow> Inl (TypeError ''int() argument must be a string or a real number'')
    | JObj _ \<Rightarrow> Inl (TypeError ''int() argument must be a string or a real number'')
    | _ \<Rightarrow> py_int j)"

definition signature_of_value :: "json \<Rightarrow> exc + operation_signature" where
  "signature_of_value j =
     bindS (bindS (json_get j ''name'') as_str) (\<lambda>n.
     bindS (bindS (json_get j ''inputs'') strings_of) (\<lambda>ins.
     bindS (bindS (json_get j ''output'') as_str) (\<lambda>out_type.
     bindS (bindS (json_get_or (JList []) j ''required_payload_keys'') strings_of) (\<lambda>req.
     bindS (bindS (json_get_or (JList []) j ''object_payload_keys'') strings_of) (\<lambda>objs.
     Inr \<lparr>sig_name = n, sig_inputs = ins, sig_output = out_type, required_payload_keys = req, object_payload_keys = objs\<rparr>)))))"

definition input_of_value :: "json \<Rightarrow> exc + container_input" where
  "input_of_value j =
     bindS (bindS (bindS (json_get j ''operations'') as_list) (mapE signature_of_value)) (\<lambda>ops.
     bindS (bindS (json_get j ''system_prompt'') as_str) (\<lambda>prompt.
     bindS (bindS (json_get j ''user_message'') as_str) (\<lambda>message.
     bindS (bindS (json_get_or (JInt 80) j ''recursion_limit'') int_value) (\<lambda>limit.
     bindS (bindS (json_get_or JNull j ''deadline_s'') (as_opt as_num)) (\<lambda>deadline.
     bindS (bindS (json_get_or (JList []) j ''tool_names'') strings_of) (\<lambda>tools.
     bindS (bindS (json_get_or JNull j ''step_budget'') (as_opt as_int)) (\<lambda>budget.
     Inr \<lparr>cn_system_prompt = prompt, cn_user_message = message, cn_operations = ops, cn_recursion_limit = limit,
       cn_deadline = deadline, cn_tool_names = tools, cn_step_budget = budget\<rparr>)))))))"

definition input_from_json :: "(bytes \<Rightarrow> exc + json) \<Rightarrow> bytes \<Rightarrow> exc + container_input" where
  "input_from_json loads data = bindS (loads data) input_of_value"

section \<open>The driver\<close>

definition SANDBOX_OUTPUT_CAP :: int where "SANDBOX_OUTPUT_CAP = 32000000"
definition READ_ONLY_ROLES :: "string list" where "READ_ONLY_ROLES = [''data'', ''context'', ''tools'', ''spec'']"
definition PROVISIONED_ROLES :: "string list" where "PROVISIONED_ROLES = [''scratch'']"
definition CONTAINER_ENTRYPOINT :: "string list" where "CONTAINER_ENTRYPOINT = [''python'', ''-m'', ''verity.sandbox.container_entry'']"

text \<open>The driver's settings, then the codec, the lookup of the gateway host and the text of a float.\<close>

record 'd sandbox_driver =
  sv_backend :: "worker_spec \<Rightarrow> ('d, exc, completed_worker) st"
  sv_model :: string
  sv_spec :: "model_spec option"
  sv_image :: string
  sv_config :: string
  sv_tool_names :: "string list"
  sv_passthrough :: "string list"
  sv_memory :: string
  sv_cpus :: string
  sv_pids :: int
  sv_tmpfs :: string
  sv_timeout :: rat
  sv_recursion_limit :: int
  sv_step_budget :: "int option"
  sv_runtime :: "string option"
  sv_run_context :: "run_context option"
  sv_codec :: log_codec
  sv_gateway :: "model_spec \<Rightarrow> string option"
  sv_float :: "rat \<Rightarrow> string"

definition driver_spec :: "'d sandbox_driver \<Rightarrow> model_spec" where
  "driver_spec sv = (case sv_spec sv of Some s \<Rightarrow> s | None \<Rightarrow> from_provider_string (sv_model sv))"

definition context_labels :: "string \<Rightarrow> string \<Rightarrow> run_context option \<Rightarrow> labels" where
  "context_labels role config ctx = (case ctx of
      None \<Rightarrow> (labels_of role)\<lparr>lb_config := config\<rparr>
    | Some c \<Rightarrow> (labels_of role)\<lparr>lb_config := config, lb_tenant := ctx_tenant_id c, lb_run := ctx_run_id c,
        lb_cycle := nat_str (ctx_cycle c)\<rparr>)"

definition driver_labels :: "'d sandbox_driver \<Rightarrow> labels" where
  "driver_labels sv = context_labels ''sandbox'' (sv_config sv) (sv_run_context sv)"

text \<open>The files below a role's directory, in the order of their paths, by their path in the container.\<close>

definition role_inputs :: "provisioned_workspace \<Rightarrow> file_system \<Rightarrow> string \<Rightarrow> exc + (string \<times> bytes) list" where
  "role_inputs w fs role =
     bindS (workspace_path w role) (\<lambda>d.
     mapE (\<lambda>(p, data).
         if prefix (pw_root w) p then Inr (CONTAINER_WORKSPACE @ ''/'' @ join ''/'' (drop (length (pw_root w)) p), data)
         else Inl (ValueError (path_str p @ '' is not in the subpath of '' @ path_str (pw_root w))))
       (sort_key fst (filter (\<lambda>(p, _). strict_prefix d p) (fs_files fs))))"

definition driver_worker_spec :: "'d sandbox_driver \<Rightarrow> container_input \<Rightarrow> provisioned_workspace \<Rightarrow> file_system \<Rightarrow> exc + worker_spec" where
  "driver_worker_spec sv c w fs =
     bindS (mapE (role_inputs w fs) (READ_ONLY_ROLES @ PROVISIONED_ROLES)) (\<lambda>files.
     let readonly = fold (\<lambda>(k, v). dict_put k v) (concat files) [(CONTAINER_INPUT_PATH, input_to_json (sv_codec sv) c)];
         spec = driver_spec sv;
         env = dict_put ''PYTHONUNBUFFERED'' ''1'' (spec_to_env (lg_dumps (sv_codec sv)) spec);
         passthrough = sv_passthrough sv @ (case key_env spec of
           Some k \<Rightarrow> if k \<noteq> '''' \<and> k \<notin> set (sv_passthrough sv) then [k] else [] | None \<Rightarrow> []);
         hosts = (case sv_gateway sv spec of Some g \<Rightarrow> [(g, ''host-gateway'')] | None \<Rightarrow> [])
     in Inr \<lparr>ws_image = sv_image sv, ws_command = CONTAINER_ENTRYPOINT, ws_labels = driver_labels sv, ws_readonly = readonly,
       ws_writable = [CONTAINER_WORKSPACE], ws_globs = [CONTAINER_OUTBOX @ ''/*''], ws_env = env, ws_passthrough = passthrough,
       ws_network = True, ws_limits = \<lparr>rl_memory = sv_memory sv, rl_cpus = sv_cpus sv, rl_pids = sv_pids sv\<rparr>,
       ws_scratch = \<lparr>tf_size = sv_tmpfs sv, tf_allow_exec = False\<rparr>, ws_extra_hosts = hosts, ws_workdir = CONTAINER_WORKSPACE,
       ws_runtime = sv_runtime sv, ws_timeout = sv_timeout sv, ws_output_cap = SANDBOX_OUTPUT_CAP, ws_service_name = None,
       ws_network_name = None, ws_docker_socket = False, ws_host_mounts = []\<rparr>)"

text \<open>A collected file goes into the host's outbox under its name there.\<close>

definition base_name :: "string \<Rightarrow> string" where
  "base_name s = rev (takeWhile (\<lambda>c. c \<noteq> CHR ''/'') (rev s))"

definition bridge_name :: "string \<Rightarrow> string" where
  "bridge_name p = (let pre = CONTAINER_OUTBOX @ ''/'' in if prefix pre p then drop (length pre) p else base_name p)"

definition bridge_file :: "path \<Rightarrow> string \<times> bytes \<Rightarrow> (file_system, exc, unit) st" where
  "bridge_file box = (\<lambda>(p, data). let dest = path_join box (bridge_name p) in
     bindE (mkdirs [] (butlast dest)) (\<lambda>_. write_bytes dest data))"

definition write_record :: "path \<Rightarrow> string \<Rightarrow> bytes option \<Rightarrow> (file_system, exc, unit) st" where
  "write_record box n data = (case data of Some b \<Rightarrow> write_bytes (path_join box n) b | None \<Rightarrow> ret ())"

definition bridge_outbox :: "log_codec \<Rightarrow> completed_worker \<Rightarrow> provisioned_workspace \<Rightarrow>
    (file_system, exc, bytes option \<times> bytes option \<times> json_dict list) st" where
  "bridge_outbox cd result w =
     bindE (reads (\<lambda>_. outbox w)) (\<lambda>box.
     bindE (mkdirs [] box) (\<lambda>_.
     bindE (mapM (bridge_file box) (cw_outputs result)) (\<lambda>_.
     bindE (reads (\<lambda>_. parse_log_events cd (cw_stderr result))) (\<lambda>(turns, telemetry).
     let transcript = transcript_bytes cd turns; record = map_option (record_bytes cd) telemetry in
     bindE (write_record box RESERVED_TRANSCRIPT_NAME transcript) (\<lambda>_.
     bindE (write_record box RESERVED_TELEMETRY_NAME record) (\<lambda>_.
     ret (transcript, record, turns)))))))"

text \<open>The telemetry of a worker that never reported any: rebuilt from its turns, stamped by the host.\<close>

definition synthesized :: "json_dict list \<Rightarrow> string \<Rightarrow> string \<times> json \<Rightarrow> exc + json_dict" where
  "synthesized turns reason extra = bindS (telemetry_from_turns turns) (\<lambda>t.
     let rec = (case t of Some r \<Rightarrow> r | None \<Rightarrow> [(''source'', JStr ''host'')])
     in Inr (dict_put (fst extra) (snd extra) (dict_put ''stop_reason'' (JStr reason) rec)))"

definition telemetry_or :: "log_codec \<Rightarrow> bytes option \<Rightarrow> exc + json_dict \<Rightarrow> exc + bytes" where
  "telemetry_or cd telemetry rec = (case telemetry of Some b \<Rightarrow> Inr b | None \<Rightarrow> bindS rec (\<lambda>r. Inr (record_bytes cd r)))"

definition on_driver :: "('d, exc, 'a) st \<Rightarrow> ('d \<times> file_system, exc, 'a) st" where
  "on_driver m = (\<lambda>(d, fs). case m d of (r, d') \<Rightarrow> (r, (d', fs)))"

definition on_files :: "(file_system, exc, 'a) st \<Rightarrow> ('d \<times> file_system, exc, 'a) st" where
  "on_files m = (\<lambda>(d, fs). case m fs of (r, fs') \<Rightarrow> (r, (d, fs')))"

definition driver_input :: "'d sandbox_driver \<Rightarrow> string \<Rightarrow> string \<Rightarrow> operation_signature list \<Rightarrow> container_input" where
  "driver_input sv prompt message ops =
     \<lparr>cn_system_prompt = prompt, cn_user_message = message, cn_operations = ops,
      cn_recursion_limit = effective_recursion_limit (sv_recursion_limit sv) (sv_step_budget sv),
      cn_deadline = Some (sv_timeout sv), cn_tool_names = sv_tool_names sv,
      cn_step_budget = Some (effective_step_budget (sv_recursion_limit sv) (sv_step_budget sv))\<rparr>"

definition driver_run :: "'d sandbox_driver \<Rightarrow> string \<Rightarrow> string \<Rightarrow> operation_signature list \<Rightarrow> provisioned_workspace \<Rightarrow>
    ('d \<times> file_system, exc, unit) st" where
  "driver_run sv prompt message ops w =
     (let cd = sv_codec sv in
     bindE (reads (\<lambda>(_, fs). driver_worker_spec sv (driver_input sv prompt message ops) w fs)) (\<lambda>spec.
     bindE (try_catch (on_driver (sv_backend sv spec)) (\<lambda>e. case e of
         ProvisioningError m \<Rightarrow> raise (SandboxError (''could not launch the sandbox worker: '' @ m) None
           (Some (record_bytes cd [(''stop_reason'', JStr ''launch_failure''), (''error'', JStr m), (''source'', JStr ''host'')])))
       | _ \<Rightarrow> raise e)) (\<lambda>result.
     bindE (on_files (bridge_outbox cd result w)) (\<lambda>(transcript, telemetry, turns).
     if cw_timed_out result
     then bindE (reads (\<lambda>_. telemetry_or cd telemetry (synthesized turns ''sandbox_timeout'' (''timeout_s'', JFloat (sv_timeout sv))))) (\<lambda>t.
          raise (SandboxError (''sandbox worker timed out after '' @ sv_float sv (sv_timeout sv) @ ''s'') transcript (Some t)))
     else if cw_exit_code result \<noteq> 0
     then bindE (reads (\<lambda>_. telemetry_or cd telemetry (synthesized turns ''worker_crash'' (''exit_code'', JInt (cw_exit_code result))))) (\<lambda>t.
          raise (SandboxError (''sandbox worker exited '' @ int_str (cw_exit_code result) @ '': '' @
            drop (length (cw_stderr result) - 2000) (cw_stderr result)) transcript (Some t)))
     else ret ()))))"

section \<open>The input reaches the worker\<close>

lemma strings_roundtrip: "strings_of (json_strs xs) = Inr xs"
proof -
  have "mapE as_str (map JStr xs) = Inr xs" by (induction xs) (simp_all add: as_str_def)
  then show ?thesis by (simp add: strings_of_def json_strs_def as_list_def)
qed

lemma input_roundtrip: "input_of_value (input_value c) = Inr c"
proof -
  have s: "signature_of_value (signature_value sg) = Inr sg" for sg
    by (simp add: signature_of_value_def signature_value_def json_get_def json_get_or_def as_str_def strings_roundtrip)
  have "mapE signature_of_value (map signature_value sgs) = Inr sgs" for sgs by (induction sgs) (simp_all add: s)
  moreover have "as_opt as_num (opt_value JFloat d) = Inr d" "as_opt as_int (opt_value JInt b) = Inr b" for d b
    by (cases d; simp add: opt_value_def as_opt_def as_num_def) (cases b; simp add: opt_value_def as_opt_def as_int_def)
  moreover have "int_value (JInt i) = Inr i" for i by (simp add: int_value_def py_int_JInt)
  ultimately show ?thesis
    by (simp add: input_of_value_def input_value_def json_get_def json_get_or_def as_str_def as_list_def strings_roundtrip)
qed

lemma budget_before_backstop:
  "0 \<le> effective_step_budget limit b \<Longrightarrow> effective_step_budget limit b \<le> effective_recursion_limit limit b \<and> limit \<le> effective_recursion_limit limit b"
  by (simp add: effective_recursion_limit_def RECURSION_HEADROOM_def)

section \<open>The outbox carried back\<close>

text \<open>The host's outbox as a provisioned directory.\<close>

definition standing :: "file_system \<Rightarrow> path \<Rightarrow> bool" where
  "standing fs d \<longleftrightarrow> d \<noteq> [] \<and> ''..'' \<notin> set d \<and>
     (\<forall>p \<in> set (prefixes d). p \<noteq> [] \<longrightarrow> p \<in> set (fs_dirs fs) \<and> p \<notin> fst ` set (fs_files fs))"

lemma mkdirs_along:
  "''..'' \<notin> set p \<Longrightarrow> (\<forall>q \<in> set (prefixes p). q \<noteq> [] \<longrightarrow> cur @ q \<in> set (fs_dirs fs) \<and> cur @ q \<notin> fst ` set (fs_files fs)) \<Longrightarrow>
     mkdirs cur p fs = (Inr (), fs)"
proof (induction p arbitrary: cur)
  case (Cons c cs)
  have "[c] \<in> set (prefixes (c # cs))" by (cases cs) simp_all
  then have here: "cur @ [c] \<in> set (fs_dirs fs)" "cur @ [c] \<notin> fst ` set (fs_files fs)" using Cons.prems(2) by blast+
  have "mkdirs (cur @ [c]) cs fs = (Inr (), fs)"
  proof (rule Cons.IH)
    show "\<forall>q \<in> set (prefixes cs). q \<noteq> [] \<longrightarrow> (cur @ [c]) @ q \<in> set (fs_dirs fs) \<and> (cur @ [c]) @ q \<notin> fst ` set (fs_files fs)"
    proof (intro ballI impI)
      fix q assume "q \<in> set (prefixes cs)" "q \<noteq> []"
      then have "c # q \<in> set (prefixes (c # cs))" by simp
      then show "(cur @ [c]) @ q \<in> set (fs_dirs fs) \<and> (cur @ [c]) @ q \<notin> fst ` set (fs_files fs)"
        using Cons.prems(2) by (metis append.assoc append_Cons append_Nil list.distinct(1))
    qed
  qed (use Cons.prems in simp)
  moreover have upd: "fs_dirs_update (\<lambda>ds. if cur @ [c] \<in> set ds then ds else ds @ [cur @ [c]]) fs = fs"
    using here(1) by (cases fs) simp
  moreover have "c \<noteq> ''..''" using Cons.prems(1) by auto
  ultimately show ?case using here by (simp add: bindE_def reads_def modify_def upd)
qed (simp add: ret_def)

lemma mkdirs_standing: "standing fs d \<Longrightarrow> mkdirs [] d fs = (Inr (), fs)"
  by (rule mkdirs_along) (auto simp: standing_def)

lemma follow_along:
  "''..'' \<notin> set p \<Longrightarrow> (\<And>n. 0 < n \<Longrightarrow> n < length p \<Longrightarrow> cur @ take n p \<in> set dirs) \<Longrightarrow> follow dirs cur p = Some (cur @ p)"
proof (induction p arbitrary: cur)
  case (Cons c cs)
  show ?case
  proof (cases "cs = []")
    case False
    then have "cur @ [c] \<in> set dirs" using Cons.prems(2) [of 1] by simp
    moreover have "follow dirs (cur @ [c]) cs = Some ((cur @ [c]) @ cs)"
    proof (rule Cons.IH)
      fix n assume "0 < n" "n < length cs"
      then show "(cur @ [c]) @ take n cs \<in> set dirs" using Cons.prems(2) [of "Suc n"] by simp
    qed (use Cons.prems in simp)
    moreover have "c \<noteq> ''..''" using Cons.prems(1) by auto
    ultimately show ?thesis using False by simp
  qed (use Cons.prems in simp)
qed simp
definition put_files :: "path \<Rightarrow> (string \<times> bytes) list \<Rightarrow> file_system \<Rightarrow> file_system" where
  "put_files d ps fs = fs\<lparr>fs_files := fold (\<lambda>(n, data). dict_put (d @ [n]) data) ps (fs_files fs)\<rparr>"

definition fits :: "file_system \<Rightarrow> path \<Rightarrow> string \<Rightarrow> bool" where
  "fits fs d n \<longleftrightarrow> plain_name n \<and> d @ [n] \<notin> set (fs_dirs fs)"

lemma put_files_keys:
  "fst ` set (fold (\<lambda>(n, data). dict_put (d @ [n]) data) ps fl) = fst ` set fl \<union> (\<lambda>(n, _). d @ [n]) ` set ps"
proof (induction ps arbitrary: fl)
  case (Cons x ps)
  show ?case by (cases x) (simp add: Cons.IH dom_update)
qed simp

lemma standing_put: "standing fs d \<Longrightarrow> standing (put_files d ps fs) d"
proof -
  assume s: "standing fs d"
  have "p \<notin> (\<lambda>(n, _). d @ [n]) ` set ps" if "p \<in> set (prefixes d)" for p using that by (auto simp: prefix_def)
  with s show ?thesis unfolding standing_def put_files_def by (simp add: put_files_keys)
qed

lemma write_standing:
  assumes "standing fs d" "fits fs d n"
  shows "write_bytes (d @ [n]) data fs = (Inr (), put_files d [(n, data)] fs)"
proof -
  have n: "''..'' \<notin> set (d @ [n])" using assms by (auto simp: standing_def fits_def plain_name_def)
  have "follow (fs_dirs fs) [] (d @ [n]) = Some ([] @ (d @ [n]))"
  proof (rule follow_along [OF n])
    fix k assume k: "0 < k" "k < length (d @ [n])"
    then have "take k (d @ [n]) \<in> set (prefixes d)" by (simp add: take_is_prefix)
    moreover have "take k (d @ [n]) \<noteq> []" using k by auto
    ultimately show "[] @ take k (d @ [n]) \<in> set (fs_dirs fs)" using assms(1) by (auto simp: standing_def)
  qed
  moreover have "d \<in> set (prefixes d)" by simp
  then have "d \<in> set (fs_dirs fs)" using assms(1) by (auto simp: standing_def)
  ultimately show ?thesis
    using assms by (simp add: write_bytes_def bindE_def reads_def modify_def fits_def put_files_def)
qed


lemma put_files_append: "put_files d (ps @ qs) fs = put_files d qs (put_files d ps fs)"
  by (simp add: put_files_def)

lemma put_files_dirs [simp]: "fs_dirs (put_files d ps fs) = fs_dirs fs"
  by (simp add: put_files_def)

lemma fits_put [simp]: "fits (put_files d ps fs) d n = fits fs d n"
  by (simp add: fits_def)

text \<open>The worker's files as the backend returns them: by their names under the container's outbox.\<close>

definition boxed :: "(string \<times> bytes) list \<Rightarrow> (string \<times> bytes) list" where
  "boxed files = map (\<lambda>(n, data). (CONTAINER_OUTBOX @ ''/'' @ n, data)) files"

lemma bridge_files:
  assumes "standing fs d" "\<forall>(n, data) \<in> set files. fits fs d n"
  shows "mapM (bridge_file d) (boxed files) fs = (Inr (map (\<lambda>_. ()) files), put_files d files fs)"
  using assms
proof (induction files arbitrary: fs)
  case Nil
  then show ?case by (simp add: boxed_def ret_def put_files_def)
next
  case (Cons x files)
  obtain n data where x: "x = (n, data)" by (cases x)
  have n: "fits fs d n" using Cons.prems x by simp
  have "bridge_name (CONTAINER_OUTBOX @ ''/'' @ n) = n"
    by (simp add: bridge_name_def Let_def CONTAINER_OUTBOX_def)
  moreover have "path_join d n = d @ [n]" using n by (simp add: fits_def path_join_plain)
  ultimately have "bridge_file d (CONTAINER_OUTBOX @ ''/'' @ n, data) fs = (Inr (), put_files d [x] fs)"
    using Cons.prems(1) n by (simp add: bridge_file_def Let_def bindE_def mkdirs_standing write_standing x)
  moreover have "mapM (bridge_file d) (boxed files) (put_files d [x] fs) =
      (Inr (map (\<lambda>_. ()) files), put_files d files (put_files d [x] fs))"
    using Cons.prems by (intro Cons.IH) (auto simp: standing_put)
  moreover have "boxed (x # files) = (CONTAINER_OUTBOX @ ''/'' @ n, data) # boxed files" by (simp add: boxed_def x)
  ultimately show ?case by (simp add: bindE_def ret_def put_files_append [of d "[x]" files, simplified])
qed

definition record_file :: "string \<Rightarrow> bytes option \<Rightarrow> (string \<times> bytes) list" where
  "record_file n b = (case b of Some data \<Rightarrow> [(n, data)] | None \<Rightarrow> [])"

lemma write_record_standing:
  assumes "standing fs d" "fits fs d n"
  shows "write_record d n b fs = (Inr (), put_files d (record_file n b) fs)"
proof -
  have "path_join d n = d @ [n]" using assms(2) by (simp add: fits_def path_join_plain)
  then show ?thesis using assms by (cases b) (simp_all add: write_record_def record_file_def ret_def put_files_def [of d "[]"] write_standing)
qed

text \<open>What the driver needs of the workspace and of the names the worker chose.\<close>

definition outbox_ready :: "provisioned_workspace \<Rightarrow> file_system \<Rightarrow> path \<Rightarrow> (string \<times> bytes) list \<Rightarrow> bool" where
  "outbox_ready w fs d files \<longleftrightarrow> outbox w = Inr d \<and> standing fs d \<and>
     (\<forall>n \<in> {RESERVED_TRANSCRIPT_NAME, RESERVED_TELEMETRY_NAME} \<union> fst ` set files. fits fs d n)"

lemma bridge_outbox_eq:
  assumes "outbox_ready w fs d files" "cw_outputs result = boxed files"
  shows "bridge_outbox cd result w fs = (case parse_log_events cd (cw_stderr result) of
      Inl e \<Rightarrow> (Inl e, put_files d files fs)
    | Inr (turns, telemetry) \<Rightarrow>
        let t = transcript_bytes cd turns; r = map_option (record_bytes cd) telemetry in
        (Inr (t, r, turns), put_files d (files @ record_file RESERVED_TRANSCRIPT_NAME t @ record_file RESERVED_TELEMETRY_NAME r) fs))"
proof -
  have a: "outbox w = Inr d" "standing fs d" "fits fs d RESERVED_TRANSCRIPT_NAME" "fits fs d RESERVED_TELEMETRY_NAME"
    "\<forall>(n, data) \<in> set files. fits fs d n"
    using assms(1) by (force simp: outbox_ready_def)+
  show ?thesis
    by (simp add: bridge_outbox_def bindE_def reads_def ret_def a mkdirs_standing assms(2) bridge_files write_record_standing standing_put
        put_files_append Let_def split: sum.split prod.split)
qed


section \<open>What a cycle leaves behind\<close>

lemma driver_run_eq:
  assumes "driver_worker_spec sv (driver_input sv prompt message ops) w fs = Inr spec"
    "sv_backend sv spec dd = (Inr result, dd')" "outbox_ready w fs d files" "cw_outputs result = boxed files"
  shows "driver_run sv prompt message ops w (dd, fs) = (case parse_log_events (sv_codec sv) (cw_stderr result) of
      Inl e \<Rightarrow> (Inl e, (dd', put_files d files fs))
    | Inr (turns, telemetry) \<Rightarrow>
        let t = transcript_bytes (sv_codec sv) turns; r = map_option (record_bytes (sv_codec sv)) telemetry;
          fs' = put_files d (files @ record_file RESERVED_TRANSCRIPT_NAME t @ record_file RESERVED_TELEMETRY_NAME r) fs in
        (if cw_timed_out result
         then case telemetry_or (sv_codec sv) r (synthesized turns ''sandbox_timeout'' (''timeout_s'', JFloat (sv_timeout sv))) of
             Inl e \<Rightarrow> Inl e
           | Inr b \<Rightarrow> Inl (SandboxError (''sandbox worker timed out after '' @ sv_float sv (sv_timeout sv) @ ''s'') t (Some b))
         else if cw_exit_code result \<noteq> 0
         then case telemetry_or (sv_codec sv) r (synthesized turns ''worker_crash'' (''exit_code'', JInt (cw_exit_code result))) of
             Inl e \<Rightarrow> Inl e
           | Inr b \<Rightarrow> Inl (SandboxError (''sandbox worker exited '' @ int_str (cw_exit_code result) @ '': '' @
               drop (length (cw_stderr result) - 2000) (cw_stderr result)) t (Some b))
         else Inr (), (dd', fs')))"
  using bridge_outbox_eq [OF assms(3,4), of "sv_codec sv"]
  by (cases "parse_log_events (sv_codec sv) (cw_stderr result)")
    (auto simp: driver_run_def Let_def bindE_def reads_def try_catch_def on_driver_def on_files_def assms(1,2) raise_def ret_def
      split: sum.split)

lemma map_of_mset: "distinct (map fst xs) \<Longrightarrow> mset xs = mset ys \<Longrightarrow> map_of ys = map_of xs"
proof -
  assume d: "distinct (map fst xs)" and m: "mset xs = mset ys"
  then have "distinct (map fst ys)" by (metis mset_eq_imp_distinct_iff mset_map)
  with d m show ?thesis by (metis map_of_inject_set mset_eq_setD)
qed

lemma map_of_dir_files: "map_of (dir_files fs d) n = map_of (fs_files fs) (d @ [n])"
proof -
  have "map_of (map (\<lambda>(p, data). (last p, data)) (filter (\<lambda>(p, _). p \<noteq> [] \<and> butlast p = d) fl)) n = map_of fl (d @ [n])" for fl
  proof (induction fl)
    case (Cons x fl)
    obtain p data where x: "x = (p, data)" by (cases x)
    have "p \<noteq> [] \<and> butlast p = d \<and> last p = n \<longleftrightarrow> p = d @ [n]" by (metis append_butlast_last_id butlast_snoc last_snoc snoc_eq_iff_butlast)
    then show ?case using Cons by (auto simp: x)
  qed simp
  then show ?thesis by (simp add: dir_files_def)
qed

lemma distinct_dir_files: "distinct (map fst (fs_files fs)) \<Longrightarrow> distinct (map fst (dir_files fs d))"
proof -
  have "distinct (map fst (map (\<lambda>(p, data). (last p, data)) (filter (\<lambda>(p, _). p \<noteq> [] \<and> butlast p = d) fl)))"
    if "distinct (map fst fl)" for fl :: "(path \<times> bytes) list"
    using that
  proof (induction fl)
    case (Cons x fl)
    obtain p data where x: "x = (p, data)" by (cases x)
    have "p = q" if "p \<noteq> []" "q \<noteq> []" "butlast p = butlast q" "last p = last q" for q
      using that by (metis append_butlast_last_id)
    with Cons show ?case by (force simp: x)
  qed simp
  then show "distinct (map fst (fs_files fs)) \<Longrightarrow> ?thesis" by (simp add: dir_files_def)
qed

lemma harvest_put_files:
  assumes "outbox w = Inr d" "standing fs d" "distinct (map fst (fs_files fs))"
  shows "\<exists>got. harvest w (put_files d ps fs) = Inr got \<and>
    (\<forall>n. map_of got n = (case map_of (rev ps) n of Some b \<Rightarrow> Some b | None \<Rightarrow> map_of (fs_files fs) (d @ [n])))"
proof -
  let ?fs = "put_files d ps fs"
  have "follow (fs_dirs ?fs) [] d = Some ([] @ d)"
    using assms(2) by (intro follow_along) (auto simp: standing_def take_is_prefix)
  moreover have "d \<in> set (fs_dirs ?fs)" using assms(2) by (auto simp: standing_def)
  ultimately have h: "harvest w ?fs = Inr (sort_key fst (dir_files ?fs d))" by (simp add: harvest_def assms(1))
  have "distinct (map fst (fold (\<lambda>(n, data). dict_put (d @ [n]) data) ps fl))" if "distinct (map fst fl)" for fl
    using that by (induction ps arbitrary: fl) auto
  then have "distinct (map fst (fs_files ?fs))" using assms(3) by (simp add: put_files_def)
  then have "map_of (sort_key fst (dir_files ?fs d)) = map_of (dir_files ?fs d)"
    by (intro map_of_mset distinct_dir_files) simp_all
  moreover have "map_of (fold (\<lambda>(n, data). dict_put (d @ [n]) data) ps fl) (d @ [n]) =
      (case map_of (rev ps) n of Some b \<Rightarrow> Some b | None \<Rightarrow> map_of fl (d @ [n]))" for fl n
    by (induction ps rule: rev_induct) (auto split: option.split)
  ultimately show ?thesis by (simp add: h map_of_dir_files) (simp add: put_files_def)
qed


text \<open>A cycle that is about to run its worker, and what the backend makes of it.\<close>

definition cycle_runs :: "'d sandbox_setup \<Rightarrow> 'd sandbox_driver \<Rightarrow> 'd agent_sandbox \<Rightarrow> provisioned_workspace \<Rightarrow> path \<Rightarrow>
    completed_worker \<Rightarrow> (string \<times> bytes) list \<Rightarrow> 'd \<Rightarrow> bool" where
  "cycle_runs su sv ag w d result files dd \<longleftrightarrow> (case ag_served ag of
      None \<Rightarrow> False
    | Some sc \<Rightarrow> ag_workspace ag = Some w \<and> su_run su = driver_run sv \<and> outbox_ready w (ag_fs ag) d files \<and>
        cw_outputs result = boxed files \<and>
        (case driver_worker_spec sv (driver_input sv (sc_system_prompt sc) (user_message sc) (map snd (sr_operations (su_schema su)))) w (ag_fs ag) of
           Inl _ \<Rightarrow> False
         | Inr spec \<Rightarrow> sv_backend sv spec (ag_driver ag) = (Inr result, dd)))"

lemma run_driver_eq:
  assumes "cycle_runs su sv ag w d result files dd" "ag_served ag = Some sc"
  shows "\<exists>spec. run_driver su sc w ag =
    (case driver_run sv (sc_system_prompt sc) (user_message sc) (map snd (sr_operations (su_schema su))) w (ag_driver ag, ag_fs ag) of
        (Inr _, (d, fs)) \<Rightarrow> (Inr (), ag\<lparr>ag_driver := d, ag_fs := fs\<rparr>)
      | (Inl e, (d, fs)) \<Rightarrow> (Inl (salvage w fs e), ag\<lparr>ag_driver := d, ag_fs := fs\<rparr>)) \<and>
    driver_worker_spec sv (driver_input sv (sc_system_prompt sc) (user_message sc) (map snd (sr_operations (su_schema su)))) w (ag_fs ag) = Inr spec \<and>
    sv_backend sv spec (ag_driver ag) = (Inr result, dd) \<and> outbox_ready w (ag_fs ag) d files \<and> cw_outputs result = boxed files"
  using assms by (auto simp: cycle_runs_def run_driver_def split: sum.splits)

lemma ag_collect_fails:
  assumes "ag_served ag = Some sc" "ag_workspace ag = Some w" "run_driver su sc w ag = (Inl e, ag')"
  shows "ag_collect su ag = (Inl e, ag')"
  using assms by (simp add: ag_collect_def bindE_def reads_def require_workspace_def)

definition stop_record :: "'d sandbox_driver \<Rightarrow> completed_worker \<Rightarrow> json_dict" where
  "stop_record sv result = (if cw_timed_out result
     then [(''stop_reason'', JStr ''sandbox_timeout''), (''timeout_s'', JFloat (sv_timeout sv))]
     else [(''stop_reason'', JStr ''worker_crash''), (''exit_code'', JInt (cw_exit_code result))])"

text \<open>C28. A worker that is killed or dies leaves its record behind: when it timed out or exited with a status
  other than 0 before reporting telemetry, the cycle's collection fails with a sandbox error that carries
  the transcript of every turn the worker had logged, by index, and telemetry with the tokens, steps and
  calls of exactly those turns and the reason of the stop. No proposal is minted, whatever the worker
  left in its outbox.\<close>

theorem dead_worker_is_accounted:
  assumes "cycle_runs su sv ag w d result files dd" "cw_timed_out result \<or> cw_exit_code result \<noteq> 0"
    "cw_stderr result = log_text (sv_codec sv) lns" "\<forall>l \<in> set lns. well_logged (sv_codec sv) l"
    "logged_turns lns \<noteq> []" "last_telemetry None lns = None"
  defines "turns \<equiv> map (\<lambda>(i, m). entry_at (sv_codec sv) i m) (sort_key fst (logged_turns lns))"
  shows "\<exists>m model ag'. ag_collect su ag = (Inl (SandboxError m
      (Some (utf8 (lg_dumps (sv_codec sv) (JList (map JObj turns)))))
      (Some (record_bytes (sv_codec sv) (totals_record (totals_of (map snd (logged_turns lns)) model) @ stop_record sv result)))), ag') \<and>
    ag_minted ag' = ag_minted ag \<and> ag_driver ag' = dd"
proof -
  obtain sc where sc: "ag_served ag = Some sc" "ag_workspace ag = Some w"
    using assms(1) by (auto simp: cycle_runs_def split: option.splits)
  obtain spec where run: "run_driver su sc w ag =
      (case driver_run sv (sc_system_prompt sc) (user_message sc) (map snd (sr_operations (su_schema su))) w (ag_driver ag, ag_fs ag) of
        (Inr _, (d, fs)) \<Rightarrow> (Inr (), ag\<lparr>ag_driver := d, ag_fs := fs\<rparr>)
      | (Inl e, (d, fs)) \<Rightarrow> (Inl (salvage w fs e), ag\<lparr>ag_driver := d, ag_fs := fs\<rparr>))"
    and spec: "driver_worker_spec sv (driver_input sv (sc_system_prompt sc) (user_message sc) (map snd (sr_operations (su_schema su)))) w (ag_fs ag) = Inr spec"
      "sv_backend sv spec (ag_driver ag) = (Inr result, dd)" "outbox_ready w (ag_fs ag) d files" "cw_outputs result = boxed files"
    using run_driver_eq [OF assms(1) sc(1)] by blast
  have "parse_log_events (sv_codec sv) (cw_stderr result) = Inr (turns, None)"
    and "\<exists>model. telemetry_from_turns turns = Inr (Some (totals_record (totals_of (map snd (logged_turns lns)) model)))"
    and ne: "turns \<noteq> []"
    using logged_turns_parsed [OF assms(4)] logged_turns_counted [OF assms(4)] assms(3,5,6) by (simp_all add: turns_def)
  then obtain model where p: "parse_log_events (sv_codec sv) (cw_stderr result) = Inr (turns, None)"
    and t: "telemetry_from_turns turns = Inr (Some (totals_record (totals_of (map snd (logged_turns lns)) model)))" by blast
  have stamped: "synthesized turns reason extra = Inr (totals_record (totals_of (map snd (logged_turns lns)) model) @
      [(''stop_reason'', JStr reason), extra])" if "fst extra \<in> {''timeout_s'', ''exit_code''}" for reason extra
    using that by (cases extra) (auto simp: synthesized_def t totals_record_def)
  have "\<exists>m fs'. driver_run sv (sc_system_prompt sc) (user_message sc) (map snd (sr_operations (su_schema su))) w (ag_driver ag, ag_fs ag) =
      (Inl (SandboxError m (Some (utf8 (lg_dumps (sv_codec sv) (JList (map JObj turns)))))
        (Some (record_bytes (sv_codec sv) (totals_record (totals_of (map snd (logged_turns lns)) model) @ stop_record sv result)))), (dd, fs'))"
    using assms(2) ne
    by (auto simp: driver_run_eq [OF spec] p Let_def telemetry_or_def stamped stop_record_def transcript_bytes_def)
  then show ?thesis using ag_collect_fails [OF sc] by (auto simp: run salvage_def)
qed


text \<open>A workspace, a driver whose worker ends in a given way, and a cycle about to run it.\<close>

definition demo_box :: path where "demo_box = [''w'', ''outbox'']"

definition demo_space :: provisioned_workspace where
  "demo_space = \<lparr>pw_root = [''w''], pw_paths = map (\<lambda>r. (r, [''w'', r])) [''data'', ''context'', ''tools'', ''spec'', ''scratch'', ''outbox'']\<rparr>"

definition demo_space_files :: file_system where
  "demo_space_files = \<lparr>fs_dirs = [''w''] # map snd (pw_paths demo_space), fs_files = [([''w'', ''data'', ''train.csv''], [5])]\<rparr>"

definition demo_driver :: "completed_worker \<Rightarrow> unit sandbox_driver" where
  "demo_driver result = \<lparr>sv_backend = (\<lambda>spec d. (Inr result, d)), sv_model = ''anthropic:claude-sonnet-4-6'', sv_spec = None,
     sv_image = ''verity-sandbox:latest'', sv_config = '''', sv_tool_names = [], sv_passthrough = [''ANTHROPIC_API_KEY''],
     sv_memory = ''4g'', sv_cpus = ''2'', sv_pids = 512, sv_tmpfs = ''256m'', sv_timeout = 1800, sv_recursion_limit = 80,
     sv_step_budget = None, sv_runtime = None, sv_run_context = None, sv_codec = demo_log_codec, sv_gateway = (\<lambda>_. None),
     sv_float = (\<lambda>_. ''1800.0'')\<rparr>"

definition demo_cycle_setup :: "completed_worker \<Rightarrow> unit sandbox_setup" where
  "demo_cycle_setup result = demo_agent\<lparr>su_run := driver_run (demo_driver result)\<rparr>"

definition demo_cycle_sandbox :: "unit agent_sandbox" where
  "demo_cycle_sandbox = \<lparr>ag_served = Some \<lparr>sc_system_prompt = '''', sc_tail = ''go'', sc_feedback = '''', sc_workspace_objects = []\<rparr>,
     ag_workspace = Some demo_space, ag_fs = demo_space_files, ag_minted = 0, ag_driver = ()\<rparr>"

definition demo_worker_files :: "(string \<times> bytes) list" where
  "demo_worker_files = [(RESERVED_PROPOSAL_NAME, [1]), (RESERVED_TRANSCRIPT_NAME, [6, 6, 6])]"

definition demo_result :: "int \<Rightarrow> bool \<Rightarrow> log_line list \<Rightarrow> completed_worker" where
  "demo_result code timed_out lns = \<lparr>cw_exit_code = code, cw_stdout = '''', cw_stderr = log_text demo_log_codec lns,
     cw_outputs = boxed demo_worker_files, cw_timed_out = timed_out\<rparr>"

lemma demo_outbox_ready: "outbox_ready demo_space demo_space_files demo_box demo_worker_files"
  unfolding outbox_ready_def
  by (simp add: outbox_def workspace_path_def demo_space_def demo_space_files_def OUTBOX_ROLE_def standing_def demo_box_def fits_def
      plain_name_def RESERVED_TRANSCRIPT_NAME_def RESERVED_TELEMETRY_NAME_def RESERVED_PROPOSAL_NAME_def demo_worker_files_def)

lemma demo_driver_spec: "\<exists>spec. driver_worker_spec (demo_driver result) c demo_space demo_space_files = Inr spec"
  by (simp add: driver_worker_spec_def READ_ONLY_ROLES_def PROVISIONED_ROLES_def role_inputs_def workspace_path_def demo_space_def
      demo_space_files_def Let_def)

lemma demo_cycle_runs:
  "cycle_runs (demo_cycle_setup (demo_result code t lns)) (demo_driver (demo_result code t lns)) demo_cycle_sandbox demo_space demo_box
     (demo_result code t lns) demo_worker_files ()"
proof -
  obtain spec where "driver_worker_spec (demo_driver (demo_result code t lns)) (driver_input (demo_driver (demo_result code t lns)) ''''
      (user_message \<lparr>sc_system_prompt = '''', sc_tail = ''go'', sc_feedback = '''', sc_workspace_objects = []\<rparr>)
      (map snd (sr_operations (su_schema demo_agent)))) demo_space demo_space_files = Inr spec"
    using demo_driver_spec by blast
  then show ?thesis
    by (simp add: cycle_runs_def demo_cycle_setup_def demo_cycle_sandbox_def demo_outbox_ready) (simp add: demo_driver_def demo_result_def)
qed

theorem dead_worker_is_accounted_witness:
  "\<exists>m model ag'. ag_collect (demo_cycle_setup (demo_result 137 False demo_log)) demo_cycle_sandbox =
     (Inl (SandboxError m (Some (utf8 (lg_dumps demo_log_codec (JList [JObj answer_entry, JObj reply_entry]))))
       (Some (record_bytes demo_log_codec (totals_record (totals_of [demo_reply, demo_answer] model) @
         [(''stop_reason'', JStr ''worker_crash''), (''exit_code'', JInt 137)])))), ag') \<and> ag_minted ag' = 0"
proof -
  let ?r = "demo_result 137 False demo_log"
  have r: "cw_timed_out ?r \<or> cw_exit_code ?r \<noteq> 0" "cw_stderr ?r = log_text (sv_codec (demo_driver ?r)) demo_log"
    and sv: "sv_codec (demo_driver ?r) = demo_log_codec"
    and stop: "stop_record (demo_driver ?r) ?r = [(''stop_reason'', JStr ''worker_crash''), (''exit_code'', JInt 137)]"
    by (simp_all add: demo_result_def demo_driver_def stop_record_def)
  have turns: "logged_turns demo_log = [(1, demo_reply), (0, demo_answer)]" "last_telemetry None demo_log = None"
    by (simp_all add: demo_log_def)
  have "\<forall>l \<in> set demo_log. well_logged (sv_codec (demo_driver ?r)) l" unfolding sv by (rule demo_well_logged)
  from dead_worker_is_accounted [OF demo_cycle_runs r this _ turns(2)]
  show ?thesis by (simp add: turns stop sv demo_entry_at) (force simp: demo_cycle_sandbox_def)
qed

text \<open>C33. Someone who can write one line to the worker's standard error can undo a cycle: a line that passes for a
  turn and has a text for its index, among any logged turns, makes the collection of the cycle fail with a
  \<open>TypeError\<close>, whatever the worker's exit status and although its proposal has reached the outbox. That is
  no sandbox error, so neither transcript nor telemetry is salvaged.\<close>

theorem injected_line_loses_the_cycle:
  assumes "cycle_runs su sv ag w d result files dd"
    "cw_stderr result = log_text (sv_codec sv) (before @ Other s # after)"
    "\<forall>l \<in> set (before @ after). well_logged (sv_codec sv) l" "logged_turns (before @ after) \<noteq> []" "injected (sv_codec sv) s"
  shows "\<exists>e. ag_collect su ag = (Inl e, ag\<lparr>ag_driver := dd, ag_fs := put_files d files (ag_fs ag)\<rparr>) \<and>
    e = TypeError ''not supported between instances'' \<and> sandbox_salvage e = None"
proof -
  obtain sc where sc: "ag_served ag = Some sc" "ag_workspace ag = Some w"
    using assms(1) by (auto simp: cycle_runs_def split: option.splits)
  obtain spec where run: "run_driver su sc w ag =
      (case driver_run sv (sc_system_prompt sc) (user_message sc) (map snd (sr_operations (su_schema su))) w (ag_driver ag, ag_fs ag) of
        (Inr _, (d, fs)) \<Rightarrow> (Inr (), ag\<lparr>ag_driver := d, ag_fs := fs\<rparr>)
      | (Inl e, (d, fs)) \<Rightarrow> (Inl (salvage w fs e), ag\<lparr>ag_driver := d, ag_fs := fs\<rparr>))"
    and spec: "driver_worker_spec sv (driver_input sv (sc_system_prompt sc) (user_message sc) (map snd (sr_operations (su_schema su)))) w (ag_fs ag) = Inr spec"
      "sv_backend sv spec (ag_driver ag) = (Inr result, dd)" "outbox_ready w (ag_fs ag) d files" "cw_outputs result = boxed files"
    using run_driver_eq [OF assms(1) sc(1)] by blast
  have p: "parse_log_events (sv_codec sv) (cw_stderr result) = Inl (TypeError ''not supported between instances'')"
    unfolding assms(2) by (rule injected_line_raises [OF assms(3-5)])
  have "run_driver su sc w ag = (Inl (TypeError ''not supported between instances''),
      ag\<lparr>ag_driver := dd, ag_fs := put_files d files (ag_fs ag)\<rparr>)"
    by (simp add: run driver_run_eq [OF spec] p salvage_def)
  from ag_collect_fails [OF sc this] show ?thesis by (simp add: sandbox_salvage_def)
qed


theorem injected_line_loses_the_cycle_witness:
  "\<exists>ag'. ag_collect (demo_cycle_setup (demo_result 0 False (demo_log @ [Other ''{xxxx}'']))) demo_cycle_sandbox =
       (Inl (TypeError ''not supported between instances''), ag') \<and>
     harvest demo_space (ag_fs ag') = Inr demo_worker_files"
proof -
  let ?r = "demo_result 0 False (demo_log @ [Other ''{xxxx}''])"
  have sv: "sv_codec (demo_driver ?r) = demo_log_codec" by (simp add: demo_driver_def)
  have err: "cw_stderr ?r = log_text (sv_codec (demo_driver ?r)) (demo_log @ Other ''{xxxx}'' # [])" unfolding sv by (simp add: demo_result_def)
  have log: "\<forall>l \<in> set (demo_log @ []). well_logged (sv_codec (demo_driver ?r)) l" "logged_turns (demo_log @ []) \<noteq> []"
    "injected (sv_codec (demo_driver ?r)) ''{xxxx}''"
    using demo_well_logged demo_injected by (simp_all add: sv) (simp add: demo_log_def)
  have "harvest demo_space (put_files demo_box demo_worker_files demo_space_files) = Inr demo_worker_files" by code_simp
  then show ?thesis
    using injected_line_loses_the_cycle [OF demo_cycle_runs err log] by (force simp: demo_cycle_sandbox_def)
qed

text \<open>C30. What a worker leaves in its outbox is in the host's: after a run that returns, the worker ended with
  status 0 and in time, and a harvest finds each of its files with its bytes, beside what was there before. The transcript
  and the telemetry are those of the log when it shows any; when it shows none, a file the agent wrote
  under the reserved name is taken for the host's record.\<close>

theorem worker_outbox_is_carried_back:
  assumes "driver_run sv prompt message ops w (dd, fs) = (Inr (), (dd', fs'))"
    "driver_worker_spec sv (driver_input sv prompt message ops) w fs = Inr spec" "sv_backend sv spec dd = (Inr result, dd1)"
    "outbox_ready w fs d files" "cw_outputs result = boxed files" "distinct (map fst files)" "distinct (map fst (fs_files fs))"
  shows "\<exists>turns telemetry got. parse_log_events (sv_codec sv) (cw_stderr result) = Inr (turns, telemetry) \<and>
    cw_exit_code result = 0 \<and> \<not> cw_timed_out result \<and> dd' = dd1 \<and> harvest w fs' = Inr got \<and>
    (\<forall>n. map_of got n =
       (if n = RESERVED_TRANSCRIPT_NAME \<and> turns \<noteq> [] then transcript_bytes (sv_codec sv) turns
        else if n = RESERVED_TELEMETRY_NAME \<and> telemetry \<noteq> None then map_option (record_bytes (sv_codec sv)) telemetry
        else case map_of files n of Some b \<Rightarrow> Some b | None \<Rightarrow> map_of (fs_files fs) (d @ [n])))"
proof -
  obtain turns telemetry where p: "parse_log_events (sv_codec sv) (cw_stderr result) = Inr (turns, telemetry)"
    using assms(1) unfolding driver_run_eq [OF assms(2-5)] by (auto split: sum.splits)
  let ?t = "transcript_bytes (sv_codec sv) turns" and ?r = "map_option (record_bytes (sv_codec sv)) telemetry"
  let ?ps = "files @ record_file RESERVED_TRANSCRIPT_NAME ?t @ record_file RESERVED_TELEMETRY_NAME ?r"
  have end_state: "cw_exit_code result = 0" "\<not> cw_timed_out result" "dd' = dd1" "fs' = put_files d ?ps fs"
    using assms(1) unfolding driver_run_eq [OF assms(2-5)] p by (auto simp: Let_def split: if_splits sum.splits)
  have ready: "outbox w = Inr d" "standing fs d" using assms(4) by (simp_all add: outbox_ready_def)
  obtain got where got: "harvest w fs' = Inr got"
    "\<forall>n. map_of got n = (case map_of (rev ?ps) n of Some b \<Rightarrow> Some b | None \<Rightarrow> map_of (fs_files fs) (d @ [n]))"
    using harvest_put_files [OF ready assms(7)] unfolding end_state(4) by blast
  have "RESERVED_TRANSCRIPT_NAME \<noteq> RESERVED_TELEMETRY_NAME" by (simp add: RESERVED_TRANSCRIPT_NAME_def RESERVED_TELEMETRY_NAME_def)
  then have "map_of got n =
       (if n = RESERVED_TRANSCRIPT_NAME \<and> turns \<noteq> [] then ?t
        else if n = RESERVED_TELEMETRY_NAME \<and> telemetry \<noteq> None then ?r
        else case map_of files n of Some b \<Rightarrow> Some b | None \<Rightarrow> map_of (fs_files fs) (d @ [n]))" for n
    using got(2) map_of_rev_distinct [OF assms(6)]
    by (cases telemetry) (auto simp: record_file_def transcript_bytes_def)
  with p end_state got(1) show ?thesis by blast
qed

theorem worker_outbox_is_carried_back_witness:
  "\<exists>fs' got. driver_run (demo_driver (demo_result 0 False [])) '''' '''' [] demo_space ((), demo_space_files) = (Inr (), ((), fs')) \<and>
     harvest demo_space fs' = Inr got \<and> map_of got RESERVED_TRANSCRIPT_NAME = Some [6, 6, 6]"
proof -
  let ?r = "demo_result 0 False []"
  obtain spec where spec: "driver_worker_spec (demo_driver ?r) (driver_input (demo_driver ?r) '''' '''' []) demo_space demo_space_files = Inr spec"
    using demo_driver_spec by blast
  have b: "sv_backend (demo_driver ?r) spec () = (Inr ?r, ())" by (simp add: demo_driver_def)
  have out: "cw_outputs ?r = boxed demo_worker_files" by (simp add: demo_result_def)
  have p: "parse_log_events (sv_codec (demo_driver ?r)) (cw_stderr ?r) = Inr ([], None)" by code_simp
  obtain fs' where run: "driver_run (demo_driver ?r) '''' '''' [] demo_space ((), demo_space_files) = (Inr (), ((), fs'))"
    using driver_run_eq [OF spec b demo_outbox_ready out] by (simp add: p) (simp add: demo_result_def Let_def)
  have "distinct (map fst demo_worker_files)" "distinct (map fst (fs_files demo_space_files))" by code_simp+
  from worker_outbox_is_carried_back [OF run spec b demo_outbox_ready out this] obtain turns telemetry got where
    g: "parse_log_events (sv_codec (demo_driver ?r)) (cw_stderr ?r) = Inr (turns, telemetry)" "harvest demo_space fs' = Inr got"
    "\<forall>n. map_of got n = (if n = RESERVED_TRANSCRIPT_NAME \<and> turns \<noteq> [] then transcript_bytes (sv_codec (demo_driver ?r)) turns
      else if n = RESERVED_TELEMETRY_NAME \<and> telemetry \<noteq> None then map_option (record_bytes (sv_codec (demo_driver ?r))) telemetry
      else case map_of demo_worker_files n of Some b \<Rightarrow> Some b | None \<Rightarrow> map_of (fs_files demo_space_files) (demo_box @ [n]))"
    by blast
  moreover have "turns = []" "telemetry = None" using g(1) p by simp_all  moreover have "map_of demo_worker_files RESERVED_TRANSCRIPT_NAME = Some [6, 6, 6]" by code_simp
  ultimately show ?thesis using run p by auto
qed

end
