(* ===== verification/Code_Runners.thy ===== *)
theory Code_Runners
  imports Sandbox_Driver Verifier
begin

text \<open>
  The two runners of \<open>verifier/code_runner.py\<close> that execute a submission in isolation: one calls
  \<open>docker run\<close> itself on directories it prepares, one hands a worker to a backend. Both are the code runner
  of the gate primitives. Starting a process is a parameter, as in the backend; permissions are not
  modelled.
\<close>

section \<open>The container runner\<close>

definition REQUIREMENTS_NAME :: string where "REQUIREMENTS_NAME = ''requirements.txt''"

record 'd container_runner =
  cr_image :: string
  cr_bin :: string
  cr_memory :: string
  cr_cpus :: string
  cr_pids :: int
  cr_tmpfs :: string
  cr_temp_dir :: path
  cr_fresh_dir :: "'d docker_world \<Rightarrow> string"
  cr_spawn :: "string list \<Rightarrow> rat \<Rightarrow> ('d docker_world, string, proc_end) st"
  cr_kill :: "string \<Rightarrow> 'd docker_world \<Rightarrow> 'd docker_world"
  cr_decode :: "bytes \<Rightarrow> string"

definition run_command :: "string \<Rightarrow> bool \<Rightarrow> string list" where
  "run_command entrypoint with_deps =
     (if \<not> with_deps then [''python'', ''/work/'' @ entrypoint]
      else [''sh'', ''-c'', ''pip install --no-cache-dir --target=/tmp/site -r /work/'' @ REQUIREMENTS_NAME @
        '' && PYTHONPATH=/tmp/site python /work/'' @ entrypoint])"

definition docker_cmd :: "'d container_runner \<Rightarrow> string \<Rightarrow> path \<Rightarrow> path \<Rightarrow> path \<Rightarrow> run_request \<Rightarrow> string list" where
  "docker_cmd cr n code_dir data_dir out_dir rq =
     [cr_bin cr, ''run'', ''--rm'', ''--name'', n] @
     (if rq_network rq then [] else [''--network=none'']) @
     [''--read-only'',
      ''--tmpfs=/tmp:rw,size='' @ cr_tmpfs cr @ '',mode=1777'' @ (if rq_requirements rq \<noteq> None then '',exec'' else ''''),
      ''--memory='' @ cr_memory cr, ''--memory-swap='' @ cr_memory cr, ''--cpus='' @ cr_cpus cr,
      ''--pids-limit='' @ int_str (cr_pids cr), ''--cap-drop=ALL'', ''--security-opt=no-new-privileges'',
      ''--user='' @ int_str WORKER_UID @ '':'' @ int_str WORKER_GID,
      ''-v'', path_str code_dir @ '':/work:ro'', ''-v'', path_str data_dir @ '':/data:ro'', ''-v'', path_str out_dir @ '':/out:rw'',
      ''-w'', ''/tmp'', ''-e'', ''PYTHONDONTWRITEBYTECODE=1'', ''-e'', ''HOME=/tmp''] @
     pairs_args ''-e'' (rq_env rq) @ [cr_image cr] @ run_command (rq_entrypoint rq) (rq_requirements rq \<noteq> None)"

text \<open>\<open>path.write_bytes\<close>: the directory it is in must exist.\<close>

definition write_file :: "path \<Rightarrow> bytes \<Rightarrow> ('d docker_world, exc, unit) st" where
  "write_file p data =
     bindE (reads (\<lambda>w. let q = normal [] p in
       if map_of (dw_fs w) (butlast q) = Some Directory then put_file q data (dw_fs w)
       else Inl (OtherError ''No such file or directory''))) (\<lambda>fs.
     modify (\<lambda>w. w\<lparr>dw_fs := fs\<rparr>))"

definition make_dir :: "path \<Rightarrow> ('d docker_world, exc, unit) st" where
  "make_dir p = modify (\<lambda>w. w\<lparr>dw_fs := dict_put p Directory (dw_fs w)\<rparr>)"

definition run_container :: "'d container_runner \<Rightarrow> string list \<Rightarrow> string \<Rightarrow> rat \<Rightarrow> ('d docker_world, exc, run_result) st" where
  "run_container cr cmd n timeout w = (case cr_spawn cr cmd timeout w of
      (Inl oserror, w') \<Rightarrow> (Inl (GateUnavailable (''could not launch the code runner ('' @ cr_bin cr @ ''): '' @ oserror)), w')
    | (Inr e, w') \<Rightarrow>
        if pe_timed_out e
        then (Inr \<lparr>rr_exit_code = -1, rr_stdout = '''', rr_stderr = '''', rr_output = None, rr_timed_out = True\<rparr>, cr_kill cr n w')
        else let (out_b, err_b) = communicate_capped (Some (pe_out e)) (Some (pe_err e)) DEFAULT_OUTPUT_CAP in
          (Inr \<lparr>rr_exit_code = (case pe_code e of Some c \<Rightarrow> c | None \<Rightarrow> -1), rr_stdout = cr_decode cr out_b,
             rr_stderr = cr_decode cr err_b, rr_output = None, rr_timed_out = False\<rparr>, w'))"

definition container_run :: "'d container_runner \<Rightarrow> 'd docker_world code_runner" where
  "container_run cr rq =
     bindE (gets (\<lambda>w. ''verity-run-'' @ cr_fresh_dir cr w)) (\<lambda>n.
     let host = cr_temp_dir cr @ [n]; code_dir = host @ [''code'']; data_dir = host @ [''data'']; out_dir = host @ [''out''] in
     bindE (make_dir host) (\<lambda>_.
     bindE (attempt
       (bindE (mapM make_dir [code_dir, data_dir, out_dir]) (\<lambda>_.
        bindE (write_file (path_join code_dir (rq_entrypoint rq)) (rq_code rq)) (\<lambda>_.
        bindE (case rq_requirements rq of Some r \<Rightarrow> write_file (path_join code_dir REQUIREMENTS_NAME) r | None \<Rightarrow> ret ()) (\<lambda>_.
        bindE (mapM (\<lambda>(i, blob). write_file (path_join data_dir i) blob) (rq_inputs rq)) (\<lambda>_.
        bindE (run_container cr (docker_cmd cr n code_dir data_dir out_dir rq) n (rq_timeout rq)) (\<lambda>result.
        bindE (gets (\<lambda>w. file_at (dw_fs w) (path_join out_dir (rq_output_name rq)))) (\<lambda>out_data.
        ret (result\<lparr>rr_output := out_data\<rparr>))))))))) (\<lambda>outcome.
     bindE (modify (\<lambda>w. w\<lparr>dw_fs := remove_tree host (dw_fs w)\<rparr>)) (\<lambda>_.
     reads (\<lambda>_. outcome)))))"

section \<open>The backend runner\<close>

record 'd backend_runner =
  br_backend :: "worker_spec \<Rightarrow> ('d, exc, completed_worker) st"
  br_image :: string
  br_memory :: string
  br_cpus :: string
  br_pids :: int
  br_tmpfs :: string
  br_runtime :: "string option"
  br_config :: string
  br_run_context :: "run_context option"

definition runner_labels :: "'d backend_runner \<Rightarrow> labels" where
  "runner_labels br = context_labels ''code-runner'' (br_config br) (br_run_context br)"

definition code_inputs :: "run_request \<Rightarrow> (string \<times> bytes) list" where
  "code_inputs rq = fold (\<lambda>(i, blob). dict_put (''/data/'' @ i) blob) (rq_inputs rq)
     (case rq_requirements rq of
        Some r \<Rightarrow> dict_put (''/work/'' @ REQUIREMENTS_NAME) r [(''/work/'' @ rq_entrypoint rq, rq_code rq)]
      | None \<Rightarrow> [(''/work/'' @ rq_entrypoint rq, rq_code rq)])"

definition code_worker_spec :: "'d backend_runner \<Rightarrow> run_request \<Rightarrow> worker_spec" where
  "code_worker_spec br rq =
     (let with_deps = rq_requirements rq \<noteq> None in
      \<lparr>ws_image = br_image br, ws_command = run_command (rq_entrypoint rq) with_deps, ws_labels = runner_labels br,
       ws_readonly = code_inputs rq, ws_writable = [''/out''], ws_globs = [''/out/'' @ rq_output_name rq], ws_env = rq_env rq,
       ws_passthrough = [], ws_network = rq_network rq,
       ws_limits = \<lparr>rl_memory = br_memory br, rl_cpus = br_cpus br, rl_pids = br_pids br\<rparr>,
       ws_scratch = \<lparr>tf_size = br_tmpfs br, tf_allow_exec = with_deps\<rparr>, ws_extra_hosts = [], ws_workdir = ''/tmp'',
       ws_runtime = br_runtime br, ws_timeout = rq_timeout rq, ws_output_cap = DEFAULT_OUTPUT_CAP, ws_service_name = None,
       ws_network_name = None, ws_docker_socket = False, ws_host_mounts = []\<rparr>)"

definition backend_run :: "'d backend_runner \<Rightarrow> 'd code_runner" where
  "backend_run br rq =
     bindE (try_catch (br_backend br (code_worker_spec br rq)) (\<lambda>e. case e of
         ProvisioningError m \<Rightarrow> raise (GateUnavailable (''could not run the submitted code: '' @ m))
       | _ \<Rightarrow> raise e)) (\<lambda>result.
     ret \<lparr>rr_exit_code = cw_exit_code result, rr_stdout = cw_stdout result, rr_stderr = cw_stderr result,
       rr_output = map_of (cw_outputs result) (''/out/'' @ rq_output_name rq), rr_timed_out = cw_timed_out result\<rparr>)"

section \<open>The worker runs as the container did\<close>

lemma docker_cmd_options:
  assumes "\<not> prefix ''-'' (cr_image cr)"
  shows "docker_options (drop 2 (docker_cmd cr n code_dir data_dir out_dir rq)) =
    ([(''--rm'', ''''), (''--name'', n)] @ (if rq_network rq then [] else [(''--network=none'', '''')]) @
     map (\<lambda>f. (f, ''''))
     [''--read-only'',
      ''--tmpfs=/tmp:rw,size='' @ cr_tmpfs cr @ '',mode=1777'' @ (if rq_requirements rq \<noteq> None then '',exec'' else ''''),
      ''--memory='' @ cr_memory cr, ''--memory-swap='' @ cr_memory cr, ''--cpus='' @ cr_cpus cr,
      ''--pids-limit='' @ int_str (cr_pids cr), ''--cap-drop=ALL'', ''--security-opt=no-new-privileges'',
      ''--user='' @ int_str WORKER_UID @ '':'' @ int_str WORKER_GID] @
     map (\<lambda>v. (''-v'', v)) [path_str code_dir @ '':/work:ro'', path_str data_dir @ '':/data:ro'', path_str out_dir @ '':/out:rw''] @
     [(''-w'', ''/tmp'')] @ map (\<lambda>v. (''-e'', v)) [''PYTHONDONTWRITEBYTECODE=1'', ''HOME=/tmp''] @
     map (\<lambda>(k, v). (''-e'', k @ ''='' @ v)) (rq_env rq),
     cr_image cr # run_command (rq_entrypoint rq) (rq_requirements rq \<noteq> None))"
proof -
  let ?fixed = "[''--read-only'',
      ''--tmpfs=/tmp:rw,size='' @ cr_tmpfs cr @ '',mode=1777'' @ (if rq_requirements rq \<noteq> None then '',exec'' else ''''),
      ''--memory='' @ cr_memory cr, ''--memory-swap='' @ cr_memory cr, ''--cpus='' @ cr_cpus cr,
      ''--pids-limit='' @ int_str (cr_pids cr), ''--cap-drop=ALL'', ''--security-opt=no-new-privileges'',
      ''--user='' @ int_str WORKER_UID @ '':'' @ int_str WORKER_GID]"
  define opts where "opts = ([''--rm''] @ [''--name'', n]) @ (if rq_network rq then [] else [''--network=none'']) @ map (\<lambda>x. x) ?fixed @
     concat (map (\<lambda>v. [''-v'', v]) [path_str code_dir @ '':/work:ro'', path_str data_dir @ '':/data:ro'', path_str out_dir @ '':/out:rw'']) @
     [''-w'', ''/tmp''] @ concat (map (\<lambda>v. [''-e'', v]) [''PYTHONDONTWRITEBYTECODE=1'', ''HOME=/tmp'']) @ pairs_args ''-e'' (rq_env rq)"
  have argv: "docker_cmd cr n code_dir data_dir out_dir rq =
      cr_bin cr # ''run'' # opts @ cr_image cr # run_command (rq_entrypoint rq) (rq_requirements rq \<noteq> None)"
    by (simp add: docker_cmd_def opts_def)
  have network: "reads_as (if rq_network rq then [] else [''--network=none'']) (if rq_network rq then [] else [(''--network=none'', '''')])"
    by (simp add: reads_as_nil reads_as_flag VALUE_FLAGS_def)
  have fixed: "prefix ''-'' x \<and> x \<notin> set VALUE_FLAGS" if "x \<in> set ?fixed" for x using that by (auto simp: VALUE_FLAGS_def)
  have rm: "prefix ''-'' ''--rm''" "''--rm'' \<notin> set VALUE_FLAGS" by (simp_all add: VALUE_FLAGS_def)
  have "reads_as opts (([(''--rm'', '''')] @ [(''--name'', n)]) @ (if rq_network rq then [] else [(''--network=none'', '''')]) @
     map (\<lambda>f. (f, '''')) ?fixed @
     map (\<lambda>v. (''-v'', v)) [path_str code_dir @ '':/work:ro'', path_str data_dir @ '':/data:ro'', path_str out_dir @ '':/out:rw''] @
     [(''-w'', ''/tmp'')] @ map (\<lambda>v. (''-e'', v)) [''PYTHONDONTWRITEBYTECODE=1'', ''HOME=/tmp''] @
     map (\<lambda>(k, v). (''-e'', k @ ''='' @ v)) (rq_env rq))"
    unfolding opts_def
    by (intro reads_as_append network reads_as_flag [OF rm] reads_as_value reads_as_values reads_as_pairs reads_as_flags value_flags)
      (use fixed in blast)+
  then show ?thesis by (simp add: argv reads_as_def docker_options_image [OF assms])
qed

definition env_args :: "(string \<times> string) list \<Rightarrow> string list" where
  "env_args options = map snd (filter (\<lambda>(f, v). f = ''-e'') options)"

text \<open>C31. Moving submissions from containers into workers kept their confinement: for every request, with
  the same settings and no runtime, docker reads the same image, command and options from both command lines, labels
  and mounts apart. Only the order of the environment differs: a variable of the request overrides
  \<open>HOME\<close> in the container, and is overridden in the worker.\<close>

theorem workers_run_as_containers:
  assumes "\<not> prefix ''-'' (br_image br)" "br_runtime br = None"
    "cr_image cr = br_image br" "cr_memory cr = br_memory br" "cr_cpus cr = br_cpus br" "cr_pids cr = br_pids br" "cr_tmpfs cr = br_tmpfs br"
  shows "\<exists>cos wos. docker_options (drop 2 (docker_cmd cr n code_dir data_dir out_dir rq)) =
      (cos, br_image br # run_command (rq_entrypoint rq) (rq_requirements rq \<noteq> None)) \<and>
    docker_options (drop 2 (build_argv docker_bin environ (code_worker_spec br rq) n mounts)) =
      (wos, br_image br # run_command (rq_entrypoint rq) (rq_requirements rq \<noteq> None)) \<and>
    {ov \<in> set cos. fst ov \<noteq> ''-v''} = {ov \<in> set wos. fst ov \<noteq> ''-v'' \<and> fst ov \<noteq> ''--label''} \<and>
    env_args cos = [''PYTHONDONTWRITEBYTECODE=1'', ''HOME=/tmp''] @ map (\<lambda>(k, v). k @ ''='' @ v) (rq_env rq) \<and>
    env_args wos = map (\<lambda>(k, v). k @ ''='' @ v) (rq_env rq) @ [''HOME=/tmp'', ''PYTHONDONTWRITEBYTECODE=1'']"
proof -
  let ?ws = "code_worker_spec br rq"
  have img: "\<not> prefix ''-'' (cr_image cr)" "\<not> prefix ''-'' (ws_image ?ws)" using assms by (simp_all add: code_worker_spec_def Let_def)
  define ms where "ms = map (\<lambda>m. (''-v'', mount_arg m)) mounts"
  define ls where "ls = map (\<lambda>(k, v). (''--label'', k @ ''='' @ v)) (labels_dict (runner_labels br))"
  define es where "es = map (\<lambda>(k, v). (''-e'', k @ ''='' @ v)) (rq_env rq)"
  define fs where "fs = map (\<lambda>f. (f, '''' :: string))
     [''--read-only'',
      ''--tmpfs=/tmp:rw,size='' @ br_tmpfs br @ '',mode=1777'' @ (if rq_requirements rq \<noteq> None then '',exec'' else ''''),
      ''--memory='' @ br_memory br, ''--memory-swap='' @ br_memory br, ''--cpus='' @ br_cpus br,
      ''--pids-limit='' @ int_str (br_pids br), ''--cap-drop=ALL'', ''--security-opt=no-new-privileges'',
      ''--user='' @ int_str WORKER_UID @ '':'' @ int_str WORKER_GID]"
  define nw where "nw = (if rq_network rq then [] else [(''--network=none'', '''' :: string)])"
  have c: "docker_options (drop 2 (docker_cmd cr n code_dir data_dir out_dir rq)) =
      ([(''--rm'', ''''), (''--name'', n)] @ nw @ fs @
       map (\<lambda>v. (''-v'', v)) [path_str code_dir @ '':/work:ro'', path_str data_dir @ '':/data:ro'', path_str out_dir @ '':/out:rw''] @
       [(''-w'', ''/tmp'')] @ map (\<lambda>v. (''-e'', v)) [''PYTHONDONTWRITEBYTECODE=1'', ''HOME=/tmp''] @ es,
       br_image br # run_command (rq_entrypoint rq) (rq_requirements rq \<noteq> None))"
    unfolding docker_cmd_options [OF img(1)] by (simp only: assms fs_def es_def nw_def)
  have w: "docker_options (drop 2 (build_argv docker_bin environ ?ws n mounts)) =
      ([(''--rm'', ''''), (''--name'', n)] @ fs @ nw @ ms @ ls @ es @
       [(''-e'', ''HOME=/tmp''), (''-e'', ''PYTHONDONTWRITEBYTECODE=1''), (''-w'', ''/tmp'')],
       br_image br # run_command (rq_entrypoint rq) (rq_requirements rq \<noteq> None))"
    unfolding build_argv_options [OF img(2)]
    by (simp add: worker_options_def code_worker_spec_def Let_def assms(2) fs_def es_def nw_def ms_def ls_def)
  have kinds: "fst ` set ms \<subseteq> {''-v''}" "fst ` set ls \<subseteq> {''--label''}" "fst ` set es \<subseteq> {''-e''}"
    "\<forall>ov \<in> set fs \<union> set nw. fst ov \<notin> {''-v'', ''--label'', ''-e''}"
    by (auto simp: ms_def ls_def es_def fs_def nw_def)
  have only: "filter (\<lambda>(f, v). f = ''-e'') ms = []" "filter (\<lambda>(f, v). f = ''-e'') ls = []" "filter (\<lambda>(f, v). f = ''-e'') es = es"
    "filter (\<lambda>(f, v). f = ''-e'') fs = []" "filter (\<lambda>(f, v). f = ''-e'') nw = []"
    by (auto simp: ms_def ls_def es_def fs_def nw_def filter_empty_conv filter_id_conv)
  have es: "map snd es = map (\<lambda>(k, v). k @ ''='' @ v) (rq_env rq)" by (simp add: es_def case_prod_unfold)
  have drop: "{ov \<in> set ms. fst ov \<noteq> ''-v'' \<and> fst ov \<noteq> ''--label''} = {}" "{ov \<in> set ls. fst ov \<noteq> ''-v'' \<and> fst ov \<noteq> ''--label''} = {}"
    "{ov \<in> set es. fst ov \<noteq> ''-v''} = set es" "{ov \<in> set es. fst ov \<noteq> ''-v'' \<and> fst ov \<noteq> ''--label''} = set es"
    "{ov \<in> set fs. fst ov \<noteq> ''-v''} = set fs" "{ov \<in> set fs. fst ov \<noteq> ''-v'' \<and> fst ov \<noteq> ''--label''} = set fs"
    "{ov \<in> set nw. fst ov \<noteq> ''-v''} = set nw" "{ov \<in> set nw. fst ov \<noteq> ''-v'' \<and> fst ov \<noteq> ''--label''} = set nw"
    by (auto simp: ms_def ls_def es_def fs_def nw_def)
  have sets: "{ov \<in> set (xs @ ys). P ov} = {ov \<in> set xs. P ov} \<union> {ov \<in> set ys. P ov}" for xs ys :: "(string \<times> string) list" and P
    by auto
  define hd_os where "hd_os = [(''--rm'', '''' :: string), (''--name'', n)]"
  define vs where "vs = map (\<lambda>v. (''-v'', v)) [path_str code_dir @ '':/work:ro'', path_str data_dir @ '':/data:ro'', path_str out_dir @ '':/out:rw'']"
  define wd where "wd = [(''-w'', ''/tmp'')]"
  define ev where "ev = map (\<lambda>v. (''-e'', v)) [''PYTHONDONTWRITEBYTECODE=1'', ''HOME=/tmp'']"
  define last_os where "last_os = [(''-e'', ''HOME=/tmp''), (''-e'', ''PYTHONDONTWRITEBYTECODE=1''), (''-w'', ''/tmp'')]"
  have rest: "{ov \<in> set hd_os. fst ov \<noteq> ''-v''} = set hd_os" "{ov \<in> set hd_os. fst ov \<noteq> ''-v'' \<and> fst ov \<noteq> ''--label''} = set hd_os"
    "{ov \<in> set vs. fst ov \<noteq> ''-v''} = {}" "{ov \<in> set wd. fst ov \<noteq> ''-v''} = set wd" "{ov \<in> set ev. fst ov \<noteq> ''-v''} = set ev"
    "{ov \<in> set last_os. fst ov \<noteq> ''-v'' \<and> fst ov \<noteq> ''--label''} = set ev \<union> set wd"
    unfolding hd_os_def vs_def wd_def ev_def last_os_def by auto
  have same: "{ov \<in> set (hd_os @ nw @ fs @ vs @ wd @ ev @ es). fst ov \<noteq> ''-v''} =
     {ov \<in> set (hd_os @ fs @ nw @ ms @ ls @ es @ last_os). fst ov \<noteq> ''-v'' \<and> fst ov \<noteq> ''--label''}"
    unfolding sets drop rest by blast
  have c': "docker_options (drop 2 (docker_cmd cr n code_dir data_dir out_dir rq)) =
      (hd_os @ nw @ fs @ vs @ wd @ ev @ es, br_image br # run_command (rq_entrypoint rq) (rq_requirements rq \<noteq> None))"
    unfolding hd_os_def vs_def wd_def ev_def by (rule c)
  have w': "docker_options (drop 2 (build_argv docker_bin environ ?ws n mounts)) =
      (hd_os @ fs @ nw @ ms @ ls @ es @ last_os, br_image br # run_command (rq_entrypoint rq) (rq_requirements rq \<noteq> None))"
    unfolding hd_os_def last_os_def by (rule w)
  have only': "filter (\<lambda>(f, v). f = ''-e'') hd_os = []" "filter (\<lambda>(f, v). f = ''-e'') vs = []" "filter (\<lambda>(f, v). f = ''-e'') wd = []"
    by (simp_all add: hd_os_def vs_def wd_def)  have envs: "env_args (xs @ ys) = env_args xs @ env_args ys" for xs ys by (simp add: env_args_def)
  have "env_args hd_os = []" "env_args nw = []" "env_args fs = []" "env_args vs = []" "env_args wd = []" "env_args ms = []" "env_args ls = []"
    "env_args ev = [''PYTHONDONTWRITEBYTECODE=1'', ''HOME=/tmp'']" "env_args last_os = [''HOME=/tmp'', ''PYTHONDONTWRITEBYTECODE=1'']"
    "env_args es = map (\<lambda>(k, v). k @ ''='' @ v) (rq_env rq)"
    by (simp_all only: env_args_def only only' es list.map) (simp_all add: ev_def last_os_def)
  note envs = envs this
  have e1: "env_args (hd_os @ nw @ fs @ vs @ wd @ ev @ es) = [''PYTHONDONTWRITEBYTECODE=1'', ''HOME=/tmp''] @ map (\<lambda>(k, v). k @ ''='' @ v) (rq_env rq)"
    by (simp only: envs append_Nil append_Nil2)
  have e2: "env_args (hd_os @ fs @ nw @ ms @ ls @ es @ last_os) = map (\<lambda>(k, v). k @ ''='' @ v) (rq_env rq) @ [''HOME=/tmp'', ''PYTHONDONTWRITEBYTECODE=1'']"
    by (simp only: envs append_Nil append_Nil2)
  from c' w' same e1 e2 show ?thesis by (intro exI conjI) assumption+qed


definition demo_container :: "'d container_runner" where
  "demo_container = \<lparr>cr_image = ''python:3.12-slim'', cr_bin = ''docker'', cr_memory = ''512m'', cr_cpus = ''1'', cr_pids = 128,
     cr_tmpfs = ''64m'', cr_temp_dir = [''tmp''], cr_fresh_dir = (\<lambda>_. ''1''), cr_spawn = (\<lambda>_ _ w. (Inl ''no docker'', w)),
     cr_kill = (\<lambda>_ w. w), cr_decode = (\<lambda>_. '''')\<rparr>"

definition demo_runner :: "unit backend_runner" where
  "demo_runner = \<lparr>br_backend = (\<lambda>_ d. (Inl (ProvisioningError ''no docker''), d)), br_image = ''python:3.12-slim'', br_memory = ''512m'',
     br_cpus = ''1'', br_pids = 128, br_tmpfs = ''64m'', br_runtime = None, br_config = '''', br_run_context = None\<rparr>"

definition demo_code_request :: run_request where
  "demo_code_request = \<lparr>rq_code = [1], rq_entrypoint = ''submission.py'', rq_inputs = [(''train.csv'', [2])], rq_output_name = ''result.json'',
     rq_timeout = 30, rq_requirements = Some [3], rq_network = True, rq_env = [(''HOME'', ''/data'')]\<rparr>"

theorem workers_run_as_containers_witness:
  "\<exists>cos wos rest. docker_options (drop 2 (docker_cmd demo_container ''n'' [''c''] [''d''] [''o''] demo_code_request)) = (cos, rest) \<and>
     docker_options (drop 2 (build_argv ''docker'' (\<lambda>_. None) (code_worker_spec demo_runner demo_code_request) ''n'' [])) = (wos, rest) \<and>
     {ov \<in> set cos. fst ov \<noteq> ''-v''} = {ov \<in> set wos. fst ov \<noteq> ''-v'' \<and> fst ov \<noteq> ''--label''} \<and>
     env_args cos = [''PYTHONDONTWRITEBYTECODE=1'', ''HOME=/tmp'', ''HOME=/data''] \<and>
     env_args wos = [''HOME=/data'', ''HOME=/tmp'', ''PYTHONDONTWRITEBYTECODE=1'']"
proof -
  have hyps: "\<not> prefix ''-'' (br_image demo_runner)" "br_runtime demo_runner = None" "cr_image demo_container = br_image demo_runner"
    "cr_memory demo_container = br_memory demo_runner" "cr_cpus demo_container = br_cpus demo_runner"
    "cr_pids demo_container = br_pids demo_runner" "cr_tmpfs demo_container = br_tmpfs demo_runner"
    by (simp_all add: demo_container_def demo_runner_def)
  have env: "map (\<lambda>(k, v). k @ ''='' @ v) (rq_env demo_code_request) = [''HOME=/data'']" by (simp add: demo_code_request_def)
  show ?thesis
    using workers_run_as_containers [OF hyps, of "''n''" "[''c'']" "[''d'']" "[''o'']" demo_code_request "''docker''" "\<lambda>_. None" "[]"]
    unfolding env unfolding append.simps by (elim exE conjE, intro exI conjI) assumption+
qed

section \<open>Nothing stays on the host\<close>

lemma remove_tree_clears: "p \<in> fst ` set (remove_tree d fs) \<Longrightarrow> \<not> prefix d p"
  by (auto simp: remove_tree_def prefix_def)

text \<open>Whatever a run ends with, the directory it was given is gone.\<close>

lemma container_run_clears:
  assumes "container_run cr rq w = (r, w')"
  shows "\<forall>p \<in> fst ` set (dw_fs w'). \<not> prefix (cr_temp_dir cr @ [''verity-run-'' @ cr_fresh_dir cr w]) p"
  using assms
  by (auto simp: container_run_def Let_def bindE_def gets_def make_dir_def modify_def reads_def attempt_def remove_tree_def prefix_def
      split: prod.splits)

lemma backend_run_unlaunched:
  "br_backend br (code_worker_spec br rq) d = (Inl (ProvisioningError m), d') \<Longrightarrow>
    backend_run br rq d = (Inl (GateUnavailable (''could not run the submitted code: '' @ m)), d')"
  by (simp add: backend_run_def bindE_def try_catch_def raise_def)

end
