(* ===== verification/Spec2Isabelle.thy ===== *)
theory Spec2Isabelle
  imports Provisioning Provenance Invariants Verifier Workspace Context Run_Report Intake Orchestration
    Control_Laws Control_Claims Intake_Claims Cycle_Claims Refine_Claims Job_Queue Wire
    Agent_Sandbox Csv_Reader Feature_Gates Plugins Task_Request Session_Frame Control_Service
    Service_Claims Kaggle_Gates Transport Worker_Backend Log_Transcript
    Sandbox_Driver Code_Runners
begin

text \<open>
  A verification development for Verity, the control plane of autonomous research agents under
  \<open>src/src/verity/\<close>. Paths below are relative to that directory.

  \<^bold>\<open>The program.\<close> A task runs in cycles. In each cycle the control plane serves a sandbox the context it
  assembled from its store, collects one proposal, records it, and asks a verifier to rule on it; the
  ruling moves the proposal along its lifecycle, and a refinement sends it back at most a fixed number of times.
  Sandbox and verifier are services behind ports, in the process or across a byte transport; both run
  untrusted code in workers of a container backend. A standing service keeps a control plane per task,
  queues runs and survives restarts.

  \<^bold>\<open>Conventions\<close> (\<open>Prelude\<close>, \<open>Model\<close>). A function that may raise returns a sum, the exception on the
  left; one that also changes state has type \<open>('s, 'e, 'a) st\<close>, and a raise keeps the changes made before it.
  Exceptions are the datatype \<open>exc\<close>, one constructor per class, with \<open>OtherError\<close> for the
  classes no handler names (the operating system's errors among them). A dictionary is an association list in insertion order,
  a \<open>str\<close> a list of characters, one per code point, \<open>bytes\<close> a list of 8-bit words, a finite float a rational
  number, a decoded JSON value the datatype \<open>json\<close>. Concurrency is the order of the operations: the
  modelled coroutines share no state between two suspensions other than the fields shown.

  \<^bold>\<open>Theories and code.\<close>
  \<^item> \<open>Lifecycle\<close>: \<open>control_plane/lifecycle.py\<close>, the table of transitions and its paths.
  \<^item> \<open>Store\<close>, \<open>Store_Laws\<close>, \<open>Store_Audit\<close>, \<open>Provenance\<close>: \<open>control_plane/store.py\<close>. The tables are lists of
    rows, a connection is the visible and the durable database with the depth of its transactions. The laws
    (locale \<open>db_invariant\<close>) say which invariants every write keeps, inside and outside transactions; the walk
    over an artifact's lineage ends and is exact.
  \<^item> \<open>Independence\<close>, \<open>Registries\<close>, \<open>Provisioning\<close>: the slice of the store a gate may see, the schema
    registries and the object provisioning policy of \<open>control_plane/independence.py\<close> and \<open>registries.py\<close>.
  \<^item> \<open>Commit\<close>, \<open>Invariants\<close>: \<open>control_plane/commit.py\<close> with every check in its order, \<open>control_plane/invariants.py\<close>
    as functions returning the violations.
  \<^item> \<open>Workspace\<close>, \<open>Context\<close>, \<open>Run_Report\<close>: \<open>control_plane/workspace.py\<close> over an explicit file system,
    the prompt of \<open>config.py\<close>, \<open>context.py\<close>, \<open>run_report.py\<close> and \<open>run_record.py\<close>.
  \<^item> \<open>Intake\<close>, \<open>Orchestration\<close>: \<open>control_plane/api.py\<close> and the task record of \<open>config.py\<close>; the session threads store, history, timer,
    sandbox and verifier. \<open>Session_Frame\<close>, \<open>Control_Laws\<close> and the theories \<open>..._Claims\<close> hold what the operations keep and
    the properties of the whole: the audit stays clean, a cycle is recorded unless its failure row cannot be inserted, a run is bounded.
  \<^item> \<open>Verifier\<close>: the pipeline of \<open>verifier/service.py\<close>, the primitives of \<open>verifier/primitives.py\<close>, the judge's replies of \<open>model_client.py\<close>;
    locale \<open>verifier_port\<close> is what the commit path relies on, interpreted on the pipeline.
  \<^item> \<open>Csv_Reader\<close>, \<open>Feature_Gates\<close>, \<open>Kaggle_Gates\<close>: the domains of \<open>domains/feature_engineering.py\<close> and
    \<open>feature_engineering_kaggle.py\<close> with their gates, caches and ledgers, and the scorer seam of \<open>verifier/kaggle.py\<close>.
  \<^item> \<open>Job_Queue\<close>: \<open>contracts/jobqueue.py\<close>, refining a fifo. \<open>Wire\<close>: \<open>contracts/wire.py\<close>, each codec in both directions.
    \<open>Transport\<close>: \<open>transport/\<close>, envelopes, servers and clients; locale \<open>peer\<close> is a service that answers in envelopes.
  \<^item> \<open>Agent_Sandbox\<close>: \<open>sandbox/core.py\<close> and \<open>descriptor.py\<close>. \<open>Log_Transcript\<close>: \<open>sandbox/log_transcript.py\<close>. \<open>Sandbox_Driver\<close>:
    \<open>sandbox/backend_driver.py\<close> and \<open>container_io.py\<close>, the driver that \<open>Agent_Sandbox\<close> takes as a field. \<open>Code_Runners\<close>:
    \<open>verifier/code_runner.py\<close>, the runners the gate primitives take as an argument.
  \<^item> \<open>Worker_Backend\<close>: \<open>provisioning/\<close> and \<open>proc.py\<close>. The host's files are nodes with symbolic links; the locale
    \<open>worker_fleet\<close> is the contract of listing and reaping by label, met by the in-memory and the docker backend.
  \<^item> \<open>Plugins\<close>, \<open>Task_Request\<close>, \<open>Control_Service\<close>, \<open>Service_Claims\<close>: the catalogs of \<open>composition/\<close> and \<open>verifier/registry.py\<close>,
    \<open>composition/task_request.py\<close> with \<open>sandbox/model_spec.py\<close>, and \<open>service/control_service.py\<close> with \<open>task_index.py\<close>.

  \<^bold>\<open>What the lemmas show.\<close> The properties, numbered C1 and on in the order of importance, stand where their components are:
  what a returning commit has written and that a raising one leaves nothing; that no sequence of calls
  rewrites history or breaks the audit; that a run is bounded and every cycle and run accounted for; that
  acceptances are earned; that what enters is what was declared and no rationale or undeclared file reaches a gate; that what crosses a
  wire, a restart or a worker's log comes back; that untrusted workers are confined. Some
  state a defect as the code has it: forged log lines, links followed out of a worker's mount,
  reaping by a foreign harness name, runs that share a record.

  \<^bold>\<open>Bounds and termination.\<close> The recursions of the model are total. The lineage walk decreases the unseen operations, the
  run loop the cycles left, following links the links left (40, the system's limit), the refine walk the unseen artifacts. The wait for
  submission budget may not end by itself; it is a partial function into options, and shown to return within the
  number of readings its deadline allows. No property rests on fuel.

  \<^bold>\<open>Parameters.\<close> Code outside the repository is an argument: the text of \<open>json.dumps\<close> and \<open>json.loads\<close>, of floats and
  of \<open>str\<close> of a JSON value, SHA-256, decoding of bytes, clocks, id sources and fresh names, the model behind a judge, the live
  scorer, the agent behind a driver, the HTTP client, and the processes docker starts. Hypotheses on them are named
  where used (a codec that reads back what it wrote on the documents at hand, a daemon that lists and removes as
  documented) and met by concrete functions in the witnesses.

  \<^bold>\<open>Not modelled.\<close> The deep-agents driver and the container's entry point (glue around LangGraph), the tools the agent gets,
  the HTTP routes, the command line, the daemon and its client, the assembly of concrete tasks under \<open>composition/\<close> and the
  launch of verifier containers, the live Kaggle client, the code and test domains, the eval harness and pricing, metrics,
  logging and retries around external calls. They hold wiring or input and output, and the state they touch is that of
  the modelled parts. The SQL text, permissions of files, asyncio scheduling inside one operation and NaN or infinite floats
  are outside the model too. Of SQLite's own errors (a full disk, a locked file) the one modelled is that of inserting
  a cycle's failure row, whose caller means to survive it; elsewhere a statement fails by its constraints only. Decoding
  a wire value of a type other than its field's raises in the model, and the patterns of collected files are those of
  names, \<open>*\<close> and \<open>?\<close>.
\<close>

end
